(* ===== verification/Xpra_Prelude.thy ===== *)
theory Xpra_Prelude
  imports Main "HOL-Library.Word" "HOL-Library.AList"
begin

text \<open>
  What the component theories share: the machine types of the program, the results of
  fallible functions, the pieces of Go's standard library the sources call (decimal
  numbers, byte and text conversion), and the lemmas about them.

  A Go \<open>byte\<close> is an 8-bit word.  Go's \<open>int\<close> and \<open>int64\<close> are both 64-bit words read
  with \<open>sint\<close> (the program is built for 64-bit targets, where the two agree), so every
  addition and multiplication of the model wraps as the compiled code does.  A Go
  \<open>string\<close> is a sequence of bytes; the model writes it as an Isabelle \<open>string\<close>, whose
  characters are bytes, so that packet names and dictionary keys read as they do in the
  code.  A function that returns \<open>(T, error)\<close> returns a sum: \<open>Inl\<close> carries the error and
  \<open>Inr\<close> the result.
\<close>

unbundle bit_operations_syntax

type_synonym byte = "8 word"
type_synonym bytes = "byte list"
type_synonym gint = "64 word"

named_theorems bytes_simps \<open>conversion between strings and byte slices\<close>

section \<open>Results\<close>

definition bind_res :: "'e + 'a \<Rightarrow> ('a \<Rightarrow> 'e + 'b) \<Rightarrow> 'e + 'b" where
  "bind_res r f = (case r of Inl e \<Rightarrow> Inl e | Inr x \<Rightarrow> f x)"

lemma bind_res_simps [simp]:
  "bind_res (Inl e) f = Inl e"
  "bind_res (Inr x) f = f x"
  by (simp_all add: bind_res_def)

lemma bind_res_eq_Inr:
  "bind_res r f = Inr y \<longleftrightarrow> (\<exists>x. r = Inr x \<and> f x = Inr y)"
  by (cases r) auto

lemma bind_res_eq_Inl:
  "bind_res r f = Inl e \<longleftrightarrow> r = Inl e \<or> (\<exists>x. r = Inr x \<and> f x = Inl e)"
  by (cases r) auto

lemma bind_res_cong [fundef_cong]:
  "r = r' \<Longrightarrow> (\<And>x. r' = Inr x \<Longrightarrow> f x = g x) \<Longrightarrow> bind_res r f = bind_res r' g"
  by (cases r') auto

definition is_ok :: "'e + 'a \<Rightarrow> bool" where
  "is_ok r = (case r of Inl _ \<Rightarrow> False | Inr _ \<Rightarrow> True)"

lemma is_ok_simps [simp]: "is_ok (Inl e) = False" "is_ok (Inr x) = True"
  by (simp_all add: is_ok_def)

lemma is_ok_iff: "is_ok r \<longleftrightarrow> (\<exists>x. r = Inr x)"
  by (cases r) auto

section \<open>Strings and byte slices\<close>

text \<open>The conversions \<open>[]byte(s)\<close> and \<open>string(b)\<close>.\<close>

definition byte_of_char :: "char \<Rightarrow> byte" where
  "byte_of_char c = word_of_nat (of_char c)"

definition char_of_byte :: "byte \<Rightarrow> char" where
  "char_of_byte b = char_of (unat b)"

definition string_bytes :: "string \<Rightarrow> bytes" where
  "string_bytes s = map byte_of_char s"

definition bytes_string :: "bytes \<Rightarrow> string" where
  "bytes_string b = map char_of_byte b"

lemma unat_byte_of_char [simp]: "unat (byte_of_char c) = of_char c"
  by (simp add: byte_of_char_def unat_of_nat)

lemma char_of_byte_of_char [simp]: "char_of_byte (byte_of_char c) = c"
  by (simp add: char_of_byte_def)

lemma byte_of_char_of_byte [simp]: "byte_of_char (char_of_byte b) = b"
proof -
  have "unat b < 256" using unsigned_less [of b] by simp
  then show ?thesis by (simp add: byte_of_char_def char_of_byte_def)
qed

lemma bytes_string_bytes [simp, bytes_simps]: "bytes_string (string_bytes s) = s"
  by (simp add: bytes_string_def string_bytes_def comp_def)

lemma string_bytes_string [simp, bytes_simps]: "string_bytes (bytes_string b) = b"
  by (simp add: bytes_string_def string_bytes_def comp_def)

lemma length_string_bytes [simp]: "length (string_bytes s) = length s"
  by (simp add: string_bytes_def)

lemma length_bytes_string [simp]: "length (bytes_string b) = length b"
  by (simp add: bytes_string_def)

lemma string_bytes_append [simp]: "string_bytes (s @ t) = string_bytes s @ string_bytes t"
  by (simp add: string_bytes_def)

lemma string_bytes_Nil [simp]: "string_bytes [] = []"
  by (simp add: string_bytes_def)

lemma bytes_string_Nil [simp]: "bytes_string [] = []"
  by (simp add: bytes_string_def)

lemma bytes_string_eq_Nil [simp]: "bytes_string b = [] \<longleftrightarrow> b = []"
  by (simp add: bytes_string_def)

lemma string_bytes_eq_Nil [simp]: "string_bytes s = [] \<longleftrightarrow> s = []"
  by (simp add: string_bytes_def)

lemma string_bytes_inject [simp]: "string_bytes s = string_bytes t \<longleftrightarrow> s = t"
  by (metis bytes_string_bytes)

lemma unat_byte_of_nat: "n < 256 \<Longrightarrow> unat (of_nat n :: byte) = n"
  by (simp add: unat_of_nat)

text \<open>Go's division truncates.\<close>

definition gdiv :: "gint \<Rightarrow> gint \<Rightarrow> gint" where
  "gdiv a b =
     (let q = \<bar>sint a\<bar> div \<bar>sint b\<bar> in word_of_int (if (sint a < 0) = (sint b < 0) then q else - q))"

section \<open>Decimal numbers\<close>

text \<open>
  \<open>decimal\<close> is the text that \<open>strconv.AppendInt\<close>, \<open>strconv.FormatInt\<close> (in base ten) and
  \<open>big.Int.Append\<close> write.  \<open>parse_decimal\<close> is what \<open>strconv.Atoi\<close> and
  \<open>big.Int.SetString(s, 10)\<close> read: an optional sign and then at least one digit, and
  nothing else; \<open>atoi\<close> also rejects a value that an \<open>int\<close> cannot hold.
\<close>

definition digit_char :: "nat \<Rightarrow> char" where
  "digit_char d = char_of (48 + d)"

definition digit_value :: "char \<Rightarrow> nat option" where
  "digit_value c = (let k = of_char c in if 48 \<le> k \<and> k \<le> 57 then Some (k - 48) else None)"

fun nat_digits :: "nat \<Rightarrow> string" where
  "nat_digits n = (if n < 10 then [digit_char n] else nat_digits (n div 10) @ [digit_char (n mod 10)])"

declare nat_digits.simps [simp del]

definition decimal :: "int \<Rightarrow> string" where
  "decimal n = (if n < 0 then CHR ''-'' # nat_digits (nat (- n)) else nat_digits (nat n))"

fun parse_digits :: "nat \<Rightarrow> string \<Rightarrow> nat option" where
  "parse_digits acc [] = Some acc"
| "parse_digits acc (c # cs) =
     (case digit_value c of None \<Rightarrow> None | Some d \<Rightarrow> parse_digits (10 * acc + d) cs)"

definition parse_unsigned :: "string \<Rightarrow> nat option" where
  "parse_unsigned s = (if s = [] then None else parse_digits 0 s)"

fun parse_decimal :: "string \<Rightarrow> int option" where
  "parse_decimal [] = None"
| "parse_decimal (c # cs) =
     (if c = CHR ''-'' then map_option (\<lambda>n. - int n) (parse_unsigned cs)
      else if c = CHR ''+'' then map_option int (parse_unsigned cs)
      else map_option int (parse_unsigned (c # cs)))"

definition int64_range :: "int \<Rightarrow> bool" where
  "int64_range n \<longleftrightarrow> - (2 ^ 63) \<le> n \<and> n < 2 ^ 63"

definition atoi :: "string \<Rightarrow> int option" where
  "atoi s = (case parse_decimal s of None \<Rightarrow> None
             | Some n \<Rightarrow> if int64_range n then Some n else None)"

lemma digit_value_digit_char [simp]: "d < 10 \<Longrightarrow> digit_value (digit_char d) = Some d"
  by (simp add: digit_value_def digit_char_def)

lemma digit_char_numerals [simp]:
  "digit_char 0 = CHR ''0''" "digit_char (Suc 0) = CHR ''1''" "digit_char 2 = CHR ''2''"
  "digit_char 3 = CHR ''3''" "digit_char 4 = CHR ''4''" "digit_char 5 = CHR ''5''"
  "digit_char 6 = CHR ''6''" "digit_char 7 = CHR ''7''" "digit_char 8 = CHR ''8''"
  "digit_char 9 = CHR ''9''"
  by code_simp+

lemma nat_digits_nonempty [simp]: "nat_digits n \<noteq> []"
  by (subst nat_digits.simps) simp

lemma parse_digits_append:
  "parse_digits acc (xs @ ys) =
     (case parse_digits acc xs of None \<Rightarrow> None | Some a \<Rightarrow> parse_digits a ys)"
  by (induction xs arbitrary: acc) (auto split: option.splits)

lemma parse_digits_nat_digits: "parse_digits 0 (nat_digits n) = Some n"
proof (induction n rule: nat_digits.induct)
  case (1 n)
  show ?case
  proof (cases "n < 10")
    case True
    then show ?thesis by (subst nat_digits.simps) simp
  next
    case False
    with 1 show ?thesis
      by (subst nat_digits.simps) (simp add: parse_digits_append)
  qed
qed

lemma digit_char_not_sign:
  assumes "d < 10"
  shows "digit_char d \<noteq> CHR ''-''" and "digit_char d \<noteq> CHR ''+''"
proof -
  have "digit_value (digit_char d) \<noteq> None" using assms by simp
  moreover have "digit_value (CHR ''-'') = None" and "digit_value (CHR ''+'') = None"
    by (simp_all add: digit_value_def)
  ultimately show "digit_char d \<noteq> CHR ''-''" and "digit_char d \<noteq> CHR ''+''"
    by metis+
qed

lemma set_nat_digits: "c \<in> set (nat_digits n) \<Longrightarrow> \<exists>d<10. c = digit_char d"
proof (induction n rule: nat_digits.induct)
  case (1 n)
  show ?case
  proof (cases "n < 10")
    case True
    with 1 show ?thesis by (subst (asm) nat_digits.simps) auto
  next
    case False
    with "1.prems" have "c \<in> set (nat_digits (n div 10)) \<or> c = digit_char (n mod 10)"
      by (subst (asm) nat_digits.simps) auto
    then show ?thesis
    proof
      assume "c \<in> set (nat_digits (n div 10))"
      with "1.IH" False show ?thesis by blast
    next
      assume "c = digit_char (n mod 10)"
      then show ?thesis by (intro exI [of _ "n mod 10"]) simp
    qed
  qed
qed

lemma parse_decimal_decimal [simp]: "parse_decimal (decimal n) = Some n"
proof (cases "n < 0")
  case True
  then show ?thesis
    by (simp add: decimal_def parse_unsigned_def parse_digits_nat_digits)
next
  case False
  obtain c cs where ds: "nat_digits (nat n) = c # cs"
    using nat_digits_nonempty by (cases "nat_digits (nat n)") auto
  then obtain d where "d < 10" "c = digit_char d"
    using set_nat_digits [of c "nat n"] by auto
  then have "c \<noteq> CHR ''-''" "c \<noteq> CHR ''+''"
    using digit_char_not_sign by auto
  moreover have "parse_unsigned (c # cs) = Some (nat n)"
    using parse_digits_nat_digits [of "nat n"] by (simp add: parse_unsigned_def ds)
  ultimately show ?thesis using False by (simp add: decimal_def ds)
qed

lemma atoi_decimal [simp]: "int64_range n \<Longrightarrow> atoi (decimal n) = Some n"
  by (simp add: atoi_def)

lemma atoi_range: "atoi s = Some n \<Longrightarrow> int64_range n"
  by (auto simp: atoi_def split: option.splits if_splits)

lemma decimal_nonempty [simp]: "decimal n \<noteq> []"
  by (simp add: decimal_def)

lemma decimal_inject: "decimal m = decimal n \<Longrightarrow> m = n"
  by (metis option.inject parse_decimal_decimal)

lemma set_decimal: "c \<in> set (decimal n) \<Longrightarrow> c = CHR ''-'' \<or> (\<exists>d<10. c = digit_char d)"
  by (auto simp: decimal_def split: if_splits dest: set_nat_digits)

lemma decimal_of_nat: "decimal (int n) = nat_digits n"
  by (simp add: decimal_def)

section \<open>Signed 64-bit values\<close>

lemma sint_int64 [simp]: "int64_range (sint (x :: gint))"
  using sint_greater_eq [of x] sint_lt [of x] by (simp add: int64_range_def)

lemma sint_of_int64: "int64_range n \<Longrightarrow> sint (word_of_int n :: gint) = n"
  by (simp add: int64_range_def signed_of_int signed_take_bit_int_eq_self)

lemma word_of_int_sint64 [simp]: "word_of_int (sint (x :: gint)) = x"
  by simp

section \<open>Big-endian words\<close>

text \<open>
  \<open>binary.BigEndian.AppendUint16\<close> and its 32 and 64-bit forms write the bytes of a word,
  most significant first; \<open>binary.BigEndian.Uint16\<close> and its kin read them back.
\<close>

definition be_bytes :: "nat \<Rightarrow> 'a::len word \<Rightarrow> bytes" where
  "be_bytes n w = map (\<lambda>i. ucast (drop_bit (8 * i) w)) (rev [0..<n])"

definition be_word :: "bytes \<Rightarrow> 'a::len word" where
  "be_word bs = foldl (\<lambda>acc b. push_bit 8 acc OR ucast b) 0 bs"

lemma length_be_bytes [simp]: "length (be_bytes n w) = n"
  by (simp add: be_bytes_def)

lemma be_bytes_0 [simp]: "be_bytes 0 w = []"
  by (simp add: be_bytes_def)

lemma be_bytes_Suc: "be_bytes (Suc n) w = ucast (drop_bit (8 * n) w) # be_bytes n w"
  by (simp add: be_bytes_def)

lemma foldl_be_bytes:
  fixes w acc :: "'a::len word"
  shows "foldl (\<lambda>acc b. push_bit 8 acc OR ucast b) acc (be_bytes n w) =
     push_bit (8 * n) acc OR take_bit (8 * n) w"
proof (induction n arbitrary: acc)
  case 0
  show ?case by simp
next
  case (Suc n)
  have "foldl (\<lambda>acc b. push_bit 8 acc OR ucast b) acc (be_bytes (Suc n) w)
      = push_bit (8 * n) (push_bit 8 acc OR ucast (ucast (drop_bit (8 * n) w) :: byte))
          OR take_bit (8 * n) w"
    by (simp add: be_bytes_Suc Suc.IH)
  also have "\<dots> = push_bit (8 * Suc n) acc OR take_bit (8 * Suc n) w"
    by (rule bit_word_eqI) (auto simp: bit_simps not_less ac_simps)
  finally show ?case .
qed

lemma be_word_be_bytes:
  fixes w :: "'a::len word"
  assumes "LENGTH('a) = 8 * n"
  shows "be_word (be_bytes n w) = w"
  using assms by (simp add: be_word_def foldl_be_bytes take_bit_word_eq_self)

section \<open>Arithmetic on \<open>int\<close>\<close>

lemma sint_nonneg_unat:
  fixes w :: gint
  assumes "0 \<le> sint w"
  shows "sint w = int (unat w)"
proof -
  have "uint w = sint w"
    using assms sint_lt [of w] by (simp add: uint_sint take_bit_int_eq_self)
  then show ?thesis by simp
qed

text \<open>Without overflow, the operations of the machine are those of the integers.\<close>

lemma sint_arith:
  fixes a b :: gint
  shows sint_plus: "int64_range (sint a + sint b) \<Longrightarrow> sint (a + b) = sint a + sint b"
    and sint_minus: "int64_range (sint a - sint b) \<Longrightarrow> sint (a - b) = sint a - sint b"
    and sint_times: "int64_range (sint a * sint b) \<Longrightarrow> sint (a * b) = sint a * sint b"
  by (simp_all add: int64_range_def sint_word_add sint_word_diff sint_word_mult
      signed_take_bit_int_eq_self)

lemma sint_nat_arith:
  fixes a b :: gint
  assumes "sint a = int m" "sint b = int n"
  shows sint_plus_nat: "m + n < 2 ^ 63 \<Longrightarrow> sint (a + b) = int (m + n)"
    and sint_times_nat: "m * n < 2 ^ 63 \<Longrightarrow> sint (a * b) = int (m * n)"
  using sint_plus [of a b] sint_times [of a b] assms
  by (simp_all add: int64_range_def flip: of_nat_add of_nat_mult)

lemma sint_of_nat: "n < 2 ^ 63 \<Longrightarrow> sint (of_nat n :: gint) = int n"
  using sint_of_int64 [of "int n"] by (simp add: int64_range_def)

section \<open>Slices\<close>

text \<open>The read \<open>data[i]\<close> of a slice, \<open>None\<close> where Go would panic.\<close>

definition byte_at :: "'a list \<Rightarrow> nat \<Rightarrow> 'a option" where
  "byte_at xs i = (if i < length xs then Some (xs ! i) else None)"

lemma byte_at_append [simp]: "byte_at (xs @ y # ys) (length xs) = Some y"
  by (simp add: byte_at_def)

lemma byte_at_drop: "byte_at xs i = (case drop i xs of [] \<Rightarrow> None | y # _ \<Rightarrow> Some y)"
  by (cases "i < length xs") (auto simp: byte_at_def Cons_nth_drop_Suc [symmetric])

text \<open>The slice \<open>data[i : i + n]\<close>.\<close>

definition subslice :: "nat \<Rightarrow> nat \<Rightarrow> 'a list \<Rightarrow> 'a list" where
  "subslice i n xs = take n (drop i xs)"

lemma subslice_append [simp]:
  "length ys = n \<Longrightarrow> subslice (length xs) n (xs @ ys @ zs) = ys"
  by (simp add: subslice_def)

lemma length_subslice: "i + n \<le> length xs \<Longrightarrow> length (subslice i n xs) = n"
  by (simp add: subslice_def)

end
