(* ===== verification/Rencode_Value.thy ===== *)
theory Rencode_Value
  imports Xpra_Prelude "HOL-Library.List_Lexorder" "HOL-Library.Char_ord"
begin

text \<open>
  The data that travels in packets (package \<open>rencodeplus\<close>): the dynamic values the
  encoder accepts and the decoder produces, the ordered \<open>Dict\<close> with its \<open>Set\<close>, and the
  type tags of the wire format.
\<close>

section \<open>Type tags\<close>

definition chrFloat64 :: byte where "chrFloat64 = 44"
definition chrList :: byte where "chrList = 59"
definition chrDict :: byte where "chrDict = 60"
definition chrInt :: byte where "chrInt = 61"
definition chrInt1 :: byte where "chrInt1 = 62"
definition chrInt2 :: byte where "chrInt2 = 63"
definition chrInt4 :: byte where "chrInt4 = 64"
definition chrInt8 :: byte where "chrInt8 = 65"
definition chrFloat32 :: byte where "chrFloat32 = 66"
definition chrTrue :: byte where "chrTrue = 67"
definition chrFalse :: byte where "chrFalse = 68"
definition chrNone :: byte where "chrNone = 69"
definition chrTerm :: byte where "chrTerm = 127"

definition intPosFixedStart :: nat where "intPosFixedStart = 0"
definition intPosFixedCount :: nat where "intPosFixedCount = 44"
definition intNegFixedStart :: nat where "intNegFixedStart = 70"
definition intNegFixedCount :: nat where "intNegFixedCount = 32"
definition dictFixedStart :: nat where "dictFixedStart = 102"
definition dictFixedCount :: nat where "dictFixedCount = 25"
definition strFixedStart :: nat where "strFixedStart = 128"
definition strFixedCount :: nat where "strFixedCount = 64"
definition listFixedStart :: nat where "listFixedStart = strFixedStart + strFixedCount"
definition listFixedCount :: nat where "listFixedCount = 64"

definition sepText :: byte where "sepText = 58"
definition sepBinary :: byte where "sepBinary = 47"

lemmas tag_defs =
  chrFloat64_def chrList_def chrDict_def chrInt_def chrInt1_def chrInt2_def chrInt4_def
  chrInt8_def chrFloat32_def chrTrue_def chrFalse_def chrNone_def chrTerm_def
  sepText_def sepBinary_def

lemmas range_defs =
  intPosFixedStart_def intPosFixedCount_def intNegFixedStart_def intNegFixedCount_def
  dictFixedStart_def dictFixedCount_def strFixedStart_def strFixedCount_def
  listFixedStart_def listFixedCount_def

section \<open>Dynamic values\<close>

text \<open>
  A value of Go's \<open>any\<close>, with one constructor per dynamic type that the encoder, the
  decoder or a packet accessor tells apart; \<open>GOther\<close> is a value of any further type.
  \<open>GFloat32\<close> and \<open>GFloat64\<close> hold the IEEE-754 bit pattern.  A Go map has no order: \<open>GMap\<close>
  and \<open>GIntMap\<close> list the entries of one, with distinct keys (\<open>go_value\<close> below says so),
  in an order that carries no meaning.  \<open>GDict\<close> is the package's ordered \<open>Dict\<close>.
\<close>

datatype any =
    GNil
  | GBool bool
  | GString string
  | GBytes bytes
  | GInt gint
  | GInt8 "8 word"
  | GInt16 "16 word"
  | GInt32 "32 word"
  | GInt64 gint
  | GUint8 "8 word"
  | GUint16 "16 word"
  | GUint32 "32 word"
  | GUint "64 word"
  | GUint64 "64 word"
  | GBigInt int
  | GBigPtr "int option"
  | GFloat32 "32 word"
  | GFloat64 "64 word"
  | GList "any list"
  | GStrings "string list"
  | GInts "gint list"
  | GDict "(string \<times> any) list"
  | GMap "(string \<times> any) list"
  | GIntMap "(gint \<times> any) list"
  | GOther string

type_synonym dict = "(string \<times> any) list"

text \<open>\<open>Dict.Set\<close>: replace the value of a key in place, or append a new entry.\<close>

fun Dict_Set :: "dict \<Rightarrow> string \<Rightarrow> any \<Rightarrow> dict" where
  "Dict_Set [] key v = [(key, v)]"
| "Dict_Set ((k, old) # d) key v =
     (if k = key then (k, v) # d else (k, old) # Dict_Set d key v)"

lemma Dict_Set_update: "Dict_Set d k v = AList.update k v d"
  by (induction d k v rule: Dict_Set.induct) auto

lemma map_of_Dict_Set [simp]: "map_of (Dict_Set d k v) = (map_of d)(k \<mapsto> v)"
  by (simp add: Dict_Set_update update_conv')

lemma distinct_Dict_Set: "distinct (map fst d) \<Longrightarrow> distinct (map fst (Dict_Set d k v))"
  by (simp add: Dict_Set_update distinct_update)

lemma keys_Dict_Set:
  "map fst (Dict_Set d k v) = (if k \<in> set (map fst d) then map fst d else map fst d @ [k])"
  by (induction d k v rule: Dict_Set.induct) auto

lemma set_Dict_Set: "p \<in> set (Dict_Set d k v) \<Longrightarrow> p = (k, v) \<or> p \<in> set d"
  by (induction d k v rule: Dict_Set.induct) (auto split: if_splits)

lemma Dict_Set_new: "k \<notin> set (map fst d) \<Longrightarrow> Dict_Set d k v = d @ [(k, v)]"
  by (induction d k v rule: Dict_Set.induct) auto

text \<open>Storing a sequence of entries into a Go map one by one.\<close>

definition dict_of :: "dict \<Rightarrow> dict" where
  "dict_of kvs = foldl (\<lambda>d (k, v). Dict_Set d k v) [] kvs"

lemma foldl_Dict_Set_distinct:
  "distinct (map fst (d @ kvs)) \<Longrightarrow> foldl (\<lambda>d (k, v). Dict_Set d k v) d kvs = d @ kvs"
proof (induction kvs arbitrary: d)
  case Nil
  show ?case by simp
next
  case (Cons kv kvs)
  obtain k v where kv: "kv = (k, v)" by (cases kv)
  with Cons.prems have "Dict_Set d k v = d @ [(k, v)]"
    by (intro Dict_Set_new) auto
  with Cons.IH [of "d @ [(k, v)]"] Cons.prems kv show ?case by simp
qed

lemma dict_of_distinct [simp]: "distinct (map fst kvs) \<Longrightarrow> dict_of kvs = kvs"
  using foldl_Dict_Set_distinct [of "[]" kvs] by (simp add: dict_of_def)

lemma distinct_dict_of: "distinct (map fst (dict_of kvs))"
proof -
  have "distinct (map fst d) \<Longrightarrow> distinct (map fst (foldl (\<lambda>d (k, v). Dict_Set d k v) d kvs))" for d
    by (induction kvs arbitrary: d) (auto simp: distinct_Dict_Set)
  from this [of "[]"] show ?thesis by (simp add: dict_of_def)
qed

section \<open>Sizes\<close>

lemma size_snd_GDict: "p \<in> set kvs \<Longrightarrow> size (snd p) < size (GDict kvs)"
  by (induction kvs) (auto simp: less_Suc_eq_le size_prod_def split: prod.splits)

lemma size_snd_GMap: "p \<in> set kvs \<Longrightarrow> size (snd p) < size (GMap kvs)"
  by (induction kvs) (auto simp: less_Suc_eq_le size_prod_def split: prod.splits)

lemma size_snd_GIntMap: "p \<in> set kvs \<Longrightarrow> size (snd p) < size (GIntMap kvs)"
  by (induction kvs) (auto simp: less_Suc_eq_le size_prod_def split: prod.splits)

lemma size_GList: "x \<in> set xs \<Longrightarrow> size x < size (GList xs)"
  by (induction xs) auto

lemmas size_any = size_snd_GDict size_snd_GMap size_snd_GIntMap size_GList

end
