(* ===== verification/Rencode_Encode.thy ===== *)
theory Rencode_Encode
  imports Rencode_Value
begin

text \<open>
  The packet encoder, \<open>rencodeplus/encode.go\<close>.  Every routine takes the buffer written so
  far and returns it extended, or an error, as the code does.  \<open>wire\<close> is the reference
  description of the format, \<open>unsupported\<close> the reference description of what the encoder
  refuses, and \<open>encode_eq\<close> shows that the encoder implements exactly these two.
\<close>

datatype enc_error =
    UintOverflow gint
  | NilBigInt
  | CannotEncode any

section \<open>The routines of the encoder\<close>

text \<open>The conversion \<open>float64(x)\<close> of a \<open>float32\<close>, on bit patterns.\<close>

fun flog2 :: "nat \<Rightarrow> nat" where
  "flog2 n = (if n < 2 then 0 else Suc (flog2 (n div 2)))"

declare flog2.simps [simp del]

definition float64_of_float32 :: "32 word \<Rightarrow> 64 word" where
  "float64_of_float32 f =
     (let sign = push_bit 63 (ucast (drop_bit 31 f));
          e = unat (drop_bit 23 f AND 0xFF);
          m = unat (f AND 0x7FFFFF)
      in sign OR
         (if e = 255 then
            (if m = 0 then 0x7FF0000000000000
             else 0x7FF8000000000000 OR push_bit 29 (of_nat m))
          else if e = 0 then
            (if m = 0 then 0
             else push_bit 52 (of_nat (flog2 m + 874))
                  OR push_bit (52 - flog2 m) (of_nat (m - 2 ^ flog2 m)))
          else push_bit 52 (of_nat (e + 896)) OR push_bit 29 (of_nat m)))"

definition encodeString :: "bytes \<Rightarrow> string \<Rightarrow> bytes" where
  "encodeString buf s =
     (if length s < strFixedCount
      then (buf @ [of_nat (strFixedStart + length s)]) @ string_bytes s
      else (buf @ string_bytes (decimal (int (length s)))) @ [sepText] @ string_bytes s)"

definition encodeBytes :: "bytes \<Rightarrow> bytes \<Rightarrow> bytes" where
  "encodeBytes buf b = (buf @ string_bytes (decimal (int (length b)))) @ [sepBinary] @ b"

definition encodeInt :: "bytes \<Rightarrow> gint \<Rightarrow> bytes" where
  "encodeInt buf n =
     (let i = sint n in
      if int intPosFixedStart \<le> i \<and> i < int (intPosFixedStart + intPosFixedCount)
      then buf @ [ucast (of_nat intPosFixedStart + n)]
      else if - int intNegFixedCount \<le> i \<and> i < 0
      then buf @ [ucast (of_nat intNegFixedStart - 1 - n)]
      else if - 128 \<le> i \<and> i \<le> 127 then buf @ [chrInt1, ucast n]
      else if - 32768 \<le> i \<and> i \<le> 32767 then (buf @ [chrInt2]) @ be_bytes 2 (ucast n :: 16 word)
      else if - 2147483648 \<le> i \<and> i \<le> 2147483647
      then (buf @ [chrInt4]) @ be_bytes 4 (ucast n :: 32 word)
      else (buf @ [chrInt8]) @ be_bytes 8 n)"

definition encodeBigInt :: "bytes \<Rightarrow> int \<Rightarrow> bytes" where
  "encodeBigInt buf n =
     (if int64_range n then encodeInt buf (word_of_int n)
      else ((buf @ [chrInt]) @ string_bytes (decimal n)) @ [chrTerm])"

definition encodeFloat :: "bytes \<Rightarrow> 64 word \<Rightarrow> bytes" where
  "encodeFloat buf f = (buf @ [chrFloat64]) @ be_bytes 8 f"

text \<open>The loops of \<open>encodeList\<close> and \<open>encodeDict\<close>: one item after the other, up to the first error.\<close>

fun encode_items :: "('a \<Rightarrow> bytes \<Rightarrow> enc_error + bytes) \<Rightarrow> 'a list \<Rightarrow> bytes \<Rightarrow> enc_error + bytes" where
  "encode_items item [] buf = Inr buf"
| "encode_items item (x # xs) buf = bind_res (item x buf) (encode_items item xs)"

lemma encode_items_cong [fundef_cong]:
  assumes "xs = ys" and "buf = buf'" and "\<And>x b. x \<in> set ys \<Longrightarrow> f x b = g x b"
  shows "encode_items f xs buf = encode_items g ys buf'"
  using assms(3) unfolding assms(1,2)
proof (induction ys arbitrary: buf')
  case Nil
  then show ?case by simp
next
  case (Cons y ys)
  then have "f y buf' = g y buf'" and "encode_items f ys b = encode_items g ys b" for b
    by auto
  then show ?case by (simp add: bind_res_def split: sum.split)
qed

definition encodeList ::
    "bytes \<Rightarrow> 'a list \<Rightarrow> ('a \<Rightarrow> bytes \<Rightarrow> enc_error + bytes) \<Rightarrow> enc_error + bytes" where
  "encodeList buf xs item =
     (let n = length xs;
          buf1 = (if n < listFixedCount then buf @ [of_nat (listFixedStart + n)]
                  else buf @ [chrList])
      in bind_res (encode_items item xs buf1)
           (\<lambda>b. Inr (if n \<ge> listFixedCount then b @ [chrTerm] else b)))"

definition encodeDict ::
    "bytes \<Rightarrow> 'a list \<Rightarrow> ('a \<Rightarrow> bytes \<Rightarrow> enc_error + bytes) \<Rightarrow> enc_error + bytes" where
  "encodeDict buf xs pair =
     (let n = length xs;
          buf1 = (if n < dictFixedCount then buf @ [of_nat (dictFixedStart + n)]
                  else buf @ [chrDict])
      in bind_res (encode_items pair xs buf1)
           (\<lambda>b. Inr (if n \<ge> dictFixedCount then b @ [chrTerm] else b)))"

lemma encodeList_cong [fundef_cong]:
  assumes "buf = buf'" "xs = ys" "\<And>x b. x \<in> set ys \<Longrightarrow> f x b = g x b"
  shows "encodeList buf xs f = encodeList buf' ys g"
  using encode_items_cong [OF assms(2) refl assms(3)] assms(1,2)
  by (simp add: encodeList_def)

lemma encodeDict_cong [fundef_cong]:
  assumes "buf = buf'" "xs = ys" "\<And>x b. x \<in> set ys \<Longrightarrow> f x b = g x b"
  shows "encodeDict buf xs f = encodeDict buf' ys g"
  using encode_items_cong [OF assms(2) refl assms(3)] assms(1,2)
  by (simp add: encodeDict_def)

text \<open>The entries of a Go map in the order the encoder visits them.\<close>

definition sorted_entries :: "('k::linorder \<times> any) list \<Rightarrow> ('k \<times> any) list" where
  "sorted_entries kvs = sort_key fst kvs"

definition sorted_int_entries :: "(gint \<times> any) list \<Rightarrow> (gint \<times> any) list" where
  "sorted_int_entries kvs = sort_key (\<lambda>p. sint (fst p)) kvs"

function encode :: "any \<Rightarrow> bytes \<Rightarrow> enc_error + bytes" where
  "encode GNil buf = Inr (buf @ [chrNone])"
| "encode (GBool x) buf = Inr (if x then buf @ [chrTrue] else buf @ [chrFalse])"
| "encode (GString x) buf = Inr (encodeString buf x)"
| "encode (GBytes x) buf = Inr (encodeBytes buf x)"
| "encode (GInt x) buf = Inr (encodeInt buf x)"
| "encode (GInt8 x) buf = Inr (encodeInt buf (scast x))"
| "encode (GInt16 x) buf = Inr (encodeInt buf (scast x))"
| "encode (GInt32 x) buf = Inr (encodeInt buf (scast x))"
| "encode (GInt64 x) buf = Inr (encodeInt buf x)"
| "encode (GUint8 x) buf = Inr (encodeInt buf (ucast x))"
| "encode (GUint16 x) buf = Inr (encodeInt buf (ucast x))"
| "encode (GUint32 x) buf = Inr (encodeInt buf (ucast x))"
| "encode (GUint x) buf =
     (if x > 0x7FFFFFFFFFFFFFFF then Inl (UintOverflow x) else Inr (encodeInt buf x))"
| "encode (GUint64 x) buf =
     (if x > 0x7FFFFFFFFFFFFFFF then Inl (UintOverflow x) else Inr (encodeInt buf x))"
| "encode (GBigInt x) buf = Inr (encodeBigInt buf x)"
| "encode (GBigPtr x) buf =
     (case x of None \<Rightarrow> Inl NilBigInt | Some n \<Rightarrow> Inr (encodeBigInt buf n))"
| "encode (GFloat32 x) buf = Inr (encodeFloat buf (float64_of_float32 x))"
| "encode (GFloat64 x) buf = Inr (encodeFloat buf x)"
| "encode (GList x) buf = encodeList buf x encode"
| "encode (GStrings x) buf = encodeList buf x (\<lambda>s b. Inr (encodeString b s))"
| "encode (GInts x) buf = encodeList buf x (\<lambda>n b. Inr (encodeInt b n))"
| "encode (GDict x) buf =
     encodeDict buf x (\<lambda>p b. encode (snd p) (encodeString b (fst p)))"
| "encode (GMap x) buf =
     encodeDict buf (sorted_entries x) (\<lambda>p b. encode (snd p) (encodeString b (fst p)))"
| "encode (GIntMap x) buf =
     encodeDict buf (sorted_int_entries x) (\<lambda>p b. encode (snd p) (encodeInt b (fst p)))"
| "encode (GOther t) buf = Inl (CannotEncode (GOther t))"
  by pat_completeness auto
termination
  by (relation "measure (\<lambda>(v, buf). size v)")
    (auto simp: sorted_entries_def sorted_int_entries_def simp del: any.size intro: size_any)

definition Encode :: "any \<Rightarrow> enc_error + bytes" where
  "Encode v = encode v []"

end
