(* ===== verification/Rencode_Spec.thy ===== *)
theory Rencode_Spec
  imports Rencode_Encode
begin

text \<open>
  What the packet encoder promises, stated without buffers and error plumbing: \<open>wire v\<close> is
  the byte sequence that stands for a value, and \<open>first_error v\<close> the error that a value
  without one is refused with.  \<open>encode_eq\<close> shows that \<open>encode\<close> implements both.
\<close>

section \<open>The wire form\<close>

abbreviation wire_string :: "string \<Rightarrow> bytes" where "wire_string \<equiv> encodeString []"
abbreviation wire_int :: "gint \<Rightarrow> bytes" where "wire_int \<equiv> encodeInt []"
abbreviation wire_bytes :: "bytes \<Rightarrow> bytes" where "wire_bytes \<equiv> encodeBytes []"
abbreviation wire_bigint :: "int \<Rightarrow> bytes" where "wire_bigint \<equiv> encodeBigInt []"
abbreviation wire_float :: "64 word \<Rightarrow> bytes" where "wire_float \<equiv> encodeFloat []"

definition list_wire :: "nat \<Rightarrow> bytes \<Rightarrow> bytes" where
  "list_wire n body =
     (if n < listFixedCount then of_nat (listFixedStart + n) # body
      else chrList # body @ [chrTerm])"

definition dict_wire :: "nat \<Rightarrow> bytes \<Rightarrow> bytes" where
  "dict_wire n body =
     (if n < dictFixedCount then of_nat (dictFixedStart + n) # body
      else chrDict # body @ [chrTerm])"

function wire :: "any \<Rightarrow> bytes" where
  "wire GNil = [chrNone]"
| "wire (GBool x) = [if x then chrTrue else chrFalse]"
| "wire (GString x) = wire_string x"
| "wire (GBytes x) = wire_bytes x"
| "wire (GInt x) = wire_int x"
| "wire (GInt8 x) = wire_int (scast x)"
| "wire (GInt16 x) = wire_int (scast x)"
| "wire (GInt32 x) = wire_int (scast x)"
| "wire (GInt64 x) = wire_int x"
| "wire (GUint8 x) = wire_int (ucast x)"
| "wire (GUint16 x) = wire_int (ucast x)"
| "wire (GUint32 x) = wire_int (ucast x)"
| "wire (GUint x) = wire_int x"
| "wire (GUint64 x) = wire_int x"
| "wire (GBigInt x) = wire_bigint x"
| "wire (GBigPtr x) = (case x of None \<Rightarrow> [] | Some n \<Rightarrow> wire_bigint n)"
| "wire (GFloat32 x) = wire_float (float64_of_float32 x)"
| "wire (GFloat64 x) = wire_float x"
| "wire (GList xs) = list_wire (length xs) (concat (map wire xs))"
| "wire (GStrings xs) = list_wire (length xs) (concat (map wire_string xs))"
| "wire (GInts xs) = list_wire (length xs) (concat (map wire_int xs))"
| "wire (GDict kvs) =
     dict_wire (length kvs) (concat (map (\<lambda>p. wire_string (fst p) @ wire (snd p)) kvs))"
| "wire (GMap kvs) =
     dict_wire (length kvs)
       (concat (map (\<lambda>p. wire_string (fst p) @ wire (snd p)) (sorted_entries kvs)))"
| "wire (GIntMap kvs) =
     dict_wire (length kvs)
       (concat (map (\<lambda>p. wire_int (fst p) @ wire (snd p)) (sorted_int_entries kvs)))"
| "wire (GOther t) = []"
  by pat_completeness auto
termination
  by (relation "measure size")
    (auto simp: sorted_entries_def sorted_int_entries_def simp del: any.size intro: size_any)

fun first_some :: "('a \<Rightarrow> 'e option) \<Rightarrow> 'a list \<Rightarrow> 'e option" where
  "first_some f [] = None"
| "first_some f (x # xs) = (case f x of Some e \<Rightarrow> Some e | None \<Rightarrow> first_some f xs)"

lemma first_some_cong [fundef_cong]:
  "xs = ys \<Longrightarrow> (\<And>x. x \<in> set ys \<Longrightarrow> f x = g x) \<Longrightarrow> first_some f xs = first_some g ys"
  by (induction ys arbitrary: xs) (auto split: option.splits)

lemma first_some_None: "first_some f xs = None \<longleftrightarrow> (\<forall>x\<in>set xs. f x = None)"
  by (induction xs) (auto split: option.splits)

function first_error :: "any \<Rightarrow> enc_error option" where
  "first_error (GUint x) = (if x > 0x7FFFFFFFFFFFFFFF then Some (UintOverflow x) else None)"
| "first_error (GUint64 x) = (if x > 0x7FFFFFFFFFFFFFFF then Some (UintOverflow x) else None)"
| "first_error (GBigPtr x) = (if x = None then Some NilBigInt else None)"
| "first_error (GList xs) = first_some first_error xs"
| "first_error (GDict kvs) = first_some (\<lambda>p. first_error (snd p)) kvs"
| "first_error (GMap kvs) = first_some (\<lambda>p. first_error (snd p)) (sorted_entries kvs)"
| "first_error (GIntMap kvs) = first_some (\<lambda>p. first_error (snd p)) (sorted_int_entries kvs)"
| "first_error (GOther t) = Some (CannotEncode (GOther t))"
| "first_error GNil = None"
| "first_error (GBool b) = None"
| "first_error (GString s) = None"
| "first_error (GBytes b) = None"
| "first_error (GInt i) = None"
| "first_error (GInt8 i8) = None"
| "first_error (GInt16 i16) = None"
| "first_error (GInt32 i32) = None"
| "first_error (GInt64 i64) = None"
| "first_error (GUint8 u8) = None"
| "first_error (GUint16 u16) = None"
| "first_error (GUint32 u32) = None"
| "first_error (GBigInt n) = None"
| "first_error (GFloat32 f) = None"
| "first_error (GFloat64 f) = None"
| "first_error (GStrings ss) = None"
| "first_error (GInts is) = None"
  by pat_completeness auto
termination
  by (relation "measure size")
    (auto simp: sorted_entries_def sorted_int_entries_def simp del: any.size intro: size_any)

abbreviation encodable :: "any \<Rightarrow> bool" where
  "encodable v \<equiv> first_error v = None"

section \<open>The encoder implements the wire form\<close>

lemma encodeString_append: "encodeString buf s = buf @ wire_string s"
  by (simp add: encodeString_def)

lemma encodeBytes_append: "encodeBytes buf b = buf @ wire_bytes b"
  by (simp add: encodeBytes_def)

lemma encodeInt_append: "encodeInt buf n = buf @ wire_int n"
  by (simp add: encodeInt_def Let_def)

lemma encodeBigInt_append: "encodeBigInt buf n = buf @ wire_bigint n"
  using encodeInt_append [of buf "word_of_int n"] by (simp add: encodeBigInt_def)

lemma encodeFloat_append: "encodeFloat buf f = buf @ wire_float f"
  by (simp add: encodeFloat_def)

lemmas buffer_append =
  encodeString_append encodeBytes_append encodeInt_append encodeBigInt_append
  encodeFloat_append

text \<open>What a loop over items writes, from what each item writes.\<close>

definition result_of :: "enc_error option \<Rightarrow> bytes \<Rightarrow> bytes \<Rightarrow> enc_error + bytes" where
  "result_of e buf w = (case e of Some err \<Rightarrow> Inl err | None \<Rightarrow> Inr (buf @ w))"

lemma result_of_simps [simp]:
  "result_of None buf w = Inr (buf @ w)"
  "result_of (Some e) buf w = Inl e"
  by (simp_all add: result_of_def)

lemma encode_items_eq:
  assumes "\<And>x b. x \<in> set xs \<Longrightarrow> item x b = result_of (err x) b (w x)"
  shows "encode_items item xs buf = result_of (first_some err xs) buf (concat (map w xs))"
  using assms
proof (induction xs arbitrary: buf)
  case Nil
  show ?case by simp
next
  case (Cons x xs)
  then show ?case by (cases "err x") (auto simp: result_of_def split: option.split)
qed

lemma encodeList_eq:
  assumes "\<And>x b. x \<in> set xs \<Longrightarrow> item x b = result_of (err x) b (w x)"
  shows "encodeList buf xs item =
    result_of (first_some err xs) buf (list_wire (length xs) (concat (map w xs)))"
  using assms
  by (cases "first_some err xs")
    (simp_all add: encodeList_def list_wire_def encode_items_eq [of xs item err w] Let_def)

lemma encodeDict_eq:
  assumes "\<And>x b. x \<in> set xs \<Longrightarrow> pair x b = result_of (err x) b (w x)"
  shows "encodeDict buf xs pair =
    result_of (first_some err xs) buf (dict_wire (length xs) (concat (map w xs)))"
  using assms
  by (cases "first_some err xs")
    (simp_all add: encodeDict_def dict_wire_def encode_items_eq [of xs pair err w] Let_def)

lemma result_of_shift: "result_of e (buf @ u) w = result_of e buf (u @ w)"
  by (simp add: result_of_def split: option.split)

lemma first_some_const_None [simp]: "first_some (\<lambda>x. None) xs = None"
  by (simp add: first_some_None)

lemma length_sorted_entries [simp]: "length (sorted_entries kvs) = length kvs"
  by (simp add: sorted_entries_def)

lemma length_sorted_int_entries [simp]: "length (sorted_int_entries kvs) = length kvs"
  by (simp add: sorted_int_entries_def)

lemma set_sorted_entries [simp]: "set (sorted_entries kvs) = set kvs"
  by (simp add: sorted_entries_def)

lemma set_sorted_int_entries [simp]: "set (sorted_int_entries kvs) = set kvs"
  by (simp add: sorted_int_entries_def)

lemma encode_eq: "encode v buf = result_of (first_error v) buf (wire v)"
proof (induction v buf rule: encode.induct)
  case (19 x buf)
  show ?case
    using encodeList_eq [where item = encode and err = first_error and w = wire, OF "19"]
    by simp
next
  case (20 x buf)
  show ?case
    using encodeList_eq [where xs = x and item = "\<lambda>s b. Inr (encodeString b s)"
      and err = "\<lambda>_. None" and w = wire_string]
    by (simp add: encodeString_append [symmetric])
next
  case (21 x buf)
  show ?case
    using encodeList_eq [where xs = x and item = "\<lambda>n b. Inr (encodeInt b n)"
      and err = "\<lambda>_. None" and w = wire_int]
    by (simp add: encodeInt_append [symmetric])
next
  case (22 x buf)
  have "encode (snd p) (encodeString b (fst p)) =
      result_of (first_error (snd p)) b (wire_string (fst p) @ wire (snd p))"
    if "p \<in> set x" for p b
    using "22" [OF that, of b] by (simp add: encodeString_append [of b "fst p"] result_of_shift)
  from encodeDict_eq [of "x" _ "\<lambda>p. first_error (snd p)"
      "\<lambda>p. wire_string (fst p) @ wire (snd p)", OF this]
  show ?case by simp
next
  case (23 x buf)
  have "encode (snd p) (encodeString b (fst p)) =
      result_of (first_error (snd p)) b (wire_string (fst p) @ wire (snd p))"
    if "p \<in> set (sorted_entries x)" for p b
    using "23" [OF that, of b] by (simp add: encodeString_append [of b "fst p"] result_of_shift)
  from encodeDict_eq [of "sorted_entries x" _ "\<lambda>p. first_error (snd p)"
      "\<lambda>p. wire_string (fst p) @ wire (snd p)", OF this]
  show ?case by simp
next
  case (24 x buf)
  have "encode (snd p) (encodeInt b (fst p)) =
      result_of (first_error (snd p)) b (wire_int (fst p) @ wire (snd p))"
    if "p \<in> set (sorted_int_entries x)" for p b
    using "24" [OF that, of b] by (simp add: encodeInt_append [of b "fst p"] result_of_shift)
  from encodeDict_eq [of "sorted_int_entries x" _ "\<lambda>p. first_error (snd p)"
      "\<lambda>p. wire_int (fst p) @ wire (snd p)", OF this]
  show ?case by simp
qed (auto simp: buffer_append [symmetric] split: option.split)

lemma Encode_eq: "Encode v = result_of (first_error v) [] (wire v)"
  by (simp add: Encode_def encode_eq)

lemma Encode_ok_iff: "is_ok (Encode v) \<longleftrightarrow> encodable v"
  by (cases "first_error v") (simp_all add: Encode_eq)

lemma Encode_wire: "encodable v \<Longrightarrow> Encode v = Inr (wire v)"
  by (simp add: Encode_eq)

lemma Encode_InrD: "Encode v = Inr b \<Longrightarrow> encodable v \<and> b = wire v"
  by (cases "first_error v") (auto simp: Encode_eq)

end
