(* ===== verification/Rencode_Decode.thy ===== *)
theory Rencode_Decode
  imports Rencode_Encode
begin

text \<open>
  The packet decoder, \<open>rencodeplus/decode.go\<close>.  The \<open>decoder\<close> struct holds the input and
  a read position; here the input is an argument that never changes and the position is
  passed to every routine and returned with its result.

  Container nesting is bounded by \<open>maxDepth\<close>, which is what makes \<open>decode_value\<close>
  terminate.  The loops of \<open>list\<close> and \<open>dict\<close> carry a fuel argument; \<open>decode_not_stuck\<close>
  shows that the fuel given to them, one more than the length of the input, is never used
  up, because each turn of a loop reads at least one byte.
\<close>

datatype dec_error =
    Truncated
  | TooDeep
  | InvalidTag byte nat
  | BadLength nat
  | InvalidBignum string
  | BadDictKey any
  | Trailing nat
  | Stuck

type_synonym 'a dec = "dec_error + ('a \<times> nat)"

definition maxDepth :: nat where "maxDepth = 64"

section \<open>Reading bytes\<close>

definition next_bytes :: "bytes \<Rightarrow> nat \<Rightarrow> int \<Rightarrow> bytes dec" where
  "next_bytes data pos n =
     (if n < 0 \<or> int (length data) - int pos < n then Inl Truncated
      else Inr (subslice pos (nat n) data, pos + nat n))"

text \<open>The scanning loop of \<open>sized\<close> and \<open>bigInt\<close>: advance to the first byte that stops it.\<close>

function scan_to :: "(byte \<Rightarrow> bool) \<Rightarrow> bytes \<Rightarrow> nat \<Rightarrow> nat" where
  "scan_to stop data pos =
     (if pos < length data \<and> \<not> stop (data ! pos) then scan_to stop data (Suc pos) else pos)"
  by pat_completeness auto
termination
  by (relation "measure (\<lambda>(stop, data, pos). length data - pos)") auto

declare scan_to.simps [simp del]

definition decode_sized :: "bytes \<Rightarrow> nat \<Rightarrow> any dec" where
  "decode_sized data start =
     (let pos = scan_to (\<lambda>b. b = sepText \<or> b = sepBinary) data start in
      if pos \<ge> length data then Inl Truncated
      else case atoi (bytes_string (subslice start (pos - start) data)) of
          None \<Rightarrow> Inl (BadLength start)
        | Some n \<Rightarrow>
            bind_res (next_bytes data (Suc pos) n)
              (\<lambda>(b, pos'). Inr (if data ! pos = sepBinary then GBytes b
                                else GString (bytes_string b), pos')))"

definition decode_bigInt :: "bytes \<Rightarrow> nat \<Rightarrow> any dec" where
  "decode_bigInt data start =
     (let pos = scan_to (\<lambda>b. b = chrTerm) data start in
      if pos \<ge> length data then Inl Truncated
      else
        let s = bytes_string (subslice start (pos - start) data) in
        case parse_decimal s of
          None \<Rightarrow> Inl (InvalidBignum s)
        | Some n \<Rightarrow>
            Inr (if int64_range n then GInt64 (word_of_int n) else GBigPtr (Some n), Suc pos))"

section \<open>Containers\<close>

fun decode_list ::
    "nat \<Rightarrow> (nat \<Rightarrow> any dec) \<Rightarrow> bytes \<Rightarrow> nat \<Rightarrow> bool \<Rightarrow> nat \<Rightarrow> any list \<Rightarrow> nat \<Rightarrow> any list dec" where
  "decode_list 0 item data n terminated i out pos = Inl Stuck"
| "decode_list (Suc fuel) item data n terminated i out pos =
     (if \<not> (terminated \<or> i < n) then Inr (out, pos)
      else if terminated \<and> pos \<ge> length data then Inl Truncated
      else if terminated \<and> data ! pos = chrTerm then Inr (out, Suc pos)
      else bind_res (item pos)
             (\<lambda>(v, pos'). decode_list fuel item data n terminated (Suc i) (out @ [v]) pos'))"

text \<open>Dictionary keys arrive as text, as binary or as numbers and are stored as strings.\<close>

definition dict_key :: "any \<Rightarrow> string option" where
  "dict_key k = (case k of
      GString s \<Rightarrow> Some s
    | GBytes b \<Rightarrow> Some (bytes_string b)
    | GInt64 n \<Rightarrow> Some (decimal (sint n))
    | _ \<Rightarrow> None)"

fun decode_dict ::
    "nat \<Rightarrow> (nat \<Rightarrow> any dec) \<Rightarrow> bytes \<Rightarrow> nat \<Rightarrow> bool \<Rightarrow> nat \<Rightarrow> dict \<Rightarrow> nat \<Rightarrow> dict dec" where
  "decode_dict 0 item data n terminated i out pos = Inl Stuck"
| "decode_dict (Suc fuel) item data n terminated i out pos =
     (if \<not> (terminated \<or> i < n) then Inr (out, pos)
      else if terminated \<and> pos \<ge> length data then Inl Truncated
      else if terminated \<and> data ! pos = chrTerm then Inr (out, Suc pos)
      else bind_res (item pos)
             (\<lambda>(k, pos1). bind_res (item pos1)
               (\<lambda>(v, pos2). case dict_key k of
                    None \<Rightarrow> Inl (BadDictKey k)
                  | Some key \<Rightarrow>
                      decode_dict fuel item data n terminated (Suc i) (Dict_Set out key v) pos2)))"

section \<open>Values\<close>

text \<open>The cases of the second switch of \<open>value\<close>: the tags without a fixed range.\<close>

definition decode_tagged :: "bytes \<Rightarrow> byte \<Rightarrow> nat \<Rightarrow> any dec option" where
  "decode_tagged data tag pos =
     (if tag = chrNone then Some (Inr (GNil, pos))
      else if tag = chrTrue then Some (Inr (GBool True, pos))
      else if tag = chrFalse then Some (Inr (GBool False, pos))
      else if tag = chrInt1 then
        Some (bind_res (next_bytes data pos 1)
          (\<lambda>(b, pos'). Inr (GInt64 (scast (b ! 0)), pos')))
      else if tag = chrInt2 then
        Some (bind_res (next_bytes data pos 2)
          (\<lambda>(b, pos'). Inr (GInt64 (scast (be_word b :: 16 word)), pos')))
      else if tag = chrInt4 then
        Some (bind_res (next_bytes data pos 4)
          (\<lambda>(b, pos'). Inr (GInt64 (scast (be_word b :: 32 word)), pos')))
      else if tag = chrInt8 then
        Some (bind_res (next_bytes data pos 8)
          (\<lambda>(b, pos'). Inr (GInt64 (be_word b), pos')))
      else if tag = chrInt then Some (decode_bigInt data pos)
      else if tag = chrFloat32 then
        Some (bind_res (next_bytes data pos 4)
          (\<lambda>(b, pos'). Inr (GFloat64 (float64_of_float32 (be_word b)), pos')))
      else if tag = chrFloat64 then
        Some (bind_res (next_bytes data pos 8)
          (\<lambda>(b, pos'). Inr (GFloat64 (be_word b), pos')))
      else None)"

function decode_value :: "bytes \<Rightarrow> nat \<Rightarrow> nat \<Rightarrow> any dec" where
  "decode_value data depth pos =
     (if depth > maxDepth then Inl TooDeep
      else if pos \<ge> length data then Inl Truncated
      else
        let tag = data ! pos; t = unat tag; p = Suc pos;
            fuel = Suc (length data);
            item = (\<lambda>q. decode_value data (Suc depth) q);
            list = (\<lambda>n terminated. bind_res (decode_list fuel item data n terminated 0 [] p)
                      (\<lambda>(xs, q). Inr (GList xs, q)));
            dict = (\<lambda>n terminated. bind_res (decode_dict fuel item data n terminated 0 [] p)
                      (\<lambda>(kvs, q). Inr (GMap kvs, q)))
        in
        if t < intPosFixedStart + intPosFixedCount then Inr (GInt64 (ucast tag), p)
        else if intNegFixedStart \<le> t \<and> t < intNegFixedStart + intNegFixedCount then
          Inr (GInt64 (- ucast (tag - of_nat intNegFixedStart) - 1), p)
        else if strFixedStart \<le> t \<and> t < strFixedStart + strFixedCount then
          bind_res (next_bytes data p (int (t - strFixedStart)))
            (\<lambda>(b, q). Inr (GString (bytes_string b), q))
        else if listFixedStart \<le> t then list (t - listFixedStart) False
        else if dictFixedStart \<le> t \<and> t < dictFixedStart + dictFixedCount then
          dict (t - dictFixedStart) False
        else if 48 \<le> t \<and> t \<le> 57 then decode_sized data pos
        else case decode_tagged data tag p of
            Some r \<Rightarrow> r
          | None \<Rightarrow>
              if tag = chrList then list 0 True
              else if tag = chrDict then dict 0 True
              else Inl (InvalidTag tag pos))"
  by pat_completeness auto
termination
  by (relation "measure (\<lambda>(data, depth, pos). Suc maxDepth - depth)") auto

declare decode_value.simps [simp del]

definition Decode :: "bytes \<Rightarrow> dec_error + any" where
  "Decode data =
     bind_res (decode_value data 0 0)
       (\<lambda>(v, pos). if pos \<noteq> length data then Inl (Trailing (length data - pos)) else Inr v)"

end
