(* ===== verification/Rencode_Roundtrip.thy ===== *)
theory Rencode_Roundtrip
  imports Rencode_Spec Rencode_Decode
begin

text \<open>
  The decoder inverts the encoder.  \<open>received v\<close> is the value the peer sees when \<open>v\<close> is
  sent: integers of every width become \<open>int64\<close>, floats \<open>float64\<close>, typed slices \<open>[]any\<close>,
  and dictionaries string-keyed maps.
\<close>

section \<open>What a sent value becomes\<close>

function received :: "any \<Rightarrow> any" where
  "received (GInt x) = GInt64 x"
| "received (GInt8 x) = GInt64 (scast x)"
| "received (GInt16 x) = GInt64 (scast x)"
| "received (GInt32 x) = GInt64 (scast x)"
| "received (GUint8 x) = GInt64 (ucast x)"
| "received (GUint16 x) = GInt64 (ucast x)"
| "received (GUint32 x) = GInt64 (ucast x)"
| "received (GUint x) = GInt64 x"
| "received (GUint64 x) = GInt64 x"
| "received (GBigInt n) =
     (if int64_range n then GInt64 (word_of_int n) else GBigPtr (Some n))"
| "received (GBigPtr p) =
     (case p of None \<Rightarrow> GBigPtr None
      | Some n \<Rightarrow> if int64_range n then GInt64 (word_of_int n) else GBigPtr (Some n))"
| "received (GFloat32 f) = GFloat64 (float64_of_float32 f)"
| "received (GList xs) = GList (map received xs)"
| "received (GStrings ss) = GList (map GString ss)"
| "received (GInts is) = GList (map GInt64 is)"
| "received (GDict kvs) = GMap (dict_of (map (\<lambda>p. (fst p, received (snd p))) kvs))"
| "received (GMap kvs) =
     GMap (dict_of (map (\<lambda>p. (fst p, received (snd p))) (sorted_entries kvs)))"
| "received (GIntMap kvs) =
     GMap (dict_of (map (\<lambda>p. (decimal (sint (fst p)), received (snd p)))
       (sorted_int_entries kvs)))"
| "received GNil = GNil"
| "received (GBool b) = GBool b"
| "received (GString s) = GString s"
| "received (GBytes bs) = GBytes bs"
| "received (GInt64 i) = GInt64 i"
| "received (GFloat64 f) = GFloat64 f"
| "received (GOther t) = GOther t"
  by pat_completeness auto
termination
  by (relation "measure size")
    (auto simp: sorted_entries_def sorted_int_entries_def simp del: any.size intro: size_any)

text \<open>How many containers are nested below a value, counting one for a dictionary's keys.\<close>

definition deepest :: "('a \<Rightarrow> nat) \<Rightarrow> 'a list \<Rightarrow> nat" where
  "deepest f xs = foldr (\<lambda>x m. max (Suc (f x)) m) xs 0"

lemma deepest_cong [fundef_cong]:
  "xs = ys \<Longrightarrow> (\<And>x. x \<in> set ys \<Longrightarrow> f x = g x) \<Longrightarrow> deepest f xs = deepest g ys"
  unfolding deepest_def by (rule foldr_cong) auto

lemma deepest_ge: "x \<in> set xs \<Longrightarrow> Suc (f x) \<le> deepest f xs"
  by (induction xs) (auto simp: deepest_def)

fun nesting :: "any \<Rightarrow> nat" where
  "nesting (GList xs) = deepest nesting xs"
| "nesting (GStrings ss) = deepest (\<lambda>_. 0) ss"
| "nesting (GInts is) = deepest (\<lambda>_. 0) is"
| "nesting (GDict kvs) = deepest (\<lambda>(k, v). nesting v) kvs"
| "nesting (GMap kvs) = deepest (\<lambda>(k, v). nesting v) kvs"
| "nesting (GIntMap kvs) = deepest (\<lambda>(k, v). nesting v) kvs"
| "nesting v = 0"

text \<open>
  What holds of every value in a running program: the length of a slice or string is an
  \<open>int\<close>, and the keys of a map differ.
\<close>

fun go_value :: "any \<Rightarrow> bool" where
  "go_value (GString s) \<longleftrightarrow> int64_range (int (length s))"
| "go_value (GBytes b) \<longleftrightarrow> int64_range (int (length b))"
| "go_value (GList xs) \<longleftrightarrow> (\<forall>x\<in>set xs. go_value x)"
| "go_value (GStrings ss) \<longleftrightarrow> (\<forall>s\<in>set ss. int64_range (int (length s)))"
| "go_value (GDict kvs) \<longleftrightarrow> (\<forall>(k, v)\<in>set kvs. int64_range (int (length k)) \<and> go_value v)"
| "go_value (GMap kvs) \<longleftrightarrow> distinct (map fst kvs) \<and>
     (\<forall>(k, v)\<in>set kvs. int64_range (int (length k)) \<and> go_value v)"
| "go_value (GIntMap kvs) \<longleftrightarrow> distinct (map fst kvs) \<and> (\<forall>(k, v)\<in>set kvs. go_value v)"
| "go_value v \<longleftrightarrow> True"

section \<open>Reading a known run of bytes\<close>

definition reads :: "bytes \<Rightarrow> nat \<Rightarrow> bytes \<Rightarrow> bool" where
  "reads data pos bs \<longleftrightarrow> (\<exists>rest. drop pos data = bs @ rest)"

lemma reads_Nil [simp]: "reads data pos []"
  by (simp add: reads_def)

lemma reads_Cons:
  "reads data pos (b # bs) \<longleftrightarrow> pos < length data \<and> data ! pos = b \<and> reads data (Suc pos) bs"
proof (cases "pos < length data")
  case True
  then have "drop pos data = data ! pos # drop (Suc pos) data"
    by (simp add: Cons_nth_drop_Suc)
  with True show ?thesis by (simp add: reads_def)
next
  case False
  then show ?thesis by (simp add: reads_def)
qed

lemma reads_append:
  "reads data pos (xs @ ys) \<longleftrightarrow> reads data pos xs \<and> reads data (pos + length xs) ys"
  by (induction xs arbitrary: pos) (auto simp: reads_Cons)

lemma reads_length: "reads data pos bs \<Longrightarrow> bs \<noteq> [] \<Longrightarrow> pos + length bs \<le> length data"
proof -
  assume "reads data pos bs" and "bs \<noteq> []"
  then have "pos < length data"
    by (cases bs) (auto simp: reads_Cons)
  from \<open>reads data pos bs\<close> obtain rest where "drop pos data = bs @ rest"
    by (auto simp: reads_def)
  then have "length data - pos = length bs + length rest"
    by (metis length_append length_drop)
  with \<open>pos < length data\<close> show ?thesis by linarith
qed

lemma reads_subslice: "reads data pos bs \<Longrightarrow> subslice pos (length bs) data = bs"
  by (auto simp: reads_def subslice_def)

lemma reads_next_bytes:
  assumes "reads data pos bs" and "pos \<le> length data"
  shows "next_bytes data pos (int (length bs)) = Inr (bs, pos + length bs)"
proof -
  have "pos + length bs \<le> length data"
    using assms reads_length [of data pos bs] by (cases "bs = []") auto
  then show ?thesis
    using reads_subslice [OF assms(1)] by (simp add: next_bytes_def)
qed

lemma reads_scan_to:
  assumes "reads data pos (bs @ [b])" and "\<forall>x\<in>set bs. \<not> stop x" and "stop b"
  shows "scan_to stop data pos = pos + length bs"
  using assms
proof (induction bs arbitrary: pos)
  case Nil
  then show ?case by (subst scan_to.simps) (simp add: reads_Cons)
next
  case (Cons x bs)
  then have "scan_to stop data (Suc pos) = Suc pos + length bs"
    by (simp add: reads_Cons)
  with Cons.prems show ?case
    by (subst scan_to.simps) (simp add: reads_Cons)
qed

section \<open>Scalars\<close>

text \<open>\<open>decodes v w\<close>: wherever the bytes \<open>w\<close> stand, \<open>item\<close> reads them as the value \<open>v\<close>.\<close>

definition item_reads :: "(nat \<Rightarrow> any dec) \<Rightarrow> bytes \<Rightarrow> bytes \<Rightarrow> any \<Rightarrow> bool" where
  "item_reads item data w v \<longleftrightarrow>
     (\<forall>pos. reads data pos w \<longrightarrow> item pos = Inr (v, pos + length w))"

lemma digit_bytes:
  assumes "b \<in> set (string_bytes (nat_digits n))"
  shows "48 \<le> unat b" and "unat b \<le> 57"
proof -
  from assms obtain c where "c \<in> set (nat_digits n)" and b: "b = byte_of_char c"
    by (auto simp: string_bytes_def)
  then obtain d where "d < 10" and "c = digit_char d"
    using set_nat_digits by blast
  then have "unat b = 48 + d" by (simp add: b digit_char_def)
  with \<open>d < 10\<close> show "48 \<le> unat b" and "unat b \<le> 57" by simp_all
qed

lemma wire_int_simps:
  "0 \<le> sint n \<Longrightarrow> sint n < 44 \<Longrightarrow> wire_int n = [ucast n]"
  "-32 \<le> sint n \<Longrightarrow> sint n < 0 \<Longrightarrow> wire_int n = [ucast (69 - n)]"
  "-128 \<le> sint n \<Longrightarrow> sint n \<le> 127 \<Longrightarrow> \<not> (-32 \<le> sint n \<and> sint n < 44) \<Longrightarrow>
     wire_int n = [chrInt1, ucast n]"
  "-32768 \<le> sint n \<Longrightarrow> sint n \<le> 32767 \<Longrightarrow> \<not> (-128 \<le> sint n \<and> sint n \<le> 127) \<Longrightarrow>
     wire_int n = chrInt2 # be_bytes 2 (ucast n :: 16 word)"
  "-2147483648 \<le> sint n \<Longrightarrow> sint n \<le> 2147483647 \<Longrightarrow>
     \<not> (-32768 \<le> sint n \<and> sint n \<le> 32767) \<Longrightarrow>
     wire_int n = chrInt4 # be_bytes 4 (ucast n :: 32 word)"
  "\<not> (-2147483648 \<le> sint n \<and> sint n \<le> 2147483647) \<Longrightarrow>
     wire_int n = chrInt8 # be_bytes 8 n"
  by (auto simp: encodeInt_def Let_def range_defs)

lemma wire_int_cases:
  obtains (pos) "0 \<le> sint n" "sint n < 44" "wire_int n = [ucast n]"
  | (neg) "-32 \<le> sint n" "sint n < 0" "wire_int n = [ucast (69 - n)]"
  | (int1) "wire_int n = [chrInt1, ucast n]" "-128 \<le> sint n" "sint n \<le> 127"
  | (int2) "wire_int n = chrInt2 # be_bytes 2 (ucast n :: 16 word)"
      "-32768 \<le> sint n" "sint n \<le> 32767"
  | (int4) "wire_int n = chrInt4 # be_bytes 4 (ucast n :: 32 word)"
      "-2147483648 \<le> sint n" "sint n \<le> 2147483647"
  | (int8) "wire_int n = chrInt8 # be_bytes 8 n"
proof -
  consider "0 \<le> sint n \<and> sint n < 44" | "-32 \<le> sint n \<and> sint n < 0"
    | "-128 \<le> sint n \<and> sint n \<le> 127 \<and> \<not> (-32 \<le> sint n \<and> sint n < 44)"
    | "-32768 \<le> sint n \<and> sint n \<le> 32767 \<and> \<not> (-128 \<le> sint n \<and> sint n \<le> 127)"
    | "-2147483648 \<le> sint n \<and> sint n \<le> 2147483647 \<and> \<not> (-32768 \<le> sint n \<and> sint n \<le> 32767)"
    | "\<not> (-2147483648 \<le> sint n \<and> sint n \<le> 2147483647)"
    by linarith
  then show ?thesis
  proof cases
    case 1
    then show ?thesis by (intro pos wire_int_simps) auto
  next
    case 2
    then show ?thesis by (intro neg wire_int_simps) auto
  next
    case 3
    then show ?thesis by (intro int1 wire_int_simps) auto
  next
    case 4
    then show ?thesis by (intro int2 wire_int_simps) auto
  next
    case 5
    then show ?thesis by (intro int4 wire_int_simps) auto
  next
    case 6
    then show ?thesis by (intro int8 wire_int_simps) auto
  qed
qed

text \<open>Narrowing a value that fits and widening it again gives it back.\<close>

lemma ucast_word_of_int:
  assumes "LENGTH('b::len) \<le> LENGTH('a::len)"
  shows "(ucast (word_of_int i :: 'a word) :: 'b word) = word_of_int i"
  using assms by (intro bit_word_eqI) (auto simp: bit_ucast_iff bit_word_of_int_iff)

lemma scast_ucast_id:
  fixes n :: gint
  assumes len: "LENGTH('b::len) \<le> 64"
    and lo: "- (2 ^ (LENGTH('b) - 1)) \<le> sint n" and hi: "sint n < 2 ^ (LENGTH('b) - 1)"
  shows "scast (ucast n :: 'b word) = n"
proof -
  define i where "i = sint n"
  have n: "n = word_of_int i" by (simp add: i_def)
  have u: "(ucast n :: 'b word) = word_of_int i"
    using len ucast_word_of_int [where 'a = 64 and 'b = 'b, of i] by (simp only: n) simp
  have "sint (word_of_int i :: 'b word) = i"
    using lo hi by (simp add: signed_of_int signed_take_bit_int_eq_self i_def [symmetric])
  then have "scast (word_of_int i :: 'b word) = (word_of_int i :: gint)"
    by (simp only: scast_eq)
  with u show ?thesis by (simp only: n [symmetric])
qed

lemma unat_byte_of_int: "0 \<le> i \<Longrightarrow> i < 256 \<Longrightarrow> unat (word_of_int i :: byte) = nat i"
  by (simp add: unsigned_of_int take_bit_int_eq_self nat_take_bit_eq [symmetric])

lemma ucast_byte_of_int:
  assumes "0 \<le> i" and "i < 256"
  shows "(ucast (word_of_int i :: byte) :: gint) = word_of_int i"
  using assms by (simp add: ucast_eq unsigned_of_int take_bit_int_eq_self)

lemma pos_tag:
  fixes n :: gint
  assumes "0 \<le> sint n" and "sint n < 44"
  shows "unat (ucast n :: byte) < 44" and "(ucast (ucast n :: byte) :: gint) = n"
proof -
  define i where "i = sint n"
  have n: "n = word_of_int i" and i: "0 \<le> i" "i < 256" "i < 44"
    using assms by (simp_all add: i_def)
  have b: "(ucast n :: byte) = word_of_int i"
    unfolding n by (rule ucast_word_of_int) simp
  show "unat (ucast n :: byte) < 44"
    using i by (simp only: b unat_byte_of_int)
  show "(ucast (ucast n :: byte) :: gint) = n"
    unfolding b ucast_byte_of_int [OF i(1,2)] by (rule n [symmetric])
qed

lemma neg_tag:
  fixes n :: gint
  assumes "-32 \<le> sint n" and "sint n < 0"
  defines "t \<equiv> ucast (69 - n) :: byte"
  shows "70 \<le> unat t" and "unat t < 102" and "- ucast (t - 70) - 1 = n"
proof -
  define i where "i = sint n"
  have n: "n = word_of_int i" and i: "-32 \<le> i" "i < 0"
    using assms(1,2) by (simp_all add: i_def)
  have "69 - n = word_of_int (69 - i)"
    by (simp add: n)
  then have t: "t = word_of_int (69 - i)"
    by (simp only: t_def) (rule ucast_word_of_int, simp)
  have ut: "unat t = nat (69 - i)"
    unfolding t using i by (intro unat_byte_of_int) auto
  show "70 \<le> unat t" and "unat t < 102"
    using i by (simp_all add: ut)
  have "t - 70 = word_of_int (- 1 - i)"
    by (simp add: t)
  moreover have "(ucast (word_of_int (- 1 - i) :: byte) :: gint) = word_of_int (- 1 - i)"
    using i by (intro ucast_byte_of_int) auto
  ultimately show "- ucast (t - 70) - 1 = n"
    by (simp only: n) simp
qed

text \<open>The first switch of \<open>value\<close>, one range of tags at a time.\<close>

lemma decode_value_tag:
  assumes "depth \<le> maxDepth" and "pos < length data" and "data ! pos = tag"
  shows
    "unat tag < 44 \<Longrightarrow> decode_value data depth pos = Inr (GInt64 (ucast tag), Suc pos)"
    "70 \<le> unat tag \<Longrightarrow> unat tag < 102 \<Longrightarrow>
       decode_value data depth pos = Inr (GInt64 (- ucast (tag - 70) - 1), Suc pos)"
    "128 \<le> unat tag \<Longrightarrow> unat tag < 192 \<Longrightarrow>
       decode_value data depth pos = bind_res (next_bytes data (Suc pos) (int (unat tag - 128)))
         (\<lambda>(b, q). Inr (GString (bytes_string b), q))"
    "192 \<le> unat tag \<Longrightarrow>
       decode_value data depth pos =
         bind_res (decode_list (Suc (length data)) (decode_value data (Suc depth)) data
           (unat tag - 192) False 0 [] (Suc pos)) (\<lambda>(xs, q). Inr (GList xs, q))"
    "102 \<le> unat tag \<Longrightarrow> unat tag < 127 \<Longrightarrow>
       decode_value data depth pos =
         bind_res (decode_dict (Suc (length data)) (decode_value data (Suc depth)) data
           (unat tag - 102) False 0 [] (Suc pos)) (\<lambda>(kvs, q). Inr (GMap kvs, q))"
    "48 \<le> unat tag \<Longrightarrow> unat tag \<le> 57 \<Longrightarrow>
       decode_value data depth pos = decode_sized data pos"
    "tag = chrList \<Longrightarrow>
       decode_value data depth pos =
         bind_res (decode_list (Suc (length data)) (decode_value data (Suc depth)) data
           0 True 0 [] (Suc pos)) (\<lambda>(xs, q). Inr (GList xs, q))"
    "tag = chrDict \<Longrightarrow>
       decode_value data depth pos =
         bind_res (decode_dict (Suc (length data)) (decode_value data (Suc depth)) data
           0 True 0 [] (Suc pos)) (\<lambda>(kvs, q). Inr (GMap kvs, q))"
  using assms
  by (subst decode_value.simps, simp add: Let_def range_defs decode_tagged_def tag_defs)+

lemma decode_value_tagged:
  assumes "depth \<le> maxDepth" and "pos < length data" and "data ! pos = tag"
    and "decode_tagged data tag (Suc pos) = Some r"
  shows "decode_value data depth pos = r"
proof -
  have "tag \<in> {chrNone, chrTrue, chrFalse, chrInt1, chrInt2, chrInt4, chrInt8, chrInt,
      chrFloat32, chrFloat64}"
    using assms(4) by (auto simp: decode_tagged_def split: if_splits)
  then have "44 \<le> unat tag \<and> unat tag < 48 \<or> 57 < unat tag \<and> unat tag < 70"
    by (auto simp: tag_defs)
  then show ?thesis
    using assms by (subst decode_value.simps) (elim disjE; simp add: Let_def range_defs)
qed

lemma item_readsI:
  "(\<And>pos. reads data pos w \<Longrightarrow> item pos = Inr (v, pos + length w)) \<Longrightarrow> item_reads item data w v"
  by (simp add: item_reads_def)

lemma item_readsD:
  "item_reads item data w v \<Longrightarrow> reads data pos w \<Longrightarrow> item pos = Inr (v, pos + length w)"
  by (simp add: item_reads_def)

text \<open>A tag followed by a payload of fixed width.\<close>

lemma tagged_payload_reads:
  assumes depth: "depth \<le> maxDepth"
    and tagged: "\<And>pos. decode_tagged data tag pos =
      Some (bind_res (next_bytes data pos (int (length bs))) (\<lambda>(b, q). Inr (f b, q)))"
  shows "item_reads (decode_value data depth) data (tag # bs) (f bs)"
proof (rule item_readsI)
  fix pos
  assume "reads data pos (tag # bs)"
  then have pos: "pos < length data" "data ! pos = tag" and bs: "reads data (Suc pos) bs"
    by (simp_all add: reads_Cons)
  show "decode_value data depth pos = Inr (f bs, pos + length (tag # bs))"
    using decode_value_tagged [OF depth pos tagged] reads_next_bytes [OF bs] pos(1) by simp
qed

lemma tag_only_reads:
  assumes depth: "depth \<le> maxDepth"
    and tagged: "\<And>pos. decode_tagged data tag pos = Some (Inr (v, pos))"
  shows "item_reads (decode_value data depth) data [tag] v"
  using decode_value_tagged [OF depth _ _ tagged]
  by (intro item_readsI) (auto simp: reads_Cons)

lemma be_word_be_bytes_2 [simp]: "be_word (be_bytes 2 (w :: 16 word)) = w"
  by (rule be_word_be_bytes) simp

lemma be_word_be_bytes_4 [simp]: "be_word (be_bytes 4 (w :: 32 word)) = w"
  by (rule be_word_be_bytes) simp

lemma be_word_be_bytes_8 [simp]: "be_word (be_bytes 8 (w :: 64 word)) = w"
  by (rule be_word_be_bytes) simp

lemma int_reads:
  assumes depth: "depth \<le> maxDepth"
  shows "item_reads (decode_value data depth) data (wire_int n) (GInt64 n)"
proof (cases n rule: wire_int_cases)
  case pos
  then show ?thesis
    using decode_value_tag(1) [OF depth _ _ pos_tag(1)]
    by (intro item_readsI) (simp add: reads_Cons pos_tag(2))
next
  case neg
  then show ?thesis
    using decode_value_tag(2) [OF depth _ _ neg_tag(1,2)]
    by (intro item_readsI) (simp add: reads_Cons neg_tag(3))
next
  case int1
  have "item_reads (decode_value data depth) data (chrInt1 # [ucast n])
      (GInt64 (scast ([ucast n :: byte] ! 0)))"
    by (rule tagged_payload_reads [OF depth, where f = "\<lambda>b. GInt64 (scast (b ! 0))"]) (simp add: decode_tagged_def tag_defs)
  then show ?thesis using int1 by (simp add: scast_ucast_id)
next
  case int2
  have "item_reads (decode_value data depth) data (chrInt2 # be_bytes 2 (ucast n :: 16 word))
      ((\<lambda>b. GInt64 (scast (be_word b :: 16 word))) (be_bytes 2 (ucast n :: 16 word)))"
    by (rule tagged_payload_reads [OF depth]) (simp add: decode_tagged_def tag_defs)
  then show ?thesis using int2 by (simp add: scast_ucast_id)
next
  case int4
  have "item_reads (decode_value data depth) data (chrInt4 # be_bytes 4 (ucast n :: 32 word))
      ((\<lambda>b. GInt64 (scast (be_word b :: 32 word))) (be_bytes 4 (ucast n :: 32 word)))"
    by (rule tagged_payload_reads [OF depth]) (simp add: decode_tagged_def tag_defs)
  then show ?thesis using int4 by (simp add: scast_ucast_id)
next
  case int8
  have "item_reads (decode_value data depth) data (chrInt8 # be_bytes 8 n)
      ((\<lambda>b. GInt64 (be_word b)) (be_bytes 8 n))"
    by (rule tagged_payload_reads [OF depth]) (simp add: decode_tagged_def tag_defs)
  then show ?thesis using int8 by simp
qed

lemma float_reads:
  assumes depth: "depth \<le> maxDepth"
  shows "item_reads (decode_value data depth) data (wire_float f) (GFloat64 f)"
proof -
  have "item_reads (decode_value data depth) data (chrFloat64 # be_bytes 8 f)
      ((\<lambda>b. GFloat64 (be_word b)) (be_bytes 8 f))"
    by (rule tagged_payload_reads [OF depth]) (simp add: decode_tagged_def tag_defs)
  then show ?thesis by (simp add: encodeFloat_def)
qed

text \<open>Strings and byte slices with a decimal length in front.\<close>

lemma sized_reads:
  assumes depth: "depth \<le> maxDepth" and len: "int64_range (int (length payload))"
    and sep: "sep = sepText \<or> sep = sepBinary"
    and w: "w = string_bytes (decimal (int (length payload))) @ sep # payload"
  shows "item_reads (decode_value data depth) data w
    (if sep = sepBinary then GBytes payload else GString (bytes_string payload))"
proof (rule item_readsI)
  fix pos
  let ?ds = "string_bytes (decimal (int (length payload)))"
  assume "reads data pos w"
  then have ds: "reads data pos (?ds @ [sep])"
    and payload: "reads data (Suc (pos + length ?ds)) payload"
    and sep_at: "pos + length ?ds < length data" "data ! (pos + length ?ds) = sep"
    by (simp_all add: w reads_append reads_Cons)
  have digits: "\<forall>b\<in>set ?ds. 48 \<le> unat b \<and> unat b \<le> 57"
    using digit_bytes [where n = "length payload"] by (auto simp: decimal_of_nat)
  then have nosep: "\<forall>b\<in>set ?ds. \<not> (b = sepText \<or> b = sepBinary)"
    by (auto simp: tag_defs)
  obtain d ds' where ds': "?ds = d # ds'"
    by (cases ?ds) auto
  have d: "48 \<le> unat d" "unat d \<le> 57"
    using digits ds' by auto
  have first: "pos < length data" "data ! pos = d"
    using ds ds' by (auto simp: reads_append reads_Cons)
  have scan: "scan_to (\<lambda>b. b = sepText \<or> b = sepBinary) data pos = pos + length ?ds"
    using sep by (intro reads_scan_to [OF ds nosep]) auto
  have sub: "subslice pos (length ?ds) data = ?ds"
    using ds by (intro reads_subslice) (simp add: reads_append)
  have next_pl: "next_bytes data (Suc (pos + length ?ds)) (int (length payload)) =
      Inr (payload, Suc (pos + length ?ds) + length payload)"
    using sep_at(1) by (intro reads_next_bytes [OF payload]) simp
  have "decode_sized data pos = Inr (if sep = sepBinary then GBytes payload
      else GString (bytes_string payload), Suc (pos + length ?ds) + length payload)"
    using sep_at len
    by (simp add: decode_sized_def Let_def scan sub next_pl del: length_string_bytes)
  then show "decode_value data depth pos =
      Inr (if sep = sepBinary then GBytes payload else GString (bytes_string payload),
           pos + length w)"
    using decode_value_tag(6) [OF depth first d] by (simp add: w)
qed

lemma string_reads:
  assumes depth: "depth \<le> maxDepth" and len: "int64_range (int (length s))"
  shows "item_reads (decode_value data depth) data (wire_string s) (GString s)"
proof (cases "length s < 64")
  case True
  define tag :: byte where "tag = of_nat (128 + length s)"
  have tag: "unat tag = 128 + length s"
    unfolding tag_def using True by (intro unat_byte_of_nat) simp
  have w: "wire_string s = tag # string_bytes s"
    using True by (simp add: encodeString_def range_defs tag_def)
  show ?thesis
  proof (rule item_readsI)
    fix pos
    assume "reads data pos (wire_string s)"
    then have pos: "pos < length data" "data ! pos = tag"
      and s: "reads data (Suc pos) (string_bytes s)"
      by (simp_all add: w reads_Cons)
    have "next_bytes data (Suc pos) (int (length s)) = Inr (string_bytes s, Suc pos + length s)"
      using reads_next_bytes [OF s] pos(1) by simp
    then show "decode_value data depth pos = Inr (GString s, pos + length (wire_string s))"
      using decode_value_tag(3) [OF depth pos] True by (simp add: tag w)
  qed
next
  case False
  then have "wire_string s =
      string_bytes (decimal (int (length (string_bytes s)))) @ sepText # string_bytes s"
    by (simp add: encodeString_def range_defs)
  from sized_reads [OF depth _ _ this] len show ?thesis
    by (simp add: tag_defs)
qed

lemma bytes_reads:
  assumes depth: "depth \<le> maxDepth" and len: "int64_range (int (length b))"
  shows "item_reads (decode_value data depth) data (wire_bytes b) (GBytes b)"
proof -
  have "wire_bytes b = string_bytes (decimal (int (length b))) @ sepBinary # b"
    by (simp add: encodeBytes_def)
  from sized_reads [OF depth len _ this] show ?thesis by simp
qed

lemma bigint_reads:
  assumes depth: "depth \<le> maxDepth"
  shows "item_reads (decode_value data depth) data (wire_bigint n)
    (if int64_range n then GInt64 (word_of_int n) else GBigPtr (Some n))"
proof (cases "int64_range n")
  case True
  then show ?thesis
    using int_reads [OF depth, of data "word_of_int n"] by (simp add: encodeBigInt_def)
next
  case False
  let ?ds = "string_bytes (decimal n)"
  have w: "wire_bigint n = chrInt # ?ds @ [chrTerm]"
    using False by (simp add: encodeBigInt_def)
  have noterm: "\<forall>b\<in>set ?ds. \<not> b = chrTerm"
  proof
    fix b assume "b \<in> set ?ds"
    then obtain c where "c \<in> set (decimal n)" and b: "b = byte_of_char c"
      by (auto simp: string_bytes_def)
    then consider "c = CHR ''-''" | d where "d < 10" "c = digit_char d"
      using set_decimal by blast
    then have "unat b \<noteq> 127"
      by cases (simp_all add: b digit_char_def)
    then show "\<not> b = chrTerm" by (auto simp: tag_defs)
  qed
  show ?thesis
  proof (rule item_readsI)
    fix pos
    assume "reads data pos (wire_bigint n)"
    then have pos: "pos < length data" "data ! pos = chrInt"
      and ds: "reads data (Suc pos) (?ds @ [chrTerm])"
      by (simp_all add: w reads_Cons)
    have scan: "scan_to (\<lambda>b. b = chrTerm) data (Suc pos) = Suc pos + length ?ds"
      by (rule reads_scan_to [OF ds noterm]) simp
    have sub: "subslice (Suc pos) (length ?ds) data = ?ds"
      using ds by (intro reads_subslice) (simp add: reads_append)
    have "Suc pos + length ?ds < length data"
      using ds by (simp add: reads_append reads_Cons)
    then have "decode_bigInt data (Suc pos) = Inr (GBigPtr (Some n), Suc (Suc pos + length ?ds))"
      using False sub scan by (simp add: decode_bigInt_def Let_def del: length_string_bytes)
    moreover have "decode_tagged data chrInt (Suc pos) = Some (decode_bigInt data (Suc pos))"
      by (simp add: decode_tagged_def tag_defs)
    ultimately show "decode_value data depth pos =
        Inr (if int64_range n then GInt64 (word_of_int n) else GBigPtr (Some n),
             pos + length (wire_bigint n))"
      using decode_value_tagged [OF depth pos] False by (simp add: w)
  qed
qed

section \<open>Containers\<close>

text \<open>A terminated container ends at the first item that starts with \<open>chrTerm\<close>: no value does.\<close>

definition starts_value :: "bytes \<Rightarrow> bool" where
  "starts_value w \<longleftrightarrow> w \<noteq> [] \<and> hd w \<noteq> chrTerm"

lemma starts_value_Cons [simp]: "starts_value (b # w) \<longleftrightarrow> b \<noteq> chrTerm"
  by (simp add: starts_value_def)

lemma starts_value_append: "starts_value u \<Longrightarrow> starts_value (u @ w)"
  by (auto simp: starts_value_def)

lemma starts_digits: "starts_value (string_bytes (decimal (int n)) @ w)"
proof -
  obtain d ds where "string_bytes (nat_digits n) = d # ds"
    by (cases "string_bytes (nat_digits n)") auto
  moreover from this have "unat d \<le> 57"
    using digit_bytes(2) [of d n] by simp
  ultimately show ?thesis by (auto simp: decimal_of_nat tag_defs)
qed

lemma tag_not_term: "n < 256 \<Longrightarrow> n \<noteq> 127 \<Longrightarrow> of_nat n \<noteq> chrTerm"
proof
  assume n: "n < 256" "n \<noteq> 127" and "of_nat n = chrTerm"
  from arg_cong [OF this(3), of unat] n show False
    by (simp add: chrTerm_def unat_of_nat)
qed

lemma starts_string: "starts_value (wire_string s)"
proof (cases "length s < 64")
  case True
  then have "of_nat (128 + length s) \<noteq> chrTerm"
    by (intro tag_not_term) auto
  with True show ?thesis
    by (simp add: encodeString_def range_defs del: of_nat_add)
next
  case False
  then show ?thesis
    using starts_digits [of "length s" "sepText # string_bytes s"]
    by (simp add: encodeString_def range_defs)
qed

lemma starts_bytes: "starts_value (wire_bytes b)"
  using starts_digits [of "length b"] by (simp add: encodeBytes_def)

lemma starts_int: "starts_value (wire_int n)"
proof (cases n rule: wire_int_cases)
  case pos
  then show ?thesis using pos_tag(1) [of n] by (auto simp: tag_defs)
next
  case neg
  then show ?thesis using neg_tag(1,2) [of n] by (auto simp: tag_defs)
qed (simp_all add: tag_defs)

lemma starts_bigint: "starts_value (wire_bigint n)"
  using starts_int by (simp add: encodeBigInt_def tag_defs)

lemma starts_float: "starts_value (wire_float f)"
  by (simp add: encodeFloat_def tag_defs)

lemma starts_list_wire: "starts_value (list_wire n w)"
proof (cases "n < 64")
  case True
  then have "of_nat (192 + n) \<noteq> chrTerm" by (intro tag_not_term) auto
  with True show ?thesis by (simp add: list_wire_def range_defs del: of_nat_add)
qed (simp add: list_wire_def range_defs tag_defs)

lemma starts_dict_wire: "starts_value (dict_wire n w)"
proof (cases "n < 25")
  case True
  then have "of_nat (102 + n) \<noteq> chrTerm" by (intro tag_not_term) auto
  with True show ?thesis by (simp add: dict_wire_def range_defs del: of_nat_add)
qed (simp add: dict_wire_def range_defs tag_defs)

lemma starts_wire: "encodable v \<Longrightarrow> starts_value (wire v)"
  by (cases v)
    (auto simp: starts_string starts_bytes starts_int starts_bigint starts_float
      starts_list_wire starts_dict_wire tag_defs split: option.splits if_splits)

lemma length_concat_starts:
  "\<forall>x\<in>set xs. starts_value (w x) \<Longrightarrow> length xs \<le> length (concat (map w xs))"
proof (induction xs)
  case Nil
  show ?case by simp
next
  case (Cons x xs)
  then have "1 \<le> length (w x)" and "length xs \<le> length (concat (map w xs))"
    by (simp_all add: starts_value_def Suc_le_eq)
  then show ?case by simp
qed

lemma decode_list_fixed:
  assumes "\<forall>x\<in>set xs. item_reads item data (w x) (r x)"
    and "reads data pos (concat (map w xs))" and "length xs < fuel" and "n = i + length xs"
  shows "decode_list fuel item data n False i out pos =
    Inr (out @ map r xs, pos + length (concat (map w xs)))"
  using assms
proof (induction xs arbitrary: fuel i out pos)
  case Nil
  then show ?case by (cases fuel) auto
next
  case (Cons x xs)
  from Cons.prems obtain f where fuel: "fuel = Suc f" "length xs < f"
    by (cases fuel) auto
  have x: "item pos = Inr (r x, pos + length (w x))"
    using Cons.prems by (auto simp: reads_append intro: item_readsD)
  have "decode_list f item data n False (Suc i) (out @ [r x]) (pos + length (w x)) =
      Inr ((out @ [r x]) @ map r xs, pos + length (w x) + length (concat (map w xs)))"
    using Cons.prems fuel(2) by (intro Cons.IH) (auto simp: reads_append)
  with x Cons.prems show ?case by (simp add: fuel(1))
qed

lemma reads_starts:
  "reads data pos (w @ u) \<Longrightarrow> starts_value w \<Longrightarrow> pos < length data \<and> data ! pos \<noteq> chrTerm"
  by (cases w) (auto simp: reads_Cons starts_value_def)

lemma decode_list_terminated:
  assumes "\<forall>x\<in>set xs. item_reads item data (w x) (r x) \<and> starts_value (w x)"
    and "reads data pos (concat (map w xs) @ [chrTerm])" and "length xs < fuel"
  shows "decode_list fuel item data n True i out pos =
    Inr (out @ map r xs, Suc (pos + length (concat (map w xs))))"
  using assms
proof (induction xs arbitrary: fuel i out pos)
  case Nil
  then show ?case by (cases fuel) (auto simp: reads_Cons)
next
  case (Cons x xs)
  from Cons.prems obtain f where fuel: "fuel = Suc f" "length xs < f"
    by (cases fuel) auto
  have x: "item pos = Inr (r x, pos + length (w x))"
    using Cons.prems by (auto simp: reads_append intro: item_readsD)
  have start: "pos < length data" "data ! pos \<noteq> chrTerm"
    using Cons.prems reads_starts [of data pos "w x"] by auto
  have "decode_list f item data n True (Suc i) (out @ [r x]) (pos + length (w x)) =
      Inr ((out @ [r x]) @ map r xs, Suc (pos + length (w x) + length (concat (map w xs))))"
    using Cons.prems fuel(2) by (intro Cons.IH) (auto simp: reads_append)
  with x start show ?case by (simp add: fuel(1))
qed

lemma list_reads:
  assumes depth: "depth \<le> maxDepth"
    and items: "\<forall>x\<in>set xs. item_reads (decode_value data (Suc depth)) data (w x) (r x)"
    and starts: "\<forall>x\<in>set xs. starts_value (w x)"
  shows "item_reads (decode_value data depth) data
    (list_wire (length xs) (concat (map w xs))) (GList (map r xs))"
proof (rule item_readsI)
  fix pos
  let ?body = "concat (map w xs)"
  assume rd: "reads data pos (list_wire (length xs) ?body)"
  have fuel: "length xs < Suc (length data)"
  proof -
    have "length ?body \<le> length (list_wire (length xs) ?body)"
      by (simp add: list_wire_def)
    also have "\<dots> \<le> length data"
      using reads_length [OF rd] starts_list_wire by (auto simp: starts_value_def)
    finally show ?thesis using length_concat_starts [OF starts] by simp
  qed
  show "decode_value data depth pos =
      Inr (GList (map r xs), pos + length (list_wire (length xs) ?body))"
  proof (cases "length xs < 64")
    case True
    define tag :: byte where "tag = of_nat (192 + length xs)"
    have tag: "unat tag = 192 + length xs"
      unfolding tag_def using True by (intro unat_byte_of_nat) simp
    have w: "list_wire (length xs) ?body = tag # ?body"
      using True by (simp add: list_wire_def range_defs tag_def)
    have pos: "pos < length data" "data ! pos = tag" and body: "reads data (Suc pos) ?body"
      using rd by (simp_all add: w reads_Cons)
    show ?thesis
      using decode_value_tag(4) [OF depth pos]
        decode_list_fixed [OF items body fuel, of "length xs" 0 "[]"]
      by (simp add: tag w)
  next
    case False
    have w: "list_wire (length xs) ?body = chrList # ?body @ [chrTerm]"
      using False by (simp add: list_wire_def range_defs)
    have pos: "pos < length data" "data ! pos = chrList"
      and body: "reads data (Suc pos) (?body @ [chrTerm])"
      using rd by (simp_all add: w reads_Cons)
    show ?thesis
      using decode_value_tag(7) [OF depth pos refl]
        decode_list_terminated [OF _ body fuel, of "decode_value data (Suc depth)" r 0 0 "[]"]
        items starts
      by (simp add: w)
  qed
qed

text \<open>
  The entries of a dictionary: \<open>kw\<close> and \<open>kv\<close> are the bytes and the value of the key of an
  entry, \<open>ks\<close> the string it is stored under, \<open>vw\<close> and \<open>vv\<close> its value's bytes and value.
\<close>

definition entry_reads ::
    "(nat \<Rightarrow> any dec) \<Rightarrow> bytes \<Rightarrow> bytes \<times> any \<times> string \<times> bytes \<times> any \<Rightarrow> bool" where
  "entry_reads item data = (\<lambda>(kw, kv, ks, vw, vv).
     item_reads item data kw kv \<and> dict_key kv = Some ks \<and> item_reads item data vw vv \<and>
     starts_value kw)"

definition entry_wire :: "bytes \<times> any \<times> string \<times> bytes \<times> any \<Rightarrow> bytes" where
  "entry_wire = (\<lambda>(kw, kv, ks, vw, vv). kw @ vw)"

definition entry_stored :: "bytes \<times> any \<times> string \<times> bytes \<times> any \<Rightarrow> string \<times> any" where
  "entry_stored = (\<lambda>(kw, kv, ks, vw, vv). (ks, vv))"

lemma starts_entry: "entry_reads item data e \<Longrightarrow> starts_value (entry_wire e)"
  by (auto simp: entry_reads_def entry_wire_def starts_value_append split: prod.splits)

lemma decode_dict_fixed:
  assumes "\<forall>e\<in>set es. entry_reads item data e"
    and "reads data pos (concat (map entry_wire es))" and "length es < fuel"
    and "n = i + length es"
  shows "decode_dict fuel item data n False i out pos =
    Inr (foldl (\<lambda>d (k, v). Dict_Set d k v) out (map entry_stored es),
         pos + length (concat (map entry_wire es)))"
  using assms
proof (induction es arbitrary: fuel i out pos)
  case Nil
  then show ?case by (cases fuel) auto
next
  case (Cons e es)
  from Cons.prems obtain f where fuel: "fuel = Suc f" "length es < f"
    by (cases fuel) auto
  obtain kw kv ks vw vv where e: "e = (kw, kv, ks, vw, vv)" by (cases e)
  have "item pos = Inr (kv, pos + length kw)"
    and "item (pos + length kw) = Inr (vv, pos + length kw + length vw)"
    and "dict_key kv = Some ks"
    using Cons.prems by (auto simp: e entry_reads_def entry_wire_def reads_append intro: item_readsD)
  moreover have "decode_dict f item data n False (Suc i) (Dict_Set out ks vv)
        (pos + length (entry_wire e)) =
      Inr (foldl (\<lambda>d (k, v). Dict_Set d k v) (Dict_Set out ks vv) (map entry_stored es),
         pos + length (entry_wire e) + length (concat (map entry_wire es)))"
    using Cons.prems fuel(2) by (intro Cons.IH) (auto simp: reads_append)
  ultimately show ?case
    using Cons.prems by (simp add: fuel(1) e entry_wire_def entry_stored_def add.assoc)
qed

lemma decode_dict_terminated:
  assumes "\<forall>e\<in>set es. entry_reads item data e"
    and "reads data pos (concat (map entry_wire es) @ [chrTerm])" and "length es < fuel"
  shows "decode_dict fuel item data n True i out pos =
    Inr (foldl (\<lambda>d (k, v). Dict_Set d k v) out (map entry_stored es),
         Suc (pos + length (concat (map entry_wire es))))"
  using assms
proof (induction es arbitrary: fuel i out pos)
  case Nil
  then show ?case by (cases fuel) (auto simp: reads_Cons)
next
  case (Cons e es)
  from Cons.prems obtain f where fuel: "fuel = Suc f" "length es < f"
    by (cases fuel) auto
  obtain kw kv ks vw vv where e: "e = (kw, kv, ks, vw, vv)" by (cases e)
  have "item pos = Inr (kv, pos + length kw)"
    and "item (pos + length kw) = Inr (vv, pos + length kw + length vw)"
    and "dict_key kv = Some ks"
    using Cons.prems by (auto simp: e entry_reads_def entry_wire_def reads_append intro: item_readsD)
  moreover have "pos < length data" "data ! pos \<noteq> chrTerm"
    using Cons.prems reads_starts [of data pos "entry_wire e"] starts_entry [of _ _ e] by auto
  moreover have "decode_dict f item data n True (Suc i) (Dict_Set out ks vv)
        (pos + length (entry_wire e)) =
      Inr (foldl (\<lambda>d (k, v). Dict_Set d k v) (Dict_Set out ks vv) (map entry_stored es),
         Suc (pos + length (entry_wire e) + length (concat (map entry_wire es))))"
    using Cons.prems fuel(2) by (intro Cons.IH) (auto simp: reads_append)
  ultimately show ?case
    using Cons.prems by (simp add: fuel(1) e entry_wire_def entry_stored_def add.assoc)
qed

lemma dict_reads:
  assumes depth: "depth \<le> maxDepth"
    and entries: "\<forall>e\<in>set es. entry_reads (decode_value data (Suc depth)) data e"
  shows "item_reads (decode_value data depth) data
    (dict_wire (length es) (concat (map entry_wire es)))
    (GMap (dict_of (map entry_stored es)))"
proof (rule item_readsI)
  fix pos
  let ?body = "concat (map entry_wire es)"
  assume rd: "reads data pos (dict_wire (length es) ?body)"
  have fuel: "length es < Suc (length data)"
  proof -
    have "length ?body \<le> length (dict_wire (length es) ?body)"
      by (simp add: dict_wire_def)
    also have "\<dots> \<le> length data"
      using reads_length [OF rd] starts_dict_wire by (auto simp: starts_value_def)
    finally show ?thesis
      using length_concat_starts [of es entry_wire] entries starts_entry by fastforce
  qed
  show "decode_value data depth pos =
      Inr (GMap (dict_of (map entry_stored es)), pos + length (dict_wire (length es) ?body))"
  proof (cases "length es < 25")
    case True
    define tag :: byte where "tag = of_nat (102 + length es)"
    have tag: "unat tag = 102 + length es"
      unfolding tag_def using True by (intro unat_byte_of_nat) simp
    have w: "dict_wire (length es) ?body = tag # ?body"
      using True by (simp add: dict_wire_def range_defs tag_def)
    have pos: "pos < length data" "data ! pos = tag" and body: "reads data (Suc pos) ?body"
      using rd by (simp_all add: w reads_Cons)
    show ?thesis
      using decode_value_tag(5) [OF depth pos] True
        decode_dict_fixed [OF entries body fuel, of "length es" 0 "[]"]
      by (simp add: tag w dict_of_def)
  next
    case False
    have w: "dict_wire (length es) ?body = chrDict # ?body @ [chrTerm]"
      using False by (simp add: dict_wire_def range_defs)
    have pos: "pos < length data" "data ! pos = chrDict"
      and body: "reads data (Suc pos) (?body @ [chrTerm])"
      using rd by (simp_all add: w reads_Cons)
    show ?thesis
      using decode_value_tag(8) [OF depth pos refl]
        decode_dict_terminated [OF entries body fuel, of 0 0 "[]"]
      by (simp add: w dict_of_def)
  qed
qed

section \<open>The round trip\<close>

lemma nesting_item:
  assumes "depth + deepest f xs \<le> maxDepth" and "x \<in> set xs"
  shows "Suc depth + f x \<le> maxDepth" and "Suc depth \<le> maxDepth"
  using deepest_ge [OF assms(2), of f] assms(1) by auto

text \<open>The entry of a sent dictionary, seen from the decoder.\<close>

definition text_entry :: "string \<times> any \<Rightarrow> bytes \<times> any \<times> string \<times> bytes \<times> any" where
  "text_entry p = (wire_string (fst p), GString (fst p), fst p, wire (snd p), received (snd p))"

definition int_entry :: "gint \<times> any \<Rightarrow> bytes \<times> any \<times> string \<times> bytes \<times> any" where
  "int_entry p =
     (wire_int (fst p), GInt64 (fst p), decimal (sint (fst p)), wire (snd p), received (snd p))"

lemma map_text_entry:
  "map entry_wire (map text_entry kvs) = map (\<lambda>p. wire_string (fst p) @ wire (snd p)) kvs"
  "map entry_stored (map text_entry kvs) = map (\<lambda>p. (fst p, received (snd p))) kvs"
  by (simp_all add: text_entry_def entry_wire_def entry_stored_def)

lemma map_int_entry:
  "map entry_wire (map int_entry kvs) = map (\<lambda>p. wire_int (fst p) @ wire (snd p)) kvs"
  "map entry_stored (map int_entry kvs) =
     map (\<lambda>p. (decimal (sint (fst p)), received (snd p))) kvs"
  by (simp_all add: int_entry_def entry_wire_def entry_stored_def)

lemma text_dict_reads:
  assumes depth: "depth \<le> maxDepth"
    and keys: "\<forall>p\<in>set kvs. Suc depth \<le> maxDepth \<and> int64_range (int (length (fst p)))"
    and vals: "\<forall>p\<in>set kvs.
      item_reads (decode_value data (Suc depth)) data (wire (snd p)) (received (snd p))"
  shows "item_reads (decode_value data depth) data
    (dict_wire (length kvs) (concat (map (\<lambda>p. wire_string (fst p) @ wire (snd p)) kvs)))
    (GMap (dict_of (map (\<lambda>p. (fst p, received (snd p))) kvs)))"
proof -
  have "\<forall>e\<in>set (map text_entry kvs). entry_reads (decode_value data (Suc depth)) data e"
    using keys vals
    by (auto simp: text_entry_def entry_reads_def dict_key_def starts_string intro: string_reads)
  from dict_reads [OF depth this] show ?thesis
    by (simp only: map_text_entry length_map)
qed

lemma int_dict_reads:
  assumes depth: "depth \<le> maxDepth"
    and keys: "\<forall>p\<in>set kvs. Suc depth \<le> maxDepth"
    and vals: "\<forall>p\<in>set kvs.
      item_reads (decode_value data (Suc depth)) data (wire (snd p)) (received (snd p))"
  shows "item_reads (decode_value data depth) data
    (dict_wire (length kvs) (concat (map (\<lambda>p. wire_int (fst p) @ wire (snd p)) kvs)))
    (GMap (dict_of (map (\<lambda>p. (decimal (sint (fst p)), received (snd p))) kvs)))"
proof -
  have "\<forall>e\<in>set (map int_entry kvs). entry_reads (decode_value data (Suc depth)) data e"
    using keys vals
    by (auto simp: int_entry_def entry_reads_def dict_key_def starts_int intro: int_reads)
  from dict_reads [OF depth this] show ?thesis
    by (simp only: map_int_entry length_map)
qed

lemma decode_wire:
  assumes "encodable v" and "go_value v" and "depth + nesting v \<le> maxDepth"
  shows "item_reads (decode_value data depth) data (wire v) (received v)"
  using assms
proof (induction v arbitrary: depth rule: wire.induct)
  case 1
  then show ?case
    using tag_only_reads [of depth data chrNone] by (simp add: decode_tagged_def)
next
  case (2 x)
  then show ?case
    using tag_only_reads [of depth data chrTrue] tag_only_reads [of depth data chrFalse]
    by (cases x) (simp_all add: decode_tagged_def tag_defs)
next
  case (15 x)
  then show ?case using bigint_reads [of depth data x] by simp
next
  case (16 x)
  then obtain n where "x = Some n" by (auto split: if_splits)
  with 16 show ?case using bigint_reads [of depth data n] by simp
next
  case (19 xs)
  then have nest: "depth + deepest nesting xs \<le> maxDepth" and "depth \<le> maxDepth"
    by simp_all
  moreover have
    "item_reads (decode_value data (Suc depth)) data (wire x) (received x) \<and> starts_value (wire x)"
    if "x \<in> set xs" for x
    using "19.IH" [OF that, of "Suc depth"] "19.prems" nesting_item(1) [OF nest that] that
    by (auto simp: first_some_None starts_wire)
  ultimately show ?case
    using list_reads [of depth xs data wire received] by simp
next
  case (20 ss)
  then have nest: "depth + deepest (\<lambda>_. 0) ss \<le> maxDepth" and "depth \<le> maxDepth"
    by simp_all
  moreover have
    "item_reads (decode_value data (Suc depth)) data (wire_string s) (GString s)"
    if "s \<in> set ss" for s
    using "20.prems" nesting_item(2) [OF nest that] that by (intro string_reads) auto
  ultimately show ?case
    using list_reads [of depth ss data wire_string GString] by (simp add: starts_string)
next
  case (21 ns)
  then have nest: "depth + deepest (\<lambda>_. 0) ns \<le> maxDepth" and "depth \<le> maxDepth"
    by simp_all
  moreover have "item_reads (decode_value data (Suc depth)) data (wire_int n) (GInt64 n)"
    if "n \<in> set ns" for n
    using nesting_item(2) [OF nest that] by (rule int_reads)
  ultimately show ?case
    using list_reads [of depth ns data wire_int GInt64] by (simp add: starts_int)
next
  case (22 kvs)
  then have nest: "depth + deepest (\<lambda>p. nesting (snd p)) kvs \<le> maxDepth"
    by (simp add: case_prod_beta')
  have "Suc depth \<le> maxDepth \<and> int64_range (int (length (fst p))) \<and>
      item_reads (decode_value data (Suc depth)) data (wire (snd p)) (received (snd p))"
    if "p \<in> set kvs" for p
    using "22.IH" [OF that, of "Suc depth"] "22.prems" nesting_item [OF nest that] that
    by (auto simp: first_some_None)
  with nest show ?case
    using text_dict_reads [of depth kvs data] by simp
next
  case (23 kvs)
  then have nest: "depth + deepest (\<lambda>p. nesting (snd p)) kvs \<le> maxDepth"
    by (simp add: case_prod_beta')
  have "Suc depth \<le> maxDepth \<and> int64_range (int (length (fst p))) \<and>
      item_reads (decode_value data (Suc depth)) data (wire (snd p)) (received (snd p))"
    if "p \<in> set kvs" for p
    using "23.IH" [of p "Suc depth"] "23.prems" nesting_item [OF nest that] that
    by (auto simp: first_some_None)
  with nest show ?case
    using text_dict_reads [of depth "sorted_entries kvs" data] by simp
next
  case (24 kvs)
  then have nest: "depth + deepest (\<lambda>p. nesting (snd p)) kvs \<le> maxDepth"
    by (simp add: case_prod_beta')
  have "Suc depth \<le> maxDepth \<and>
      item_reads (decode_value data (Suc depth)) data (wire (snd p)) (received (snd p))"
    if "p \<in> set kvs" for p
    using "24.IH" [of p "Suc depth"] "24.prems" nesting_item [OF nest that] that
    by (auto simp: first_some_None)
  with nest show ?case
    using int_dict_reads [of depth "sorted_int_entries kvs" data] by simp
qed (auto intro: int_reads string_reads bytes_reads float_reads)

lemma reads_whole: "reads data 0 data"
  by (simp add: reads_def)

lemma decode_value_wire:
  assumes "encodable v" "go_value v" "nesting v \<le> maxDepth"
  shows "decode_value (wire v @ rest) 0 0 = Inr (received v, length (wire v))"
proof -
  have "reads (wire v @ rest) 0 (wire v)" by (auto simp: reads_def)
  from item_readsD [OF decode_wire [OF assms(1,2)] this] assms(3) show ?thesis by simp
qed

lemma Decode_wire:
  "encodable v \<Longrightarrow> go_value v \<Longrightarrow> nesting v \<le> maxDepth \<Longrightarrow> Decode (wire v) = Inr (received v)"
  using decode_value_wire [of v "[]"] by (simp add: Decode_def)

end
