(* ===== verification/Rencode_Safety.thy ===== *)
theory Rencode_Safety
  imports Rencode_Roundtrip
begin

text \<open>
  The decoder on arbitrary input, which comes straight off the network: it always stops
  with a value or an error of its own, reads only bytes of the input, produces only the
  shapes of value that packet accessors expect, nests no deeper than \<open>maxDepth\<close>, and
  builds no more than one node or payload byte per input byte.
\<close>

section \<open>Shapes of decoded values\<close>

text \<open>Nodes and payload bytes of a value; a dictionary key counts as one node.\<close>

function weight :: "any \<Rightarrow> nat" where
  "weight (GString s) = Suc (length s)"
| "weight (GBytes b) = Suc (length b)"
| "weight (GList xs) = Suc (sum_list (map weight xs))"
| "weight (GMap kvs) = Suc (sum_list (map (\<lambda>p. Suc (weight (snd p))) kvs))"
| "weight GNil = 1"
| "weight (GBool b) = 1"
| "weight (GInt i) = 1"
| "weight (GInt8 i8) = 1"
| "weight (GInt16 i16) = 1"
| "weight (GInt32 i32) = 1"
| "weight (GInt64 i64) = 1"
| "weight (GUint8 u8) = 1"
| "weight (GUint16 u16) = 1"
| "weight (GUint32 u32) = 1"
| "weight (GUint u) = 1"
| "weight (GUint64 u64) = 1"
| "weight (GBigInt n) = 1"
| "weight (GBigPtr p) = 1"
| "weight (GFloat32 f) = 1"
| "weight (GFloat64 f) = 1"
| "weight (GStrings ss) = Suc (sum_list (map (\<lambda>s. Suc (length s)) ss))"
| "weight (GInts is) = Suc (length is)"
| "weight (GDict d) = Suc (sum_list (map (\<lambda>p. Suc (weight (snd p))) d))"
| "weight (GIntMap m) = Suc (sum_list (map (\<lambda>p. Suc (weight (snd p))) m))"
| "weight (GOther t) = 1"
  by pat_completeness auto
termination
  by (relation "measure size") (auto simp del: any.size intro: size_any)

fun decoded :: "any \<Rightarrow> bool" where
  "decoded GNil = True"
| "decoded (GBool b) = True"
| "decoded (GString s) \<longleftrightarrow> int64_range (int (length s))"
| "decoded (GBytes b) \<longleftrightarrow> int64_range (int (length b))"
| "decoded (GInt64 n) = True"
| "decoded (GBigPtr p) \<longleftrightarrow> (case p of None \<Rightarrow> False | Some n \<Rightarrow> \<not> int64_range n)"
| "decoded (GFloat64 f) = True"
| "decoded (GList xs) \<longleftrightarrow> (\<forall>x\<in>set xs. decoded x)"
| "decoded (GMap kvs) \<longleftrightarrow> distinct (map fst kvs) \<and>
     (\<forall>(k, v)\<in>set kvs. int64_range (int (length k)) \<and> decoded v)"
| "decoded v = False"

lemma decoded_go_value: "decoded v \<Longrightarrow> go_value v"
  by (induction v rule: decoded.induct) auto

lemma decoded_encodable: "decoded v \<Longrightarrow> encodable v"
  by (induction v rule: decoded.induct)
    (force simp: first_some_None split: option.splits)+

section \<open>Single reads\<close>

definition good_read :: "bytes \<Rightarrow> nat \<Rightarrow> nat \<Rightarrow> any dec \<Rightarrow> bool" where
  "good_read data depth pos r \<longleftrightarrow> r \<noteq> Inl Stuck \<and>
     (\<forall>v q. r = Inr (v, q) \<longrightarrow>
        pos < q \<and> q \<le> length data \<and> pos + weight v \<le> q \<and> decoded v \<and>
        depth + nesting v \<le> maxDepth)"

lemma good_readI:
  assumes "r \<noteq> Inl Stuck"
    and "\<And>v q. r = Inr (v, q) \<Longrightarrow> pos < q \<and> q \<le> length data \<and> pos + weight v \<le> q \<and>
      decoded v \<and> depth + nesting v \<le> maxDepth"
  shows "good_read data depth pos r"
  using assms by (simp add: good_read_def)

lemma good_read_Inl: "e \<noteq> Stuck \<Longrightarrow> good_read data depth pos (Inl e)"
  by (simp add: good_read_def)

lemma next_bytes_Inr:
  assumes "next_bytes data pos n = Inr (b, q)"
  shows "0 \<le> n" and "int (length b) = n" and "int q = int pos + n" and "q \<le> max pos (length data)"
  using assms by (auto simp: next_bytes_def subslice_def split: if_splits)

lemma next_bytes_not_stuck [simp]: "next_bytes data pos n \<noteq> Inl Stuck"
  by (simp add: next_bytes_def)

lemma bind_not_stuck:
  "r \<noteq> Inl Stuck \<Longrightarrow> (\<And>x. r = Inr x \<Longrightarrow> f x \<noteq> Inl Stuck) \<Longrightarrow> bind_res r f \<noteq> Inl Stuck"
  by (cases r) auto

lemma scan_to_bounds: "pos \<le> scan_to stop data pos"
proof (induction stop data pos rule: scan_to.induct)
  case (1 stop data pos)
  then show ?case by (subst scan_to.simps) (auto dest: Suc_leD)
qed

lemma scan_to_stops:
  "pos < length data \<Longrightarrow> scan_to stop data pos < length data \<Longrightarrow> stop (data ! scan_to stop data pos)"
proof (induction stop data pos rule: scan_to.induct)
  case (1 stop data pos)
  show ?case
  proof (cases "stop (data ! pos)")
    case True
    with "1.prems" show ?thesis by (simp add: scan_to.simps [of stop data pos])
  next
    case False
    then have eq: "scan_to stop data pos = scan_to stop data (Suc pos)"
      using "1.prems" by (simp add: scan_to.simps [of stop data pos])
    show ?thesis
    proof (cases "Suc pos < length data")
      case True
      with "1.IH" False "1.prems" eq show ?thesis by simp
    next
      case False
      then have "scan_to stop data (Suc pos) = Suc pos" by (subst scan_to.simps) simp
      with False "1.prems" eq show ?thesis by simp
    qed
  qed
qed

lemma sized_good:
  assumes "pos < length data" and "depth \<le> maxDepth"
    and start: "data ! pos \<noteq> sepText" "data ! pos \<noteq> sepBinary"
  shows "good_read data depth pos (decode_sized data pos)"
proof -
  let ?stop = "\<lambda>b. b = sepText \<or> b = sepBinary"
  define e where "e = scan_to ?stop data pos"
  have "e = scan_to ?stop data (Suc pos)"
    using assms by (simp add: e_def scan_to.simps [of _ data pos])
  then have e: "pos < e"
    using scan_to_bounds [of "Suc pos" ?stop data] by simp
  show ?thesis
  proof (rule good_readI)
    show "decode_sized data pos \<noteq> Inl Stuck"
      by (auto simp: decode_sized_def Let_def bind_res_eq_Inl split: option.split)
  next
    fix v q
    assume r: "decode_sized data pos = Inr (v, q)"
    then obtain n b where lt: "e < length data"
      and n: "atoi (bytes_string (subslice pos (e - pos) data)) = Some n"
      and b: "next_bytes data (Suc e) n = Inr (b, q)"
      and v: "v = (if data ! e = sepBinary then GBytes b else GString (bytes_string b))"
      by (auto simp: decode_sized_def Let_def e_def bind_res_eq_Inr split: if_splits option.splits)
    have "int64_range (int (length b))"
      using atoi_range [OF n] next_bytes_Inr [OF b] by simp
    moreover have "q = Suc e + length b" "q \<le> length data"
      using next_bytes_Inr [OF b] lt by auto
    ultimately show "pos < q \<and> q \<le> length data \<and> pos + weight v \<le> q \<and> decoded v \<and>
        depth + nesting v \<le> maxDepth"
      using e assms(2) by (auto simp: v)
  qed
qed

lemma bigInt_good:
  assumes "p = Suc pos" and "depth \<le> maxDepth"
  shows "good_read data depth pos (decode_bigInt data p)"
proof (rule good_readI)
  show "decode_bigInt data p \<noteq> Inl Stuck"
    by (auto simp: decode_bigInt_def Let_def split: option.split)
next
  fix v q
  assume "decode_bigInt data p = Inr (v, q)"
  then show "pos < q \<and> q \<le> length data \<and> pos + weight v \<le> q \<and> decoded v \<and>
      depth + nesting v \<le> maxDepth"
    using scan_to_bounds [of p "\<lambda>b. b = chrTerm" data] assms
    by (auto simp: decode_bigInt_def Let_def split: if_splits option.splits)
qed

text \<open>A read of a fixed number of bytes after the tag.\<close>

lemma payload_good:
  assumes "p = Suc pos" and "pos < length data" and "depth \<le> maxDepth"
    and f: "\<And>b. int (length b) = n \<Longrightarrow>
      weight (f b) \<le> Suc (length b) \<and> decoded (f b) \<and> nesting (f b) = 0"
  shows "good_read data depth pos (bind_res (next_bytes data p n) (\<lambda>(b, q). Inr (f b, q)))"
proof (rule good_readI)
  show "bind_res (next_bytes data p n) (\<lambda>(b, q). Inr (f b, q)) \<noteq> Inl Stuck"
    by (rule bind_not_stuck) auto
next
  fix v q
  assume "bind_res (next_bytes data p n) (\<lambda>(b, q). Inr (f b, q)) = Inr (v, q)"
  then obtain b where b: "next_bytes data p n = Inr (b, q)" and v: "v = f b"
    by (auto simp: bind_res_eq_Inr)
  show "pos < q \<and> q \<le> length data \<and> pos + weight v \<le> q \<and> decoded v \<and>
      depth + nesting v \<le> maxDepth"
    using next_bytes_Inr [OF b] f [of b] assms(1-3) by (auto simp: v)
qed

lemma scalar_good:
  assumes "pos < length data" and "depth \<le> maxDepth" and "decoded v" "weight v = 1" "nesting v = 0"
  shows "good_read data depth pos (Inr (v, Suc pos))"
  using assms by (auto simp: good_read_def)

lemma tagged_good:
  assumes "pos < length data" and "depth \<le> maxDepth" and "decode_tagged data tag (Suc pos) = Some r"
  shows "good_read data depth pos r"
  using assms
  by (auto simp: decode_tagged_def split: if_splits
      intro!: payload_good bigInt_good scalar_good)

section \<open>Containers\<close>

lemma length_nat_digits: "n < 10 ^ k \<Longrightarrow> 0 < k \<Longrightarrow> length (nat_digits n) \<le> k"
proof (induction n arbitrary: k rule: nat_digits.induct)
  case (1 n)
  show ?case
  proof (cases "n < 10")
    case True
    with "1.prems" show ?thesis by (subst nat_digits.simps) simp
  next
    case False
    with "1.prems" obtain j where k: "k = Suc j" "0 < j"
      by (cases k; cases "k - 1") auto
    with "1.prems" have "n div 10 < 10 ^ j" by simp
    with "1.IH" [OF False this k(2)] k False show ?thesis
      by (subst nat_digits.simps) simp
  qed
qed

lemma length_decimal_sint: "length (decimal (sint (n :: gint))) \<le> 20"
proof -
  have "int64_range (sint n)" by simp
  then have "nat (sint n) < 10 ^ 19" and "nat (- sint n) < 10 ^ 19"
    by (auto simp: int64_range_def)
  then have "length (nat_digits (nat (sint n))) \<le> 19" "length (nat_digits (nat (- sint n))) \<le> 19"
    by (simp_all add: length_nat_digits)
  then show ?thesis by (simp add: decimal_def)
qed

lemma dict_key_length: "decoded k \<Longrightarrow> dict_key k = Some s \<Longrightarrow> int64_range (int (length s))"
proof -
  assume k: "decoded k" "dict_key k = Some s"
  have "int64_range (int (length (decimal (sint n))))" for n :: gint
    using length_decimal_sint [of n] by (simp add: int64_range_def)
  with k show ?thesis by (cases k) (auto simp: dict_key_def)
qed

abbreviation good_item :: "bytes \<Rightarrow> nat \<Rightarrow> (nat \<Rightarrow> any dec) \<Rightarrow> bool" where
  "good_item data depth item \<equiv> (\<forall>pos. good_read data depth pos (item pos))"

lemma good_itemD:
  assumes "good_item data depth item" and "item pos = Inr (v, q)"
  shows "pos < q" "q \<le> length data" "pos + weight v \<le> q" "decoded v" "depth + nesting v \<le> maxDepth"
  using assms by (auto simp: good_read_def)

lemma good_item_stuck: "good_item data depth item \<Longrightarrow> item pos \<noteq> Inl Stuck"
  by (auto simp: good_read_def)

lemma deepest_le:
  "m \<le> b \<Longrightarrow> \<forall>x\<in>set xs. Suc (m + f x) \<le> b \<Longrightarrow> m + deepest f xs \<le> b"
  by (induction xs) (auto simp: deepest_def)

text \<open>
  What a container loop keeps of its accumulator: \<open>ok\<close> is a property of the elements
  gathered so far and \<open>wt\<close> what they weigh.
\<close>

definition good_loop ::
    "bytes \<Rightarrow> nat \<Rightarrow> ('a \<Rightarrow> bool) \<Rightarrow> ('a \<Rightarrow> nat) \<Rightarrow> 'a \<Rightarrow> 'a dec \<Rightarrow> bool" where
  "good_loop data pos ok wt out r \<longleftrightarrow>
     (case r of Inl e \<Rightarrow> e \<noteq> Stuck
      | Inr (xs, q) \<Rightarrow> pos \<le> q \<and> q \<le> length data \<and> ok xs \<and> pos + wt xs \<le> q + wt out)"

lemma good_loop_Inl [simp]: "good_loop data pos ok wt out (Inl e) \<longleftrightarrow> e \<noteq> Stuck"
  by (simp add: good_loop_def)

lemma good_loop_done: "pos \<le> q \<Longrightarrow> q \<le> length data \<Longrightarrow> ok out \<Longrightarrow> good_loop data pos ok wt out (Inr (out, q))"
  by (simp add: good_loop_def)

lemma good_loop_step:
  assumes "good_loop data p ok wt out' r" and "pos \<le> p" and "pos + wt out' \<le> p + wt out"
  shows "good_loop data pos ok wt out r"
  using assms by (auto simp: good_loop_def split: sum.splits)

definition list_ok :: "nat \<Rightarrow> any list \<Rightarrow> bool" where
  "list_ok depth xs \<longleftrightarrow> (\<forall>x\<in>set xs. decoded x \<and> Suc depth + nesting x \<le> maxDepth)"

definition dict_ok :: "nat \<Rightarrow> dict \<Rightarrow> bool" where
  "dict_ok depth kvs \<longleftrightarrow> distinct (map fst kvs) \<and>
     (\<forall>p\<in>set kvs. int64_range (int (length (fst p))) \<and> decoded (snd p) \<and>
        Suc depth + nesting (snd p) \<le> maxDepth)"

definition list_weight :: "any list \<Rightarrow> nat" where
  "list_weight xs = sum_list (map weight xs)"

definition dict_weight :: "dict \<Rightarrow> nat" where
  "dict_weight kvs = sum_list (map (\<lambda>p. Suc (weight (snd p))) kvs)"

lemma dict_weight_Set: "dict_weight (Dict_Set d k v) \<le> dict_weight d + Suc (weight v)"
  by (induction d k v rule: Dict_Set.induct) (auto simp: dict_weight_def)

lemma dict_ok_Set:
  "dict_ok depth d \<Longrightarrow> int64_range (int (length k)) \<Longrightarrow> decoded v \<Longrightarrow>
   Suc depth + nesting v \<le> maxDepth \<Longrightarrow> dict_ok depth (Dict_Set d k v)"
  by (auto simp: dict_ok_def distinct_Dict_Set dest: set_Dict_Set)

lemma decode_list_good:
  assumes item: "good_item data (Suc depth) item"
  shows "pos \<le> length data \<Longrightarrow> length data - pos < fuel \<Longrightarrow> list_ok depth out \<Longrightarrow>
    good_loop data pos (list_ok depth) list_weight out
      (decode_list fuel item data n terminated i out pos)"
proof (induction fuel arbitrary: i out pos)
  case 0
  then show ?case by simp
next
  case (Suc fuel)
  show ?case
  proof (cases "item pos")
    case (Inl e)
    then have "e \<noteq> Stuck" using good_item_stuck [OF item] by metis
    with Inl Suc.prems show ?thesis by (auto intro!: good_loop_done)
  next
    case (Inr vp)
    obtain v p where vp: "vp = (v, p)" by (cases vp)
    note g = good_itemD [OF item Inr [unfolded vp]]
    have "good_loop data p (list_ok depth) list_weight (out @ [v])
        (decode_list fuel item data n terminated (Suc i) (out @ [v]) p)"
      using g Suc.prems by (intro Suc.IH) (auto simp: list_ok_def)
    then have "good_loop data pos (list_ok depth) list_weight out
        (decode_list fuel item data n terminated (Suc i) (out @ [v]) p)"
      by (rule good_loop_step) (use g in \<open>auto simp: list_weight_def\<close>)
    with Inr vp Suc.prems show ?thesis by (auto intro!: good_loop_done)
  qed
qed

lemma decode_dict_good:
  assumes item: "good_item data (Suc depth) item"
  shows "pos \<le> length data \<Longrightarrow> length data - pos < fuel \<Longrightarrow> dict_ok depth out \<Longrightarrow>
    good_loop data pos (dict_ok depth) dict_weight out
      (decode_dict fuel item data n terminated i out pos)"
proof (induction fuel arbitrary: i out pos)
  case 0
  then show ?case by simp
next
  case (Suc fuel)
  let ?r = "bind_res (item pos)
     (\<lambda>(k, pos1). bind_res (item pos1)
       (\<lambda>(v, pos2). case dict_key k of
            None \<Rightarrow> Inl (BadDictKey k)
          | Some key \<Rightarrow>
              decode_dict fuel item data n terminated (Suc i) (Dict_Set out key v) pos2))"
  have "good_loop data pos (dict_ok depth) dict_weight out ?r"
  proof (cases "\<exists>k p v q key. item pos = Inr (k, p) \<and> item p = Inr (v, q) \<and> dict_key k = Some key")
    case False
    then show ?thesis
      using good_item_stuck [OF item] by (auto simp: bind_res_def split: sum.split option.split)
  next
    case True
    then obtain k p v q key where k: "item pos = Inr (k, p)" and v: "item p = Inr (v, q)"
      and key: "dict_key k = Some key" by blast
    note gk = good_itemD [OF item k] and gv = good_itemD [OF item v]
    have "good_loop data q (dict_ok depth) dict_weight (Dict_Set out key v)
        (decode_dict fuel item data n terminated (Suc i) (Dict_Set out key v) q)"
      using gk gv Suc.prems dict_key_length [OF gk(4) key]
      by (intro Suc.IH dict_ok_Set) auto
    then have "good_loop data pos (dict_ok depth) dict_weight out
        (decode_dict fuel item data n terminated (Suc i) (Dict_Set out key v) q)"
      by (rule good_loop_step) (use gk gv dict_weight_Set [of out key v] in auto)
    with k v key show ?thesis by simp
  qed
  with Suc.prems show ?case by (auto intro!: good_loop_done)
qed

section \<open>The whole decoder\<close>

lemma list_good:
  assumes r: "good_loop data (Suc pos) (list_ok depth) list_weight [] r"
    and "depth \<le> maxDepth"
  shows "good_read data depth pos (bind_res r (\<lambda>(xs, q). Inr (GList xs, q)))"
proof (rule good_readI)
  show "bind_res r (\<lambda>(xs, q). Inr (GList xs, q)) \<noteq> Inl Stuck"
    using r by (auto simp: good_loop_def bind_res_eq_Inl)
next
  fix v q
  assume "bind_res r (\<lambda>(xs, q). Inr (GList xs, q)) = Inr (v, q)"
  then obtain xs where "r = Inr (xs, q)" and v: "v = GList xs"
    by (auto simp: bind_res_eq_Inr)
  with r have "Suc pos \<le> q" "q \<le> length data" "list_ok depth xs" "Suc pos + list_weight xs \<le> q"
    by (auto simp: good_loop_def list_weight_def)
  moreover from this(3) have "depth + deepest nesting xs \<le> maxDepth"
    using assms(2) by (intro deepest_le) (auto simp: list_ok_def)
  ultimately show "pos < q \<and> q \<le> length data \<and> pos + weight v \<le> q \<and> decoded v \<and>
      depth + nesting v \<le> maxDepth"
    by (auto simp: v list_ok_def list_weight_def)
qed

lemma dict_good:
  assumes r: "good_loop data (Suc pos) (dict_ok depth) dict_weight [] r"
    and "depth \<le> maxDepth"
  shows "good_read data depth pos (bind_res r (\<lambda>(xs, q). Inr (GMap xs, q)))"
proof (rule good_readI)
  show "bind_res r (\<lambda>(xs, q). Inr (GMap xs, q)) \<noteq> Inl Stuck"
    using r by (auto simp: good_loop_def bind_res_eq_Inl)
next
  fix v q
  assume "bind_res r (\<lambda>(xs, q). Inr (GMap xs, q)) = Inr (v, q)"
  then obtain xs where "r = Inr (xs, q)" and v: "v = GMap xs"
    by (auto simp: bind_res_eq_Inr)
  with r have "Suc pos \<le> q" "q \<le> length data" "dict_ok depth xs" "Suc pos + dict_weight xs \<le> q"
    by (auto simp: good_loop_def dict_weight_def)
  moreover from this(3) have "depth + deepest (\<lambda>p. nesting (snd p)) xs \<le> maxDepth"
    using assms(2) by (intro deepest_le) (auto simp: dict_ok_def)
  ultimately show "pos < q \<and> q \<le> length data \<and> pos + weight v \<le> q \<and> decoded v \<and>
      depth + nesting v \<le> maxDepth"
    by (auto simp: v dict_ok_def dict_weight_def case_prod_beta')
qed

lemma decode_value_good: "good_read data depth pos (decode_value data depth pos)"
proof (induction data depth pos rule: decode_value.induct)
  case (1 data depth pos)
  show ?case
  proof (cases "depth \<le> maxDepth \<and> pos < length data")
    case False
    then show ?thesis by (subst decode_value.simps) (auto intro: good_read_Inl)
  next
    case True
    then have depth: "depth \<le> maxDepth" and pos: "pos < length data" by simp_all
    define tag where "tag = data ! pos"
    have item: "good_item data (Suc depth) (decode_value data (Suc depth))"
      using "1" True by (simp add: not_less not_le)
    have list: "good_read data depth pos (bind_res (decode_list (Suc (length data))
        (decode_value data (Suc depth)) data n terminated 0 [] (Suc pos)) (\<lambda>(xs, q). Inr (GList xs, q)))"
      for n terminated
      using pos depth by (intro list_good decode_list_good [OF item]) (auto simp: list_ok_def)
    have dict: "good_read data depth pos (bind_res (decode_dict (Suc (length data))
        (decode_value data (Suc depth)) data n terminated 0 [] (Suc pos)) (\<lambda>(xs, q). Inr (GMap xs, q)))"
      for n terminated
      using pos depth by (intro dict_good decode_dict_good [OF item]) (auto simp: dict_ok_def)
    have str: "good_read data depth pos (bind_res (next_bytes data (Suc pos) (int (unat tag - 128)))
        (\<lambda>(b, q). Inr (GString (bytes_string b), q)))" if "unat tag < 192"
      using pos depth that by (intro payload_good) (auto simp: int64_range_def)
    have sized: "good_read data depth pos (decode_sized data pos)"
      if "48 \<le> unat tag" "unat tag \<le> 57"
      using that pos depth by (intro sized_good) (auto simp: tag_def tag_defs)
    show ?thesis
    proof (cases "decode_tagged data tag (Suc pos)")
      case (Some r)
      with decode_value_tagged [OF depth pos, of tag r] tagged_good [OF pos depth Some]
      show ?thesis by (simp add: tag_def)
    next
      case None
      note tags = decode_value_tag [OF depth pos tag_def [symmetric]]
      consider "unat tag < 44" | "70 \<le> unat tag \<and> unat tag < 102"
        | "128 \<le> unat tag \<and> unat tag < 192" | "192 \<le> unat tag"
        | "102 \<le> unat tag \<and> unat tag < 127" | "48 \<le> unat tag \<and> unat tag \<le> 57"
        | "tag = chrList" | "tag = chrDict"
        | "\<not> unat tag < 44 \<and> \<not> (70 \<le> unat tag \<and> unat tag < 102) \<and> \<not> 128 \<le> unat tag \<and>
           \<not> (102 \<le> unat tag \<and> unat tag < 127) \<and> \<not> (48 \<le> unat tag \<and> unat tag \<le> 57) \<and>
           tag \<noteq> chrList \<and> tag \<noteq> chrDict"
        by linarith
      then show ?thesis
      proof cases
        case 9
        then have "decode_value data depth pos = Inl (InvalidTag tag pos)"
          using depth pos None
          by (subst decode_value.simps) (auto simp: Let_def range_defs tag_def)
        then show ?thesis by (simp add: good_read_Inl)
      qed (use tags str sized list dict pos depth in \<open>auto intro!: scalar_good
        simp del: decode_list.simps decode_dict.simps\<close>)
    qed
  qed
qed

lemma Decode_not_stuck: "Decode data \<noteq> Inl Stuck"
  using decode_value_good [of data 0 0]
  by (auto simp: Decode_def good_read_def bind_res_eq_Inl split: if_splits)

lemma Decode_shape:
  assumes "Decode data = Inr v"
  shows "decoded v" and "nesting v \<le> maxDepth" and "weight v \<le> length data"
proof -
  from assms obtain q where v: "decode_value data 0 0 = Inr (v, q)" and "q = length data"
    by (auto simp: Decode_def bind_res_eq_Inr split: if_splits)
  with decode_value_good [of data 0 0]
  show "decoded v" and "nesting v \<le> maxDepth" and "weight v \<le> length data"
    by (auto simp: good_read_def)
qed

end
