(* ===== verification/Proto_Header.thy ===== *)
theory Proto_Header
  imports Xpra_Prelude
begin

text \<open>
  The fixed packet header, \<open>protocol/header.go\<close>: eight bytes in front of every payload.
\<close>

definition HeaderSize :: nat where "HeaderSize = 8"
definition magic :: byte where "magic = 80"
definition FlagRencode :: byte where "FlagRencode = 0x01"
definition FlagCipher :: byte where "FlagCipher = 0x02"
definition FlagYAML :: byte where "FlagYAML = 0x04"
definition FlagFlush :: byte where "FlagFlush = 0x08"
definition FlagRencodeplus :: byte where "FlagRencodeplus = 0x10"
definition compressionLZ4 :: byte where "compressionLZ4 = 0x10"
definition compressionBrotli :: byte where "compressionBrotli = 0x40"
definition compressionZstd :: byte where "compressionZstd = 0x80"
definition maxPayloadSize :: nat where "maxPayloadSize = 67108864"
definition maxPacketIndex :: nat where "maxPacketIndex = 15"

record header =
  flags :: byte
  compression :: byte
  index :: byte
  payload_length :: "32 word"

datatype header_error =
    ShortHeader nat
  | BadMagic byte
  | ZeroLengthPayload
  | PayloadTooLarge "32 word"
  | IndexTooLarge byte

text \<open>\<open>encodeHeader\<close>: the length is narrowed to 32 bits, as \<open>uint32(payloadLen)\<close> does.\<close>

definition encodeHeader :: "byte \<Rightarrow> gint \<Rightarrow> bytes" where
  "encodeHeader fl payloadLen =
     [magic, fl, 0, 0] @ be_bytes 4 (ucast payloadLen :: 32 word)"

definition parseHeader :: "bytes \<Rightarrow> header_error + header" where
  "parseHeader b =
     (if length b < HeaderSize then Inl (ShortHeader (length b))
      else if b ! 0 \<noteq> magic then Inl (BadMagic (b ! 0))
      else
        let h = \<lparr>flags = b ! 1, compression = b ! 2, index = b ! 3,
                 payload_length = be_word (take 4 (drop 4 b))\<rparr> in
        if payload_length h = 0 then Inl ZeroLengthPayload
        else if unat (payload_length h) > maxPayloadSize
        then Inl (PayloadTooLarge (payload_length h))
        else if unat (index h) > maxPacketIndex then Inl (IndexTooLarge (index h))
        else Inr h)"

section \<open>Lemmas\<close>

lemma length_encodeHeader [simp]: "length (encodeHeader fl n) = HeaderSize"
  by (simp add: encodeHeader_def HeaderSize_def)

lemma be_word_be_bytes_32 [simp]: "be_word (be_bytes 4 (w :: 32 word)) = w"
  by (rule be_word_be_bytes) simp

lemma ucast_length:
  assumes "n < 2 ^ 32"
  shows "unat (ucast (of_nat n :: gint) :: 32 word) = n"
  using assms by (simp add: unsigned_ucast_eq unsigned_of_nat take_bit_nat_eq_self)

lemma parse_encodeHeader:
  assumes "0 < n" and "n \<le> maxPayloadSize"
  shows "parseHeader (encodeHeader fl (of_nat n)) =
    Inr \<lparr>flags = fl, compression = 0, index = 0, payload_length = of_nat n\<rparr>"
proof -
  let ?w = "ucast (of_nat n :: gint) :: 32 word"
  have u: "unat ?w = n"
    using assms by (intro ucast_length) (simp add: maxPayloadSize_def)
  then have "?w \<noteq> 0" using assms(1) by auto
  moreover have "of_nat (unat ?w) = ?w" by simp
  then have "?w = of_nat n" by (simp only: u)
  ultimately show ?thesis
    using u assms by (simp add: parseHeader_def encodeHeader_def HeaderSize_def Let_def
        numeral_2_eq_2 numeral_3_eq_3)
qed

lemma parseHeader_bounds:
  assumes "parseHeader b = Inr h"
  shows "0 < unat (payload_length h)" "unat (payload_length h) \<le> maxPayloadSize"
    "unat (index h) \<le> maxPacketIndex" "HeaderSize \<le> length b"
  using assms by (auto simp: parseHeader_def Let_def unat_gt_0 split: if_splits)

text \<open>Exactly the well-formed headers are accepted, and the fields are the bytes of the header.\<close>

lemma parseHeader_iff:
  "parseHeader b = Inr h \<longleftrightarrow>
     HeaderSize \<le> length b \<and> b ! 0 = magic \<and>
     h = \<lparr>flags = b ! 1, compression = b ! 2, index = b ! 3,
          payload_length = be_word (take 4 (drop 4 b))\<rparr> \<and>
     0 < unat (payload_length h) \<and> unat (payload_length h) \<le> maxPayloadSize \<and>
     unat (index h) \<le> maxPacketIndex"
  by (auto simp: parseHeader_def Let_def unat_gt_0 split: if_splits)

end
