(* ===== verification/Proto_Packet.thy ===== *)
theory Proto_Packet
  imports Rencode_Value
begin

text \<open>
  Typed access to decoded packets, \<open>protocol/packet.go\<close> and \<open>protocol/options.go\<close>.  A
  \<open>Packet\<close> is a list of dynamic values.  A \<open>Dict\<close> is a Go map that may be \<open>nil\<close>, written
  \<open>None\<close>; reading a nil map finds nothing, as in Go.  Every accessor returns a zero value
  for a missing or wrongly typed element.
\<close>

type_synonym packet = "any list"
type_synonym gdict = "dict option"

section \<open>Packet accessors\<close>

definition pkt_at :: "packet \<Rightarrow> nat \<Rightarrow> any" where
  "pkt_at p i = (if i \<ge> length p then GNil else p ! i)"

definition any_int :: "any \<Rightarrow> gint" where
  "any_int v = (case v of GInt64 n \<Rightarrow> n | _ \<Rightarrow> 0)"

definition any_str :: "any \<Rightarrow> string" where
  "any_str v = (case v of GString s \<Rightarrow> s | GBytes b \<Rightarrow> bytes_string b | _ \<Rightarrow> [])"

definition any_bytes :: "any \<Rightarrow> bytes option" where
  "any_bytes v = (case v of GBytes b \<Rightarrow> Some b | GString s \<Rightarrow> Some (string_bytes s) | _ \<Rightarrow> None)"

definition any_bool :: "any \<Rightarrow> bool" where
  "any_bool v = (case v of GBool b \<Rightarrow> b | GInt64 n \<Rightarrow> n \<noteq> 0 | _ \<Rightarrow> False)"

definition any_dict :: "any \<Rightarrow> gdict" where
  "any_dict v = (case v of GMap d \<Rightarrow> Some d | _ \<Rightarrow> None)"

text \<open>The type assertion \<open>v.([]any)\<close>.\<close>

definition any_list :: "any \<Rightarrow> any list option" where
  "any_list v = (case v of GList xs \<Rightarrow> Some xs | _ \<Rightarrow> None)"

lemma any_list_Some [simp]: "any_list v = Some xs \<longleftrightarrow> v = GList xs"
  by (cases v) (auto simp: any_list_def)

lemma any_list_simps [simp]: "any_list (GList xs) = Some xs"
  by (simp add: any_list_def)

definition pkt_Int :: "packet \<Rightarrow> nat \<Rightarrow> gint" where "pkt_Int p i = any_int (pkt_at p i)"
definition pkt_Str :: "packet \<Rightarrow> nat \<Rightarrow> string" where "pkt_Str p i = any_str (pkt_at p i)"
definition pkt_Bytes :: "packet \<Rightarrow> nat \<Rightarrow> bytes option" where
  "pkt_Bytes p i = any_bytes (pkt_at p i)"
definition pkt_Bool :: "packet \<Rightarrow> nat \<Rightarrow> bool" where "pkt_Bool p i = any_bool (pkt_at p i)"
definition pkt_Dict :: "packet \<Rightarrow> nat \<Rightarrow> gdict" where "pkt_Dict p i = any_dict (pkt_at p i)"
definition pkt_Type :: "packet \<Rightarrow> string" where "pkt_Type p = pkt_Str p 0"

section \<open>Dictionary accessors\<close>

definition dict_entry :: "gdict \<Rightarrow> string \<Rightarrow> any option" where
  "dict_entry d k = (case d of None \<Rightarrow> None | Some m \<Rightarrow> map_of m k)"

text \<open>The expression \<open>d[k]\<close>, which is \<open>nil\<close> for an absent key.\<close>

definition dict_get :: "gdict \<Rightarrow> string \<Rightarrow> any" where
  "dict_get d k = (case dict_entry d k of None \<Rightarrow> GNil | Some v \<Rightarrow> v)"

definition dict_Str :: "gdict \<Rightarrow> string \<Rightarrow> string" where "dict_Str d k = any_str (dict_get d k)"
definition dict_Int :: "gdict \<Rightarrow> string \<Rightarrow> gint" where "dict_Int d k = any_int (dict_get d k)"
definition dict_Bool :: "gdict \<Rightarrow> string \<Rightarrow> bool" where "dict_Bool d k = any_bool (dict_get d k)"
definition dict_Has :: "gdict \<Rightarrow> string \<Rightarrow> bool" where "dict_Has d k = (dict_entry d k \<noteq> None)"
definition dict_Dict :: "gdict \<Rightarrow> string \<Rightarrow> gdict" where "dict_Dict d k = any_dict (dict_get d k)"
definition dict_Bytes :: "gdict \<Rightarrow> string \<Rightarrow> bytes option" where
  "dict_Bytes d k = any_bytes (dict_get d k)"

lemmas accessor_defs =
  pkt_Int_def pkt_Str_def pkt_Bytes_def pkt_Bool_def pkt_Dict_def pkt_Type_def pkt_at_def
  any_int_def any_str_def any_bytes_def any_bool_def any_dict_def
  dict_entry_def dict_get_def dict_Str_def dict_Int_def dict_Bool_def dict_Has_def
  dict_Dict_def dict_Bytes_def

section \<open>Packet names\<close>

definition canonicalNames :: "(string \<times> string) list" where
  "canonicalNames =
      [(''new-window'', ''window-create''),
       (''lost-window'', ''window-destroy''),
       (''draw'', ''window-draw''),
       (''eos'', ''window-eos''),
       (''raise-window'', ''window-raise''),
       (''restack-window'', ''window-restack''),
       (''initiate-moveresize'', ''window-initiate-moveresize''),
       (''configure-override-redirect'', ''window-move-resize''),
       (''bell'', ''window-bell''),
       (''notify_show'', ''notification-show''),
       (''notify_close'', ''notification-close''),
       (''ping_echo'', ''ping-echo'')]"

text \<open>\<open>Canonical\<close>, with the setting \<open>BackwardsCompatible\<close> as its first argument.\<close>

definition Canonical :: "bool \<Rightarrow> string \<Rightarrow> string" where
  "Canonical backwardsCompatible packetType =
     (if backwardsCompatible
      then (case map_of canonicalNames packetType of Some modern \<Rightarrow> modern | None \<Rightarrow> packetType)
      else packetType)"

section \<open>The environment switch\<close>

text \<open>
  \<open>strings.ToLower\<close> on the bytes of the value: no letter outside ASCII has one of the
  letters of the words below as its lower case, so only ASCII matters here.
\<close>

definition lower_char :: "char \<Rightarrow> char" where
  "lower_char c = (let k = of_char c :: nat in if 65 \<le> k \<and> k \<le> 90 then char_of (k + 32) else c)"

definition envBool :: "string \<Rightarrow> bool \<Rightarrow> bool" where
  "envBool raw fallback =
     (let val = map lower_char raw in
      if val = [] then fallback
      else if val \<in> {''yes'', ''true'', ''on''} then True
      else if val \<in> {''no'', ''false'', ''off''} then False
      else case atoi val of None \<Rightarrow> fallback | Some n \<Rightarrow> n \<noteq> 0)"

section \<open>Lemmas\<close>

lemma Canonical_modern [simp]: "Canonical False name = name"
  by (simp add: Canonical_def)

text \<open>No modern name is a legacy name, so normalising twice changes nothing.\<close>

lemma canonicalNames_modern: "list_all (\<lambda>p. map_of canonicalNames (snd p) = None) canonicalNames"
  by code_simp

lemma Canonical_idem: "Canonical bc (Canonical bc name) = Canonical bc name"
proof (cases "map_of canonicalNames name")
  case (Some m)
  then have "(name, m) \<in> set canonicalNames" by (rule map_of_SomeD)
  then have "map_of canonicalNames m = None"
    using canonicalNames_modern by (auto simp: list_all_iff)
  with Some show ?thesis by (simp add: Canonical_def)
next
  case None
  then show ?thesis by (simp add: Canonical_def)
qed

lemma pkt_at_outside [simp]: "length p \<le> i \<Longrightarrow> pkt_at p i = GNil"
  by (simp add: pkt_at_def)

end
