(* ===== verification/Proto_Chunks.thy ===== *)
theory Proto_Chunks
  imports Proto_Header Proto_Packet
begin

text \<open>
  Out-of-band packet chunks, \<open>rawChunkState\<close> of \<open>protocol/conn.go\<close>: large binary elements
  of a packet arrive ahead of it, each under the index of the element it stands for, and
  are spliced into the main packet when that arrives.
\<close>

definition maxRawChunks :: nat where "maxRawChunks = 3"

text \<open>The map of pending chunks is listed in the order of arrival; \<open>add\<close> keeps its keys distinct.\<close>

record raw_chunks =
  chunk_packets :: "(byte \<times> bytes) list"
  chunk_size :: int

definition no_chunks :: raw_chunks where
  "no_chunks = \<lparr>chunk_packets = [], chunk_size = 0\<rparr>"

datatype chunk_error =
    EmptyChunk byte
  | DuplicateChunk byte
  | TooManyChunks
  | ChunksTooLarge
  | ReassembledTooLarge
  | ChunkOutside byte nat
  | NonEmptyBytes byte
  | NonEmptyString byte
  | BadPlaceholder byte any

definition chunks_add :: "raw_chunks \<Rightarrow> byte \<Rightarrow> bytes \<Rightarrow> chunk_error + raw_chunks" where
  "chunks_add s ix payload =
     (if length payload = 0 then Inl (EmptyChunk ix)
      else if map_of (chunk_packets s) ix \<noteq> None then Inl (DuplicateChunk ix)
      else if length (chunk_packets s) \<ge> maxRawChunks then Inl TooManyChunks
      else if int (length payload) > int maxPayloadSize - chunk_size s then Inl ChunksTooLarge
      else Inr (s\<lparr>chunk_packets := chunk_packets s @ [(ix, payload)],
                  chunk_size := chunk_size s + int (length payload)\<rparr>))"

text \<open>The body of the loop of \<open>apply\<close> for one packet index.\<close>

definition splice_chunk :: "(byte \<times> bytes) list \<Rightarrow> byte \<Rightarrow> packet \<Rightarrow> chunk_error + packet" where
  "splice_chunk pending ix p =
     (case map_of pending ix of
        None \<Rightarrow> Inr p
      | Some payload \<Rightarrow>
          if unat ix \<ge> length p then Inl (ChunkOutside ix (length p))
          else (case p ! unat ix of
              GBytes b \<Rightarrow> if length b \<noteq> 0 then Inl (NonEmptyBytes ix)
                          else Inr (p[unat ix := GBytes payload])
            | GString s \<Rightarrow> if s \<noteq> [] then Inl (NonEmptyString ix)
                           else Inr (p[unat ix := GBytes payload])
            | v \<Rightarrow> Inl (BadPlaceholder ix v)))"

fun splice_chunks :: "(byte \<times> bytes) list \<Rightarrow> byte list \<Rightarrow> packet \<Rightarrow> chunk_error + packet" where
  "splice_chunks pending [] p = Inr p"
| "splice_chunks pending (ix # ixs) p =
     bind_res (splice_chunk pending ix p) (splice_chunks pending ixs)"

definition packet_indexes :: "byte list" where
  "packet_indexes = map of_nat [1..<Suc maxPacketIndex]"

definition chunks_apply ::
    "raw_chunks \<Rightarrow> packet \<Rightarrow> nat \<Rightarrow> chunk_error + (packet \<times> raw_chunks)" where
  "chunks_apply s p mainSize =
     (if length (chunk_packets s) = 0 then Inr (p, s)
      else if int mainSize > int maxPayloadSize - chunk_size s then Inl ReassembledTooLarge
      else bind_res (splice_chunks (chunk_packets s) packet_indexes p)
             (\<lambda>p'. Inr (p', s\<lparr>chunk_packets := [], chunk_size := 0\<rparr>)))"

section \<open>The invariant of the pending chunks\<close>

text \<open>
  At most three chunks with distinct indexes in 1..15, none empty, and \<open>size\<close> is their
  total length, which stays within the packet limit.
\<close>

definition chunks_inv :: "raw_chunks \<Rightarrow> bool" where
  "chunks_inv s \<longleftrightarrow>
     distinct (map fst (chunk_packets s)) \<and> length (chunk_packets s) \<le> maxRawChunks \<and>
     (\<forall>(ix, payload)\<in>set (chunk_packets s).
        payload \<noteq> [] \<and> 0 < unat ix \<and> unat ix \<le> maxPacketIndex) \<and>
     chunk_size s = int (sum_list (map (\<lambda>p. length (snd p)) (chunk_packets s))) \<and>
     chunk_size s \<le> int maxPayloadSize"

lemma chunks_inv_empty [simp]: "chunks_inv no_chunks"
  by (simp add: chunks_inv_def no_chunks_def)

lemma chunks_add_inv:
  assumes "chunks_inv s" and "chunks_add s ix payload = Inr s'"
    and "0 < unat ix" "unat ix \<le> maxPacketIndex"
  shows "chunks_inv s'"
proof -
  have "ix \<notin> fst ` set (chunk_packets s)"
    using assms(2) by (auto simp: chunks_add_def map_of_eq_None_iff split: if_splits)
  with assms show ?thesis
    by (auto simp: chunks_add_def chunks_inv_def split: if_splits)
qed

lemma chunks_add_ok_iff:
  "is_ok (chunks_add s ix payload) \<longleftrightarrow>
     payload \<noteq> [] \<and> ix \<notin> fst ` set (chunk_packets s) \<and>
     length (chunk_packets s) < maxRawChunks \<and>
     chunk_size s + int (length payload) \<le> int maxPayloadSize"
  by (auto simp: chunks_add_def map_of_eq_None_iff)

lemma chunks_apply_inv:
  assumes "chunks_inv s" and "chunks_apply s p n = Inr (p', s')"
  shows "chunk_packets s' = []" "chunk_size s' = 0" "chunks_inv s'"
  using assms
  by (auto simp: chunks_apply_def bind_res_eq_Inr chunks_inv_def split: if_splits)

section \<open>What splicing does to a packet\<close>

definition empty_placeholder :: "any \<Rightarrow> bool" where
  "empty_placeholder v \<longleftrightarrow> v = GBytes [] \<or> v = GString []"

lemma splice_chunk_Inr:
  "splice_chunk pending ix p = Inr p' \<longleftrightarrow>
     (case map_of pending ix of
        None \<Rightarrow> p' = p
      | Some payload \<Rightarrow> unat ix < length p \<and> empty_placeholder (p ! unat ix) \<and>
          p' = p[unat ix := GBytes payload])"
  by (auto simp: splice_chunk_def empty_placeholder_def split: option.splits any.splits if_splits)

text \<open>
  The packet after splicing, element by element: an element with a chunk is the chunk, any
  other is as it was.
\<close>

definition spliced :: "(byte \<times> bytes) list \<Rightarrow> byte list \<Rightarrow> packet \<Rightarrow> packet" where
  "spliced pending ixs p =
     map (\<lambda>i. if \<exists>ix\<in>set ixs. unat ix = i \<and> map_of pending ix \<noteq> None
              then GBytes (the (map_of pending (of_nat i))) else p ! i) [0..<length p]"

lemma length_spliced [simp]: "length (spliced pending ixs p) = length p"
  by (simp add: spliced_def)

lemma spliced_Nil [simp]: "spliced pending [] p = p"
  by (simp add: spliced_def map_nth)

lemma spliced_Cons_None:
  "map_of pending ix = None \<Longrightarrow> spliced pending (ix # ixs) p = spliced pending ixs p"
  by (auto simp: spliced_def)

lemma spliced_Cons_Some:
  assumes "map_of pending ix = Some payload" and "ix \<notin> set ixs" and "unat ix < length p"
  shows "spliced pending (ix # ixs) p = spliced pending ixs (p[unat ix := GBytes payload])"
  using assms by (intro nth_equalityI) (auto simp: spliced_def nth_list_update)

lemma splice_chunks_Inr:
  assumes "distinct ixs"
  shows "splice_chunks pending ixs p = Inr p' \<longleftrightarrow>
     p' = spliced pending ixs p \<and>
     (\<forall>ix\<in>set ixs. map_of pending ix \<noteq> None \<longrightarrow>
        unat ix < length p \<and> empty_placeholder (p ! unat ix))"
  using assms
proof (induction ixs arbitrary: p)
  case Nil
  then show ?case by auto
next
  case (Cons ix ixs)
  show ?case
  proof (cases "map_of pending ix")
    case None
    then have "splice_chunk pending ix p = Inr p" by (simp add: splice_chunk_def)
    with Cons None show ?thesis by (auto simp: spliced_Cons_None)
  next
    case (Some payload)
    show ?thesis
    proof (cases "unat ix < length p \<and> empty_placeholder (p ! unat ix)")
      case True
      then have "splice_chunk pending ix p = Inr (p[unat ix := GBytes payload])"
        using Some by (simp add: splice_chunk_Inr)
      moreover have "unat ix \<noteq> unat i" if "i \<in> set ixs" for i
        using Cons.prems that by (metis distinct.simps(2) unsigned_word_eqI)
      ultimately show ?thesis
        using Cons True Some by (auto simp: spliced_Cons_Some)
    next
      case False
      then have "\<nexists>q. splice_chunk pending ix p = Inr q"
        using Some by (simp add: splice_chunk_Inr)
      then have "\<exists>e. splice_chunk pending ix p = Inl e"
        by (cases "splice_chunk pending ix p") auto
      with False Some show ?thesis by auto
    qed
  qed
qed

lemma packet_indexes_unat: "map unat packet_indexes = [1..<Suc maxPacketIndex]"
  unfolding packet_indexes_def maxPacketIndex_def by code_simp

lemma distinct_packet_indexes [simp]: "distinct packet_indexes"
  by (metis distinct_map distinct_upt packet_indexes_unat)

lemma set_packet_indexes:
  "ix \<in> set packet_indexes \<longleftrightarrow> 0 < unat ix \<and> unat ix \<le> maxPacketIndex"
proof -
  have "unat ix \<in> unat ` set packet_indexes \<longleftrightarrow> unat ix \<in> set [1..<Suc maxPacketIndex]"
    by (simp only: set_map [symmetric] packet_indexes_unat)
  then show ?thesis by (auto simp: image_iff word_unat_eq_iff [symmetric])
qed

end
