(* ===== verification/Proto_Reader.thy ===== *)
theory Proto_Reader
  imports Proto_Chunks Rencode_Safety
begin

text \<open>
  The receiving side of a connection: \<open>decompress\<close> and \<open>readLoop\<close> of \<open>protocol/conn.go\<close>.

  The stream is what the peer will ever send and how the stream then ends.  LZ4 block
  decompression comes from a third-party package and is the parameter \<open>lz4\<close>: given the
  compressed block and the size of the output buffer it returns the bytes it wrote there,
  or an error.
\<close>

section \<open>Decompression\<close>

type_synonym lz4 = "bytes \<Rightarrow> nat \<Rightarrow> string + bytes"

datatype decompress_error =
    UnadvertisedZstd
  | UnadvertisedBrotli
  | UnadvertisedZlib
  | Lz4TooShort nat
  | Lz4TooLarge "32 word"
  | Lz4Failed string
  | Lz4SizeMismatch nat "32 word"

definition le_word32 :: "bytes \<Rightarrow> 32 word" where
  "le_word32 b = be_word (rev b)"

definition decompress :: "lz4 \<Rightarrow> byte \<Rightarrow> bytes \<Rightarrow> decompress_error + bytes" where
  "decompress lz4 cbyte payload =
     (if cbyte AND compressionLZ4 = 0 then
        (if cbyte AND compressionZstd \<noteq> 0 then Inl UnadvertisedZstd
         else if cbyte AND compressionBrotli \<noteq> 0 then Inl UnadvertisedBrotli
         else Inl UnadvertisedZlib)
      else if length payload < 4 then Inl (Lz4TooShort (length payload))
      else
        let size = le_word32 (take 4 payload) in
        if unat size > maxPayloadSize then Inl (Lz4TooLarge size)
        else case lz4 (drop 4 payload) (unat size) of
            Inl e \<Rightarrow> Inl (Lz4Failed e)
          | Inr out \<Rightarrow>
              if (of_nat (length out) :: 32 word) \<noteq> size
              then Inl (Lz4SizeMismatch (length out) size)
              else Inr out)"

section \<open>Reading from the stream\<close>

datatype io_error = IoEOF | IoUnexpectedEOF | IoFailed string

text \<open>How the stream ends after its last byte: the peer closed it, or reading fails.\<close>

datatype stream_end = PeerClosed | ReadFails string

definition end_error :: "stream_end \<Rightarrow> bool \<Rightarrow> io_error" where
  "end_error fin partial =
     (case fin of PeerClosed \<Rightarrow> (if partial then IoUnexpectedEOF else IoEOF)
      | ReadFails e \<Rightarrow> IoFailed e)"

text \<open>\<open>io.ReadFull\<close> for a positive number of bytes.\<close>

definition ReadFull :: "nat \<Rightarrow> bytes \<Rightarrow> stream_end \<Rightarrow> io_error + (bytes \<times> bytes)" where
  "ReadFull n stream fin =
     (if n \<le> length stream then Inr (take n stream, drop n stream)
      else Inl (end_error fin (stream \<noteq> [])))"

section \<open>The read loop\<close>

datatype read_error =
    PendingChunks nat
  | HeaderRead io_error
  | InvalidHeader header_error
  | PayloadRead "32 word" io_error
  | Decompress decompress_error
  | Chunk chunk_error
  | NotRencodeplus byte
  | Decoding dec_error
  | NotAList any

text \<open>
  What one turn of the loop does: end with an error or (\<open>None\<close>) at the end of the stream,
  keep a chunk, or deliver a packet.  The two last carry the rest of the stream.
\<close>

datatype read_step =
    Stop "read_error option"
  | Kept raw_chunks bytes
  | Delivered packet raw_chunks bytes

definition handle_payload ::
    "lz4 \<Rightarrow> header \<Rightarrow> bytes \<Rightarrow> raw_chunks \<Rightarrow> bytes \<Rightarrow> read_step" where
  "handle_payload lz4 h raw chunks rest =
     (case (if compression h \<noteq> 0 then decompress lz4 (compression h) raw else Inr raw) of
        Inl e \<Rightarrow> Stop (Some (Decompress e))
      | Inr payload \<Rightarrow>
          if index h \<noteq> 0 then
            (case chunks_add chunks (index h) payload of
               Inl e \<Rightarrow> Stop (Some (Chunk e))
             | Inr chunks' \<Rightarrow> Kept chunks' rest)
          else if flags h AND FlagRencodeplus = 0 then Stop (Some (NotRencodeplus (flags h)))
          else
            (case Decode payload of
               Inl e \<Rightarrow> Stop (Some (Decoding e))
             | Inr v \<Rightarrow>
                 (case any_list v of
                    None \<Rightarrow> Stop (Some (NotAList v))
                  | Some list \<Rightarrow>
                      (case chunks_apply chunks list (length payload) of
                         Inl e \<Rightarrow> Stop (Some (Chunk e))
                       | Inr (p, chunks') \<Rightarrow> Delivered p chunks' rest))))"

definition read_turn :: "lz4 \<Rightarrow> stream_end \<Rightarrow> bytes \<Rightarrow> raw_chunks \<Rightarrow> read_step" where
  "read_turn lz4 fin stream chunks =
     (case ReadFull HeaderSize stream fin of
        Inl e \<Rightarrow>
          (if e = IoEOF \<and> length (chunk_packets chunks) \<noteq> 0
           then Stop (Some (PendingChunks (length (chunk_packets chunks))))
           else if e \<noteq> IoEOF then Stop (Some (HeaderRead e))
           else Stop None)
      | Inr (headerBuf, rest) \<Rightarrow>
          (case parseHeader headerBuf of
             Inl e \<Rightarrow> Stop (Some (InvalidHeader e))
           | Inr h \<Rightarrow>
               (case ReadFull (unat (payload_length h)) rest fin of
                  Inl e \<Rightarrow> Stop (Some (PayloadRead (payload_length h) e))
                | Inr (raw, rest') \<Rightarrow> handle_payload lz4 h raw chunks rest')))"

lemma ReadFull_Inr:
  "ReadFull n stream fin = Inr (b, rest) \<longleftrightarrow> n \<le> length stream \<and> b = take n stream \<and> rest = drop n stream"
  by (auto simp: ReadFull_def)

lemma handle_payload_rest:
  "handle_payload lz4 h raw chunks rest = Kept c r \<Longrightarrow> r = rest"
  "handle_payload lz4 h raw chunks rest = Delivered p c r \<Longrightarrow> r = rest"
  by (auto simp: handle_payload_def split: sum.splits if_splits option.splits prod.splits)

text \<open>Every turn that goes on has taken a whole header off the stream.\<close>

lemma read_turn_progress:
  assumes "read_turn lz4 fin stream chunks = Kept c r \<or> read_turn lz4 fin stream chunks = Delivered p c r"
  shows "length r < length stream"
proof -
  from assms obtain headerBuf rest h raw rest' where
      hd: "ReadFull HeaderSize stream fin = Inr (headerBuf, rest)"
    and pl: "ReadFull (unat (payload_length h)) rest fin = Inr (raw, rest')"
    and "handle_payload lz4 h raw chunks rest' = Kept c r \<or>
      handle_payload lz4 h raw chunks rest' = Delivered p c r"
    by (auto simp: read_turn_def split: sum.splits if_splits prod.splits)
  then have "r = rest'" by (auto dest: handle_payload_rest)
  then show ?thesis using hd pl by (auto simp: ReadFull_Inr HeaderSize_def)
qed

lemma read_turn_less:
  "read_turn lz4 fin stream chunks = Kept c r \<Longrightarrow> length r < length stream"
  "read_turn lz4 fin stream chunks = Delivered p c r \<Longrightarrow> length r < length stream"
  using read_turn_progress by blast+

text \<open>
  The loop.  Its result lists the packets sent on the \<open>packets\<close> channel and the error, if
  any, that \<open>fail\<close> is called with.
\<close>

function readLoop ::
    "lz4 \<Rightarrow> stream_end \<Rightarrow> bytes \<Rightarrow> raw_chunks \<Rightarrow> packet list \<times> read_error option" where
  "readLoop lz4 fin stream chunks =
     (case read_turn lz4 fin stream chunks of
        Stop e \<Rightarrow> ([], e)
      | Kept chunks' rest \<Rightarrow> readLoop lz4 fin rest chunks'
      | Delivered p chunks' rest \<Rightarrow>
          (case readLoop lz4 fin rest chunks' of (ps, e) \<Rightarrow> (p # ps, e)))"
  by pat_completeness auto
termination
  by (relation "measure (\<lambda>(lz4, fin, stream, chunks). length stream)")
    (auto dest: read_turn_less)

declare readLoop.simps [simp del]

definition receive :: "lz4 \<Rightarrow> stream_end \<Rightarrow> bytes \<Rightarrow> packet list \<times> read_error option" where
  "receive lz4 fin stream = readLoop lz4 fin stream no_chunks"

section \<open>What the loop guarantees of a delivered packet\<close>

text \<open>The documented behaviour of block decompression: it never writes past the buffer.\<close>

definition lz4_bounded :: "lz4 \<Rightarrow> bool" where
  "lz4_bounded lz4 \<longleftrightarrow> (\<forall>src n out. lz4 src n = Inr out \<longrightarrow> length out \<le> n)"

lemma decompress_bounded:
  "lz4_bounded lz4 \<Longrightarrow> decompress lz4 c payload = Inr out \<Longrightarrow> length out \<le> maxPayloadSize"
proof -
  assume lz4: "lz4_bounded lz4" and "decompress lz4 c payload = Inr out"
  then obtain src n where "lz4 src n = Inr out" and "n \<le> maxPayloadSize"
    by (auto simp: decompress_def Let_def not_less split: if_splits sum.splits)
  moreover from this have "length out \<le> n"
    using lz4 by (auto simp: lz4_bounded_def)
  ultimately show ?thesis by simp
qed

lemma decompress_only_lz4:
  "decompress lz4 c payload = Inr out \<Longrightarrow> c AND compressionLZ4 \<noteq> 0"
  by (auto simp: decompress_def split: if_splits)

definition chunk_bytes :: "(byte \<times> bytes) list \<Rightarrow> byte \<Rightarrow> nat" where
  "chunk_bytes pending ix = (case map_of pending ix of None \<Rightarrow> 0 | Some b \<Rightarrow> length b)"

lemma sum_chunk_bytes:
  assumes "distinct (map fst pending)" and "distinct ixs"
  shows "sum_list (map (chunk_bytes pending) ixs) \<le> sum_list (map (\<lambda>p. length (snd p)) pending)"
proof -
  let ?K = "fst ` set pending"
  have zero: "chunk_bytes pending ix = 0" if "ix \<notin> ?K" for ix
    using that by (simp add: chunk_bytes_def map_of_eq_None_iff [symmetric])
  have "sum_list (map (chunk_bytes pending) ixs) = sum (chunk_bytes pending) (set ixs)"
    using assms(2) by (simp add: sum_list_distinct_conv_sum_set)
  also have "\<dots> = sum (chunk_bytes pending) (set ixs \<inter> ?K)"
    using zero by (intro sum.mono_neutral_right) auto
  also have "\<dots> \<le> sum (chunk_bytes pending) ?K"
    by (intro sum_mono2) auto
  also have "\<dots> = sum_list (map (chunk_bytes pending) (map fst pending))"
    using sum_list_distinct_conv_sum_set [OF assms(1), of "chunk_bytes pending"] by simp
  also have "\<dots> = sum_list (map (\<lambda>p. length (snd p)) pending)"
    using assms(1) by (auto simp: chunk_bytes_def intro!: arg_cong [of _ _ sum_list])
  finally show ?thesis .
qed

lemma list_weight_update:
  "i < length xs \<Longrightarrow> list_weight (xs[i := x]) + weight (xs ! i) = list_weight xs + weight x"
  by (induction xs arbitrary: i) (auto simp: list_weight_def split: nat.split)

lemma splice_chunk_weight:
  assumes "splice_chunk pending ix p = Inr p'"
  shows "list_weight p' \<le> list_weight p + chunk_bytes pending ix"
proof (cases "map_of pending ix")
  case None
  with assms show ?thesis by (simp add: splice_chunk_Inr)
next
  case (Some payload)
  with assms have "unat ix < length p" "weight (p ! unat ix) = 1" "p' = p[unat ix := GBytes payload]"
    by (auto simp: splice_chunk_Inr empty_placeholder_def)
  then show ?thesis
    using list_weight_update [of "unat ix" p "GBytes payload"] Some
    by (simp add: chunk_bytes_def)
qed

lemma splice_chunks_weight:
  "splice_chunks pending ixs p = Inr p' \<Longrightarrow>
   list_weight p' \<le> list_weight p + sum_list (map (chunk_bytes pending) ixs)"
proof (induction ixs arbitrary: p)
  case Nil
  then show ?case by simp
next
  case (Cons ix ixs)
  then obtain q where "splice_chunk pending ix p = Inr q" "splice_chunks pending ixs q = Inr p'"
    by (auto simp: bind_res_eq_Inr)
  with Cons.IH [of q] splice_chunk_weight show ?case by fastforce
qed

text \<open>A property of packets: what a receiver may rely on.\<close>

definition good_packet :: "packet \<Rightarrow> bool" where
  "good_packet p \<longleftrightarrow> decoded (GList p) \<and> nesting (GList p) \<le> maxDepth \<and>
     weight (GList p) \<le> maxPayloadSize"

lemma nesting_update_bytes:
  "empty_placeholder (p ! i) \<Longrightarrow> i < length p \<Longrightarrow>
   nesting (GList (p[i := GBytes b])) = nesting (GList p)"
proof -
  assume "empty_placeholder (p ! i)" and "i < length p"
  then have "map nesting (p[i := GBytes b]) = map nesting p"
    by (auto simp: map_update empty_placeholder_def intro!: nth_equalityI simp: nth_list_update)
  moreover have "nesting (GList q) = foldr (\<lambda>n m. max (Suc n) m) (map nesting q) 0" for q
    by (simp add: deepest_def foldr_map comp_def)
  ultimately show ?thesis by metis
qed

lemma set_updateD: "x \<in> set (xs[i := v]) \<Longrightarrow> x = v \<or> x \<in> set xs"
  using set_update_subset_insert [of xs i v] by blast

lemma splice_chunk_keeps:
  assumes "splice_chunk pending ix p = Inr p'"
    and "\<forall>(i, b)\<in>set pending. int64_range (int (length b))"
  shows "decoded (GList p) \<Longrightarrow> decoded (GList p')" "nesting (GList p') = nesting (GList p)"
    "length p' = length p"
proof -
  have "p' = p \<or> (\<exists>b. map_of pending ix = Some b \<and> unat ix < length p \<and>
      empty_placeholder (p ! unat ix) \<and> p' = p[unat ix := GBytes b])"
    using assms(1) by (auto simp: splice_chunk_Inr split: option.splits)
  then show "decoded (GList p) \<Longrightarrow> decoded (GList p')" "nesting (GList p') = nesting (GList p)"
    "length p' = length p"
    using assms(2) by (auto simp del: nesting.simps simp: nesting_update_bytes
        dest!: map_of_SomeD set_updateD)
qed

lemma splice_chunks_keeps:
  assumes "\<forall>(i, b)\<in>set pending. int64_range (int (length b))"
  shows "splice_chunks pending ixs p = Inr p' \<Longrightarrow> decoded (GList p) \<Longrightarrow>
    decoded (GList p') \<and> nesting (GList p') = nesting (GList p)"
proof (induction ixs arbitrary: p)
  case Nil
  then show ?case by simp
next
  case (Cons ix ixs)
  then obtain q where "splice_chunk pending ix p = Inr q" "splice_chunks pending ixs q = Inr p'"
    by (auto simp: bind_res_eq_Inr)
  with Cons splice_chunk_keeps [OF _ assms] show ?case by metis
qed

lemma chunks_inv_lengths:
  "chunks_inv c \<Longrightarrow> \<forall>(i, b)\<in>set (chunk_packets c). int64_range (int (length b))"
proof (intro ballI, clarify)
  fix i b
  assume inv: "chunks_inv c" and "(i, b) \<in> set (chunk_packets c)"
  then have "length b \<le> sum_list (map (\<lambda>p. length (snd p)) (chunk_packets c))"
    by (intro member_le_sum_list) (force, simp)
  with inv have "int (length b) \<le> int maxPayloadSize"
    by (auto simp: chunks_inv_def)
  then show "int64_range (int (length b))"
    by (simp add: int64_range_def maxPayloadSize_def)
qed

lemma chunks_apply_good:
  assumes inv: "chunks_inv c" and ap: "chunks_apply c p n = Inr (p', c')"
    and "Decode payload = Inr (GList p)" and "length payload = n" and "n \<le> maxPayloadSize"
  shows "good_packet p'"
proof -
  note shape = Decode_shape [OF assms(3)]
  show ?thesis
  proof (cases "chunk_packets c = []")
    case True
    then show ?thesis using ap shape assms(4,5) by (auto simp: chunks_apply_def good_packet_def)
  next
    case False
    then have sp: "splice_chunks (chunk_packets c) packet_indexes p = Inr p'"
      and room: "int n + chunk_size c \<le> int maxPayloadSize"
      using ap by (auto simp: chunks_apply_def bind_res_eq_Inr split: if_splits)
    have "sum_list (map (chunk_bytes (chunk_packets c)) packet_indexes)
        \<le> sum_list (map (\<lambda>p. length (snd p)) (chunk_packets c))"
      using inv by (intro sum_chunk_bytes) (auto simp: chunks_inv_def)
    with splice_chunks_weight [OF sp]
    have "int (list_weight p') \<le> int (list_weight p) + chunk_size c"
      using inv by (auto simp: chunks_inv_def)
    then have "int (weight (GList p')) \<le> int (weight (GList p)) + chunk_size c"
      by (simp add: list_weight_def)
    with room shape(3) assms(4) have "weight (GList p') \<le> maxPayloadSize" by linarith
    then show ?thesis
      using splice_chunks_keeps [OF chunks_inv_lengths [OF inv] sp shape(1)] shape(2)
      by (simp add: good_packet_def del: weight.simps decoded.simps nesting.simps)
  qed
qed

lemma handle_payload_good:
  assumes lz4: "lz4_bounded lz4" and inv: "chunks_inv chunks"
    and h: "unat (index h) \<le> maxPacketIndex" "length raw \<le> maxPayloadSize"
  shows "handle_payload lz4 h raw chunks rest = Kept c r \<Longrightarrow> chunks_inv c"
    and "handle_payload lz4 h raw chunks rest = Delivered p c r \<Longrightarrow> chunks_inv c \<and> good_packet p"
proof -
  define pl where "pl = (if compression h \<noteq> 0 then decompress lz4 (compression h) raw else Inr raw)"
  have len: "length payload \<le> maxPayloadSize" if "pl = Inr payload" for payload
    using that h decompress_bounded [OF lz4] by (auto simp: pl_def split: if_splits)
  { assume "handle_payload lz4 h raw chunks rest = Kept c r"
    then obtain payload where "index h \<noteq> 0" and "chunks_add chunks (index h) payload = Inr c"
      by (auto simp: handle_payload_def split: sum.splits if_splits option.splits prod.splits)
    with chunks_add_inv [OF inv this(2)] h(1) show "chunks_inv c"
      by (simp add: unat_gt_0) }
  { assume "handle_payload lz4 h raw chunks rest = Delivered p c r"
    then obtain payload q where pl: "pl = Inr payload" and q: "Decode payload = Inr (GList q)"
      and ap: "chunks_apply chunks q (length payload) = Inr (p, c)"
      by (auto simp: handle_payload_def pl_def split: sum.splits if_splits option.splits prod.splits)
    show "chunks_inv c \<and> good_packet p"
      using chunks_apply_good [OF inv ap q refl len [OF pl]] chunks_apply_inv(3) [OF inv ap] by simp }
qed

lemma read_turn_good:
  assumes "lz4_bounded lz4" and "chunks_inv chunks"
  shows "read_turn lz4 fin stream chunks = Kept c r \<Longrightarrow> chunks_inv c"
    and "read_turn lz4 fin stream chunks = Delivered p c r \<Longrightarrow> chunks_inv c \<and> good_packet p"
proof -
  have h: "unat (index h) \<le> maxPacketIndex \<and> length raw \<le> maxPayloadSize"
    if "parseHeader b = Inr h" "ReadFull (unat (payload_length h)) rest fin = Inr (raw, rest')"
    for b h raw rest rest'
    using parseHeader_bounds [OF that(1)] that(2) by (auto simp: ReadFull_Inr)
  { assume "read_turn lz4 fin stream chunks = Kept c r"
    then obtain b rest hd raw rest' where "parseHeader b = Inr hd"
      and "ReadFull (unat (payload_length hd)) rest fin = Inr (raw, rest')"
      and "handle_payload lz4 hd raw chunks rest' = Kept c r"
      by (auto simp: read_turn_def split: sum.splits if_splits prod.splits)
    with h handle_payload_good(1) [OF assms] show "chunks_inv c" by blast }
  { assume "read_turn lz4 fin stream chunks = Delivered p c r"
    then obtain b rest hd raw rest' where "parseHeader b = Inr hd"
      and "ReadFull (unat (payload_length hd)) rest fin = Inr (raw, rest')"
      and "handle_payload lz4 hd raw chunks rest' = Delivered p c r"
      by (auto simp: read_turn_def split: sum.splits if_splits prod.splits)
    with h handle_payload_good(2) [OF assms] show "chunks_inv c \<and> good_packet p" by blast }
qed

lemma readLoop_good:
  "lz4_bounded lz4 \<Longrightarrow> chunks_inv chunks \<Longrightarrow>
   \<forall>p\<in>set (fst (readLoop lz4 fin stream chunks)). good_packet p"
proof (induction lz4 fin stream chunks rule: readLoop.induct)
  case (1 lz4 fin stream chunks)
  show ?case
  proof (cases "read_turn lz4 fin stream chunks")
    case (Stop e)
    then show ?thesis by (simp add: readLoop.simps [of lz4 fin stream chunks])
  next
    case (Kept c r)
    then show ?thesis
      using 1 read_turn_good(1) by (simp add: readLoop.simps [of lz4 fin stream chunks])
  next
    case (Delivered p c r)
    then show ?thesis
      using 1 read_turn_good(2)
      by (auto simp: readLoop.simps [of lz4 fin stream chunks] split: prod.split)
  qed
qed

end
