(* ===== verification/Proto_Conn.thy ===== *)
theory Proto_Conn
  imports Proto_Reader
begin

text \<open>
  The sending side of a connection, \<open>protocol/conn.go\<close>: \<open>Send\<close>, \<open>Flush\<close>, \<open>Close\<close>, \<open>fail\<close>
  and \<open>writeLoop\<close>.  The record \<open>conn\<close> is the state these share; the goroutines that run
  them are the rules of the step relation \<open>conn_step\<close>, one rule for each step that another
  goroutine can observe.
\<close>

definition writeQueue :: nat where "writeQueue = 256"

text \<open>An entry of the write queue: a frame, or the marker of a flush with its \<open>done\<close> channel.\<close>

datatype outbound = Data bytes | Marker nat

datatype conn_error = ReadError read_error | WriteError string

datatype send_error = SendEncoding string enc_error | QueueFull string

datatype flush_error = EndedWith conn_error | ClosedBefore | TimedOutQueueing | TimedOutWaiting

record conn =
  writes :: "outbound list"
  conn_err :: "conn_error option"
  closed :: bool         \<comment> \<open>and with it the channel \<open>closing\<close>\<close>
  write_stopped :: bool  \<comment> \<open>the channel \<open>written\<close> is closed\<close>
  done_closed :: "nat set"
  stream_out :: bytes    \<comment> \<open>what the network has been given\<close>

definition newConn :: conn where
  "newConn = \<lparr>writes = [], conn_err = None, closed = False, write_stopped = False,
     done_closed = {}, stream_out = []\<rparr>"

section \<open>The operations\<close>

definition packetName :: "packet \<Rightarrow> string" where
  "packetName p = (case p of GString s # _ \<Rightarrow> s | _ \<Rightarrow> ''?'')"

definition frame :: "bytes \<Rightarrow> bytes" where
  "frame payload =
     encodeHeader (FlagRencodeplus OR FlagFlush) (of_nat (length payload)) @ payload"

definition conn_Send :: "packet \<Rightarrow> 'a conn_scheme \<Rightarrow> send_error option \<times> 'a conn_scheme" where
  "conn_Send p c =
     (case Encode (GList p) of
        Inl e \<Rightarrow> (Some (SendEncoding (packetName p) e), c)
      | Inr payload \<Rightarrow>
          if closed c then (None, c)
          else if length (writes c) < writeQueue
          then (None, c\<lparr>writes := writes c @ [Data (frame payload)]\<rparr>)
          else (Some (QueueFull (packetName p)), c))"

definition flushErr :: "'a conn_scheme \<Rightarrow> flush_error" where
  "flushErr c = (case conn_err c of Some e \<Rightarrow> EndedWith e | None \<Rightarrow> ClosedBefore)"

definition conn_Close :: "'a conn_scheme \<Rightarrow> 'a conn_scheme" where
  "conn_Close c = (if closed c then c else c\<lparr>closed := True\<rparr>)"

definition conn_fail :: "conn_error \<Rightarrow> 'a conn_scheme \<Rightarrow> 'a conn_scheme" where
  "conn_fail e c =
     conn_Close (if conn_err c = None \<and> \<not> closed c then c\<lparr>conn_err := Some e\<rparr> else c)"

text \<open>
  One turn of \<open>writeLoop\<close> on a queue entry.  \<open>failure\<close> says how the network takes a frame:
  whole, or only its first bytes and then an error.
\<close>

definition write_item ::
    "outbound \<Rightarrow> (nat \<times> string) option \<Rightarrow> 'a conn_scheme \<Rightarrow> 'a conn_scheme" where
  "write_item item failure c =
     (case item of
        Marker m \<Rightarrow> c\<lparr>done_closed := insert m (done_closed c)\<rparr>
      | Data d \<Rightarrow>
          (case failure of
             None \<Rightarrow> c\<lparr>stream_out := stream_out c @ d\<rparr>
           | Some (n, e) \<Rightarrow>
               (conn_fail (WriteError e) (c\<lparr>stream_out := stream_out c @ take n d\<rparr>))
                 \<lparr>write_stopped := True\<rparr>))"

section \<open>The goroutines\<close>

datatype flush_state =
    NotStarted
  | Queueing
  | Waiting
  | Returned "flush_error option"

text \<open>
  The system adds the calls of \<open>Flush\<close> in progress, each with a marker of its own, and two
  records of what happened: the packets accepted by \<open>Send\<close> and the markers, in the order
  they were queued, and how many of these entries the write loop has finished with.
\<close>

datatype conn_event = Sent packet | Flushed nat

record conn_sys = conn +
  flushes :: "nat \<Rightarrow> flush_state"
  accepted :: "conn_event list"
  finished :: nat

definition initial_sys :: conn_sys where
  "initial_sys = conn.extend newConn
     \<lparr>flushes = (\<lambda>_. NotStarted), accepted = [], finished = 0\<rparr>"

inductive conn_step :: "conn_sys \<Rightarrow> conn_sys \<Rightarrow> bool" where
  send: "conn_Send p s = (e, s') \<Longrightarrow>
    conn_step s (s'\<lparr>accepted := accepted s' @ (if writes s' = writes s then [] else [Sent p])\<rparr>)"
| send_late: "Encode (GList p) = Inr payload \<Longrightarrow> length (writes s) < writeQueue \<Longrightarrow>
    conn_step s (s\<lparr>writes := writes s @ [Data (frame payload)],
                   accepted := accepted s @ [Sent p]\<rparr>)"
| flush_start: "flushes s m = NotStarted \<Longrightarrow>
    conn_step s (s\<lparr>flushes := (flushes s)
      (m := if closed s then Returned (Some (flushErr s)) else Queueing)\<rparr>)"
| flush_queue: "flushes s m = Queueing \<Longrightarrow> length (writes s) < writeQueue \<Longrightarrow>
    conn_step s (s\<lparr>writes := writes s @ [Marker m], flushes := (flushes s)(m := Waiting),
                   accepted := accepted s @ [Flushed m]\<rparr>)"
| flush_gone: "flushes s m \<in> {Queueing, Waiting} \<Longrightarrow> write_stopped s \<Longrightarrow>
    conn_step s (s\<lparr>flushes := (flushes s)(m := Returned (Some (flushErr s)))\<rparr>)"
| flush_timeout: "flushes s m \<in> {Queueing, Waiting} \<Longrightarrow>
    conn_step s (s\<lparr>flushes := (flushes s)(m := Returned (Some
      (if flushes s m = Queueing then TimedOutQueueing else TimedOutWaiting)))\<rparr>)"
| flush_done: "flushes s m = Waiting \<Longrightarrow> m \<in> done_closed s \<Longrightarrow>
    conn_step s (s\<lparr>flushes := (flushes s)(m := Returned None)\<rparr>)"
| write_next: "\<not> write_stopped s \<Longrightarrow> writes s = item # rest \<Longrightarrow>
    conn_step s ((write_item item failure (s\<lparr>writes := rest\<rparr>))
      \<lparr>finished := (if (case item of Marker _ \<Rightarrow> True | Data _ \<Rightarrow> failure = None)
                    then Suc (finished s) else finished s)\<rparr>)"
| write_stop: "\<not> write_stopped s \<Longrightarrow> closed s \<Longrightarrow> conn_step s (s\<lparr>write_stopped := True\<rparr>)"
| close: "conn_step s (conn_Close s)"
| read_fail: "conn_step s (conn_fail (ReadError e) s)"

inductive conn_reachable :: "conn_sys \<Rightarrow> bool" where
  start: "conn_reachable initial_sys"
| step: "conn_reachable s \<Longrightarrow> conn_step s s' \<Longrightarrow> conn_reachable s'"

section \<open>The invariant of the write queue\<close>

definition packet_wire :: "packet \<Rightarrow> bytes" where
  "packet_wire p = wire (GList p)"

definition packet_encodable :: "packet \<Rightarrow> bool" where
  "packet_encodable p = encodable (GList p)"

lemma Encode_packetD: "Encode (GList p) = Inr b \<Longrightarrow> packet_encodable p \<and> b = packet_wire p"
  unfolding packet_encodable_def packet_wire_def by (rule Encode_InrD)

definition event_item :: "conn_event \<Rightarrow> outbound" where
  "event_item ev = (case ev of Sent p \<Rightarrow> Data (frame (packet_wire p)) | Flushed m \<Rightarrow> Marker m)"

definition item_bytes :: "outbound \<Rightarrow> bytes" where
  "item_bytes item = (case item of Data d \<Rightarrow> d | Marker _ \<Rightarrow> [])"

lemma item_simps [simp]:
  "event_item (Sent p) = Data (frame (packet_wire p))"
  "event_item (Flushed m) = Marker m"
  "item_bytes (Data d) = d"
  "item_bytes (Marker m) = []"
  by (simp_all add: event_item_def item_bytes_def)

text \<open>
  The queue holds what was accepted and not yet written.  \<open>broken\<close> is the frame, if any,
  that the network took only the beginning of; after it nothing more is written.
\<close>

definition queue_inv :: "outbound list \<Rightarrow> nat \<Rightarrow> conn_sys \<Rightarrow> bool" where
  "queue_inv items n s \<longleftrightarrow>
     (n < length items + 1 \<and> writes s = drop n items \<and>
      stream_out s = concat (map item_bytes (take n items)) \<or>
      n < length items \<and> write_stopped s \<and> writes s = drop (Suc n) items \<and>
      (\<exists>k. stream_out s = concat (map item_bytes (take n items)) @ take k (item_bytes (items ! n))))"

definition conn_inv :: "conn_sys \<Rightarrow> bool" where
  "conn_inv s \<longleftrightarrow>
     queue_inv (map event_item (accepted s)) (finished s) s \<and>
     length (writes s) \<le> writeQueue \<and>
     (\<forall>p. Sent p \<in> set (accepted s) \<longrightarrow> packet_encodable p) \<and>
     (\<forall>m. m \<in> done_closed s \<longleftrightarrow> Flushed m \<in> set (take (finished s) (accepted s))) \<and>
     (conn_err s \<noteq> None \<longrightarrow> closed s) \<and>
     (\<forall>m. flushes s m = Returned None \<longrightarrow> m \<in> done_closed s)"

lemma conn_sys_initial:
  "conn_inv initial_sys"
  by (simp add: conn_inv_def queue_inv_def initial_sys_def newConn_def conn.defs)

text \<open>Accepting one more entry at the end of the queue.\<close>

lemma queue_inv_append:
  assumes "queue_inv items n s" and "writes s' = writes s @ [item]"
    and "stream_out s' = stream_out s" and "write_stopped s' = write_stopped s"
  shows "queue_inv (items @ [item]) n s'"
  using assms by (auto simp: queue_inv_def nth_append)

lemma queue_inv_same:
  assumes "queue_inv items n s" and "writes s' = writes s"
    and "stream_out s' = stream_out s" and "write_stopped s \<longrightarrow> write_stopped s'"
  shows "queue_inv items n s'"
  using assms by (auto simp: queue_inv_def)

lemma queue_inv_length: "queue_inv items n s \<Longrightarrow> n \<le> length items"
  by (auto simp: queue_inv_def)

text \<open>The write loop takes the next entry.\<close>

lemma queue_inv_written:
  assumes "queue_inv items n s" and "\<not> write_stopped s" and "writes s = item # rest"
    and "writes s' = rest" and "stream_out s' = stream_out s @ item_bytes item"
  shows "queue_inv items (Suc n) s'"
proof -
  from assms(1,2) have n: "n < length items + 1" "writes s = drop n items"
    "stream_out s = concat (map item_bytes (take n items))"
    by (auto simp: queue_inv_def)
  with assms(3) have lt: "n < length items" "items ! n = item" "drop (Suc n) items = rest"
    by (metis drop_all list.distinct(1) not_less, metis nth_via_drop, metis drop_Suc list.sel(3) tl_drop)
  then show ?thesis
    using assms(4,5) n by (simp add: queue_inv_def take_Suc_conv_app_nth)
qed

lemma queue_inv_broken:
  assumes "queue_inv items n s" and "\<not> write_stopped s" and "writes s = item # rest"
    and "writes s' = rest" and "stream_out s' = stream_out s @ take k (item_bytes item)"
    and "write_stopped s'"
  shows "queue_inv items n s'"
proof -
  from assms(1,2) have n: "n < length items + 1" "writes s = drop n items"
    "stream_out s = concat (map item_bytes (take n items))"
    by (auto simp: queue_inv_def)
  with assms(3) have lt: "n < length items" "items ! n = item" "drop (Suc n) items = rest"
    by (metis drop_all list.distinct(1) not_less, metis nth_via_drop, metis drop_Suc list.sel(3) tl_drop)
  then show ?thesis
    using assms(4-) n by (auto simp: queue_inv_def)
qed

text \<open>The fields that \<open>Close\<close> and \<open>fail\<close> leave alone.\<close>

lemma conn_Close_simps [simp]:
  "writes (conn_Close c) = writes c" "stream_out (conn_Close c) = stream_out c"
  "write_stopped (conn_Close c) = write_stopped c" "done_closed (conn_Close c) = done_closed c"
  "conn_err (conn_Close c) = conn_err c" "closed (conn_Close c)"
  "flushes (conn_Close s) = flushes s" "accepted (conn_Close s) = accepted s"
  "finished (conn_Close s) = finished s"
  by (simp_all add: conn_Close_def)

lemma conn_fail_simps [simp]:
  "writes (conn_fail e c) = writes c" "stream_out (conn_fail e c) = stream_out c"
  "write_stopped (conn_fail e c) = write_stopped c" "done_closed (conn_fail e c) = done_closed c"
  "closed (conn_fail e c)"
  "flushes (conn_fail e s) = flushes s" "accepted (conn_fail e s) = accepted s"
  "finished (conn_fail e s) = finished s"
  by (simp_all add: conn_fail_def)

text \<open>Only the first error is kept, and none once the connection was closed on purpose.\<close>

lemma conn_fail_err:
  "conn_err (conn_fail e c) =
     (if conn_err c = None \<and> \<not> closed c then Some e else conn_err c)"
  by (simp add: conn_fail_def)

lemma conn_Send_cases:
  obtains (error) e where "conn_Send p c = (Some e, c)"
  | (dropped) "conn_Send p c = (None, c)" "closed c"
  | (queued) "conn_Send p c = (None, c\<lparr>writes := writes c @ [Data (frame (packet_wire p))]\<rparr>)"
      "packet_encodable p" "length (writes c) < writeQueue" "\<not> closed c"
proof (cases "Encode (GList p)")
  case (Inl e)
  then show ?thesis using error by (simp add: conn_Send_def)
next
  case (Inr b)
  then have "packet_encodable p" "b = packet_wire p" using Encode_packetD by auto
  with Inr show ?thesis
    using error dropped queued
    by (cases "closed c"; cases "length (writes c) < writeQueue") (auto simp: conn_Send_def)
qed

lemma take_accepted_append:
  "n \<le> length xs \<Longrightarrow> take n (xs @ ys) = take n xs"
  by simp

lemma conn_inv_queue:
  assumes inv: "conn_inv s"
    and "writes s' = writes s @ [event_item ev]" "length (writes s) < writeQueue"
    and "stream_out s' = stream_out s" "write_stopped s' = write_stopped s"
    and "accepted s' = accepted s @ [ev]" "finished s' = finished s"
    and "done_closed s' = done_closed s" "conn_err s' = conn_err s" "closed s' = closed s"
    and "\<forall>m. flushes s' m = Returned None \<longrightarrow> flushes s m = Returned None"
    and "\<forall>p. ev = Sent p \<longrightarrow> packet_encodable p"
  shows "conn_inv s'"
proof -
  have q: "queue_inv (map event_item (accepted s)) (finished s) s"
    using inv by (simp add: conn_inv_def)
  then have "finished s \<le> length (accepted s)"
    using queue_inv_length by fastforce
  moreover have "queue_inv (map event_item (accepted s')) (finished s') s'"
    using queue_inv_append [OF q assms(2,4,5)] assms(6,7) by simp
  ultimately show ?thesis
    using assms by (auto simp: conn_inv_def)
qed

lemma conn_inv_same:
  assumes inv: "conn_inv s"
    and "writes s' = writes s" "stream_out s' = stream_out s"
    and "write_stopped s \<longrightarrow> write_stopped s'"
    and "accepted s' = accepted s" "finished s' = finished s" "done_closed s' = done_closed s"
    and "conn_err s' \<noteq> None \<longrightarrow> closed s'"
    and "\<forall>m. flushes s' m = Returned None \<longrightarrow> m \<in> done_closed s"
  shows "conn_inv s'"
proof -
  have q: "queue_inv (map event_item (accepted s)) (finished s) s"
    using inv by (simp add: conn_inv_def)
  show ?thesis
    using assms queue_inv_same [OF q assms(2-4)] by (simp add: conn_inv_def)
qed

lemma conn_inv_write:
  assumes inv: "conn_inv s" and run: "\<not> write_stopped s" and item: "writes s = item # rest"
    and s': "s' = (write_item item failure (s\<lparr>writes := rest\<rparr>))
      \<lparr>finished := (if (case item of Marker _ \<Rightarrow> True | Data _ \<Rightarrow> failure = None)
                    then Suc (finished s) else finished s)\<rparr>"
  shows "conn_inv s'"
proof -
  let ?items = "map event_item (accepted s)" and ?n = "finished s"
  have q: "queue_inv ?items ?n s" using inv by (simp add: conn_inv_def)
  then have drop: "writes s = drop ?n ?items" using run by (auto simp: queue_inv_def)
  then have lt: "?n < length (accepted s)" and ev: "event_item (accepted s ! ?n) = item"
    using item by (metis drop_all length_map list.distinct(1) not_less,
      metis drop_all length_map list.distinct(1) not_less nth_map nth_via_drop)
  have len: "length rest \<le> writeQueue" using inv item by (auto simp: conn_inv_def)
  show ?thesis
  proof (cases item)
    case (Marker m)
    then have "queue_inv ?items (Suc ?n) s'"
      using s' by (intro queue_inv_written [OF q run item]) (simp_all add: write_item_def)
    moreover have "accepted s ! ?n = Flushed m"
      using ev Marker by (cases "accepted s ! ?n") auto
    then have "take (Suc ?n) (accepted s) = take ?n (accepted s) @ [Flushed m]"
      using lt by (simp add: take_Suc_conv_app_nth)
    ultimately show ?thesis
      using inv len s' Marker by (auto simp: conn_inv_def write_item_def)
  next
    case (Data d)
    then obtain p where p: "accepted s ! ?n = Sent p"
      using ev by (cases "accepted s ! ?n") auto
    show ?thesis
    proof (cases failure)
      case None
      then have "queue_inv ?items (Suc ?n) s'"
        using s' Data by (intro queue_inv_written [OF q run item]) (simp_all add: write_item_def)
      moreover have "take (Suc ?n) (accepted s) = take ?n (accepted s) @ [Sent p]"
        using lt p by (simp add: take_Suc_conv_app_nth)
      ultimately show ?thesis
        using inv len s' Data None by (auto simp: conn_inv_def write_item_def)
    next
      case (Some ke)
      obtain k e where ke: "ke = (k, e)" by (cases ke)
      have "queue_inv ?items ?n s'"
        using s' Data Some ke
        by (intro queue_inv_broken [OF q run item, of s' k]) (simp_all add: write_item_def)
      then show ?thesis
        using inv len s' Data Some ke by (auto simp: conn_inv_def write_item_def)
    qed
  qed
qed

lemma conn_step_inv: "conn_step s s' \<Longrightarrow> conn_inv s \<Longrightarrow> conn_inv s'"
proof (induction rule: conn_step.induct)
  case (send p s e s')
  show ?case
  proof (cases p s rule: conn_Send_cases)
    case error
    with send(1) have "s' = s" by simp
    with send(2) show ?thesis by simp
  next
    case dropped
    with send(1) have "s' = s" by simp
    with send(2) show ?thesis by simp
  next
    case queued
    then have s': "s' = s\<lparr>writes := writes s @ [Data (frame (packet_wire p))]\<rparr>"
      using send(1) by simp
    show ?thesis
      unfolding s' by (rule conn_inv_queue [OF send(2), of _ "Sent p"]) (use queued(2,3) in simp_all)
  qed
next
  case (send_late p payload s)
  show ?case
    by (rule conn_inv_queue [OF send_late(3), of _ "Sent p"])
      (use send_late(1,2) in \<open>auto dest: Encode_packetD\<close>)
next
  case (flush_queue s m)
  show ?case
    by (rule conn_inv_queue [OF flush_queue(3), of _ "Flushed m"]) (use flush_queue(2) in auto)
next
  case (write_next s item rest failure)
  show ?case
    by (rule conn_inv_write [OF write_next(3,1,2) refl])
next
  case (close s)
  then show ?case by (intro conn_inv_same [OF close]) (auto simp: conn_inv_def)
next
  case (read_fail e s)
  then show ?case by (intro conn_inv_same [OF read_fail]) (auto simp: conn_inv_def)
next
  case (write_stop s)
  then show ?case by (intro conn_inv_same [OF write_stop(3)]) (auto simp: conn_inv_def)
next
  case (flush_start s m)
  then show ?case by (intro conn_inv_same [OF flush_start(2)]) (auto simp: conn_inv_def)
next
  case (flush_gone s m)
  then show ?case by (intro conn_inv_same [OF flush_gone(3)]) (auto simp: conn_inv_def)
next
  case (flush_timeout s m)
  then show ?case by (intro conn_inv_same [OF flush_timeout(2)]) (auto simp: conn_inv_def)
next
  case (flush_done s m)
  then show ?case by (intro conn_inv_same [OF flush_done(3)]) (auto simp: conn_inv_def)
qed

lemma conn_reachable_inv: "conn_reachable s \<Longrightarrow> conn_inv s"
  by (induction rule: conn_reachable.induct) (auto simp: conn_sys_initial dest: conn_step_inv)

section \<open>How a connection ends\<close>

lemma conn_Send_frame:
  "conn_Send p c = (e, c') \<Longrightarrow>
   conn_err c' = conn_err c \<and> closed c' = closed c \<and> write_stopped c' = write_stopped c \<and>
   stream_out c' = stream_out c"
  by (cases p c rule: conn_Send_cases) auto

lemma write_item_frame:
  "closed c \<longrightarrow> closed (write_item item failure c) \<and> conn_err (write_item item failure c) = conn_err c"
  "conn_err c = Some e \<Longrightarrow> conn_err (write_item item failure c) = Some e"
  by (auto simp: write_item_def conn_fail_err split: outbound.split option.split)

lemma conn_ending_step:
  "conn_step s s' \<Longrightarrow>
   (closed s \<longrightarrow> closed s' \<and> conn_err s' = conn_err s) \<and>
   (conn_err s \<noteq> None \<longrightarrow> conn_err s' = conn_err s)"
proof (induction rule: conn_step.induct)
  case (send p s e s')
  then show ?case using conn_Send_frame [OF send] by simp
next
  case (write_next s item rest failure)
  then show ?case
    using write_item_frame [where c = "s\<lparr>writes := rest\<rparr>" and item = item and failure = failure] by auto
qed (auto simp: conn_fail_err)

lemma conn_ending_steps:
  "conn_step\<^sup>*\<^sup>* s s' \<Longrightarrow>
   (closed s \<longrightarrow> closed s' \<and> conn_err s' = conn_err s) \<and>
   (conn_err s \<noteq> None \<longrightarrow> conn_err s' = conn_err s)"
  by (induction rule: rtranclp_induct) (auto dest!: conn_ending_step)

end
