(* ===== verification/Proto_Stream.thy ===== *)
theory Proto_Stream
  imports Proto_Conn
begin

text \<open>
  The two ends of a connection together: what \<open>readLoop\<close> delivers when it reads what
  \<open>Send\<close> and \<open>writeLoop\<close> have put on the stream.
\<close>

text \<open>
  A packet a peer can take: the encoder accepts it, it nests no deeper than the decoder
  allows, and its payload is within the packet limit.
\<close>

definition sendable :: "packet \<Rightarrow> bool" where
  "sendable p \<longleftrightarrow> packet_encodable p \<and> go_value (GList p) \<and> nesting (GList p) \<le> maxDepth \<and>
     length (packet_wire p) \<le> maxPayloadSize"

definition delivered :: "packet \<Rightarrow> packet" where
  "delivered p = map received p"

lemma packet_wire_nonempty: "0 < length (packet_wire p)"
  using starts_list_wire by (auto simp: packet_wire_def starts_value_def)

lemma Decode_packet:
  "sendable p \<Longrightarrow> Decode (packet_wire p) = Inr (GList (delivered p))"
  using Decode_wire [of "GList p"]
  unfolding sendable_def packet_encodable_def packet_wire_def delivered_def by simp

lemma chunks_apply_empty: "chunks_apply no_chunks p n = Inr (p, no_chunks)"
  by (simp add: chunks_apply_def no_chunks_def)

lemma read_turn_frame_chunks:
  assumes "sendable p"
  shows "read_turn lz4 fin (frame (packet_wire p) @ rest) chunks =
    (case chunks_apply chunks (delivered p) (length (packet_wire p)) of
       Inl e \<Rightarrow> Stop (Some (Chunk e))
     | Inr (q, chunks') \<Rightarrow> Delivered q chunks' rest)"
proof -
  let ?b = "packet_wire p" and ?fl = "FlagRencodeplus OR FlagFlush"
  have len: "0 < length ?b" "length ?b \<le> maxPayloadSize"
    using assms packet_wire_nonempty by (auto simp: sendable_def)
  have hd: "ReadFull HeaderSize (frame ?b @ rest) fin =
      Inr (encodeHeader ?fl (of_nat (length ?b)), ?b @ rest)"
    by (simp add: ReadFull_def frame_def)
  have unat: "unat (of_nat (length ?b) :: 32 word) = length ?b"
    using len by (simp add: unat_of_nat maxPayloadSize_def)
  have pl: "ReadFull (length ?b) (?b @ rest) fin = Inr (?b, rest)"
    by (simp add: ReadFull_def)
  have flag: "?fl AND FlagRencodeplus \<noteq> 0"
    by (simp add: FlagRencodeplus_def FlagFlush_def)
  show ?thesis
    using Decode_packet [OF assms] flag
    by (simp add: read_turn_def hd parse_encodeHeader [OF len] unat pl handle_payload_def)
qed

lemma read_turn_frame:
  "sendable p \<Longrightarrow> read_turn lz4 fin (frame (packet_wire p) @ rest) no_chunks =
    Delivered (delivered p) no_chunks rest"
  by (simp add: read_turn_frame_chunks chunks_apply_empty)

lemma readLoop_frames:
  "\<forall>p\<in>set ps. sendable p \<Longrightarrow>
   readLoop lz4 fin (concat (map (\<lambda>p. frame (packet_wire p)) ps) @ rest) no_chunks =
     (case readLoop lz4 fin rest no_chunks of (qs, e) \<Rightarrow> (map delivered ps @ qs, e))"
proof (induction ps)
  case Nil
  show ?case by (simp split: prod.split)
next
  case (Cons p ps)
  then show ?case
    by (subst readLoop.simps) (auto simp: read_turn_frame split: prod.split)
qed

lemma receive_frames:
  assumes "\<forall>p\<in>set ps. sendable p"
  shows "receive lz4 PeerClosed (concat (map (\<lambda>p. frame (packet_wire p)) ps)) = (map delivered ps, None)"
proof -
  have "readLoop lz4 PeerClosed [] no_chunks = ([], None)"
    by (subst readLoop.simps)
      (simp add: read_turn_def ReadFull_def HeaderSize_def end_error_def no_chunks_def)
  with readLoop_frames [OF assms, of lz4 PeerClosed "[]"] show ?thesis
    by (simp add: receive_def)
qed

section \<open>Packets written and packets received\<close>

definition sent_packets :: "conn_event list \<Rightarrow> packet list" where
  "sent_packets evs = concat (map (\<lambda>ev. case ev of Sent p \<Rightarrow> [p] | Flushed _ \<Rightarrow> []) evs)"

lemma sent_packets_simps [simp]:
  "sent_packets [] = []"
  "sent_packets (Sent p # evs) = p # sent_packets evs"
  "sent_packets (Flushed m # evs) = sent_packets evs"
  by (simp_all add: sent_packets_def)

lemma sent_packets_append [simp]: "sent_packets (xs @ ys) = sent_packets xs @ sent_packets ys"
  by (simp add: sent_packets_def)

lemma set_sent_packets: "p \<in> set (sent_packets evs) \<longleftrightarrow> Sent p \<in> set evs"
proof (induction evs)
  case (Cons ev evs)
  then show ?case by (cases ev) auto
qed simp

lemma item_bytes_sent:
  "concat (map item_bytes (map event_item evs)) =
   concat (map (\<lambda>p. frame (packet_wire p)) (sent_packets evs))"
proof (induction evs)
  case (Cons ev evs)
  then show ?case by (cases ev) auto
qed simp

lemma stream_of_finished:
  assumes "conn_inv s"
  shows "\<exists>rest. stream_out s =
    concat (map (\<lambda>p. frame (packet_wire p)) (sent_packets (take (finished s) (accepted s)))) @ rest"
proof -
  have "queue_inv (map event_item (accepted s)) (finished s) s"
    using assms by (simp add: conn_inv_def)
  then have "\<exists>rest. stream_out s =
      concat (map item_bytes (take (finished s) (map event_item (accepted s)))) @ rest"
    by (auto simp: queue_inv_def)
  then show ?thesis by (simp only: take_map item_bytes_sent)
qed

text \<open>The packets the peer has been given decode to the packets written, in order.\<close>

lemma peer_receives:
  assumes "conn_reachable s" and "\<forall>p\<in>set (sent_packets (accepted s)). sendable p"
  shows "\<exists>qs. fst (receive lz4 fin (stream_out s)) =
    map delivered (sent_packets (take (finished s) (accepted s))) @ qs"
proof -
  let ?ps = "sent_packets (take (finished s) (accepted s))"
  have "\<forall>p\<in>set ?ps. sendable p"
    using assms(2) by (auto simp: set_sent_packets dest!: in_set_takeD)
  moreover obtain rest where "stream_out s = concat (map (\<lambda>p. frame (packet_wire p)) ?ps) @ rest"
    using stream_of_finished conn_reachable_inv [OF assms(1)] by blast
  ultimately show ?thesis
    by (auto simp: receive_def readLoop_frames split: prod.split)
qed

text \<open>A flush that reports success: everything queued before its marker is on the stream.\<close>

lemma flush_written:
  assumes "conn_reachable s" and "flushes s m = Returned None"
  shows "\<exists>pre post rest. accepted s = pre @ Flushed m # post \<and>
    stream_out s = concat (map (\<lambda>p. frame (packet_wire p)) (sent_packets pre)) @ rest"
proof -
  note inv = conn_reachable_inv [OF assms(1)]
  then have "Flushed m \<in> set (take (finished s) (accepted s))"
    using assms(2) by (auto simp: conn_inv_def)
  then obtain pre mid where tk: "take (finished s) (accepted s) = pre @ Flushed m # mid"
    by (meson split_list)
  have "accepted s = pre @ Flushed m # (mid @ drop (finished s) (accepted s))"
    using tk append_take_drop_id [of "finished s" "accepted s"] by simp
  moreover obtain rest where "stream_out s =
      concat (map (\<lambda>p. frame (packet_wire p)) (sent_packets (pre @ Flushed m # mid))) @ rest"
    using stream_of_finished [OF inv] tk by auto
  ultimately show ?thesis
    by (intro exI [of _ pre] exI [of _ "mid @ drop (finished s) (accepted s)"]) auto
qed

section \<open>Reassembly of a packet sent in chunks\<close>

text \<open>The frame a peer sends a large element in: an uncompressed payload under its index.\<close>

definition chunk_frame :: "byte \<Rightarrow> bytes \<Rightarrow> bytes" where
  "chunk_frame ix payload =
     [magic, FlagRencodeplus, 0, ix] @ be_bytes 4 (of_nat (length payload) :: 32 word) @ payload"

definition total_length :: "(byte \<times> bytes) list \<Rightarrow> nat" where
  "total_length cs = sum_list (map (\<lambda>c. length (snd c)) cs)"

lemma read_turn_chunk:
  assumes "chunks_add chunks ix payload = Inr chunks'"
    and "0 < unat ix" "unat ix \<le> maxPacketIndex" "length payload \<le> maxPayloadSize"
  shows "read_turn lz4 fin (chunk_frame ix payload @ rest) chunks = Kept chunks' rest"
proof -
  let ?hd = "[magic, FlagRencodeplus, 0, ix] @ be_bytes 4 (of_nat (length payload) :: 32 word)"
  have pos: "0 < length payload"
    using assms(1) by (auto simp: chunks_add_def split: if_splits)
  have unat: "unat (of_nat (length payload) :: 32 word) = length payload"
    using assms(4) by (simp add: unat_of_nat maxPayloadSize_def)
  have "ReadFull HeaderSize (chunk_frame ix payload @ rest) fin = Inr (?hd, payload @ rest)"
    by (simp add: ReadFull_def chunk_frame_def HeaderSize_def)
  moreover have "parseHeader ?hd = Inr \<lparr>flags = FlagRencodeplus, compression = 0, index = ix,
      payload_length = of_nat (length payload)\<rparr>"
    using assms(2-4) pos unat
    by (auto simp: parseHeader_def HeaderSize_def Let_def numeral_2_eq_2 numeral_3_eq_3)
  moreover have "ReadFull (length payload) (payload @ rest) fin = Inr (payload, rest)"
    by (simp add: ReadFull_def)
  moreover have "ix \<noteq> 0" using assms(2) by auto
  ultimately show ?thesis
    using assms(1) by (simp add: read_turn_def unat handle_payload_def)
qed

lemma chunks_inv_prefix:
  assumes "chunks_inv \<lparr>chunk_packets = cs @ ds, chunk_size = int (total_length (cs @ ds))\<rparr>"
  shows "chunks_inv \<lparr>chunk_packets = cs, chunk_size = int (total_length cs)\<rparr>"
  using assms by (auto simp: chunks_inv_def total_length_def)

lemma readLoop_chunks:
  "chunks_inv \<lparr>chunk_packets = cs @ ds, chunk_size = int (total_length (cs @ ds))\<rparr> \<Longrightarrow>
   readLoop lz4 fin (concat (map (\<lambda>c. chunk_frame (fst c) (snd c)) ds) @ rest)
     \<lparr>chunk_packets = cs, chunk_size = int (total_length cs)\<rparr> =
   readLoop lz4 fin rest \<lparr>chunk_packets = cs @ ds, chunk_size = int (total_length (cs @ ds))\<rparr>"
proof (induction ds arbitrary: cs)
  case (Cons c ds)
  obtain ix b where c: "c = (ix, b)" by (cases c)
  let ?s = "\<lambda>cs. \<lparr>chunk_packets = cs, chunk_size = int (total_length cs)\<rparr> :: raw_chunks"
  have inv: "chunks_inv (?s (cs @ [c]))" using Cons.prems chunks_inv_prefix [of "cs @ [c]" ds] by simp
  then have add: "chunks_add (?s cs) ix b = Inr (?s (cs @ [c]))"
    by (auto simp: chunks_inv_def chunks_add_def c total_length_def map_of_eq_None_iff)
  have "0 < unat ix" "unat ix \<le> maxPacketIndex" "length b \<le> maxPayloadSize"
    using inv by (auto simp: chunks_inv_def c total_length_def)
  from read_turn_chunk [OF add this] show ?case
    using Cons.IH [of "cs @ [c]"] Cons.prems by (subst readLoop.simps) (simp add: c)
qed simp

lemma receive_chunked:
  assumes "chunks_inv \<lparr>chunk_packets = cs, chunk_size = int (total_length cs)\<rparr>" and "sendable p"
    and "length (packet_wire p) + total_length cs \<le> maxPayloadSize"
    and "\<forall>ix\<in>fst ` set cs. unat ix < length p \<and> empty_placeholder (p ! unat ix)"
  shows "receive lz4 PeerClosed
      (concat (map (\<lambda>c. chunk_frame (fst c) (snd c)) cs) @ frame (packet_wire p)) =
    ([spliced cs packet_indexes (delivered p)], None)"
proof -
  let ?s = "\<lparr>chunk_packets = cs, chunk_size = int (total_length cs)\<rparr> :: raw_chunks"
  have "empty_placeholder (received v)" if "empty_placeholder v" for v
    using that by (auto simp: empty_placeholder_def)
  then have "\<forall>ix\<in>fst ` set cs. unat ix < length (delivered p) \<and>
      empty_placeholder (delivered p ! unat ix)"
    using assms(4) by (auto simp: delivered_def)
  moreover have keys: "map_of cs ix \<noteq> None \<longleftrightarrow> ix \<in> fst ` set cs" for ix
    by (simp add: map_of_eq_None_iff)
  ultimately have "splice_chunks cs packet_indexes (delivered p) =
      Inr (spliced cs packet_indexes (delivered p))"
    by (auto simp: splice_chunks_Inr keys)
  moreover have "spliced [] packet_indexes (delivered p) = delivered p"
    by (simp add: spliced_def map_nth)
  ultimately have applied: "chunks_apply ?s (delivered p) (length (packet_wire p)) =
      Inr (spliced cs packet_indexes (delivered p), no_chunks)"
    using assms(1,3) by (auto simp: chunks_apply_def no_chunks_def total_length_def)
  have last: "readLoop lz4 PeerClosed [] no_chunks = ([], None)"
    by (subst readLoop.simps)
      (simp add: read_turn_def ReadFull_def HeaderSize_def end_error_def no_chunks_def)
  have "readLoop lz4 PeerClosed (frame (packet_wire p) @ []) ?s =
      ([spliced cs packet_indexes (delivered p)], None)"
    by (subst readLoop.simps) (simp add: read_turn_frame_chunks [OF assms(2)] applied last del: append_Nil2)
  then show ?thesis
    using readLoop_chunks [of "[]" cs lz4 PeerClosed "frame (packet_wire p)"] assms(1)
    by (simp add: receive_def no_chunks_def total_length_def)
qed

end
