(* ===== verification/Properties_Protocol.thy ===== *)
theory Properties_Protocol
  imports Rencode_Roundtrip Rencode_Safety Proto_Stream "HOL-Library.Multiset"
begin

text \<open>
  What the packages \<open>rencodeplus\<close> and \<open>protocol\<close> guarantee: the properties of the encoder and
  the decoder, of the packet header, of out-of-band chunks, of the read loop and of the two
  ends of a connection together.  Each property that has hypotheses is followed by its
  application to a concrete input.
\<close>

definition sample_value :: any where
  "sample_value = GList [GString ''draw'', GInt 7, GBytes [1, 2],
     GMap [(''z'', GBool True), (''a'', GInt64 300)], GBigInt (2 ^ 70), GNil]"

section \<open>The encoder and the decoder\<close>

text \<open>C1: Everything the encoder accepts is read back by the decoder as the value a peer
  is meant to see, up to the nesting limit, and nothing after it is touched: the decoder
  stops at the byte that follows.\<close>

theorem encode_decode_roundtrip:
  assumes "Encode v = Inr data" and "go_value v" and "nesting v \<le> maxDepth"
  shows "Decode data = Inr (received v) \<and>
    decode_value (data @ rest) 0 0 = Inr (received v, length data)"
  using Encode_InrD [OF assms(1)] Decode_wire [OF _ assms(2,3)] decode_value_wire [OF _ assms(2,3)]
  by simp

theorem encode_decode_roundtrip_witness:
  "Decode (wire sample_value) = Inr (received sample_value) \<and>
   decode_value (wire sample_value @ [5, 6]) 0 0 = Inr (received sample_value, length (wire sample_value))"
proof (rule encode_decode_roundtrip)
  show "Encode sample_value = Inr (wire sample_value)"
    by (rule Encode_wire) (simp add: sample_value_def sorted_entries_def)
  show "go_value sample_value" "nesting sample_value \<le> maxDepth"
    by (simp_all add: sample_value_def int64_range_def maxDepth_def deepest_def)
qed


text \<open>The bytes of a map do not depend on the order in which Go happens to iterate it.\<close>

theorem encode_map_deterministic:
  assumes "mset kvs = mset kvs'" and "distinct (map fst kvs)"
  shows "Encode (GMap kvs) = Encode (GMap kvs')"
proof -
  have "inj_on fst (set kvs)" using assms(2) by (simp add: distinct_map)
  then have "sorted_entries kvs = sorted_entries kvs'"
    unfolding sorted_entries_def using assms(1) by (intro sort_key_inj_key_eq) auto
  moreover have "length kvs = length kvs'" using assms(1) by (rule mset_eq_length)
  ultimately show ?thesis by (simp add: Encode_eq)
qed

theorem encode_map_deterministic_witness:
  "Encode (GMap [(''a'', GNil), (''b'', GBool True)]) = Encode (GMap [(''b'', GBool True), (''a'', GNil)])"
  by (rule encode_map_deterministic) simp_all

text \<open>C3: The decoder terminates on every input with a value or one of the errors of the
  code; whatever it accepts is built of the types the accessors know, nests no deeper than
  the limit, needs no more storage than the input it came from, and can be encoded again.\<close>

theorem decode_total_and_bounded:
  "Decode data \<noteq> Inl Stuck \<and>
   (case Decode data of
      Inl e \<Rightarrow> True
    | Inr v \<Rightarrow> decoded v \<and> nesting v \<le> maxDepth \<and> weight v \<le> length data \<and> encodable v)"
  using Decode_not_stuck [of data] Decode_shape [of data] decoded_encodable
  by (cases "Decode data") auto

section \<open>Headers and chunks\<close>

text \<open>C4: A header for a payload within the limit is read back as it was written, with no
  compression and index zero; and any header that is accepted is eight bytes long, starts
  with the magic byte and announces a length and an index within the limits.\<close>

theorem header_roundtrip_and_bounds:
  "(0 < n \<and> n \<le> maxPayloadSize \<longrightarrow>
    parseHeader (encodeHeader fl (of_nat n)) =
      Inr \<lparr>flags = fl, compression = 0, index = 0, payload_length = of_nat n\<rparr>) \<and>
   (parseHeader b = Inr h \<longleftrightarrow>
     HeaderSize \<le> length b \<and> b ! 0 = magic \<and>
     h = \<lparr>flags = b ! 1, compression = b ! 2, index = b ! 3,
          payload_length = be_word (take 4 (drop 4 b))\<rparr> \<and>
     0 < unat (payload_length h) \<and> unat (payload_length h) \<le> maxPayloadSize \<and>
     unat (index h) \<le> maxPacketIndex)"
  using parse_encodeHeader [of n fl] parseHeader_iff [of b h] by blast

theorem header_roundtrip_and_bounds_witness:
  "parseHeader (encodeHeader FlagRencodeplus (of_nat 300)) =
     Inr \<lparr>flags = FlagRencodeplus, compression = 0, index = 0, payload_length = of_nat 300\<rparr>"
  using header_roundtrip_and_bounds [of 300 FlagRencodeplus] by (simp add: maxPayloadSize_def)

text \<open>C5: Splicing the pending chunks into a packet succeeds exactly when everything
  together is within the size limit and every chunk has an empty placeholder to go to; the
  result has the chunks at their indexes and every other element as it was, and no chunk is
  left pending.\<close>

theorem chunks_apply_exact:
  assumes "chunks_inv s"
  shows "chunks_apply s p n = Inr (p', s') \<longleftrightarrow>
    p' = spliced (chunk_packets s) packet_indexes p \<and>
    chunk_packets s' = [] \<and> chunk_size s' = 0 \<and>
    (chunk_packets s \<noteq> [] \<longrightarrow> int n + chunk_size s \<le> int maxPayloadSize) \<and>
    (\<forall>ix\<in>fst ` set (chunk_packets s). unat ix < length p \<and> empty_placeholder (p ! unat ix))"
proof -
  have keys: "map_of (chunk_packets s) ix \<noteq> None \<longleftrightarrow> ix \<in> fst ` set (chunk_packets s)" for ix
    by (simp add: map_of_eq_None_iff)
  have range: "\<forall>ix\<in>fst ` set (chunk_packets s). ix \<in> set packet_indexes"
    using assms by (auto simp: chunks_inv_def set_packet_indexes)
  have empty: "chunk_size s = 0 \<and> spliced [] packet_indexes p = p" if "chunk_packets s = []"
    using assms that by (simp add: chunks_inv_def spliced_def map_nth)
  have eq: "s' = s\<lparr>chunk_packets := [], chunk_size := 0\<rparr> \<longleftrightarrow>
      chunk_packets s' = [] \<and> chunk_size s' = 0" by (cases s; cases s') auto
  show ?thesis
  proof (cases "chunk_packets s = []")
    case True
    then show ?thesis using empty eq by (cases s; cases s') (auto simp: chunks_apply_def)
  next
    case False
    then show ?thesis
      using eq range keys
      by (auto simp: chunks_apply_def bind_res_eq_Inr splice_chunks_Inr)
  qed
qed

theorem chunks_apply_exact_witness:
  "chunks_apply \<lparr>chunk_packets = [(2, [9, 9])], chunk_size = 2\<rparr> [GString ''draw'', GNil, GBytes []] 20 =
    Inr ([GString ''draw'', GNil, GBytes [9, 9]], \<lparr>chunk_packets = [], chunk_size = 0\<rparr>)"
proof -
  let ?s = "\<lparr>chunk_packets = [(2, [9, 9])], chunk_size = 2\<rparr> :: raw_chunks"
  have "chunks_inv ?s"
    by (simp add: chunks_inv_def maxRawChunks_def maxPacketIndex_def maxPayloadSize_def)
  moreover have "spliced (chunk_packets ?s) packet_indexes [GString ''draw'', GNil, GBytes []] =
      [GString ''draw'', GNil, GBytes [9, 9]]"
    by code_simp
  ultimately show ?thesis
    using chunks_apply_exact [of ?s "[GString ''draw'', GNil, GBytes []]" 20]
    by (simp add: maxPayloadSize_def empty_placeholder_def)
qed

section \<open>The read loop\<close>

text \<open>A stand-in for block decompression that copies: a block of literals only.\<close>

definition copy_lz4 :: lz4 where
  "copy_lz4 src n = Inr (take n src)"

lemma copy_lz4_bounded: "lz4_bounded copy_lz4"
  by (simp add: lz4_bounded_def copy_lz4_def)

definition sample_packet :: packet where
  "sample_packet = [GString ''draw'', GInt 7, GBytes []]"

lemma sample_length: "length (packet_wire sample_packet) \<le> 100"
  by code_simp

lemma sample_sendable: "sendable sample_packet"
proof -
  have "packet_encodable sample_packet" "go_value (GList sample_packet)"
    "nesting (GList sample_packet) \<le> maxDepth"
    by (simp_all add: sample_packet_def packet_encodable_def maxDepth_def deepest_def int64_range_def)
  then show ?thesis using sample_length by (simp add: sendable_def maxPayloadSize_def)
qed

text \<open>C6: Whatever bytes a peer sends, the read loop ends, and every packet it delivers is
  built of decoded values, nests no deeper than the limit and takes no more storage than the
  packet limit, chunks and decompressed payloads included.\<close>

theorem delivered_packets_bounded:
  assumes "lz4_bounded lz4"
  shows "\<forall>p\<in>set (fst (receive lz4 fin stream)).
    decoded (GList p) \<and> nesting (GList p) \<le> maxDepth \<and> weight (GList p) \<le> maxPayloadSize"
  using readLoop_good [OF assms chunks_inv_empty]
  by (auto simp: receive_def good_packet_def)

theorem delivered_packets_bounded_witness:
  "receive copy_lz4 PeerClosed (frame (packet_wire sample_packet)) = ([delivered sample_packet], None) \<and>
   decoded (GList (delivered sample_packet)) \<and> nesting (GList (delivered sample_packet)) \<le> maxDepth \<and>
   weight (GList (delivered sample_packet)) \<le> maxPayloadSize"
proof -
  have "receive copy_lz4 PeerClosed (frame (packet_wire sample_packet)) = ([delivered sample_packet], None)"
    using receive_frames [of "[sample_packet]" copy_lz4] sample_sendable by simp
  then show ?thesis
    using delivered_packets_bounded [OF copy_lz4_bounded, of PeerClosed "frame (packet_wire sample_packet)"]
    by simp
qed

text \<open>A compressed payload is accepted only in LZ4 and only when the block expands to
  exactly the announced size, which is within the packet limit.\<close>

theorem decompress_exact:
  assumes "lz4_bounded lz4"
  shows "decompress lz4 c payload = Inr out \<longleftrightarrow>
    c AND compressionLZ4 \<noteq> 0 \<and> 4 \<le> length payload \<and>
    unat (le_word32 (take 4 payload)) \<le> maxPayloadSize \<and>
    length out = unat (le_word32 (take 4 payload)) \<and>
    lz4 (drop 4 payload) (length out) = Inr out"
proof -
  let ?size = "le_word32 (take 4 payload)"
  have "(of_nat (length out) :: 32 word) = ?size \<longleftrightarrow> length out = unat ?size"
    if "length out \<le> maxPayloadSize" for out :: bytes
  proof -
    have "unat (of_nat (length out) :: 32 word) = length out"
      using that by (simp add: unat_of_nat maxPayloadSize_def)
    then show ?thesis by (metis word_unat_eq_iff)
  qed
  moreover have "length out \<le> unat ?size" if "lz4 (drop 4 payload) (unat ?size) = Inr out" for out
    using assms that by (auto simp: lz4_bounded_def)
  ultimately show ?thesis
    by (fastforce simp: decompress_def Let_def not_less split: sum.splits if_splits)
qed

theorem decompress_exact_witness:
  "decompress copy_lz4 compressionLZ4 [2, 0, 0, 0, 7, 8] = Inr [7, 8]"
proof -
  have "le_word32 [2, 0, 0, 0] = 2" by code_simp
  then show ?thesis
    using decompress_exact [OF copy_lz4_bounded, of compressionLZ4 "[2, 0, 0, 0, 7, 8]" "[7, 8]"]
    by (simp add: copy_lz4_def compressionLZ4_def maxPayloadSize_def)
qed

text \<open>C7: A packet whose large elements arrive ahead of it in chunks is delivered whole:
  each chunk stands at its index, and nothing else is delivered.\<close>

theorem chunked_packet_reassembled:
  assumes "chunks_inv \<lparr>chunk_packets = cs, chunk_size = int (total_length cs)\<rparr>" and "sendable p"
    and "length (packet_wire p) + total_length cs \<le> maxPayloadSize"
    and "\<forall>ix\<in>fst ` set cs. unat ix < length p \<and> empty_placeholder (p ! unat ix)"
  shows "receive lz4 PeerClosed
      (concat (map (\<lambda>c. chunk_frame (fst c) (snd c)) cs) @ frame (packet_wire p)) =
    ([spliced cs packet_indexes (delivered p)], None)"
  by (rule receive_chunked [OF assms])

theorem chunked_packet_reassembled_witness:
  "receive copy_lz4 PeerClosed
     (chunk_frame 2 [5, 6] @ frame (packet_wire sample_packet)) =
   ([spliced [(2, [5, 6])] packet_indexes (delivered sample_packet)], None)"
  using chunked_packet_reassembled [of "[(2, [5, 6])]" sample_packet copy_lz4] sample_sendable sample_length
  by (simp add: chunks_inv_def maxRawChunks_def maxPacketIndex_def maxPayloadSize_def
      total_length_def sample_packet_def empty_placeholder_def)

text \<open>C8: A stream of frames is delivered packet by packet, in order and without loss, and
  the end of the stream between two frames is no error.\<close>

theorem frames_received:
  assumes "\<forall>p\<in>set ps. sendable p"
  shows "receive lz4 PeerClosed (concat (map (\<lambda>p. frame (packet_wire p)) ps)) =
    (map delivered ps, None)"
  by (rule receive_frames [OF assms])

theorem frames_received_witness:
  "receive copy_lz4 PeerClosed (frame (packet_wire sample_packet) @ frame (packet_wire sample_packet)) =
    ([delivered sample_packet, delivered sample_packet], None)"
  using frames_received [of "[sample_packet, sample_packet]" copy_lz4] sample_sendable by simp

section \<open>Sending\<close>

definition sent_once :: conn_sys where
  "sent_once = initial_sys\<lparr>writes := [Data (frame (packet_wire sample_packet))],
     accepted := [Sent sample_packet]\<rparr>"

definition written_once :: conn_sys where
  "written_once = initial_sys\<lparr>stream_out := frame (packet_wire sample_packet),
     accepted := [Sent sample_packet], finished := 1\<rparr>"

lemma written_once_reachable: "conn_reachable written_once"
proof -
  have enc: "Encode (GList sample_packet) = Inr (packet_wire sample_packet)"
    using sample_sendable Encode_wire
    by (simp add: sendable_def packet_encodable_def packet_wire_def)
  have "conn_step initial_sys sent_once"
    using conn_step.send_late [OF enc, of initial_sys]
    by (simp add: sent_once_def initial_sys_def newConn_def conn.defs writeQueue_def)
  moreover have "conn_step sent_once written_once"
    using conn_step.write_next [of sent_once "Data (frame (packet_wire sample_packet))" "[]" None]
    by (simp add: sent_once_def written_once_def initial_sys_def newConn_def conn.defs write_item_def)
  ultimately show ?thesis
    using conn_reachable.start conn_reachable.step by blast
qed



text \<open>C10: When \<open>Flush\<close> reports success, every packet accepted before its marker is on the
  stream, whole and in order.\<close>

theorem flush_means_written:
  assumes "conn_reachable s" and "flushes s m = Returned None"
  shows "\<exists>pre post rest. accepted s = pre @ Flushed m # post \<and>
    stream_out s = concat (map (\<lambda>p. frame (packet_wire p)) (sent_packets pre)) @ rest"
  by (rule flush_written [OF assms])

definition flushed_once :: conn_sys where
  "flushed_once = written_once\<lparr>accepted := [Sent sample_packet, Flushed 0], finished := 2,
     done_closed := {0}, flushes := (\<lambda>_. NotStarted)(0 := Returned None)\<rparr>"

lemma flushed_once_reachable: "conn_reachable flushed_once"
proof -
  note simps = written_once_def initial_sys_def newConn_def conn.defs writeQueue_def write_item_def
  let ?a = "written_once\<lparr>flushes := (\<lambda>_. NotStarted)(0 := Queueing)\<rparr>"
  let ?b = "?a\<lparr>writes := [Marker 0], accepted := [Sent sample_packet, Flushed 0],
    flushes := (\<lambda>_. NotStarted)(0 := Waiting)\<rparr>"
  let ?c = "?b\<lparr>writes := [], done_closed := {0}, finished := 2\<rparr>"
  have "conn_step written_once ?a"
    using conn_step.flush_start [of written_once 0] by (simp add: simps)
  moreover have "conn_step ?a ?b"
    using conn_step.flush_queue [of ?a 0] by (simp add: simps)
  moreover have "conn_step ?b ?c"
    using conn_step.write_next [of ?b "Marker 0" "[]" None] by (simp add: simps numeral_2_eq_2)
  moreover have "conn_step ?c flushed_once"
    using conn_step.flush_done [of ?c 0] by (simp add: flushed_once_def simps)
  ultimately show ?thesis
    using written_once_reachable conn_reachable.step by blast
qed

theorem flush_means_written_witness:
  "\<exists>pre post rest. accepted flushed_once = pre @ Flushed 0 # post \<and>
    stream_out flushed_once = concat (map (\<lambda>p. frame (packet_wire p)) (sent_packets pre)) @ rest"
  by (rule flush_means_written [OF flushed_once_reachable]) (simp add: flushed_once_def)



text \<open>Normalising a packet name twice is normalising it once, a modern name is never
  changed, and with backwards compatibility off nothing is.\<close>

theorem canonical_names:
  "Canonical bc (Canonical bc name) = Canonical bc name \<and>
   Canonical bc (Canonical True name) = Canonical True name \<and>
   Canonical False name = name"
proof -
  have "Canonical bc (Canonical True name) = Canonical True name"
    using Canonical_idem [of True name] by (cases bc) auto
  then show ?thesis using Canonical_idem by simp
qed

end
