(* ===== verification/Ui_Types.thy ===== *)
theory Ui_Types
  imports Xpra_Prelude
begin

text \<open>
  The vocabulary of the package \<open>ui\<close>: the events of \<open>ui/event.go\<close>, and of \<open>ui/ui.go\<close> the
  identifiers, the icons and cursors with their \<open>Validate\<close> methods, the rectangles and the
  monitors.  A \<open>ui.Window\<close> of the code is known by its \<open>ID()\<close> here.
\<close>

type_synonym window_id = "64 word"

text \<open>On X11 and Wayland the identifier is that of an object of the server, of 32 bits.\<close>

definition xid_of :: "window_id \<Rightarrow> 32 word" where "xid_of i = ucast i"
definition ID :: "32 word \<Rightarrow> window_id" where "ID x = ucast x"

lemma xid_of_ID [simp]: "xid_of (ID x) = x"
  by (rule bit_word_eqI) (simp add: xid_of_def ID_def bit_unsigned_iff)

lemma ID_eq [simp]: "ID x = ID y \<longleftrightarrow> x = y"
  by (metis xid_of_ID)

section \<open>Events\<close>

datatype ui_event =
    Configure window_id gint gint gint gint
  | Minimized window_id bool
  | CloseRequest window_id
  | ExitRequest
  | Motion window_id gint gint
  | Button window_id gint bool gint gint
  | Key window_id bool string gint bytes gint "string list"
  | Focus window_id
  | FocusLost window_id
  | ClipboardChange bytes

section \<open>Icons and cursors\<close>

definition BytesPerPixel :: gint where "BytesPerPixel = 4"

record icon =
  icon_Pixels :: bytes
  icon_Width :: gint
  icon_Height :: gint

record cursor =
  cursor_Pixels :: bytes
  cursor_Width :: gint
  cursor_Height :: gint
  HotspotX :: gint
  HotspotY :: gint

datatype image_error = BadSize | BadPixelCount | BadHotspot

definition bad_size :: "gint \<Rightarrow> gint \<Rightarrow> bool" where
  "bad_size w h \<longleftrightarrow> sint w \<le> 0 \<or> sint h \<le> 0 \<or> 0xffff < sint w \<or> 0xffff < sint h"

definition icon_Validate :: "icon \<Rightarrow> image_error option" where
  "icon_Validate i =
     (if bad_size (icon_Width i) (icon_Height i) then Some BadSize
      else if int (length (icon_Pixels i)) \<noteq> sint (icon_Width i * icon_Height i * BytesPerPixel)
      then Some BadPixelCount
      else None)"

definition cursor_Validate :: "cursor \<Rightarrow> image_error option" where
  "cursor_Validate c =
     (if bad_size (cursor_Width c) (cursor_Height c) then Some BadSize
      else if int (length (cursor_Pixels c)) \<noteq> sint (cursor_Width c * cursor_Height c * BytesPerPixel)
      then Some BadPixelCount
      else if sint (HotspotX c) < 0 \<or> sint (cursor_Width c) \<le> sint (HotspotX c) \<or>
              sint (HotspotY c) < 0 \<or> sint (cursor_Height c) \<le> sint (HotspotY c)
      then Some BadHotspot
      else None)"

definition icon_error_text :: "icon \<Rightarrow> image_error \<Rightarrow> string" where
  "icon_error_text i e =
     (case e of
        BadPixelCount \<Rightarrow>
          ''icon has '' @ decimal (int (length (icon_Pixels i))) @ '' pixel bytes, want ''
          @ decimal (sint (icon_Width i * icon_Height i * BytesPerPixel))
      | _ \<Rightarrow> ''invalid icon size '' @ decimal (sint (icon_Width i)) @ ''x'' @ decimal (sint (icon_Height i)))"

definition cursor_error_text :: "cursor \<Rightarrow> image_error \<Rightarrow> string" where
  "cursor_error_text c e =
     (let num = (\<lambda>n :: gint. decimal (sint n)) in
      case e of
        BadSize \<Rightarrow> ''invalid cursor size '' @ num (cursor_Width c) @ ''x'' @ num (cursor_Height c)
      | BadPixelCount \<Rightarrow>
          ''cursor has '' @ decimal (int (length (cursor_Pixels c))) @ '' pixel bytes, want ''
          @ num (cursor_Width c * cursor_Height c * BytesPerPixel)
      | BadHotspot \<Rightarrow>
          ''cursor hotspot '' @ num (HotspotX c) @ '','' @ num (HotspotY c) @ '' lies outside ''
          @ num (cursor_Width c) @ ''x'' @ num (cursor_Height c))"

section \<open>Monitors\<close>

record rectangle =
  rect_X :: gint
  rect_Y :: gint
  rect_Width :: gint
  rect_Height :: gint

definition rect_Valid :: "rectangle \<Rightarrow> bool" where
  "rect_Valid r \<longleftrightarrow> 0 < sint (rect_Width r) \<and> 0 < sint (rect_Height r)"

record monitor =
  mon_Name :: string
  Manufacturer :: string
  mon_Model :: string
  SubpixelLayout :: string
  Geometry :: rectangle
  WorkArea :: rectangle
  WidthMM :: gint
  HeightMM :: gint
  RefreshRate :: gint
  ScaleFactor :: gint
  Primary :: bool

section \<open>What a validated image is\<close>

lemma good_size_area:
  fixes w h :: gint
  assumes "\<not> bad_size w h"
  shows "sint (w * h * BytesPerPixel) = sint w * sint h * 4"
proof -
  have range: "1 \<le> sint w" "sint w \<le> 65535" "1 \<le> sint h" "sint h \<le> 65535"
    using assms by (auto simp: bad_size_def)
  then have "0 \<le> sint w * sint h" "sint w * sint h \<le> 65535 * 65535"
    by (simp, intro mult_mono) auto
  moreover from this have "sint (w * h) = sint w * sint h"
    by (intro sint_times) (simp add: int64_range_def)
  ultimately show ?thesis
    using sint_times [of "w * h" 4] by (auto simp: BytesPerPixel_def int64_range_def mult.commute)
qed

lemma icon_Validate_ok:
  "icon_Validate i = None \<longleftrightarrow>
     1 \<le> sint (icon_Width i) \<and> sint (icon_Width i) \<le> 65535 \<and>
     1 \<le> sint (icon_Height i) \<and> sint (icon_Height i) \<le> 65535 \<and>
     int (length (icon_Pixels i)) = sint (icon_Width i) * sint (icon_Height i) * 4"
proof (cases "bad_size (icon_Width i) (icon_Height i)")
  case True
  then show ?thesis by (auto simp: icon_Validate_def bad_size_def)
next
  case False
  then show ?thesis
    using good_size_area [OF False] by (auto simp: icon_Validate_def) (auto simp: bad_size_def)
qed

lemma cursor_Validate_ok:
  "cursor_Validate c = None \<longleftrightarrow>
     1 \<le> sint (cursor_Width c) \<and> sint (cursor_Width c) \<le> 65535 \<and>
     1 \<le> sint (cursor_Height c) \<and> sint (cursor_Height c) \<le> 65535 \<and>
     int (length (cursor_Pixels c)) = sint (cursor_Width c) * sint (cursor_Height c) * 4 \<and>
     0 \<le> sint (HotspotX c) \<and> sint (HotspotX c) < sint (cursor_Width c) \<and>
     0 \<le> sint (HotspotY c) \<and> sint (HotspotY c) < sint (cursor_Height c)"
proof (cases "bad_size (cursor_Width c) (cursor_Height c)")
  case True
  then show ?thesis by (auto simp: cursor_Validate_def bad_size_def)
next
  case False
  then show ?thesis
    using good_size_area [OF False] by (auto simp: cursor_Validate_def) (auto simp: bad_size_def)
qed

end
