(* ===== verification/Ui_Event_Queue.thy ===== *)
theory Ui_Event_Queue
  imports Ui_Types
begin

text \<open>
  The event queue between a desktop's own thread and the client, \<open>ui/event_queue.go\<close>, and
  the relay that empties it (\<open>relayEvents\<close> of the Wayland display, \<open>dispatchEvents\<close> of the
  Win32 and macOS ones: the same loop).

  The locale \<open>event_channel\<close> states what a client may rely on, and proves from it that
  the events which must not be lost come out exactly once and in order, whatever the
  interleaving of \<open>Push\<close> and \<open>Pop\<close>.  The interpretation at the end of the theory shows
  that the queue of the code keeps that contract.
\<close>

section \<open>The contract\<close>

datatype 'e queue_op = DoPush 'e | DoPop

fun run_ops :: "('e \<Rightarrow> 'q \<Rightarrow> 'q) \<Rightarrow> ('q \<Rightarrow> 'e option \<times> 'q) \<Rightarrow> 'e queue_op list \<Rightarrow> 'q \<Rightarrow> 'e list \<times> 'q"
  where
  "run_ops push pop [] q = ([], q)"
| "run_ops push pop (DoPush e # ops) q = run_ops push pop ops (push e q)"
| "run_ops push pop (DoPop # ops) q =
     (case pop q of (r, q') \<Rightarrow>
        (case run_ops push pop ops q' of (out, q'') \<Rightarrow>
           ((case r of None \<Rightarrow> out | Some e \<Rightarrow> e # out), q'')))"

fun pushed_of :: "'e queue_op list \<Rightarrow> 'e list" where
  "pushed_of [] = []"
| "pushed_of (DoPush e # ops) = e # pushed_of ops"
| "pushed_of (DoPop # ops) = pushed_of ops"

locale event_channel =
  fixes push :: "'e \<Rightarrow> 'q \<Rightarrow> 'q"
    and pop :: "'q \<Rightarrow> 'e option \<times> 'q"
    and contents :: "'q \<Rightarrow> 'e list"
    and critical :: "'e \<Rightarrow> bool"
  assumes push_critical:
      "filter critical (contents (push e q)) =
       filter critical (contents q) @ (if critical e then [e] else [])"
    and push_subset: "set (contents (push e q)) \<subseteq> insert e (set (contents q))"
    and pop_empty: "contents q = [] \<Longrightarrow> pop q = (None, q)"
    and pop_first: "contents q = e # es \<Longrightarrow> \<exists>q'. pop q = (Some e, q') \<and> contents q' = es"
begin

lemma pop_cases:
  obtains (empty) "contents q = []" "pop q = (None, q)"
  | (some) e es q' where "contents q = e # es" "pop q = (Some e, q')" "contents q' = es"
  using pop_empty [of q] pop_first [of q] by (cases "contents q") auto

theorem critical_in_order:
  "run_ops push pop ops q = (out, q') \<Longrightarrow>
   filter critical out @ filter critical (contents q') =
   filter critical (contents q) @ filter critical (pushed_of ops)"
proof (induction ops arbitrary: q out q')
  case (Cons op ops)
  show ?case
  proof (cases op)
    case (DoPush e)
    then show ?thesis using Cons.IH [of "push e q"] Cons.prems by (simp add: push_critical)
  next
    case DoPop
    then show ?thesis
      using Cons.prems
      by (cases rule: pop_cases [of q]) (auto dest!: Cons.IH split: prod.splits)
  qed
qed simp

theorem nothing_invented:
  "run_ops push pop ops q = (out, q') \<Longrightarrow>
   set out \<union> set (contents q') \<subseteq> set (contents q) \<union> set (pushed_of ops)"
proof (induction ops arbitrary: q out q')
  case (Cons op ops)
  show ?case
  proof (cases op)
    case (DoPush e)
    then show ?thesis using Cons.IH [of "push e q"] Cons.prems push_subset [of e q] by auto
  next
    case DoPop
    then show ?thesis
      using Cons.prems
      by (cases rule: pop_cases [of q]) (auto dest!: Cons.IH split: prod.splits)
  qed
qed simp

end

section \<open>The queue\<close>

record event_queue =
  pending :: "ui_event list"
  maxPending :: gint
  Wake :: bool   \<comment> \<open>the channel of capacity one holds a token\<close>

definition NewEventQueue :: "gint \<Rightarrow> event_queue" where
  "NewEventQueue n = \<lparr>pending = [], maxPending = n, Wake = False\<rparr>"

definition isCoalescible :: "ui_event \<Rightarrow> bool" where
  "isCoalescible ev = (case ev of
     Configure _ _ _ _ _ \<Rightarrow> True | Motion _ _ _ \<Rightarrow> True | ClipboardChange _ \<Rightarrow> True | _ \<Rightarrow> False)"

definition canCoalesce :: "ui_event \<Rightarrow> ui_event \<Rightarrow> bool" where
  "canCoalesce old nxt = (case nxt of
     Configure w _ _ _ _ \<Rightarrow> (case old of Configure w' _ _ _ _ \<Rightarrow> w' = w | _ \<Rightarrow> False)
   | Motion w _ _ \<Rightarrow> (case old of Motion w' _ _ \<Rightarrow> w' = w | _ \<Rightarrow> False)
   | ClipboardChange _ \<Rightarrow> (case old of ClipboardChange _ \<Rightarrow> True | _ \<Rightarrow> False)
   | _ \<Rightarrow> False)"

text \<open>The two loops of \<open>pushLocked\<close>: from the end for an event to replace, from the
  beginning for one to give up.\<close>

fun replace_back :: "ui_event \<Rightarrow> nat \<Rightarrow> ui_event list \<Rightarrow> ui_event list option" where
  "replace_back ev 0 q = None"
| "replace_back ev (Suc i) q =
     (if canCoalesce (q ! i) ev then Some (q[i := ev]) else replace_back ev i q)"

fun evict_front :: "ui_event \<Rightarrow> ui_event list \<Rightarrow> ui_event list option" where
  "evict_front ev [] = None"
| "evict_front ev (queued # q) =
     (if isCoalescible queued then Some (q @ [ev])
      else map_option ((#) queued) (evict_front ev q))"

definition pushLocked :: "ui_event \<Rightarrow> event_queue \<Rightarrow> bool \<times> event_queue" where
  "pushLocked ev q =
     (if int (length (pending q)) < sint (maxPending q)
      then (True, q\<lparr>pending := pending q @ [ev]\<rparr>)
      else if isCoalescible ev
      then (case replace_back ev (length (pending q)) (pending q) of
              Some p \<Rightarrow> (True, q\<lparr>pending := p\<rparr>)
            | None \<Rightarrow> (False, q))
      else (case evict_front ev (pending q) of
              Some p \<Rightarrow> (True, q\<lparr>pending := p\<rparr>)
            | None \<Rightarrow> (True, q\<lparr>pending := pending q @ [ev]\<rparr>)))"

definition event_Push :: "ui_event \<Rightarrow> event_queue \<Rightarrow> event_queue" where
  "event_Push ev q =
     (case pushLocked ev q of (added, q') \<Rightarrow> if added then q'\<lparr>Wake := True\<rparr> else q')"

definition event_Pop :: "event_queue \<Rightarrow> ui_event option \<times> event_queue" where
  "event_Pop q = (case pending q of [] \<Rightarrow> (None, q) | ev # p \<Rightarrow> (Some ev, q\<lparr>pending := p\<rparr>))"

section \<open>What a push does\<close>

definition critical :: "ui_event \<Rightarrow> bool" where
  "critical ev \<longleftrightarrow> \<not> isCoalescible ev"

lemma canCoalesce_coalescible:
  "canCoalesce old nxt \<Longrightarrow> isCoalescible old \<and> isCoalescible nxt"
  by (cases old; cases nxt) (auto simp: canCoalesce_def isCoalescible_def)

lemma replace_back_Some:
  "replace_back ev n q = Some p \<Longrightarrow> n \<le> length q \<Longrightarrow>
   \<exists>pre old post. q = pre @ old # post \<and> p = pre @ ev # post \<and> canCoalesce old ev \<and>
     length pre < n \<and> (\<forall>i. length pre < i \<and> i < n \<longrightarrow> \<not> canCoalesce (q ! i) ev)"
proof (induction ev n q rule: replace_back.induct)
  case (2 ev i q)
  show ?case
  proof (cases "canCoalesce (q ! i) ev")
    case True
    have "q = take i q @ q ! i # drop (Suc i) q"
      using 2(3) id_take_nth_drop [of i q] by simp
    moreover have "p = take i q @ ev # drop (Suc i) q"
      using 2(2,3) True by (simp add: upd_conv_take_nth_drop)
    ultimately show ?thesis
      using True 2(3)
      by (intro exI [of _ "take i q"] exI [of _ "q ! i"] exI [of _ "drop (Suc i) q"]) auto
  next
    case False
    then obtain pre old post where *: "q = pre @ old # post" "p = pre @ ev # post"
      "canCoalesce old ev" "length pre < i"
      "\<forall>j. length pre < j \<and> j < i \<longrightarrow> \<not> canCoalesce (q ! j) ev"
      using 2 by auto
    moreover have "\<forall>j. length pre < j \<and> j < Suc i \<longrightarrow> \<not> canCoalesce (q ! j) ev"
      using *(5) False less_Suc_eq by blast
    ultimately show ?thesis
      by (intro exI [of _ pre] exI [of _ old] exI [of _ post]) auto
  qed
qed simp

lemma replace_back_None:
  "replace_back ev n q = None \<longleftrightarrow> (\<forall>i<n. \<not> canCoalesce (q ! i) ev)"
  by (induction ev n q rule: replace_back.induct) (auto simp: less_Suc_eq)

lemma evict_front_Some:
  "evict_front ev q = Some p \<Longrightarrow>
   \<exists>pre old post. q = pre @ old # post \<and> p = pre @ post @ [ev] \<and> isCoalescible old \<and>
     (\<forall>e\<in>set pre. critical e)"
proof (induction ev q arbitrary: p rule: evict_front.induct)
  case (2 ev queued q)
  show ?case
  proof (cases "isCoalescible queued")
    case True
    with 2(2) show ?thesis by (intro exI [of _ "[]"]) auto
  next
    case False
    with 2(2) obtain p' where p': "evict_front ev q = Some p'" "p = queued # p'" by auto
    from 2(1) [OF False p'(1)] obtain pre old post where
      "q = pre @ old # post" "p' = pre @ post @ [ev]" "isCoalescible old" "\<forall>e\<in>set pre. critical e"
      by blast
    with p' False show ?thesis
      by (intro exI [of _ "queued # pre"] exI [of _ old] exI [of _ post]) (auto simp: critical_def)
  qed
qed simp

lemma evict_front_None: "evict_front ev q = None \<longleftrightarrow> (\<forall>e\<in>set q. critical e)"
  by (induction ev q rule: evict_front.induct) (auto simp: critical_def)

text \<open>The four outcomes, in the words of the source's comments.\<close>

lemma pushLocked_cases:
  obtains
    (appended) "pushLocked ev q = (True, q\<lparr>pending := pending q @ [ev]\<rparr>)"
      "int (length (pending q)) < sint (maxPending q) \<or> critical ev \<and> (\<forall>e\<in>set (pending q). critical e)"
  | (replaced) pre old post where
      "pushLocked ev q = (True, q\<lparr>pending := pre @ ev # post\<rparr>)"
      "pending q = pre @ old # post" "canCoalesce old ev" "\<forall>e\<in>set post. \<not> canCoalesce e ev"
      "sint (maxPending q) \<le> int (length (pending q))"
  | (dropped) "pushLocked ev q = (False, q)" "isCoalescible ev"
      "sint (maxPending q) \<le> int (length (pending q))" "\<forall>e\<in>set (pending q). \<not> canCoalesce e ev"
  | (evicted) pre old post where
      "pushLocked ev q = (True, q\<lparr>pending := pre @ post @ [ev]\<rparr>)"
      "pending q = pre @ old # post" "isCoalescible old" "critical ev"
      "sint (maxPending q) \<le> int (length (pending q))"
proof (cases "int (length (pending q)) < sint (maxPending q)")
  case True
  then show ?thesis using appended by (simp add: pushLocked_def)
next
  case full: False
  show ?thesis
  proof (cases "isCoalescible ev")
    case co: True
    show ?thesis
    proof (cases "replace_back ev (length (pending q)) (pending q)")
      case None
      then have "pushLocked ev q = (False, q)" using full co by (simp add: pushLocked_def)
      moreover have "\<forall>e\<in>set (pending q). \<not> canCoalesce e ev"
        using None by (simp add: replace_back_None all_set_conv_all_nth)
      ultimately show ?thesis using dropped full co by auto
    next
      case (Some p)
      then obtain pre old post where *: "pending q = pre @ old # post" "p = pre @ ev # post"
        "canCoalesce old ev"
        "\<forall>i. length pre < i \<and> i < length (pending q) \<longrightarrow> \<not> canCoalesce (pending q ! i) ev"
        using replace_back_Some [OF Some] by auto
      have "\<not> canCoalesce (post ! i) ev" if "i < length post" for i
        using *(1) *(4) [rule_format, of "Suc (length pre + i)"] that
        by (auto simp: nth_append)
      then show ?thesis
        using replaced [of pre post old] full co Some *
        by (auto simp: pushLocked_def all_set_conv_all_nth)
    qed
  next
    case crit: False
    show ?thesis
    proof (cases "evict_front ev (pending q)")
      case None
      then have "pushLocked ev q = (True, q\<lparr>pending := pending q @ [ev]\<rparr>)"
        using full crit by (simp add: pushLocked_def)
      moreover have "\<forall>e\<in>set (pending q). critical e"
        using None by (simp add: evict_front_None)
      ultimately show ?thesis using appended full crit by (auto simp: critical_def)
    next
      case (Some p)
      then have "pushLocked ev q = (True, q\<lparr>pending := p\<rparr>)"
        using full crit by (simp add: pushLocked_def)
      then show ?thesis
        using evict_front_Some [OF Some] evicted full crit by (auto simp: critical_def)
    qed
  qed
qed

lemma pending_Push: "pending (event_Push ev q) = pending (snd (pushLocked ev q))"
  by (simp add: event_Push_def split: prod.split)

lemma Push_critical:
  "filter critical (pending (event_Push ev q)) =
   filter critical (pending q) @ (if critical ev then [ev] else [])"
  unfolding pending_Push
  by (cases rule: pushLocked_cases [of ev q])
    (auto simp: critical_def dest: canCoalesce_coalescible)

lemma Push_subset: "set (pending (event_Push ev q)) \<subseteq> insert ev (set (pending q))"
  unfolding pending_Push by (cases rule: pushLocked_cases [of ev q]) auto

interpretation event_queue: event_channel event_Push event_Pop pending critical
proof unfold_locales
  show "filter critical (pending (event_Push e q)) =
      filter critical (pending q) @ (if critical e then [e] else [])" for e q
    by (rule Push_critical)
  show "set (pending (event_Push e q)) \<subseteq> insert e (set (pending q))" for e q
    by (rule Push_subset)
  show "pending q = [] \<Longrightarrow> event_Pop q = (None, q)" for q
    by (simp add: event_Pop_def)
  show "pending q = e # es \<Longrightarrow> \<exists>q'. event_Pop q = (Some e, q') \<and> pending q' = es" for q e es
    by (simp add: event_Pop_def)
qed

section \<open>Bounds\<close>

text \<open>The queue exceeds its limit only by events that must not be lost.\<close>

definition queue_bounded :: "event_queue \<Rightarrow> bool" where
  "queue_bounded q \<longleftrightarrow>
     int (length (pending q)) \<le> sint (maxPending q) \<or> (\<forall>e\<in>set (pending q). critical e)"

lemma maxPending_Push [simp]: "maxPending (event_Push ev q) = maxPending q"
  by (cases rule: pushLocked_cases [of ev q]) (auto simp: event_Push_def)

lemma event_Pop_simps:
  "pending (snd (event_Pop q)) = tl (pending q)"
  "maxPending (snd (event_Pop q)) = maxPending q"
  "Wake (snd (event_Pop q)) = Wake q"
  "fst (event_Pop q) = (if pending q = [] then None else Some (hd (pending q)))"
  by (simp_all add: event_Pop_def split: list.split)

lemma queue_bounded_Push:
  assumes "queue_bounded q"
  shows "queue_bounded (event_Push ev q)"
proof (cases rule: pushLocked_cases [of ev q])
  case appended
  then show ?thesis using assms by (auto simp: queue_bounded_def event_Push_def)
next
  case (replaced pre old post)
  then have "\<not> (\<forall>e\<in>set (pending q). critical e)"
    using canCoalesce_coalescible [of old ev] by (auto simp: critical_def)
  then show ?thesis using assms replaced by (auto simp: queue_bounded_def event_Push_def)
next
  case dropped
  then show ?thesis using assms by (simp add: event_Push_def)
next
  case (evicted pre old post)
  then have "\<not> (\<forall>e\<in>set (pending q). critical e)" by (auto simp: critical_def)
  then show ?thesis using assms evicted by (auto simp: queue_bounded_def event_Push_def)
qed

lemma queue_bounded_Pop: "queue_bounded q \<Longrightarrow> queue_bounded (snd (event_Pop q))"
  by (cases "pending q") (auto simp: queue_bounded_def event_Pop_def)

lemma queue_bounded_run:
  "queue_bounded q \<Longrightarrow> run_ops event_Push event_Pop ops q = (out, q') \<Longrightarrow>
   queue_bounded q' \<and> maxPending q' = maxPending q"
proof (induction ops arbitrary: q out q')
  case (Cons op ops)
  show ?case
  proof (cases op)
    case (DoPush e)
    with Cons.prems have "run_ops event_Push event_Pop ops (event_Push e q) = (out, q')" by simp
    from Cons.IH [OF queue_bounded_Push [OF Cons.prems(1)] this] show ?thesis by simp
  next
    case DoPop
    with Cons.prems obtain out' where
      "run_ops event_Push event_Pop ops (snd (event_Pop q)) = (out', q')"
      by (auto split: prod.splits)
    from Cons.IH [OF queue_bounded_Pop [OF Cons.prems(1)] this] show ?thesis
      by (simp add: event_Pop_simps)
  qed
qed simp

section \<open>The relay\<close>

text \<open>
  The goroutine that empties the queue, with the goroutines that fill it.  A \<open>Push\<close> is
  two steps of its caller: the one under the lock, and the offer of a token; \<open>owed\<close>
  counts the callers between the two.
\<close>

datatype relay_state = Looking | Sleeping | Offering ui_event | Stopped

record relay =
  relay_queue :: event_queue
  owed :: nat
  relay_pc :: relay_state
  delivered_events :: "ui_event list"

inductive relay_step :: "relay \<Rightarrow> relay \<Rightarrow> bool" where
  push: "pushLocked ev (relay_queue r) = (added, q) \<Longrightarrow>
    relay_step r (r\<lparr>relay_queue := q, owed := (if added then Suc (owed r) else owed r)\<rparr>)"
| token: "owed r = Suc n \<Longrightarrow> relay_step r (r\<lparr>relay_queue := (relay_queue r)\<lparr>Wake := True\<rparr>, owed := n\<rparr>)"
| found: "relay_pc r = Looking \<Longrightarrow> event_Pop (relay_queue r) = (Some ev, q) \<Longrightarrow>
    relay_step r (r\<lparr>relay_queue := q, relay_pc := Offering ev\<rparr>)"
| nothing: "relay_pc r = Looking \<Longrightarrow> event_Pop (relay_queue r) = (None, q) \<Longrightarrow>
    relay_step r (r\<lparr>relay_queue := q, relay_pc := Sleeping\<rparr>)"
| woken: "relay_pc r = Sleeping \<Longrightarrow> Wake (relay_queue r) \<Longrightarrow>
    relay_step r (r\<lparr>relay_queue := (relay_queue r)\<lparr>Wake := False\<rparr>, relay_pc := Looking\<rparr>)"
| deliver: "relay_pc r = Offering ev \<Longrightarrow>
    relay_step r (r\<lparr>delivered_events := delivered_events r @ [ev], relay_pc := Looking\<rparr>)"
| stop: "relay_pc r \<noteq> Looking \<Longrightarrow> relay_step r (r\<lparr>relay_pc := Stopped\<rparr>)"

inductive relay_reachable :: "gint \<Rightarrow> relay \<Rightarrow> bool" for n where
  start: "relay_reachable n
    \<lparr>relay_queue = NewEventQueue n, owed = 0, relay_pc = Looking, delivered_events = []\<rparr>"
| step: "relay_reachable n r \<Longrightarrow> relay_step r r' \<Longrightarrow> relay_reachable n r'"

definition no_lost_wakeup :: "relay \<Rightarrow> bool" where
  "no_lost_wakeup r \<longleftrightarrow>
     (relay_pc r = Sleeping \<and> pending (relay_queue r) \<noteq> [] \<longrightarrow> Wake (relay_queue r) \<or> 0 < owed r)"

lemma pushLocked_frame:
  "pushLocked ev q = (added, q') \<Longrightarrow>
   Wake q' = Wake q \<and> maxPending q' = maxPending q \<and> (\<not> added \<longrightarrow> q' = q)"
  by (cases rule: pushLocked_cases [of ev q]) auto

lemma no_lost_wakeup_step: "relay_step r r' \<Longrightarrow> no_lost_wakeup r \<Longrightarrow> no_lost_wakeup r'"
proof (induction rule: relay_step.induct)
  case (push ev r added q)
  then show ?case
    using pushLocked_frame [OF push(1)] by (cases added) (auto simp: no_lost_wakeup_def)
next
  case (nothing r q)
  then show ?case
    by (auto simp: no_lost_wakeup_def event_Pop_def split: list.splits)
qed (auto simp: no_lost_wakeup_def)

lemma relay_no_lost_wakeup: "relay_reachable n r \<Longrightarrow> no_lost_wakeup r"
proof (induction rule: relay_reachable.induct)
  case start
  then show ?case by (simp add: no_lost_wakeup_def)
next
  case (step r r')
  then show ?case using no_lost_wakeup_step by blast
qed

end
