(* ===== verification/Go_Utf8.thy ===== *)
theory Go_Utf8
  imports Xpra_Prelude
begin

text \<open>
  The part of Go's UTF-8 handling the program uses: \<open>utf8.Valid\<close>, the conversion \<open>[]rune(s)\<close>
  and the conversion of runes to a string.  A rune is a natural number here; the program
  computes none that are negative.
\<close>

section \<open>Decoding\<close>

text \<open>The continuation byte in the range a first byte allows for it.\<close>

definition cont_in :: "nat \<Rightarrow> nat \<Rightarrow> byte \<Rightarrow> bool" where
  "cont_in lo hi b \<longleftrightarrow> lo \<le> unat b \<and> unat b \<le> hi"

definition second_range :: "nat \<Rightarrow> nat \<times> nat" where
  "second_range b0 =
     (if b0 = 0xE0 then (0xA0, 0xBF) else if b0 = 0xED then (0x80, 0x9F)
      else if b0 = 0xF0 then (0x90, 0xBF) else if b0 = 0xF4 then (0x80, 0x8F)
      else (0x80, 0xBF))"

definition cont2 :: "nat \<Rightarrow> byte \<Rightarrow> bool" where
  "cont2 b0 b = (case second_range b0 of (lo, hi) \<Rightarrow> cont_in lo hi b)"

text \<open>\<open>DecodeRune\<close>: the rune and its number of bytes, or \<open>None\<close> where Go reports
  \<open>RuneError\<close> with one byte.\<close>

fun decode_rune :: "bytes \<Rightarrow> (nat \<times> nat) option" where
  "decode_rune [] = None"
| "decode_rune (b # bs) =
     (let b0 = unat b in
      if b0 < 0x80 then Some (b0, 1)
      else if 0xC2 \<le> b0 \<and> b0 \<le> 0xDF then
        (case bs of
           c1 # _ \<Rightarrow> if cont_in 0x80 0xBF c1
             then Some ((b0 - 0xC0) * 64 + (unat c1 - 0x80), 2) else None
         | _ \<Rightarrow> None)
      else if 0xE0 \<le> b0 \<and> b0 \<le> 0xEF then
        (case bs of
           c1 # c2 # _ \<Rightarrow> if cont2 b0 c1 \<and> cont_in 0x80 0xBF c2
             then Some (((b0 - 0xE0) * 64 + (unat c1 - 0x80)) * 64 + (unat c2 - 0x80), 3) else None
         | _ \<Rightarrow> None)
      else if 0xF0 \<le> b0 \<and> b0 \<le> 0xF4 then
        (case bs of
           c1 # c2 # c3 # _ \<Rightarrow>
             if cont2 b0 c1 \<and> cont_in 0x80 0xBF c2 \<and> cont_in 0x80 0xBF c3
             then Some ((((b0 - 0xF0) * 64 + (unat c1 - 0x80)) * 64 + (unat c2 - 0x80)) * 64
                    + (unat c3 - 0x80), 4) else None
         | _ \<Rightarrow> None)
      else None)"

definition RuneError :: nat where "RuneError = 0xFFFD"

lemma decode_rune_size:
  "decode_rune bs = Some (r, n) \<Longrightarrow> 0 < n \<and> n \<le> length bs"
  by (cases bs) (auto simp: Let_def split: if_splits list.splits)

declare decode_rune.simps(2) [simp del]

function runes :: "bytes \<Rightarrow> nat list" where
  "runes [] = []"
| "runes (b # bs) =
     (case decode_rune (b # bs) of
        None \<Rightarrow> RuneError # runes bs
      | Some (r, n) \<Rightarrow> r # runes (drop n (b # bs)))"
  by pat_completeness auto
termination
  by (relation "measure length") (auto dest!: decode_rune_size simp: less_Suc_eq_le)

function utf8_valid :: "bytes \<Rightarrow> bool" where
  "utf8_valid [] = True"
| "utf8_valid (b # bs) =
     (case decode_rune (b # bs) of
        None \<Rightarrow> False
      | Some (r, n) \<Rightarrow> utf8_valid (drop n (b # bs)))"
  by pat_completeness auto
termination
  by (relation "measure length") (auto dest!: decode_rune_size simp: less_Suc_eq_le)

section \<open>Encoding\<close>

definition rune_ok :: "nat \<Rightarrow> bool" where
  "rune_ok r \<longleftrightarrow> r < 0xD800 \<or> 0xE000 \<le> r \<and> r < 0x110000"

definition to_byte :: "nat \<Rightarrow> byte" where
  "to_byte n = of_nat n"

lemma unat_to_byte [simp]: "n < 256 \<Longrightarrow> unat (to_byte n) = n"
  by (simp add: to_byte_def unat_of_nat)

definition encode_rune :: "nat \<Rightarrow> bytes" where
  "encode_rune r0 =
     (let r = (if rune_ok r0 then r0 else RuneError) in
      if r < 0x80 then [to_byte r]
      else if r < 0x800 then [to_byte (0xC0 + r div 64), to_byte (0x80 + r mod 64)]
      else if r < 0x10000 then
        [to_byte (0xE0 + r div 4096), to_byte (0x80 + r div 64 mod 64), to_byte (0x80 + r mod 64)]
      else
        [to_byte (0xF0 + r div 262144), to_byte (0x80 + r div 4096 mod 64),
         to_byte (0x80 + r div 64 mod 64), to_byte (0x80 + r mod 64)])"

definition encode_runes :: "nat list \<Rightarrow> bytes" where
  "encode_runes rs = concat (map encode_rune rs)"

lemma decode_encode_rune:
  assumes "rune_ok r"
  shows "decode_rune (encode_rune r @ rest) = Some (r, length (encode_rune r))"
proof -
  have digit: "r div n = r div (n * 64) * 64 + r div n mod 64" for n
    by (metis div_mult2_eq mult.commute mult_div_mod_eq)
  have small: "r div n mod 64 \<le> 63" for n
    using mod_less_divisor [of 64 "r div n"] by linarith
  have "r < 0x80 \<or> 0x80 \<le> r \<and> r < 0x800 \<or>
      0x800 \<le> r \<and> r < 0x10000 \<and> (r < 0xD800 \<or> 0xE000 \<le> r) \<or> 0x10000 \<le> r \<and> r < 0x110000"
    using assms unfolding rune_ok_def by linarith
  then consider "r < 0x80" | "0x80 \<le> r" "r < 0x800" | "0x800 \<le> r" "r < 0x10000" "r < 0xD800 \<or> 0xE000 \<le> r"
    | "0x10000 \<le> r" "r < 0x110000"
    by blast
  then show ?thesis
  proof cases
    case 1
    then show ?thesis using assms by (simp add: encode_rune_def decode_rune.simps(2) Let_def )
  next
    case 2
    moreover have "0xC2 \<le> 0xC0 + r div 64" "0xC0 + r div 64 \<le> 0xDF" using 2 by auto
    ultimately show ?thesis
      using assms by (simp add: encode_rune_def decode_rune.simps(2) Let_def  cont_in_def)
  next
    case 3
    have "cont2 (0xE0 + r div 4096) (to_byte (0x80 + r div 64 mod 64))"
      using 3 digit [of 64] small [of 64] by (auto simp: cont2_def second_range_def cont_in_def)
    moreover have "r div 4096 \<le> 15" using 3 by auto
    ultimately show ?thesis
      using assms 3 digit [of 64] digit [of 1] small [of 64] small [of 1] by (simp add: encode_rune_def decode_rune.simps(2) Let_def  cont_in_def)
  next
    case 4
    have "cont2 (0xF0 + r div 262144) (to_byte (0x80 + r div 4096 mod 64))"
      using 4 digit [of 4096] small [of 4096] by (auto simp: cont2_def second_range_def cont_in_def)
    moreover have "r div 262144 \<le> 4" using 4 by auto
    ultimately show ?thesis
      using assms 4 digit [of 4096] digit [of 64] digit [of 1]
        small [of 4096] small [of 64] small [of 1] by (simp add: encode_rune_def decode_rune.simps(2) Let_def  cont_in_def)
  qed
qed

lemma encode_rune_nonempty: "encode_rune r \<noteq> []"
  by (simp add: encode_rune_def Let_def)

lemma utf8_valid_encode_rune:
  "rune_ok r \<Longrightarrow> utf8_valid (encode_rune r @ rest) = utf8_valid rest"
  using decode_encode_rune [of r rest] encode_rune_nonempty [of r]
  by (cases "encode_rune r") auto

lemma runes_encode_rune:
  "rune_ok r \<Longrightarrow> runes (encode_rune r @ rest) = r # runes rest"
  using decode_encode_rune [of r rest] encode_rune_nonempty [of r]
  by (cases "encode_rune r") auto

lemma runes_encode_runes:
  "\<forall>r\<in>set rs. rune_ok r \<Longrightarrow> utf8_valid (encode_runes rs) \<and> runes (encode_runes rs) = rs"
  by (induction rs) (auto simp: encode_runes_def utf8_valid_encode_rune runes_encode_rune)

section \<open>ASCII\<close>

lemma decode_rune_ascii:
  "decode_rune (b # bs) = Some (r, n) \<Longrightarrow> r < 0x80 \<Longrightarrow> n = 1 \<and> unat b = r"
  by (auto simp: decode_rune.simps(2) Let_def cont2_def second_range_def cont_in_def
      split: if_splits list.splits)

lemma decode_rune_byte: "unat b < 0x80 \<Longrightarrow> decode_rune (b # bs) = Some (unat b, 1)"
  by (simp add: decode_rune.simps(2))

lemma runes_singleton_ascii:
  assumes "runes bs = [r]" and "r < 0x80"
  shows "bs = [to_byte r]"
proof (cases bs)
  case (Cons b bs')
  show ?thesis
  proof (cases "decode_rune (b # bs')")
    case None
    with assms Cons show ?thesis by (auto simp: RuneError_def)
  next
    case (Some rn)
    with assms Cons obtain n where n: "decode_rune (b # bs') = Some (r, n)"
      "runes (drop n (b # bs')) = []" by (cases rn) auto
    then have "n = 1" "unat b = r" using assms(2) decode_rune_ascii by blast+
    moreover from this n(2) have "bs' = []" by (cases bs') (auto split: option.splits)
    ultimately show ?thesis using Cons by (auto simp: to_byte_def)
  qed
qed (use assms in simp)

text \<open>The Latin-1 reading of a byte slice, which the program falls back on: every byte is a
  rune.  It is always valid UTF-8.\<close>

definition latin1 :: "bytes \<Rightarrow> bytes" where
  "latin1 bs = encode_runes (map unat bs)"

lemma latin1_valid: "utf8_valid (latin1 bs) \<and> runes (latin1 bs) = map unat bs"
proof -
  have "rune_ok (unat b)" for b :: byte
  proof -
    have "unat b < 256" using unsigned_less [of b] by simp
    then show ?thesis by (simp add: rune_ok_def)
  qed
  then show ?thesis unfolding latin1_def by (intro runes_encode_runes) auto
qed

end
