(* ===== verification/Ui_Keys.thy ===== *)
theory Ui_Keys
  imports Go_Utf8
begin

text \<open>
  Names of keys and modifiers: \<open>ui/keys.go\<close> and \<open>keysym/keysym.go\<close>.  The name table of
  xgbutil, \<open>KeysymToStr\<close>, is the parameter \<open>keysym_to_str\<close>.
\<close>

definition punctuationKeysyms :: "(nat \<times> string) list" where
  "punctuationKeysyms = [
     (0x20, ''space''), (0x21, ''exclam''), (0x22, ''quotedbl''), (0x23, ''numbersign''),
     (0x24, ''dollar''), (0x25, ''percent''), (0x26, ''ampersand''), (0x27, ''apostrophe''),
     (0x28, ''parenleft''), (0x29, ''parenright''), (0x2a, ''asterisk''), (0x2b, ''plus''),
     (0x2c, ''comma''), (0x2d, ''minus''), (0x2e, ''period''), (0x2f, ''slash''),
     (0x3a, ''colon''), (0x3b, ''semicolon''), (0x3c, ''less''), (0x3d, ''equal''),
     (0x3e, ''greater''), (0x3f, ''question''), (0x40, ''at''),
     (0x5b, ''bracketleft''), (0x5c, ''backslash''), (0x5d, ''bracketright''),
     (0x5e, ''asciicircum''), (0x5f, ''underscore''), (0x60, ''grave''),
     (0x7b, ''braceleft''), (0x7c, ''bar''), (0x7d, ''braceright''), (0x7e, ''asciitilde'')]"

definition punctuationCharacters :: "(string \<times> nat) list" where
  "punctuationCharacters = map (\<lambda>(c, name). (name, c)) punctuationKeysyms"

definition letter_or_digit :: "nat \<Rightarrow> bool" where
  "letter_or_digit c \<longleftrightarrow>
     0x30 \<le> c \<and> c \<le> 0x39 \<or> 0x41 \<le> c \<and> c \<le> 0x5a \<or> 0x61 \<le> c \<and> c \<le> 0x7a"

definition KeysymName :: "nat \<Rightarrow> string" where
  "KeysymName c =
     (case map_of punctuationKeysyms c of
        Some name \<Rightarrow> name
      | None \<Rightarrow> if letter_or_digit c then bytes_string (encode_runes [c]) else [])"

definition KeysymFor :: "string \<Rightarrow> nat" where
  "KeysymFor name =
     (case map_of punctuationCharacters name of
        Some c \<Rightarrow> c
      | None \<Rightarrow>
          (case runes (string_bytes name) of
             [c] \<Rightarrow> if letter_or_digit c then c else 0
           | _ \<Rightarrow> 0))"

definition modifierNames :: "string list" where
  "modifierNames = [''shift'', ''lock'', ''control'', ''mod1'', ''mod2'', ''mod3'', ''mod4'', ''mod5'']"

definition ModifierNames :: "32 word \<Rightarrow> string list" where
  "ModifierNames m =
     concat (map (\<lambda>(n, name). if m AND push_bit n 1 \<noteq> 0 then [name] else [])
       (enumerate 0 modifierNames))"

definition keypadKeysyms :: "(32 word \<times> string) list" where
  "keypadKeysyms = [
     (0xffaa, ''KP_Multiply''), (0xffab, ''KP_Add''), (0xffad, ''KP_Subtract''),
     (0xffae, ''KP_Decimal''), (0xffaf, ''KP_Divide''),
     (0xffb0, ''KP_0''), (0xffb1, ''KP_1''), (0xffb2, ''KP_2''), (0xffb3, ''KP_3''),
     (0xffb4, ''KP_4''), (0xffb5, ''KP_5''), (0xffb6, ''KP_6''), (0xffb7, ''KP_7''),
     (0xffb8, ''KP_8''), (0xffb9, ''KP_9'')]"

definition keysym_Name :: "(32 word \<Rightarrow> string) \<Rightarrow> 32 word \<Rightarrow> string" where
  "keysym_Name keysym_to_str keysym =
     (let ascii = (if keysym \<le> 0x7e then KeysymName (unat keysym) else []) in
      if ascii \<noteq> [] then ascii
      else case map_of keypadKeysyms keysym of
             Some name \<Rightarrow> name
           | None \<Rightarrow> keysym_to_str keysym)"

section \<open>The two directions agree\<close>

lemma printable_cases:
  assumes "0x20 \<le> c" "c \<le> 0x7e"
  shows "c \<in> set (map fst punctuationKeysyms) \<or> letter_or_digit c"
proof -
  have "\<forall>c\<in>set [0x20..<0x7f]. c \<in> set (map fst punctuationKeysyms) \<or> letter_or_digit c"
    by code_simp
  moreover have "c \<in> set [0x20..<0x7f]" using assms by (simp del: upt_rec_numeral)
  ultimately show ?thesis by blast
qed

lemma punctuation_distinct:
  "distinct (map fst punctuationKeysyms)" "distinct (map snd punctuationKeysyms)"
  "\<forall>(c, name)\<in>set punctuationKeysyms. 0x20 \<le> c \<and> c \<le> 0x7e \<and> \<not> letter_or_digit c \<and> 1 < length name"
  by (simp_all add: punctuationKeysyms_def letter_or_digit_def)

lemma map_of_swap:
  "distinct (map fst xs) \<Longrightarrow> distinct (map snd xs) \<Longrightarrow>
   map_of (map (\<lambda>(a, b). (b, a)) xs) y = Some x \<longleftrightarrow> map_of xs x = Some y"
  by (subst map_of_eq_Some_iff, simp add: comp_def case_prod_beta)
     (auto simp: map_of_eq_Some_iff)

lemma punctuationCharacters_iff:
  "map_of punctuationCharacters name = Some c \<longleftrightarrow> map_of punctuationKeysyms c = Some name"
  unfolding punctuationCharacters_def using punctuation_distinct(1,2) by (rule map_of_swap)

lemma KeysymName_letter:
  assumes "letter_or_digit c"
  shows "map_of punctuationKeysyms c = None" "KeysymName c = bytes_string [to_byte c]"
proof -
  show "map_of punctuationKeysyms c = None"
    using assms punctuation_distinct(3) by (fastforce simp: map_of_eq_None_iff)
  then show "KeysymName c = bytes_string [to_byte c]"
    using assms
    by (auto simp: KeysymName_def encode_runes_def encode_rune_def rune_ok_def letter_or_digit_def)
qed

lemma KeysymName_punctuation:
  "map_of punctuationKeysyms c = Some name \<Longrightarrow>
   KeysymName c = name \<and> 0x20 \<le> c \<and> c \<le> 0x7e \<and> 1 < length name"
  using punctuation_distinct(3) by (auto simp: KeysymName_def dest!: map_of_SomeD)

lemma KeysymName_cases:
  obtains (punctuation) name where "map_of punctuationKeysyms c = Some name" "KeysymName c = name"
      "0x20 \<le> c" "c \<le> 0x7e" "1 < length name"
  | (letter) "letter_or_digit c" "map_of punctuationKeysyms c = None"
      "KeysymName c = bytes_string [to_byte c]"
  | (other) "KeysymName c = []" "c < 0x20 \<or> 0x7e < c"
proof (cases "map_of punctuationKeysyms c")
  case None
  show ?thesis
  proof (cases "letter_or_digit c")
    case True
    then show ?thesis by (rule letter [OF _ KeysymName_letter]) (rule True)+
  next
    case False
    then have "c < 0x20 \<or> 0x7e < c"
      using printable_cases [of c] None by (fastforce simp: map_of_eq_None_iff not_less)
    then show ?thesis using other None False by (simp add: KeysymName_def)
  qed
next
  case (Some name)
  then show ?thesis using punctuation KeysymName_punctuation by blast
qed

lemma KeysymName_nonempty: "KeysymName c \<noteq> [] \<longleftrightarrow> 0x20 \<le> c \<and> c \<le> 0x7e"
  by (cases rule: KeysymName_cases [of c]) (auto simp: letter_or_digit_def bytes_string_def)

lemma KeysymFor_KeysymName:
  assumes "KeysymName c \<noteq> []"
  shows "KeysymFor (KeysymName c) = c"
proof (cases rule: KeysymName_cases [of c])
  case (punctuation name)
  then have "map_of punctuationCharacters name = Some c" by (simp add: punctuationCharacters_iff)
  then show ?thesis using punctuation(2) by (simp add: KeysymFor_def)
next
  case letter
  let ?s = "bytes_string [to_byte c]"
  have "map_of punctuationCharacters ?s \<noteq> Some d" for d
    using KeysymName_punctuation [of d ?s] by (auto simp: punctuationCharacters_iff bytes_string_def)
  then have "map_of punctuationCharacters ?s = None" by auto
  moreover have "unat (to_byte c) = c" "c < 0x80" using letter(1) by (auto simp: letter_or_digit_def)
  then have "runes [to_byte c] = [c]" using decode_rune_byte [of "to_byte c" "[]"] by simp
  ultimately show ?thesis using letter by (simp add: KeysymFor_def)
next
  case other
  with assms show ?thesis by simp
qed

lemma KeysymName_KeysymFor:
  assumes "KeysymFor name \<noteq> 0"
  shows "KeysymName (KeysymFor name) = name"
proof (cases "map_of punctuationCharacters name")
  case (Some c)
  then have "map_of punctuationKeysyms c = Some name" by (simp add: punctuationCharacters_iff)
  with Some show ?thesis using KeysymName_punctuation by (simp add: KeysymFor_def)
next
  case None
  with assms obtain c where c: "runes (string_bytes name) = [c]" "letter_or_digit c"
    "KeysymFor name = c"
    by (auto simp: KeysymFor_def split: list.splits if_splits)
  then have "string_bytes name = [to_byte c]"
    by (intro runes_singleton_ascii) (auto simp: letter_or_digit_def)
  then have "name = bytes_string [to_byte c]" by (metis bytes_string_bytes)
  then show ?thesis using c KeysymName_letter(2) by simp
qed

section \<open>Modifiers\<close>

lemma bit_test: "m AND push_bit n 1 \<noteq> 0 \<longleftrightarrow> bit m n" for m :: "'a::len word"
  by (metis and_exp_eq_0_iff_not_bit push_bit_of_1)

lemma length_modifierNames: "length modifierNames = 8"
  by (simp add: modifierNames_def)

lemma set_ModifierNames:
  "name \<in> set (ModifierNames m) \<longleftrightarrow> (\<exists>n<8. name = modifierNames ! n \<and> bit m n)"
proof -
  have "name \<in> set (ModifierNames m) \<longleftrightarrow>
      (\<exists>p\<in>set (enumerate 0 modifierNames). bit m (fst p) \<and> name = snd p)"
    by (force simp: ModifierNames_def bit_test case_prod_beta and_exp_eq_0_iff_not_bit split: if_splits)
  then show ?thesis
    by (simp add: Bex_def in_set_enumerate_eq length_modifierNames) metis
qed

text \<open>The names determine the eight bits, and come in the order of the bits.\<close>

lemma ModifierNames_inj:
  assumes "ModifierNames m = ModifierNames m'" and "n < 8"
  shows "bit m n = bit m' n"
proof -
  have eq: "(modifierNames ! n \<in> set (ModifierNames k)) = bit k n" for k
  proof
    assume "modifierNames ! n \<in> set (ModifierNames k)"
    then obtain j where "j < 8" "modifierNames ! n = modifierNames ! j" "bit k j"
      by (auto simp: set_ModifierNames)
    moreover have "distinct modifierNames" "length modifierNames = 8" by (simp_all add: modifierNames_def)
    ultimately show "bit k n" using assms(2) by (simp add: nth_eq_iff_index_eq)
  qed (use assms(2) in \<open>auto simp: set_ModifierNames\<close>)
  show ?thesis using eq [of m] eq [of m'] assms(1) by simp
qed

section \<open>The names sent\<close>

lemma keysym_Name_printable:
  assumes "0x20 \<le> keysym" "keysym \<le> 0x7e"
  shows "KeysymFor (keysym_Name f keysym) = unat keysym"
proof -
  have "0x20 \<le> unat keysym" "unat keysym \<le> 0x7e"
    using assms by (simp_all add: word_le_nat_alt)
  then have "KeysymName (unat keysym) \<noteq> []" by (simp add: KeysymName_nonempty)
  then show ?thesis
    using assms(2) KeysymFor_KeysymName by (simp add: keysym_Name_def)
qed

end
