(* ===== verification/Ui_Pixels.thy ===== *)
theory Ui_Pixels
  imports Ui_Types
begin

text \<open>
  The pixel helpers every backend paints with, \<open>ui/pixels.go\<close>.  A slice expression that Go
  would refuse at run time is the outcome \<open>Panics\<close>; the capacity of a slice is taken to
  be its length.
\<close>

datatype converter = Copy4 | SwapRB4 | ExpandBGR | ExpandRGB

fun swapRB4 :: "bytes \<Rightarrow> bytes \<Rightarrow> bytes option" where
  "swapRB4 (d0 # d1 # d2 # d3 # dst) (s0 # s1 # s2 # s3 # src) =
     map_option (\<lambda>out. s2 # s1 # s0 # s3 # out) (swapRB4 dst src)"
| "swapRB4 dst (s0 # s1 # s2 # s3 # src) = None"
| "swapRB4 dst src = Some dst"

fun expandBGR :: "bytes \<Rightarrow> bytes \<Rightarrow> bytes option" where
  "expandBGR (d0 # d1 # d2 # d3 # dst) (s0 # s1 # s2 # src) =
     map_option (\<lambda>out. s0 # s1 # s2 # 0xff # out) (expandBGR dst src)"
| "expandBGR dst (s0 # s1 # s2 # src) = None"
| "expandBGR dst src = Some dst"

fun expandRGB :: "bytes \<Rightarrow> bytes \<Rightarrow> bytes option" where
  "expandRGB (d0 # d1 # d2 # d3 # dst) (s0 # s1 # s2 # src) =
     map_option (\<lambda>out. s2 # s1 # s0 # 0xff # out) (expandRGB dst src)"
| "expandRGB dst (s0 # s1 # s2 # src) = None"
| "expandRGB dst src = Some dst"

definition copy4 :: "bytes \<Rightarrow> bytes \<Rightarrow> bytes option" where
  "copy4 dst src =
     (let n = min (length dst) (length src) in Some (take n src @ drop n dst))"

fun run_converter :: "converter \<Rightarrow> bytes \<Rightarrow> bytes \<Rightarrow> bytes option" where
  "run_converter Copy4 = copy4"
| "run_converter SwapRB4 = swapRB4"
| "run_converter ExpandBGR = expandBGR"
| "run_converter ExpandRGB = expandRGB"

definition ConverterFor :: "string \<Rightarrow> (converter \<times> gint) option" where
  "ConverterFor format =
     (if format = ''BGRX'' \<or> format = ''BGRA'' then Some (Copy4, 4)
      else if format = ''RGBX'' \<or> format = ''RGBA'' then Some (SwapRB4, 4)
      else if format = ''BGR'' then Some (ExpandBGR, 3)
      else if format = ''RGB'' then Some (ExpandRGB, 3)
      else None)"

datatype convert_error = UnknownFormat | SmallStride | ShortSource | ShortDestination

datatype converted = Converted bytes | Refused convert_error | Panics

text \<open>The slice expression \<open>xs[lo:hi]\<close>.\<close>

definition go_slice :: "'a list \<Rightarrow> gint \<Rightarrow> gint \<Rightarrow> 'a list option" where
  "go_slice xs lo hi =
     (if 0 \<le> sint lo \<and> sint lo \<le> sint hi \<and> sint hi \<le> int (length xs)
      then Some (subslice (nat (sint lo)) (nat (sint hi - sint lo)) xs) else None)"

definition go_splice :: "'a list \<Rightarrow> gint \<Rightarrow> 'a list \<Rightarrow> 'a list" where
  "go_splice xs lo ys =
     take (nat (sint lo)) xs @ ys @ drop (nat (sint lo) + length ys) xs"

fun convert_rows ::
    "converter \<Rightarrow> gint \<Rightarrow> gint \<Rightarrow> bytes \<Rightarrow> gint \<Rightarrow> gint \<Rightarrow> gint \<Rightarrow> nat \<Rightarrow> bytes \<Rightarrow> converted" where
  "convert_rows cv bpp dstStride src srcStride width row 0 dst = Converted dst"
| "convert_rows cv bpp dstStride src srcStride width row (Suc n) dst =
     (let to = row * dstStride; from = row * srcStride in
      case (go_slice dst to (to + width * BytesPerPixel), go_slice src from (from + width * bpp)) of
        (Some d, Some s) \<Rightarrow>
          (case run_converter cv d s of
             Some out \<Rightarrow>
               convert_rows cv bpp dstStride src srcStride width (row + 1) n (go_splice dst to out)
           | None \<Rightarrow> Panics)
      | _ \<Rightarrow> Panics)"

definition Convert ::
    "bytes \<Rightarrow> gint \<Rightarrow> bytes \<Rightarrow> gint \<Rightarrow> gint \<Rightarrow> gint \<Rightarrow> string \<Rightarrow> converted" where
  "Convert dst dstStride src srcStride width height format =
     (case ConverterFor format of
        None \<Rightarrow> Refused UnknownFormat
      | Some (cv, bpp) \<Rightarrow>
          if sint srcStride < sint (width * bpp) then Refused SmallStride
          else if int (length src) < sint (srcStride * height) then Refused ShortSource
          else if int (length dst) < sint (dstStride * (height - 1) + width * BytesPerPixel)
          then Refused ShortDestination
          else convert_rows cv bpp dstStride src srcStride width 0 (nat (sint height)) dst)"

definition convert_error_text ::
    "bytes \<Rightarrow> bytes \<Rightarrow> gint \<Rightarrow> gint \<Rightarrow> gint \<Rightarrow> gint \<Rightarrow> string \<Rightarrow> convert_error \<Rightarrow> string" where
  "convert_error_text dst src dstStride srcStride width height format e =
     (let num = (\<lambda>n :: gint. decimal (sint n)) in
      case e of
        UnknownFormat \<Rightarrow> ''unsupported pixel format '' @ [CHR 0x22] @ format @ [CHR 0x22]
      | SmallStride \<Rightarrow>
          ''rowstride '' @ num srcStride @ '' is too small for '' @ num width @ '' pixels of '' @ format
      | ShortSource \<Rightarrow>
          ''got '' @ decimal (int (length src)) @ '' bytes of '' @ format @ '' pixels, need ''
          @ num (srcStride * height) @ '' for '' @ num width @ ''x'' @ num height @ '' at rowstride ''
          @ num srcStride
      | ShortDestination \<Rightarrow>
          ''destination holds '' @ decimal (int (length dst)) @ '' bytes, need ''
          @ num (dstStride * (height - 1) + width * BytesPerPixel) @ '' for '' @ num width @ ''x''
          @ num height)"

definition gmin :: "gint \<Rightarrow> gint \<Rightarrow> gint" where
  "gmin a b = (if sint a \<le> sint b then a else b)"

definition gmax :: "gint \<Rightarrow> gint \<Rightarrow> gint" where
  "gmax a b = (if sint a \<ge> sint b then a else b)"

definition ClipDamage ::
    "gint \<Rightarrow> gint \<Rightarrow> gint \<Rightarrow> gint \<Rightarrow> gint \<Rightarrow> gint \<Rightarrow> (gint \<times> gint) option" where
  "ClipDamage x y width height winWidth winHeight =
     (if sint x < 0 \<or> sint y < 0 then None
      else if sint x \<ge> sint winWidth \<or> sint y \<ge> sint winHeight then Some (0, 0)
      else Some (gmax (gmin width (winWidth - x)) 0, gmax (gmin height (winHeight - y)) 0))"

definition ClampSize :: "gint \<Rightarrow> gint \<Rightarrow> gint \<times> gint" where
  "ClampSize width height = (gmin (gmax width 1) 0xffff, gmin (gmax height 1) 0xffff)"

section \<open>One row\<close>

fun pixel :: "converter \<Rightarrow> bytes \<Rightarrow> bytes" where
  "pixel Copy4 px = px"
| "pixel SwapRB4 px = (case px of [r, g, b, x] \<Rightarrow> [b, g, r, x] | _ \<Rightarrow> [])"
| "pixel ExpandBGR px = px @ [0xff]"
| "pixel ExpandRGB px = (case px of [r, g, b] \<Rightarrow> [b, g, r, 0xff] | _ \<Rightarrow> [])"

fun source_bytes :: "converter \<Rightarrow> nat" where
  "source_bytes Copy4 = 4"
| "source_bytes SwapRB4 = 4"
| "source_bytes ExpandBGR = 3"
| "source_bytes ExpandRGB = 3"

fun row_pixels :: "converter \<Rightarrow> nat \<Rightarrow> bytes \<Rightarrow> bytes" where
  "row_pixels cv 0 src = []"
| "row_pixels cv (Suc w) src =
     pixel cv (take (source_bytes cv) src) @ row_pixels cv w (drop (source_bytes cv) src)"

lemma list_4: "length xs = 4 + n \<Longrightarrow> \<exists>a b c d ys. xs = a # b # c # d # ys \<and> length ys = n"
  by (auto simp: length_Suc_conv numeral_eq_Suc)

lemma list_3: "length xs = 3 + n \<Longrightarrow> \<exists>a b c ys. xs = a # b # c # ys \<and> length ys = n"
  by (auto simp: length_Suc_conv numeral_eq_Suc)

lemma run_converter_row:
  "length dst = 4 * w \<Longrightarrow> length src = source_bytes cv * w \<Longrightarrow>
   run_converter cv dst src = Some (row_pixels cv w src)"
proof (induction w arbitrary: dst src)
  case 0
  then show ?case by (cases cv) (auto simp: copy4_def)
next
  case (Suc w)
  from Suc.prems(1) list_4 [of dst "4 * w"] obtain d0 d1 d2 d3 ds where
    d: "dst = d0 # d1 # d2 # d3 # ds" "length ds = 4 * w" by auto
  show ?case
  proof (cases cv)
    case Copy4
    then obtain s0 s1 s2 s3 ss where "src = s0 # s1 # s2 # s3 # ss" "length ss = 4 * w"
      using Suc.prems(2) list_4 [of src "4 * w"] by auto
    then show ?thesis
      using Suc.IH [of ds ss] Copy4 d by (simp add: copy4_def)
  next
    case SwapRB4
    then obtain s0 s1 s2 s3 ss where "src = s0 # s1 # s2 # s3 # ss" "length ss = 4 * w"
      using Suc.prems(2) list_4 [of src "4 * w"] by auto
    then show ?thesis using Suc.IH [of ds ss] SwapRB4 d by simp
  next
    case ExpandBGR
    then obtain s0 s1 s2 ss where "src = s0 # s1 # s2 # ss" "length ss = 3 * w"
      using Suc.prems(2) list_3 [of src "3 * w"] by auto
    then show ?thesis using Suc.IH [of ds ss] ExpandBGR d by simp
  next
    case ExpandRGB
    then obtain s0 s1 s2 ss where "src = s0 # s1 # s2 # ss" "length ss = 3 * w"
      using Suc.prems(2) list_3 [of src "3 * w"] by auto
    then show ?thesis using Suc.IH [of ds ss] ExpandRGB d by simp
  qed
qed

lemma length_pixel: "length px = source_bytes cv \<Longrightarrow> length (pixel cv px) = 4"
  using list_4 [of px 0] list_3 [of px 0] by (cases cv) auto

lemma length_row_pixels:
  "length src = source_bytes cv * w \<Longrightarrow> length (row_pixels cv w src) = 4 * w"
proof (induction w arbitrary: src)
  case (Suc w)
  then have "length (pixel cv (take (source_bytes cv) src)) = 4"
    by (intro length_pixel) simp
  then show ?case using Suc by simp
qed simp

section \<open>All rows\<close>

text \<open>
  The picture the loop is to produce: within the rows and columns of the damage every
  byte is that of the converted source pixel, and every other byte is what it was.
\<close>

definition painted ::
    "bytes \<Rightarrow> nat \<Rightarrow> bytes \<Rightarrow> nat \<Rightarrow> converter \<Rightarrow> nat \<Rightarrow> nat \<Rightarrow> bytes" where
  "painted dst dstStride src srcStride cv w h =
     map (\<lambda>i. if i div dstStride < h \<and> i mod dstStride < 4 * w
              then row_pixels cv w (subslice (i div dstStride * srcStride) (source_bytes cv * w) src)
                     ! (i mod dstStride)
              else dst ! i) [0..<length dst]"

lemma length_painted [simp]: "length (painted dst S src T cv w h) = length dst"
  by (simp add: painted_def)

lemma painted_0: "painted dst S src T cv w 0 = dst"
  by (simp add: painted_def map_nth)

lemma painted_Suc:
  assumes "4 * w \<le> S" "S * r + 4 * w \<le> length dst" "T * r + source_bytes cv * w \<le> length src"
  defines "out \<equiv> row_pixels cv w (subslice (r * T) (source_bytes cv * w) src)"
  shows "take (r * S) (painted dst S src T cv w r) @ out @
      drop (r * S + length out) (painted dst S src T cv w r) = painted dst S src T cv w (Suc r)"
proof (rule nth_equalityI)
  have len: "length out = 4 * w"
    unfolding out_def using assms(3)
    by (intro length_row_pixels length_subslice) (simp add: mult.commute)
  show "length (take (r * S) (painted dst S src T cv w r) @ out @
      drop (r * S + length out) (painted dst S src T cv w r)) =
      length (painted dst S src T cv w (Suc r))"
    using assms(2) len by (auto simp: mult.commute min_def)
  fix i assume "i < length (take (r * S) (painted dst S src T cv w r) @ out @
      drop (r * S + length out) (painted dst S src T cv w r))"
  then have i: "i < length dst" using assms(2) len by (auto simp: mult.commute min_def split: if_splits)
  consider "i < r * S" | "r * S \<le> i" "i < r * S + 4 * w" | "r * S + 4 * w \<le> i" by linarith
  then show "(take (r * S) (painted dst S src T cv w r) @ out @
      drop (r * S + length out) (painted dst S src T cv w r)) ! i =
      painted dst S src T cv w (Suc r) ! i"
  proof cases
    case 1
    then have "i div S < r" by (simp add: less_mult_imp_div_less)
    then show ?thesis using 1 i assms(2) by (simp add: nth_append painted_def)
  next
    case 2
    then have "i div S = r" "i mod S = i - r * S" "i - r * S < 4 * w"
      using assms(1) by (auto simp: div_nat_eqI mult.commute modulo_nat_def)
    then show ?thesis
      using 2 i assms(2) len
      by (simp add: nth_append painted_def out_def mult.commute)
  next
    case 3
    have "\<not> (i div S = r \<and> i mod S < 4 * w)"
    proof
      assume *: "i div S = r \<and> i mod S < 4 * w"
      then have "i = r * S + i mod S" using div_mult_mod_eq [of i S] by simp
      with * 3 show False by linarith
    qed
    then have "i div S < r \<and> i mod S < 4 * w \<longleftrightarrow> i div S < Suc r \<and> i mod S < 4 * w"
      by (auto simp: less_Suc_eq)
    then have "painted dst S src T cv w r ! i = painted dst S src T cv w (Suc r) ! i"
      using i by (simp add: painted_def)
    moreover have "\<not> i - r * S < 4 * w" "\<not> i < r * S" using 3 by auto
    ultimately show ?thesis
      using i assms(2) len by (simp add: nth_append mult.commute)
  qed
qed

text \<open>The loop computes it, when no product leaves the range of \<open>int\<close>.\<close>

lemma go_slice_nat:
  "sint lo = int a \<Longrightarrow> sint hi = int (a + n) \<Longrightarrow> a + n \<le> length xs \<Longrightarrow>
   go_slice xs lo hi = Some (subslice a n xs)"
  by (simp add: go_slice_def)

lemma convert_rows_painted:
  assumes S: "sint dstStride = int S" and T: "sint srcStride = int T" and w: "sint width = int w"
    and bpp: "sint bpp = int (source_bytes cv)"
    and fit: "4 * w \<le> S" "source_bytes cv * w \<le> T"
    and dst: "0 < h \<longrightarrow> S * (h - 1) + 4 * w \<le> length dst" and src: "T * h \<le> length src"
    and len: "length dst < 2 ^ 63" "length src < 2 ^ 63" "h < 2 ^ 63"
  shows "sint row = int r \<Longrightarrow> r + n = h \<Longrightarrow>
    convert_rows cv bpp dstStride src srcStride width row n (painted dst S src T cv w r) =
      Converted (painted dst S src T cv w h)"
proof (induction n arbitrary: row r)
  case 0
  then show ?case by simp
next
  case (Suc n)
  have r: "r \<le> h - 1" "0 < h" using Suc.prems(2) by auto
  then have "S * r \<le> S * (h - 1)" by simp
  then have d: "S * r + 4 * w \<le> length dst" using dst r(2) by linarith
  have "T * Suc r \<le> T * h" using Suc.prems(2) by (intro mult_le_mono2) simp
  then have s: "T * r + source_bytes cv * w \<le> length src"
    using src fit(2) unfolding mult_Suc_right by linarith
  have to: "sint (row * dstStride) = int (r * S)"
    using d len(1) by (intro sint_times_nat Suc.prems(1) S) (simp add: mult.commute)
  have wide: "sint (width * BytesPerPixel) = int (4 * w)"
    using d len(1) sint_times_nat [of width w 4 4] w by (simp add: BytesPerPixel_def mult.commute)
  have to': "sint (row * dstStride + width * BytesPerPixel) = int (r * S + 4 * w)"
    using d len(1) by (intro sint_plus_nat to wide) (simp add: mult.commute)
  have from_: "sint (row * srcStride) = int (r * T)"
    using s len(2) by (intro sint_times_nat Suc.prems(1) T) (simp add: mult.commute)
  have narrow: "sint (width * bpp) = int (source_bytes cv * w)"
    using s len(2) sint_times_nat [OF w bpp] by (simp add: mult.commute)
  have from': "sint (row * srcStride + width * bpp) = int (r * T + source_bytes cv * w)"
    using s len(2) by (intro sint_plus_nat from_ narrow) (simp add: mult.commute)
  let ?p = "painted dst S src T cv w r"
  let ?out = "row_pixels cv w (subslice (r * T) (source_bytes cv * w) src)"
  have "go_slice ?p (row * dstStride) (row * dstStride + width * BytesPerPixel) =
      Some (subslice (r * S) (4 * w) ?p)"
    using d by (intro go_slice_nat [OF to to']) (simp add: mult.commute)
  moreover have "go_slice src (row * srcStride) (row * srcStride + width * bpp) =
      Some (subslice (r * T) (source_bytes cv * w) src)"
    using s by (intro go_slice_nat [OF from_ from']) (simp add: mult.commute)
  moreover have "run_converter cv (subslice (r * S) (4 * w) ?p)
      (subslice (r * T) (source_bytes cv * w) src) = Some ?out"
    using d s by (intro run_converter_row) (simp_all add: length_subslice mult.commute)
  moreover have "go_splice ?p (row * dstStride) ?out = painted dst S src T cv w (Suc r)"
    unfolding go_splice_def to nat_int by (rule painted_Suc [OF fit(1) d s])
  moreover have "sint (row + 1) = int (Suc r)"
    using Suc.prems len(3) sint_plus [of row 1] by (simp add: int64_range_def)
  ultimately show ?case
    using Suc.IH [of "row + 1" "Suc r"] Suc.prems(2) by (simp add: Let_def)
qed

lemma ConverterFor_bpp:
  "ConverterFor format = Some (cv, bpp) \<Longrightarrow> sint bpp = int (source_bytes cv) \<and> sint bpp \<le> 4"
  by (auto simp: ConverterFor_def split: if_splits)

lemma Convert_eq:
  assumes "ConverterFor format = Some (cv, bpp)"
    and "0 \<le> sint width" "1 \<le> sint height" "4 * sint width \<le> sint dstStride"
    and "int64_range (sint srcStride * sint height)"
    and "int64_range (sint dstStride * (sint height - 1) + 4 * sint width)"
    and "length dst < 2 ^ 63" "length src < 2 ^ 63"
  shows "Convert dst dstStride src srcStride width height format =
    (if sint srcStride < sint width * sint bpp then Refused SmallStride
     else if int (length src) < sint srcStride * sint height then Refused ShortSource
     else if int (length dst) < sint dstStride * (sint height - 1) + 4 * sint width
     then Refused ShortDestination
     else Converted (painted dst (nat (sint dstStride)) src (nat (sint srcStride)) cv
       (nat (sint width)) (nat (sint height))))"
proof -
  note bpp = ConverterFor_bpp [OF assms(1)]
  have sb: "0 < source_bytes cv" by (cases cv) auto
  have "sint width * sint bpp \<le> 4 * sint width"
    using bpp mult_left_mono [of "sint bpp" 4 "sint width"] assms(2) by (simp add: mult.commute)
  moreover have "sint dstStride < 2 ^ 63" using sint_lt [of dstStride] by simp
  moreover have "0 \<le> sint width * sint bpp" using assms(2) bpp by simp
  ultimately have 1: "sint (width * bpp) = sint width * sint bpp"
    and 2: "sint (width * BytesPerPixel) = 4 * sint width"
    using assms(2,4) sint_times [of width bpp] sint_times [of width 4]
    by (simp_all add: int64_range_def BytesPerPixel_def mult.commute)
  have 3: "sint (srcStride * height) = sint srcStride * sint height"
    using assms(5) by (rule sint_times)
  have h: "sint (height - 1) = sint height - 1"
    using assms(3) sint_lt [of height] sint_minus [of height 1] by (simp add: int64_range_def)
  have nn: "0 \<le> sint dstStride * (sint height - 1)" using assms(2-4) by simp
  then have 4: "sint (dstStride * (height - 1)) = sint dstStride * (sint height - 1)"
    using assms(2,6) h sint_times [of dstStride "height - 1"] by (simp add: int64_range_def)
  have 5: "sint (dstStride * (height - 1) + width * BytesPerPixel) =
      sint dstStride * (sint height - 1) + 4 * sint width"
    using assms(6) 4 2 sint_plus [of "dstStride * (height - 1)" "width * BytesPerPixel"] by simp
  have 6: "convert_rows cv bpp dstStride src srcStride width 0 (nat (sint height)) dst =
      Converted (painted dst (nat (sint dstStride)) src (nat (sint srcStride)) cv
        (nat (sint width)) (nat (sint height)))"
    if "\<not> sint srcStride < sint width * sint bpp" "\<not> int (length src) < sint srcStride * sint height"
      "\<not> int (length dst) < sint dstStride * (sint height - 1) + 4 * sint width"
  proof -
    let ?S = "nat (sint dstStride)" and ?T = "nat (sint srcStride)" and ?w = "nat (sint width)"
      and ?h = "nat (sint height)"
    have T0: "0 \<le> sint srcStride" using that(1) \<open>0 \<le> sint width * sint bpp\<close> by linarith
    have fit: "4 * ?w \<le> ?S" "source_bytes cv * ?w \<le> ?T"
      using assms(2,4) bpp that(1) T0 by (simp_all add: nat_le_iff mult.commute flip: of_nat_le_iff [where 'a = int])
    have dst: "?S * (?h - 1) + 4 * ?w \<le> length dst"
      using that(3) assms(2-4) by (simp add: nat_le_iff of_nat_diff flip: of_nat_le_iff [where 'a = int])
    have src: "?T * ?h \<le> length src"
      using that(2) assms(3) T0 by (simp flip: of_nat_le_iff [where 'a = int])
    have "?h < 2 ^ 63" using sint_lt [of height] assms(3) by (simp add: nat_less_iff)
    from convert_rows_painted [of dstStride ?S srcStride ?T width ?w bpp cv ?h dst src 0 0 ?h, OF _ _ _ _ fit _ src assms(7,8) this]
    show ?thesis
      using assms(2-4) T0 bpp dst by (simp add: painted_0)
  qed
  show ?thesis
    unfolding Convert_def using assms(1) 6 by (simp add: 1 3 5)
qed

end
