(* ===== verification/Properties_Ui.thy ===== *)
theory Properties_Ui
  imports Ui_Event_Queue Ui_Keys Ui_Pixels
begin

text \<open>
  What the package \<open>ui\<close> guarantees to the client and to the backends: the event queue and
  its relay, the names of keys and modifiers, the validation of images and the painting of
  pixels.
\<close>

section \<open>The event queue\<close>



text \<open>The four outcomes of a push: it is appended while there is room or when only
  events that must not be lost are queued; when full, a new position replaces the newest
  stale one of the same kind and window in its place; without one it is itself dropped; and
  an event that must not be lost takes the place of the first position in the queue.\<close>

theorem push_outcomes:
  "(pushLocked ev q = (True, q\<lparr>pending := pending q @ [ev]\<rparr>) \<and>
     (int (length (pending q)) < sint (maxPending q) \<or>
      critical ev \<and> (\<forall>e\<in>set (pending q). critical e))) \<or>
   (\<exists>pre old post. pushLocked ev q = (True, q\<lparr>pending := pre @ ev # post\<rparr>) \<and>
      pending q = pre @ old # post \<and> canCoalesce old ev \<and>
      (\<forall>e\<in>set post. \<not> canCoalesce e ev) \<and> sint (maxPending q) \<le> int (length (pending q))) \<or>
   (pushLocked ev q = (False, q) \<and> isCoalescible ev \<and>
      sint (maxPending q) \<le> int (length (pending q)) \<and> (\<forall>e\<in>set (pending q). \<not> canCoalesce e ev)) \<or>
   (\<exists>pre old post. pushLocked ev q = (True, q\<lparr>pending := pre @ post @ [ev]\<rparr>) \<and>
      pending q = pre @ old # post \<and> isCoalescible old \<and> critical ev \<and>
      sint (maxPending q) \<le> int (length (pending q)))"
  by (cases rule: pushLocked_cases [of ev q]) blast+

theorem push_outcomes_witness:
  "pushLocked (Motion 1 9 9) \<lparr>pending = [Motion 1 5 5, CloseRequest 1], maxPending = 2, Wake = True\<rparr> =
     (True, \<lparr>pending = [Motion 1 9 9, CloseRequest 1], maxPending = 2, Wake = True\<rparr>)"
  using push_outcomes [of "Motion 1 9 9" "\<lparr>pending = [Motion 1 5 5, CloseRequest 1], maxPending = 2, Wake = True\<rparr>"]
  by (simp add: pushLocked_def isCoalescible_def canCoalesce_def)

text \<open>C13: The relay never sleeps on a queue that has something in it, unless a token is in
  the channel or on its way there: no wake-up is lost between the goroutines.\<close>

theorem relay_wakes_up:
  assumes "relay_reachable n r" and "relay_pc r = Sleeping" and "pending (relay_queue r) \<noteq> []"
  shows "Wake (relay_queue r) \<or> 0 < owed r"
  using relay_no_lost_wakeup [OF assms(1)] assms(2,3) by (simp add: no_lost_wakeup_def)

theorem relay_wakes_up_witness:
  "0 < owed \<lparr>relay_queue = \<lparr>pending = [ExitRequest], maxPending = 4, Wake = False\<rparr>, owed = 1,
     relay_pc = Sleeping, delivered_events = []\<rparr>"
proof -
  let ?q = "NewEventQueue 4"
  let ?r0 = "\<lparr>relay_queue = ?q, owed = 0, relay_pc = Looking, delivered_events = []\<rparr>"
  let ?r1 = "?r0\<lparr>relay_queue := ?q, relay_pc := Sleeping\<rparr>"
  let ?r2 = "?r1\<lparr>relay_queue := ?q\<lparr>pending := [ExitRequest]\<rparr>, owed := 1\<rparr>"
  have "relay_step ?r0 ?r1"
    by (rule relay_step.nothing) (simp_all add: NewEventQueue_def event_Pop_def)
  moreover have "relay_step ?r1 ?r2"
    using relay_step.push [of ExitRequest ?r1 True "?q\<lparr>pending := [ExitRequest]\<rparr>"]
    by (simp add: NewEventQueue_def pushLocked_def)
  ultimately have "relay_reachable 4 ?r2"
    using relay_reachable.start relay_reachable.step by blast
  from relay_wakes_up [OF this] show ?thesis by (simp add: NewEventQueue_def)
qed

section \<open>Keys\<close>

text \<open>C14: The name of a printable ASCII character and the character of a name are inverse
  to each other; exactly the codes 0x20 to 0x7e have a name; and the keysym name sent for
  such a keysym stands for that very code.\<close>

theorem keysym_names_inverse:
  "(KeysymName c \<noteq> [] \<longleftrightarrow> 0x20 \<le> c \<and> c \<le> 0x7e) \<and>
   (KeysymName c \<noteq> [] \<longrightarrow> KeysymFor (KeysymName c) = c) \<and>
   (KeysymFor name \<noteq> 0 \<longrightarrow> KeysymName (KeysymFor name) = name) \<and>
   (0x20 \<le> keysym \<and> keysym \<le> 0x7e \<longrightarrow> KeysymFor (keysym_Name table keysym) = unat keysym)"
  using KeysymName_nonempty KeysymFor_KeysymName KeysymName_KeysymFor keysym_Name_printable
  by blast

theorem keysym_names_inverse_witness:
  "KeysymFor (KeysymName 0x7b) = 0x7b \<and> KeysymName (KeysymFor ''braceleft'') = ''braceleft'' \<and>
   KeysymFor (keysym_Name (\<lambda>_. []) 0x7b) = 0x7b"
proof -
  have "KeysymFor ''braceleft'' = 0x7b" by code_simp
  then show ?thesis
    using keysym_names_inverse [of "0x7b" "''braceleft''" "0x7b" "\<lambda>_. []"] by simp
qed

text \<open>The modifier names of a mask are those of its bits, so the names determine the
  eight bits.\<close>

theorem modifier_names_faithful:
  "(name \<in> set (ModifierNames m) \<longleftrightarrow> (\<exists>n<8. name = modifierNames ! n \<and> bit m n)) \<and>
   (ModifierNames m = ModifierNames m' \<longrightarrow> (\<forall>n<8. bit m n = bit m' n))"
  using set_ModifierNames ModifierNames_inj by blast

theorem modifier_names_faithful_witness:
  "''control'' \<in> set (ModifierNames 4) \<and> bit (5 :: 32 word) 2 = bit (0x105 :: 32 word) 2"
proof -
  have "ModifierNames 5 = ModifierNames 0x105" by code_simp
  moreover have "modifierNames ! 2 = ''control''" by (simp add: modifierNames_def)
  ultimately show ?thesis
    using modifier_names_faithful [of "''control''" 4 4] modifier_names_faithful [of "''x''" 5 "0x105"]
    by (auto intro!: exI [of _ 2] simp: bit_numeral_rec)
qed

section \<open>Pixels\<close>

text \<open>C15: Painting a damage rectangle, when no size computation leaves the range of \<open>int\<close>:
  a row that is too short, a source or a destination that is too small is refused, and
  otherwise every pixel of the rectangle becomes the converted source pixel and every other
  byte of the destination stays as it was; nothing panics.\<close>

theorem convert_paints:
  assumes "ConverterFor format = Some (cv, bpp)"
    and "0 \<le> sint width" "1 \<le> sint height" "4 * sint width \<le> sint dstStride"
    and "int64_range (sint srcStride * sint height)"
    and "int64_range (sint dstStride * (sint height - 1) + 4 * sint width)"
    and "length dst < 2 ^ 63" "length src < 2 ^ 63"
  shows "Convert dst dstStride src srcStride width height format =
    (if sint srcStride < sint width * sint bpp then Refused SmallStride
     else if int (length src) < sint srcStride * sint height then Refused ShortSource
     else if int (length dst) < sint dstStride * (sint height - 1) + 4 * sint width
     then Refused ShortDestination
     else Converted (painted dst (nat (sint dstStride)) src (nat (sint srcStride)) cv
       (nat (sint width)) (nat (sint height))))"
  by (rule Convert_eq [OF assms])

theorem convert_paints_witness:
  "Convert (replicate 16 0) 8 [1, 2, 3, 0, 4, 5, 6, 0] 4 1 2 ''RGB'' =
     Converted [3, 2, 1, 255, 0, 0, 0, 0, 6, 5, 4, 255, 0, 0, 0, 0]"
proof -
  have "painted (replicate 16 0) 8 [1, 2, 3, 0, 4, 5, 6, 0] 4 ExpandRGB 1 2 =
      [3, 2, 1, 255, 0, 0, 0, 0, 6, 5, 4, 255, 0, 0, 0, 0]"
    by code_simp
  then show ?thesis
    using convert_paints [of "''RGB''" ExpandRGB 3 1 2 8 4 "replicate 16 0" "[1, 2, 3, 0, 4, 5, 6, 0]"]
    by (simp add: ConverterFor_def int64_range_def)
qed


text \<open>The clipped damage rectangle covers exactly the points of the damage rectangle that
  lie inside the window, and only a negative origin is refused; clamped window sizes are
  always between 1 and 65535, and unchanged when they were.\<close>

theorem clip_and_clamp:
  "(ClipDamage x y width height winWidth winHeight = None \<longleftrightarrow> sint x < 0 \<or> sint y < 0) \<and>
   (ClipDamage x y width height winWidth winHeight = Some (w, h) \<longrightarrow>
     (\<forall>px py. (sint x \<le> px \<and> px < sint x + sint w \<and> sint y \<le> py \<and> py < sint y + sint h) \<longleftrightarrow>
        (sint x \<le> px \<and> px < sint x + sint width \<and> px < sint winWidth \<and>
         sint y \<le> py \<and> py < sint y + sint height \<and> py < sint winHeight))) \<and>
   (ClampSize width height = (cw, ch) \<longrightarrow>
      sint cw = min (max (sint width) 1) 65535 \<and> sint ch = min (max (sint height) 1) 65535)"
proof -
  have m: "sint (winWidth - x) = sint winWidth - sint x" if "0 \<le> sint x" "sint x < sint winWidth"
    using that sint_minus [of winWidth x] sint_int64 [of winWidth] by (simp add: int64_range_def)
  have n: "sint (winHeight - y) = sint winHeight - sint y" if "0 \<le> sint y" "sint y < sint winHeight"
    using that sint_minus [of winHeight y] sint_int64 [of winHeight] by (simp add: int64_range_def)
  have "(ClipDamage x y width height winWidth winHeight = None \<longleftrightarrow> sint x < 0 \<or> sint y < 0)"
    by (simp add: ClipDamage_def)
  moreover have "(sint x \<le> px \<and> px < sint x + sint w \<and> sint y \<le> py \<and> py < sint y + sint h) \<longleftrightarrow>
        (sint x \<le> px \<and> px < sint x + sint width \<and> px < sint winWidth \<and>
         sint y \<le> py \<and> py < sint y + sint height \<and> py < sint winHeight)"
    if "ClipDamage x y width height winWidth winHeight = Some (w, h)" for px py
    using that m n by (auto simp: ClipDamage_def gmin_def gmax_def split: if_splits)
  moreover have "ClampSize width height = (cw, ch) \<longrightarrow>
      sint cw = min (max (sint width) 1) 65535 \<and> sint ch = min (max (sint height) 1) 65535"
    by (auto simp: ClampSize_def gmin_def gmax_def)
  ultimately show ?thesis by blast
qed

theorem clip_and_clamp_witness:
  "ClipDamage 90 10 20 30 100 100 = Some (10, 30) \<and> ClampSize 20 30 = (20, 30) \<and>
   (\<forall>(px :: int) py. 90 \<le> px \<and> px < 100 \<and> 10 \<le> py \<and> py < 40 \<longleftrightarrow>
      90 \<le> px \<and> px < 110 \<and> px < 100 \<and> 10 \<le> py \<and> py < 40 \<and> py < (100 :: int))"
proof -
  have clip: "ClipDamage 90 10 20 30 100 100 = Some (10, 30)" and clamp: "ClampSize 20 30 = (20, 30)"
    by code_simp+
  show ?thesis
    using clip_and_clamp [of 90 10 20 30 100 100 10 30 20 30] clip clamp by simp
qed

text \<open>An icon or a cursor passes its validation exactly when its sizes are within 1 to
  65535, it has four bytes for each pixel and, for a cursor, the hotspot lies inside; the
  multiplications do not overflow.\<close>

theorem image_validation:
  "(icon_Validate i = None \<longleftrightarrow>
     1 \<le> sint (icon_Width i) \<and> sint (icon_Width i) \<le> 65535 \<and>
     1 \<le> sint (icon_Height i) \<and> sint (icon_Height i) \<le> 65535 \<and>
     int (length (icon_Pixels i)) = sint (icon_Width i) * sint (icon_Height i) * 4) \<and>
   (cursor_Validate c = None \<longleftrightarrow>
     1 \<le> sint (cursor_Width c) \<and> sint (cursor_Width c) \<le> 65535 \<and>
     1 \<le> sint (cursor_Height c) \<and> sint (cursor_Height c) \<le> 65535 \<and>
     int (length (cursor_Pixels c)) = sint (cursor_Width c) * sint (cursor_Height c) * 4 \<and>
     0 \<le> sint (HotspotX c) \<and> sint (HotspotX c) < sint (cursor_Width c) \<and>
     0 \<le> sint (HotspotY c) \<and> sint (HotspotY c) < sint (cursor_Height c))"
  using icon_Validate_ok cursor_Validate_ok by blast

end
