(* ===== verification/Client_Mmap.thy ===== *)
theory Client_Mmap
  imports Proto_Packet
begin

text \<open>
  Shared memory for screen updates, \<open>client/mmap.go\<close>: the token that proves that client and
  server map the same file, and the chunk descriptors a draw packet carries instead of
  pixels.  The bytes of the area are part of its record.  Creating, mapping and removing
  the file is the operating system's work and is not modelled; its outcomes are arguments.
\<close>

definition mmapHeaderSize :: gint where "mmapHeaderSize = 8"
definition mmapTokenBytes :: gint where "mmapTokenBytes = 128"
definition mmapPayloadSize :: gint where "mmapPayloadSize = 128 * 1024 * 1024"

record mmap_area =
  mm_data :: bytes
  mm_file_open :: bool
  mm_filename :: string
  mm_token :: int
  tokenIndex :: gint
  tokenBytes :: gint
  mm_mapped :: bool
  mm_enabled :: bool

datatype mmap_error =
    MmapNotNegotiated
  | BadChunkList
  | BadChunkDescriptor
  | ChunkOutsideArea
  | ChunkSizesOverflow
  | NoPixelData
  | BadToken
  | TokenOutsideArea
  | TokenMismatch
  | TokenTooLong
  | AreaTooSmall
  | NoRandomness

section \<open>Numbers as bytes\<close>

text \<open>\<open>big.Int\<close>: \<open>SetBytes\<close> and \<open>Bytes\<close>, big-endian and without leading zeros.\<close>

definition bytes_nat :: "bytes \<Rightarrow> nat" where
  "bytes_nat bs = foldl (\<lambda>acc b. acc * 256 + unat b) 0 bs"

fun nat_bytes :: "nat \<Rightarrow> bytes" where
  "nat_bytes n = (if n = 0 then [] else nat_bytes (n div 256) @ [of_nat (n mod 256)])"

declare nat_bytes.simps [simp del]

section \<open>The token\<close>

definition bad_bounds :: "nat \<Rightarrow> gint \<Rightarrow> gint \<Rightarrow> bool" where
  "bad_bounds sz idx count \<longleftrightarrow>
     sint idx < 0 \<or> sint count \<le> 0 \<or> sint idx > int sz \<or> sint count > int sz - sint idx"

definition writeMmapToken :: "bytes \<Rightarrow> int \<Rightarrow> gint \<Rightarrow> gint \<Rightarrow> mmap_error + bytes" where
  "writeMmapToken data token idx count =
     (if token < 0 \<or> bad_bounds (length data) idx count then Inl BadToken
      else
        let encoded = nat_bytes (nat token); i = nat (sint idx); n = nat (sint count) in
        if int (length encoded) > sint count then Inl TokenTooLong
        else Inr (take i data @ rev encoded @ replicate (n - length encoded) 0 @ drop (i + n) data))"

definition readMmapToken :: "bytes \<Rightarrow> gint \<Rightarrow> gint \<Rightarrow> mmap_error + int" where
  "readMmapToken data idx count =
     (if bad_bounds (length data) idx count then Inl BadToken
      else Inr (int (bytes_nat (rev (subslice (nat (sint idx)) (nat (sint count)) data)))))"

text \<open>
  \<open>generateToken\<close>, with the sixteen random bytes and the random position (or their failure)
  as arguments; the position is below the number of places available.
\<close>

definition available_places :: "mmap_area \<Rightarrow> gint" where
  "available_places a = of_nat (length (mm_data a)) - mmapHeaderSize - tokenBytes a + 1"

definition generateToken ::
    "bytes option \<Rightarrow> gint option \<Rightarrow> mmap_area \<Rightarrow> mmap_error + mmap_area" where
  "generateToken random place a =
     (case random of
        None \<Rightarrow> Inl NoRandomness
      | Some bs \<Rightarrow>
          let token = (if bytes_nat bs = 0 then 1 else int (bytes_nat bs)) in
          if sint (available_places a) \<le> 0 then Inl AreaTooSmall
          else case place of
              None \<Rightarrow> Inl NoRandomness
            | Some p \<Rightarrow>
                let idx = mmapHeaderSize + p in
                bind_res (writeMmapToken (mm_data a) token idx (tokenBytes a))
                  (\<lambda>data. Inr (a\<lparr>mm_token := token, tokenIndex := idx, mm_data := data\<rparr>)))"

definition helloCaps :: "bool \<Rightarrow> mmap_area \<Rightarrow> any" where
  "helloCaps backwardsCompatible a =
     (let area = [(''file'', GString (mm_filename a)), (''size'', GInt (of_nat (length (mm_data a)))),
                  (''token'', GBigPtr (Some (mm_token a))), (''token_index'', GInt (tokenIndex a)),
                  (''token_bytes'', GInt (tokenBytes a))];
          caps = [(''read'', GDict area)]
      in GDict (if backwardsCompatible
                then foldl (\<lambda>d (k, v). Dict_Set d k v) caps area else caps))"

text \<open>A \<open>big.Int\<close> by value does not come out of the decoder; it is the constructor \<open>GBigInt\<close>.\<close>

definition mmapInteger :: "any \<Rightarrow> int option" where
  "mmapInteger v = (case v of GInt64 n \<Rightarrow> Some (sint n) | GBigPtr p \<Rightarrow> p | GBigInt n \<Rightarrow> Some n | _ \<Rightarrow> None)"

definition enableFromCaps :: "gdict \<Rightarrow> mmap_area \<Rightarrow> mmap_error + (bool \<times> mmap_area)" where
  "enableFromCaps caps a =
     (if caps = None then Inr (False, a)
      else
        let areaCaps = (case dict_Dict caps ''write'' of
                          Some d \<Rightarrow> Some d
                        | None \<Rightarrow> if dict_Has caps ''token'' then caps else None) in
        if areaCaps = None \<or> dict_Has areaCaps ''enabled'' \<and> \<not> dict_Bool areaCaps ''enabled''
        then Inr (False, a)
        else case mmapInteger (dict_get areaCaps ''token'') of
            None \<Rightarrow> Inl BadToken
          | Some token \<Rightarrow>
              if token \<le> 0 then Inl BadToken
              else
                let idx = dict_Int areaCaps ''token_index'';
                    count0 = dict_Int areaCaps ''token_bytes'';
                    count = (if count0 = 0 then mmapTokenBytes else count0) in
                if bad_bounds (length (mm_data a)) idx count then Inl TokenOutsideArea
                else bind_res (readMmapToken (mm_data a) idx count)
                  (\<lambda>found. if found \<noteq> token then Inl TokenMismatch
                           else Inr (True, a\<lparr>mm_enabled := True\<rparr>)))"

section \<open>Chunks\<close>

type_synonym mmap_chunk = "gint \<times> gint"   \<comment> \<open>offset and length\<close>

definition mmap_chunk_ok :: "gint \<Rightarrow> gint \<Rightarrow> gint \<Rightarrow> bool" where
  "mmap_chunk_ok sz off len \<longleftrightarrow>
     \<not> (sint off < sint mmapHeaderSize \<or> sint len < 0 \<or> sint off > sint sz \<or>
        sint len > sint (sz - off))"

text \<open>The type assertion \<open>v.(int64)\<close>.\<close>

definition any_int64 :: "any \<Rightarrow> gint option" where
  "any_int64 v = (case v of GInt64 n \<Rightarrow> Some n | _ \<Rightarrow> None)"

lemma any_int64_Some [simp]: "any_int64 v = Some n \<longleftrightarrow> v = GInt64 n"
  by (cases v) (auto simp: any_int64_def)

lemma any_int64_simps [simp]: "any_int64 (GInt64 n) = Some n"
  by simp

fun parse_chunk_items :: "any list \<Rightarrow> gint \<Rightarrow> mmap_chunk list \<Rightarrow> gint \<Rightarrow> mmap_error + (mmap_chunk list \<times> gint)"
  where
  "parse_chunk_items [] sz chunks tot = Inr (chunks, tot)"
| "parse_chunk_items (item # items) sz chunks tot =
     (case any_list item of
        Some [first, second] \<Rightarrow>
          (case (any_int64 first, any_int64 second) of
             (Some off, Some len) \<Rightarrow>
               if \<not> mmap_chunk_ok sz off len then Inl ChunkOutsideArea
               else if sint len > sint (sz - tot) then Inl ChunkSizesOverflow
               else parse_chunk_items items sz (chunks @ [(off, len)]) (tot + len)
           | _ \<Rightarrow> Inl ChunkOutsideArea)
      | _ \<Rightarrow> Inl BadChunkDescriptor)"

definition parseMmapChunks :: "any \<Rightarrow> gint \<Rightarrow> mmap_error + mmap_chunk list" where
  "parseMmapChunks raw sz =
     (case any_list raw of
        None \<Rightarrow> Inl BadChunkList
      | Some items \<Rightarrow>
          if length items = 0 \<or> length items > 2 then Inl BadChunkList
          else bind_res (parse_chunk_items items sz [] 0)
            (\<lambda>(chunks, tot). if tot = 0 then Inl NoPixelData else Inr chunks))"

text \<open>
  \<open>readChunks\<close>: the pixels, and the read cursor that releasing them publishes.  Slicing is
  within bounds once the chunks are parsed.
\<close>

definition chunk_slice :: "bytes \<Rightarrow> mmap_chunk \<Rightarrow> bytes" where
  "chunk_slice data c = subslice (nat (sint (fst c))) (nat (sint (snd c))) data"

definition readChunks :: "any \<Rightarrow> mmap_area \<Rightarrow> mmap_error + (bytes \<times> 32 word)" where
  "readChunks raw a =
     (if \<not> mm_enabled a then Inl MmapNotNegotiated
      else bind_res (parseMmapChunks raw (of_nat (length (mm_data a))))
        (\<lambda>chunks.
          let cursor = ucast (fst (last chunks) + snd (last chunks)) in
          Inr (concat (map (chunk_slice (mm_data a)) chunks), cursor)))"

definition release_chunks :: "32 word \<Rightarrow> mmap_area \<Rightarrow> mmap_area" where
  "release_chunks cursor a = a\<lparr>mm_data := rev (be_bytes 4 cursor) @ drop 4 (mm_data a)\<rparr>"

text \<open>
  The file behind the area.  The argument of \<open>removeBackingFile\<close> is \<open>os.Remove\<close>: whether
  the file is gone after it.
\<close>

definition removeBackingFile :: "(string \<Rightarrow> bool) \<Rightarrow> mmap_area \<Rightarrow> mmap_area" where
  "removeBackingFile os_remove a =
     a\<lparr>mm_file_open := False,
       mm_filename := (if mm_filename a \<noteq> [] \<and> os_remove (mm_filename a) then [] else mm_filename a)\<rparr>"

definition mmap_close :: "(string \<Rightarrow> bool) \<Rightarrow> mmap_area \<Rightarrow> mmap_area" where
  "mmap_close os_remove a =
     removeBackingFile os_remove (a\<lparr>mm_data := [], mm_mapped := False, mm_enabled := False\<rparr>)"

datatype mmap_start_error =
    FileNotCreated
  | FileNotSized
  | FileNotMapped
  | NoToken mmap_error

text \<open>Page sizes are positive, so Go's division is \<open>div\<close> here.\<close>

definition mmap_file_size :: "gint \<Rightarrow> gint" where
  "mmap_file_size pageSize =
     word_of_int (sint (mmapPayloadSize + mmapHeaderSize + pageSize - 1) div sint pageSize) * pageSize"

text \<open>
  \<open>newMmapArea\<close>: the name of the temporary file, whether it could be sized and the mapped
  bytes are the answers of the operating system; a freshly sized file reads as zeros.
\<close>

definition newMmapArea ::
    "string option \<Rightarrow> bool \<Rightarrow> bytes option \<Rightarrow> bytes option \<Rightarrow> gint option \<Rightarrow>
     mmap_start_error + mmap_area" where
  "newMmapArea filename truncated mapping random place =
     (case filename of
        None \<Rightarrow> Inl FileNotCreated
      | Some name \<Rightarrow>
          if \<not> truncated then Inl FileNotSized
          else case mapping of
              None \<Rightarrow> Inl FileNotMapped
            | Some data \<Rightarrow>
                (case generateToken random place
                    \<lparr>mm_data = data, mm_file_open = True, mm_filename = name, mm_token = 0,
                     tokenIndex = 0, tokenBytes = mmapTokenBytes, mm_mapped = True,
                     mm_enabled = False\<rparr> of
                   Inl e \<Rightarrow> Inl (NoToken e)
                 | Inr area \<Rightarrow> Inr area))"

section \<open>Tokens can be verified\<close>

lemma bytes_nat_snoc [simp]: "bytes_nat (bs @ [b]) = bytes_nat bs * 256 + unat b"
  by (simp add: bytes_nat_def)

lemma bytes_nat_Nil [simp]: "bytes_nat [] = 0"
  by (simp add: bytes_nat_def)

lemma bytes_nat_zeros: "bytes_nat (replicate n 0 @ bs) = bytes_nat bs"
proof -
  have "foldl (\<lambda>acc b. acc * 256 + unat b) 0 (replicate n (0 :: byte)) = 0"
    by (induction n) auto
  then show ?thesis by (simp add: bytes_nat_def)
qed

lemma bytes_nat_nat_bytes [simp]: "bytes_nat (nat_bytes n) = n"
proof (induction n rule: nat_bytes.induct)
  case (1 n)
  then show ?case by (subst nat_bytes.simps) (simp add: unat_byte_of_nat)
qed

lemma good_bounds:
  assumes "\<not> bad_bounds n idx count"
  shows "nat (sint idx) + nat (sint count) \<le> n" "0 < nat (sint count)"
    "0 \<le> sint idx" "0 < sint count"
  using assms by (auto simp: bad_bounds_def)

lemma writeMmapToken_Inr:
  assumes "writeMmapToken data token idx count = Inr data'"
  shows "0 \<le> token" "\<not> bad_bounds (length data) idx count" "length data' = length data"
    "subslice (nat (sint idx)) (nat (sint count)) data' =
      rev (nat_bytes (nat token)) @ replicate (nat (sint count) - length (nat_bytes (nat token))) 0"
    "\<And>i. i < nat (sint idx) \<or> nat (sint idx) + nat (sint count) \<le> i \<Longrightarrow> data' ! i = data ! i"
proof -
  let ?i = "nat (sint idx)" and ?n = "nat (sint count)" and ?e = "nat_bytes (nat token)"
  have ok: "0 \<le> token" "\<not> bad_bounds (length data) idx count" "int (length ?e) \<le> sint count"
    and data': "data' = take ?i data @ rev ?e @ replicate (?n - length ?e) 0 @ drop (?i + ?n) data"
    using assms by (auto simp: writeMmapToken_def Let_def split: if_splits)
  note b = good_bounds [OF ok(2)]
  have le: "length ?e \<le> ?n" using ok(3) b(4) by linarith
  show "0 \<le> token" "\<not> bad_bounds (length data) idx count" by (rule ok)+
  define mid where "mid = rev ?e @ replicate (?n - length ?e) 0"
  have mid: "length mid = ?n" "data' = take ?i data @ mid @ drop (?i + ?n) data"
    using le data' by (simp_all add: mid_def)
  show "length data' = length data" using mid b(1) by simp
  show "subslice ?i ?n data' = rev ?e @ replicate (?n - length ?e) 0"
    using mid b(1) by (simp add: subslice_def mid_def [symmetric])
  fix i assume "i < ?i \<or> ?i + ?n \<le> i"
  then show "data' ! i = data ! i"
  proof
    assume "i < ?i"
    then show ?thesis using mid(2) b(1) by (simp add: nth_append)
  next
    assume "?i + ?n \<le> i"
    then have "\<not> i < ?i" "\<not> i - ?i < ?n" "?i + ?n + (i - ?i - ?n) = i" by linarith+
    then show ?thesis using mid b(1) by (simp add: nth_append)
  qed
qed

lemma readMmapToken_written:
  assumes "writeMmapToken data token idx count = Inr data'"
  shows "readMmapToken data' idx count = Inr token"
  using writeMmapToken_Inr [OF assms] by (simp add: readMmapToken_def bytes_nat_zeros)

section \<open>Chunks stay inside the area\<close>

definition chunk_inside :: "nat \<Rightarrow> mmap_chunk \<Rightarrow> bool" where
  "chunk_inside n c \<longleftrightarrow> 8 \<le> sint (fst c) \<and> 0 \<le> sint (snd c) \<and> sint (fst c) + sint (snd c) \<le> int n"

lemma mmap_chunk_ok_inside:
  assumes "mmap_chunk_ok sz off len" and "sint sz = int n"
  shows "chunk_inside n (off, len)"
proof -
  have "8 \<le> sint off" "0 \<le> sint len" "sint off \<le> sint sz" "sint len \<le> sint (sz - off)"
    using assms(1) by (auto simp: mmap_chunk_ok_def mmapHeaderSize_def)
  moreover from this have "sint (sz - off) = sint sz - sint off"
    using sint_int64 [of sz] by (intro sint_minus) (simp add: int64_range_def)
  ultimately show ?thesis using assms(2) by (simp add: chunk_inside_def)
qed

lemma parse_chunk_items_Inr:
  assumes "parse_chunk_items items sz chunks tot = Inr (cs, t)"
    and "sint sz = int n" "0 \<le> sint tot" "sint tot \<le> int n"
  shows "\<exists>ds. cs = chunks @ ds \<and> length ds = length items \<and> (\<forall>d\<in>set ds. chunk_inside n d) \<and>
    sint t = sint tot + sum_list (map (\<lambda>d. sint (snd d)) ds) \<and> sint t \<le> int n"
  using assms
proof (induction items sz chunks tot rule: parse_chunk_items.induct)
  case (2 item items sz chunks tot)
  from 2(2) obtain off len where item: "item = GList [GInt64 off, GInt64 len]"
    by (auto split: option.splits list.splits)
  with 2(2) have ok: "mmap_chunk_ok sz off len" and le: "sint len \<le> sint (sz - tot)"
    and rest: "parse_chunk_items items sz (chunks @ [(off, len)]) (tot + len) = Inr (cs, t)"
    by (auto split: if_splits)
  note inside = mmap_chunk_ok_inside [OF ok 2(3)]
  have "sint (sz - tot) = sint sz - sint tot"
    using 2(3-5) sint_int64 [of sz] by (intro sint_minus) (simp add: int64_range_def)
  then have sum: "sint tot + sint len \<le> int n" "0 \<le> sint len"
    using le 2(3) inside by (auto simp: chunk_inside_def)
  then have eq: "sint (tot + len) = sint tot + sint len"
    using 2(3,4) sint_int64 [of sz] by (intro sint_plus) (simp add: int64_range_def)
  have "\<exists>ds. cs = (chunks @ [(off, len)]) @ ds \<and> length ds = length items \<and>
      (\<forall>d\<in>set ds. chunk_inside n d) \<and>
      sint t = sint (tot + len) + sum_list (map (\<lambda>d. sint (snd d)) ds) \<and> sint t \<le> int n"
    using 2(1) item ok le rest 2(3,4) eq sum by simp
  then obtain ds where ds: "cs = (chunks @ [(off, len)]) @ ds" "length ds = length items"
    "\<forall>d\<in>set ds. chunk_inside n d"
    "sint t = sint (tot + len) + sum_list (map (\<lambda>d. sint (snd d)) ds)" "sint t \<le> int n" by blast
  then show ?case
    using inside eq by (intro exI [of _ "(off, len) # ds"]) auto
qed simp

lemma parseMmapChunks_Inr:
  assumes "parseMmapChunks raw (of_nat n) = Inr chunks" and "n < 2 ^ 63"
  shows "length chunks \<in> {1, 2}" "\<forall>c\<in>set chunks. chunk_inside n c"
    "0 < sum_list (map (\<lambda>c. sint (snd c)) chunks)" "sum_list (map (\<lambda>c. sint (snd c)) chunks) \<le> int n"
proof -
  have n: "sint (of_nat n :: gint) = int n" using assms(2) by (rule sint_of_nat)
  from assms(1) obtain items t where raw: "raw = GList items" and len: "length items \<noteq> 0" "length items \<le> 2"
    and parse: "parse_chunk_items items (of_nat n) [] 0 = Inr (chunks, t)" and t: "t \<noteq> 0"
    by (auto simp: parseMmapChunks_def bind_res_eq_Inr split: option.splits if_splits)
  from parse_chunk_items_Inr [OF parse n] obtain ds where
    ds: "chunks = ds" "length ds = length items" "\<forall>d\<in>set ds. chunk_inside n d"
    "sint t = sum_list (map (\<lambda>d. sint (snd d)) ds)" "sint t \<le> int n" by auto
  have "0 \<le> sum_list (map (\<lambda>d. sint (snd d)) ds)"
    using ds(3) by (auto simp: chunk_inside_def intro!: sum_list_nonneg)
  moreover have "sint t \<noteq> 0" using t by (simp add: signed_eq_0_iff)
  ultimately show "0 < sum_list (map (\<lambda>c. sint (snd c)) chunks)" using ds by simp
  have "length items = 1 \<or> length items = 2" using len by arith
  then show "length chunks \<in> {1, 2}" using ds(1,2) by auto
  show "\<forall>c\<in>set chunks. chunk_inside n c" "sum_list (map (\<lambda>c. sint (snd c)) chunks) \<le> int n"
    using ds by auto
qed

text \<open>The pixels read are exactly the announced bytes, and never those of the header.\<close>

lemma length_chunk_slice: "chunk_inside (length data) c \<Longrightarrow> length (chunk_slice data c) = nat (sint (snd c))"
  unfolding chunk_slice_def by (intro length_subslice) (auto simp: chunk_inside_def)

lemma readChunks_Inr:
  assumes "readChunks raw a = Inr (pixels, cursor)" and "length (mm_data a) < 2 ^ 63"
  shows "\<exists>chunks. parseMmapChunks raw (of_nat (length (mm_data a))) = Inr chunks \<and>
    pixels = concat (map (chunk_slice (mm_data a)) chunks) \<and>
    int (length pixels) = sum_list (map (\<lambda>c. sint (snd c)) chunks) \<and>
    cursor = ucast (fst (last chunks) + snd (last chunks)) \<and> mm_enabled a"
proof -
  from assms(1) obtain chunks where c: "parseMmapChunks raw (of_nat (length (mm_data a))) = Inr chunks"
    "pixels = concat (map (chunk_slice (mm_data a)) chunks)"
    "cursor = ucast (fst (last chunks) + snd (last chunks))" "mm_enabled a"
    by (auto simp: readChunks_def bind_res_eq_Inr Let_def split: if_splits)
  have "\<forall>c\<in>set chunks. chunk_inside (length (mm_data a)) c"
    using parseMmapChunks_Inr [OF c(1) assms(2)] by simp
  then have "int (length (concat (map (chunk_slice (mm_data a)) chunks))) =
      sum_list (map (\<lambda>c. sint (snd c)) chunks)"
    by (induction chunks) (auto simp: length_chunk_slice chunk_inside_def)
  with c show ?thesis by blast
qed

lemma release_chunks_payload:
  "4 \<le> length (mm_data a) \<Longrightarrow> 4 \<le> i \<Longrightarrow> mm_data (release_chunks cursor a) ! i = mm_data a ! i"
  by (simp add: release_chunks_def nth_append)

lemma release_chunks_cursor:
  "be_word (rev (take 4 (mm_data (release_chunks cursor a)))) = cursor"
  by (simp add: release_chunks_def be_word_be_bytes)

end
