(* ===== verification/Client_State.thy ===== *)
theory Client_State
  imports Client_Mmap Proto_Conn Ui_Types
begin

text \<open>
  The state of the client, \<open>client/client.go\<close>.  Everything on \<open>Client\<close> belongs to the one
  goroutine that runs \<open>Run\<close>, so each handler is a function from state to state.

  What is not code of this package is reached through the record \<open>env\<close>: the display and its
  windows (an implementation of the interfaces of \<open>ui/ui.go\<close>), the image decoders, the
  random numbers and digests, and what the process can ask of its system.  The state these
  act on is the component \<open>world\<close>, of any type.  A window is known by its \<open>ID()\<close>.

  The connection is the record of \<open>Proto_Conn\<close>.  The component \<open>sent\<close> is a record of every
  packet the client has handed to \<open>Conn.Send\<close>, kept for the properties only.
\<close>

section \<open>The environment\<close>

datatype image_codec = Jpeg | Png | Webp

text \<open>
  A decoded picture: its bounds and, for each point, the premultiplied 16-bit channels of
  \<open>At(x, y).RGBA()\<close>, or for a WebP picture the samples of its planes and the alpha value.
\<close>

record picture =
  min_X :: gint
  min_Y :: gint
  pic_Dx :: gint
  pic_Dy :: gint
  rgba_at :: "gint \<Rightarrow> gint \<Rightarrow> 32 word \<times> 32 word \<times> 32 word \<times> 32 word"
  ycbcr_at :: "(gint \<Rightarrow> gint \<Rightarrow> byte \<times> byte \<times> byte) option"
  alpha_at :: "(gint \<Rightarrow> gint \<Rightarrow> byte) option"

record 'd env =
  BackwardsCompatible :: bool
  NewWindow :: "gint \<Rightarrow> gint \<Rightarrow> gint \<Rightarrow> gint \<Rightarrow> bool \<Rightarrow> 'd \<Rightarrow> window_id option \<times> 'd"
  win_Geometry :: "window_id \<Rightarrow> 'd \<Rightarrow> gint \<times> gint \<times> gint \<times> gint"
  win_SetTitle :: "window_id \<Rightarrow> string \<Rightarrow> 'd \<Rightarrow> 'd"
  win_SetIcon :: "window_id \<Rightarrow> icon option \<Rightarrow> 'd \<Rightarrow> string option \<times> 'd"
  win_Map :: "window_id \<Rightarrow> 'd \<Rightarrow> 'd"
  win_Raise :: "window_id \<Rightarrow> 'd \<Rightarrow> 'd"
  win_Minimize :: "window_id \<Rightarrow> bool \<Rightarrow> 'd \<Rightarrow> 'd"
  win_Destroy :: "window_id \<Rightarrow> 'd \<Rightarrow> 'd"
  win_MoveResize :: "window_id \<Rightarrow> gint \<Rightarrow> gint \<Rightarrow> gint \<Rightarrow> gint \<Rightarrow> 'd \<Rightarrow> string option \<times> 'd"
  win_Resized :: "window_id \<Rightarrow> gint \<Rightarrow> gint \<Rightarrow> gint \<Rightarrow> gint \<Rightarrow> 'd \<Rightarrow> string option \<times> 'd"
  win_Paint :: "window_id \<Rightarrow> gint \<Rightarrow> gint \<Rightarrow> gint \<Rightarrow> gint \<Rightarrow> bytes \<Rightarrow> gint \<Rightarrow> string \<Rightarrow> 'd \<Rightarrow>
    string option \<times> 'd"
  win_SetState :: "(window_id \<Rightarrow> string \<Rightarrow> bool \<Rightarrow> 'd \<Rightarrow> 'd) option"
  disp_Bell :: "gint \<Rightarrow> gint \<Rightarrow> gint \<Rightarrow> string \<Rightarrow> 'd \<Rightarrow> 'd"
  disp_SetCursor :: "cursor option \<Rightarrow> 'd \<Rightarrow> string option \<times> 'd"
  clip_SetText :: "bytes \<Rightarrow> 'd \<Rightarrow> string option \<times> 'd"
  WindowStates :: "'d \<Rightarrow> string list option"
  DesktopSize :: "'d \<Rightarrow> (gint \<times> gint \<times> bool) option"
  Monitors :: "'d \<Rightarrow> monitor list option"
  decode_config :: "image_codec \<Rightarrow> bytes \<Rightarrow> string + gint \<times> gint"
  decode_pixels :: "image_codec \<Rightarrow> bytes \<Rightarrow> string + picture"
  paint_time :: "'d \<Rightarrow> gint"
  Getenv :: "string \<Rightarrow> string"
  Hostname :: "string option"
  ReadFile :: "string \<Rightarrow> string option"
  os_Remove :: "string \<Rightarrow> bool"
  rand_Read :: "nat \<Rightarrow> 'd \<Rightarrow> bytes option \<times> 'd"
  hmac_sha256 :: "bytes \<Rightarrow> bytes \<Rightarrow> bytes"
  sha256 :: "bytes \<Rightarrow> bytes"
  ask_password :: "string \<Rightarrow> 'd \<Rightarrow> (string + string) \<times> 'd"

section \<open>The client\<close>

datatype auth_error = NoServerSalt | WrongDigests string string | NoClientSalt

datatype client_error =
    MmapNegotiation mmap_error
  | PasswordRejected
  | PasswordRequired
  | PromptFailed string
  | NoPasswordEntered
  | Authentication auth_error
  | ResponseNotSent send_error

record clip_request =
  req_generation :: gint
  req_target :: string

record 'd client =
  world :: 'd
  cl_conn :: conn
  sent :: "packet list"
  windows :: "(gint \<times> window_id) list"
  byLocal :: "(window_id \<times> gint) list"
  cl_monitors :: "monitor list"
  cl_states :: "string list"
  iconified :: "(gint \<times> bool) list"
  serverIconic :: "(gint \<times> bool) list"
  iconify_timers :: "gint list"    \<comment> \<open>goroutines on their way to \<open>iconifyDue\<close>\<close>
  focus_timers :: nat              \<comment> \<open>goroutines on their way to \<open>focusLostDue\<close>\<close>
  focusLosing :: bool
  focused :: gint
  has_clipboard :: bool
  clipboardReady :: bool
  clipboardCanSend :: bool
  clipboardCanReceive :: bool
  clipboardKnown :: bool
  clipboardText :: bytes
  clipboardGeneration :: gint
  nextClipboardRequest :: gint
  clipboardRequests :: "(gint \<times> clip_request) list"
  pinging :: bool
  serverVersion :: string
  challengeSeen :: bool
  cl_username :: string
  cl_password :: string
  has_prompt :: bool
  mmap :: "mmap_area option"
  exitErr :: "client_error option"
  quitting :: bool                 \<comment> \<open>the channel \<open>quit\<close> is closed\<close>
  disconnect_reason :: "string option"

definition newClient :: "'d \<Rightarrow> conn \<Rightarrow> bool \<Rightarrow> string \<Rightarrow> string \<Rightarrow> 'd client" where
  "newClient w conn clipboard username password =
     \<lparr>world = w, cl_conn = conn, sent = [], windows = [], byLocal = [], cl_monitors = [],
      cl_states = [], iconified = [], serverIconic = [], iconify_timers = [], focus_timers = 0,
      focusLosing = False, focused = 0, has_clipboard = clipboard, clipboardReady = False,
      clipboardCanSend = False, clipboardCanReceive = False, clipboardKnown = False,
      clipboardText = [], clipboardGeneration = 0, nextClipboardRequest = 0,
      clipboardRequests = [], pinging = False, serverVersion = [], challengeSeen = False,
      cl_username = username, cl_password = password, has_prompt = False, mmap = None,
      exitErr = None, quitting = False, disconnect_reason = None\<rparr>"

section \<open>Sending and stopping\<close>

text \<open>\<open>c.conn.Send\<close>, with the error it returns; \<open>send\<close> only logs it.\<close>

definition conn_send :: "packet \<Rightarrow> 'd client \<Rightarrow> send_error option \<times> 'd client" where
  "conn_send p c =
     (case conn_Send p (cl_conn c) of (e, conn') \<Rightarrow> (e, c\<lparr>cl_conn := conn', sent := sent c @ [p]\<rparr>))"

definition send :: "packet \<Rightarrow> 'd client \<Rightarrow> 'd client" where
  "send p c = snd (conn_send p c)"

definition stop :: "client_error option \<Rightarrow> 'd client \<Rightarrow> 'd client" where
  "stop err c = c\<lparr>exitErr := (if exitErr c = None then err else exitErr c), quitting := True\<rparr>"

definition sendDisconnect :: "'d env \<Rightarrow> string \<Rightarrow> 'd client \<Rightarrow> 'd client" where
  "sendDisconnect env reason =
     send [GString (if BackwardsCompatible env then ''disconnect'' else ''connection-close''),
           GString reason]"

text \<open>\<open>Disconnect\<close> may be called from any goroutine: it only leaves the first reason behind.\<close>

definition Disconnect :: "string \<Rightarrow> 'd client \<Rightarrow> 'd client" where
  "Disconnect reason c =
     (if disconnect_reason c = None then c\<lparr>disconnect_reason := Some reason\<rparr> else c)"

section \<open>Windows\<close>

definition lookup :: "window_id \<Rightarrow> 'd client \<Rightarrow> (gint \<times> window_id) option" where
  "lookup local_id c =
     (case map_of (byLocal c) local_id of
        None \<Rightarrow> None
      | Some wid \<Rightarrow> (case map_of (windows c) wid of None \<Rightarrow> None | Some w \<Rightarrow> Some (wid, w)))"

text \<open>A bool map read at an absent key is false.\<close>

definition flag :: "('k \<times> bool) list \<Rightarrow> 'k \<Rightarrow> bool" where
  "flag m k = (case map_of m k of Some b \<Rightarrow> b | None \<Rightarrow> False)"

section \<open>What the elementary operations leave alone\<close>

lemma send_simps [simp]:
  "world (send p c) = world c" "sent (send p c) = sent c @ [p]"
  "windows (send p c) = windows c" "byLocal (send p c) = byLocal c"
  "cl_monitors (send p c) = cl_monitors c" "cl_states (send p c) = cl_states c"
  "iconified (send p c) = iconified c" "serverIconic (send p c) = serverIconic c"
  "iconify_timers (send p c) = iconify_timers c" "focus_timers (send p c) = focus_timers c"
  "focusLosing (send p c) = focusLosing c" "focused (send p c) = focused c"
  "has_clipboard (send p c) = has_clipboard c" "clipboardReady (send p c) = clipboardReady c"
  "clipboardCanSend (send p c) = clipboardCanSend c"
  "clipboardCanReceive (send p c) = clipboardCanReceive c"
  "clipboardKnown (send p c) = clipboardKnown c" "clipboardText (send p c) = clipboardText c"
  "clipboardGeneration (send p c) = clipboardGeneration c"
  "nextClipboardRequest (send p c) = nextClipboardRequest c"
  "clipboardRequests (send p c) = clipboardRequests c" "pinging (send p c) = pinging c"
  "serverVersion (send p c) = serverVersion c" "challengeSeen (send p c) = challengeSeen c"
  "cl_username (send p c) = cl_username c" "cl_password (send p c) = cl_password c"
  "has_prompt (send p c) = has_prompt c" "mmap (send p c) = mmap c" "exitErr (send p c) = exitErr c"
  "quitting (send p c) = quitting c" "disconnect_reason (send p c) = disconnect_reason c"
  by (simp_all add: send_def conn_send_def split: prod.split)

lemma stop_simps [simp]:
  "world (stop e c) = world c" "sent (stop e c) = sent c"
  "windows (stop e c) = windows c" "byLocal (stop e c) = byLocal c"
  "challengeSeen (stop e c) = challengeSeen c" "mmap (stop e c) = mmap c"
  "iconified (stop e c) = iconified c" "serverIconic (stop e c) = serverIconic c"
  "iconify_timers (stop e c) = iconify_timers c" "focus_timers (stop e c) = focus_timers c"
  "focusLosing (stop e c) = focusLosing c" "focused (stop e c) = focused c"
  "clipboardRequests (stop e c) = clipboardRequests c"
  "clipboardGeneration (stop e c) = clipboardGeneration c"
  "nextClipboardRequest (stop e c) = nextClipboardRequest c"
  "quitting (stop e c)"
  by (simp_all add: stop_def)

end
