(* ===== verification/Client_Image.thy ===== *)
theory Client_Image
  imports Client_State
begin

text \<open>
  Encoded pictures, \<open>client/image.go\<close>: damage rectangles, cursors and window icons.  The
  decoders of the standard library and of golang.org/x/image are the operations
  \<open>decode_config\<close> and \<open>decode_pixels\<close> of the environment; everything around them, the
  checks of the sizes and the conversion of the pixels, is the program's.
\<close>

definition maxImageDimension :: gint where "maxImageDimension = 16384"
definition maxDecodedImageBytes :: gint where "maxDecodedImageBytes = 256 * 1024 * 1024"
definition maxCursorDimension :: gint where "maxCursorDimension = 1024"
definition maxWindowIconDimension :: gint where "maxWindowIconDimension = 1024"

section \<open>Errors and their texts\<close>

definition by_size :: "gint \<Rightarrow> gint \<Rightarrow> string" where
  "by_size w h = decimal (sint w) @ ''x'' @ decimal (sint h)"

datatype decode_error =
    UnsupportedImage string
  | ImageHeader string string
  | ImageSizeLimit string gint gint gint
  | ImageSizeMismatch string gint gint gint gint
  | ImageTooLarge string gint
  | ImagePixels string string
  | ImageBounds string gint gint gint gint

definition decode_error_text :: "decode_error \<Rightarrow> string" where
  "decode_error_text e = (case e of
     UnsupportedImage coding \<Rightarrow> ''unsupported image encoding '' @ [CHR 0x22] @ coding @ [CHR 0x22]
   | ImageHeader coding cause \<Rightarrow> ''decoding '' @ coding @ '' header: '' @ cause
   | ImageSizeLimit coding w h limit \<Rightarrow>
       coding @ '' image size '' @ by_size w h @ '' is outside the 1..'' @ decimal (sint limit) @ '' limit''
   | ImageSizeMismatch coding w h w' h' \<Rightarrow>
       coding @ '' image is '' @ by_size w h @ '', draw packet says '' @ by_size w' h'
   | ImageTooLarge coding n \<Rightarrow>
       coding @ '' image expands to '' @ decimal (sint n) @ '' bytes, over the '' @
       decimal (sint maxDecodedImageBytes) @ '' byte limit''
   | ImagePixels coding cause \<Rightarrow> ''decoding '' @ coding @ '' pixels: '' @ cause
   | ImageBounds coding w h w' h' \<Rightarrow>
       ''decoded '' @ coding @ '' image is '' @ by_size w h @ '', draw packet says '' @ by_size w' h')"

section \<open>Pixels\<close>

text \<open>
  \<open>webpYCbCrToRGB\<close>.  All intermediate values are below \<open>2\<^sup>24\<close> in absolute value, so the
  integers of the model are those of the code; the shifts are of non-negative numbers.
\<close>

definition multHi :: "int \<Rightarrow> int \<Rightarrow> int" where
  "multHi v coefficient = (v * coefficient) div 256"

definition webp_clip :: "int \<Rightarrow> byte" where
  "webp_clip v = (if v < 0 then 0 else if v div 64 > 255 then 255 else word_of_int (v div 64))"

definition webpYCbCrToRGB :: "byte \<Rightarrow> byte \<Rightarrow> byte \<Rightarrow> byte \<times> byte \<times> byte" where
  "webpYCbCrToRGB y cb cr =
     (let yi = uint y; cbi = uint cb; cri = uint cr in
      (webp_clip (multHi yi 19077 + multHi cri 26149 - 14234),
       webp_clip (multHi yi 19077 - multHi cbi 6419 - multHi cri 13320 + 8708),
       webp_clip (multHi yi 19077 + multHi cbi 33050 - 17685)))"

text \<open>The upper byte of a 16-bit channel, \<open>byte(v >> 8)\<close>.\<close>

definition channel_byte :: "32 word \<Rightarrow> byte" where
  "channel_byte v = ucast (drop_bit 8 v)"

text \<open>\<open>byte(uint16(v) * a / 0xff)\<close>.\<close>

definition premultiply :: "byte \<Rightarrow> byte \<Rightarrow> byte" where
  "premultiply v a = ucast ((ucast v * ucast a :: 16 word) div 0xff)"

definition damage_pixel :: "bool \<Rightarrow> picture \<Rightarrow> gint \<Rightarrow> gint \<Rightarrow> bytes" where
  "damage_pixel webp pic x y =
     (let px = min_X pic + x; py = min_Y pic + y in
      case (if webp then ycbcr_at pic else None) of
        Some planes \<Rightarrow>
          (case planes px py of (luma, cb, cr) \<Rightarrow>
           case webpYCbCrToRGB luma cb cr of (r, g, b) \<Rightarrow>
             (case alpha_at pic of
                Some alpha \<Rightarrow> (let a = alpha px py in
                  [premultiply b a, premultiply g a, premultiply r a, 0xff])
              | None \<Rightarrow> [b, g, r, 0xff]))
      | None \<Rightarrow>
          (case rgba_at pic px py of (r, g, b, a) \<Rightarrow>
             [channel_byte b, channel_byte g, channel_byte r, 0xff]))"

definition alpha_pixel :: "picture \<Rightarrow> gint \<Rightarrow> gint \<Rightarrow> bytes" where
  "alpha_pixel pic x y =
     (case rgba_at pic (min_X pic + x) (min_Y pic + y) of
        (r, g, b, a) \<Rightarrow> [channel_byte b, channel_byte g, channel_byte r, channel_byte a])"

text \<open>The loops over rows and columns fill the buffer from its beginning to its end.\<close>

definition fill_pixels :: "(gint \<Rightarrow> gint \<Rightarrow> bytes) \<Rightarrow> gint \<Rightarrow> gint \<Rightarrow> bytes" where
  "fill_pixels px width height =
     concat (map (\<lambda>y. concat (map (\<lambda>x. px (of_nat x) (of_nat y)) [0..<nat (sint width)]))
       [0..<nat (sint height)])"

section \<open>Decoding\<close>

definition codec_of :: "string \<Rightarrow> image_codec option" where
  "codec_of coding =
     (if coding = ''jpeg'' then Some Jpeg
      else if coding = ''png'' \<or> coding = ''png/P'' \<or> coding = ''png/L'' then Some Png
      else if coding = ''webp'' then Some Webp
      else None)"

definition outside_limit :: "gint \<Rightarrow> gint \<Rightarrow> gint \<Rightarrow> bool" where
  "outside_limit w h limit \<longleftrightarrow>
     sint w \<le> 0 \<or> sint h \<le> 0 \<or> sint w > sint limit \<or> sint h > sint limit"

definition decodeImage ::
    "'d env \<Rightarrow> string \<Rightarrow> bytes \<Rightarrow> gint \<Rightarrow> gint \<Rightarrow> decode_error + (bytes \<times> gint)" where
  "decodeImage env coding data width height =
     (case codec_of coding of
        None \<Rightarrow> Inl (UnsupportedImage coding)
      | Some codec \<Rightarrow>
          (case decode_config env codec data of
             Inl cause \<Rightarrow> Inl (ImageHeader coding cause)
           | Inr (w, h) \<Rightarrow>
               if outside_limit w h maxImageDimension
               then Inl (ImageSizeLimit coding w h maxImageDimension)
               else if w \<noteq> width \<or> h \<noteq> height then Inl (ImageSizeMismatch coding w h width height)
               else if sint (w * h * BytesPerPixel) > sint maxDecodedImageBytes
               then Inl (ImageTooLarge coding (w * h * BytesPerPixel))
               else
                 (case decode_pixels env codec data of
                    Inl cause \<Rightarrow> Inl (ImagePixels coding cause)
                  | Inr pic \<Rightarrow>
                      if pic_Dx pic \<noteq> width \<or> pic_Dy pic \<noteq> height
                      then Inl (ImageBounds coding (pic_Dx pic) (pic_Dy pic) width height)
                      else Inr (fill_pixels (damage_pixel (codec = Webp) pic) width height,
                                width * BytesPerPixel))))"

definition decodeAlphaPNG ::
    "'d env \<Rightarrow> bytes \<Rightarrow> gint \<Rightarrow> gint \<Rightarrow> gint \<Rightarrow> string \<Rightarrow> decode_error + (bytes \<times> gint \<times> gint)" where
  "decodeAlphaPNG env data expectedWidth expectedHeight maxDimension kind =
     (case decode_config env Png data of
        Inl cause \<Rightarrow> Inl (ImageHeader kind cause)
      | Inr (w, h) \<Rightarrow>
          if outside_limit w h maxDimension then Inl (ImageSizeLimit kind w h maxDimension)
          else if expectedWidth \<noteq> 0 \<and> (w \<noteq> expectedWidth \<or> h \<noteq> expectedHeight)
          then Inl (ImageSizeMismatch kind w h expectedWidth expectedHeight)
          else
            (case decode_pixels env Png data of
               Inl cause \<Rightarrow> Inl (ImagePixels kind cause)
             | Inr pic \<Rightarrow>
                 if pic_Dx pic \<noteq> w \<or> pic_Dy pic \<noteq> h
                 then Inl (ImageBounds kind (pic_Dx pic) (pic_Dy pic) w h)
                 else Inr (fill_pixels (alpha_pixel pic) w h, w, h)))"

definition decodeCursorPNG :: "'d env \<Rightarrow> bytes \<Rightarrow> decode_error + cursor" where
  "decodeCursorPNG env data =
     bind_res (decodeAlphaPNG env data 0 0 maxCursorDimension ''cursor'')
       (\<lambda>(pixels, width, height).
          Inr \<lparr>cursor_Pixels = pixels, cursor_Width = width, cursor_Height = height,
               HotspotX = 0, HotspotY = 0\<rparr>)"

definition decodeWindowIconPNG :: "'d env \<Rightarrow> bytes \<Rightarrow> gint \<Rightarrow> gint \<Rightarrow> decode_error + icon" where
  "decodeWindowIconPNG env data width height =
     bind_res (decodeAlphaPNG env data width height maxWindowIconDimension ''window icon'')
       (\<lambda>(pixels, _, _).
          Inr \<lparr>icon_Pixels = pixels, icon_Width = width, icon_Height = height\<rparr>)"

section \<open>What a successful decoding guarantees\<close>

lemma length_fill_pixels:
  assumes "\<And>x y. length (px x y) = 4"
  shows "length (fill_pixels px w h) = nat (sint h) * (nat (sint w) * 4)"
proof -
  have "length (concat (map (\<lambda>x. px (of_nat x) y) [0..<n])) = n * 4" for y n
    by (induction n) (auto simp: assms)
  then have "length (concat (map (\<lambda>y. concat (map (\<lambda>x. px (of_nat x) (of_nat y)) [0..<nat (sint w)])) [0..<m]))
      = m * (nat (sint w) * 4)" for m
    by (induction m) auto
  then show ?thesis by (simp add: fill_pixels_def)
qed

lemma length_damage_pixel [simp]: "length (damage_pixel webp pic x y) = 4"
  by (auto simp: damage_pixel_def Let_def split: option.split prod.split)

lemma length_alpha_pixel [simp]: "length (alpha_pixel pic x y) = 4"
  by (auto simp: alpha_pixel_def split: prod.split)

lemma not_outside_limit:
  "\<not> outside_limit w h limit \<Longrightarrow>
   1 \<le> sint w \<and> sint w \<le> sint limit \<and> 1 \<le> sint h \<and> sint h \<le> sint limit"
  by (auto simp: outside_limit_def)

lemma sint_limits [simp]:
  "sint maxImageDimension = 16384" "sint maxDecodedImageBytes = 268435456"
  "sint maxCursorDimension = 1024" "sint maxWindowIconDimension = 1024"
  by (simp_all add: maxImageDimension_def maxDecodedImageBytes_def maxCursorDimension_def
      maxWindowIconDimension_def)

lemma small_area:
  fixes w h :: gint
  assumes "1 \<le> sint w" "sint w \<le> 16384" "1 \<le> sint h" "sint h \<le> 16384"
  shows "sint (w * h * BytesPerPixel) = sint w * sint h * 4" "sint (w * BytesPerPixel) = sint w * 4"
  using assms good_size_area [of w h] sint_times [of w 4]
  by (auto simp: bad_size_def BytesPerPixel_def int64_range_def)

lemma decodeImage_Inr:
  assumes "decodeImage env coding data width height = Inr (pixels, stride)"
  shows "1 \<le> sint width" "sint width \<le> 16384" "1 \<le> sint height" "sint height \<le> 16384"
    "sint stride = sint width * 4" "int (length pixels) = sint stride * sint height"
    "length pixels \<le> 268435456"
proof -
  obtain codec w h pic where *: "decode_config env codec data = Inr (w, h)"
    "\<not> outside_limit w h maxImageDimension" "w = width" "h = height"
    "\<not> sint (w * h * BytesPerPixel) > sint maxDecodedImageBytes"
    "pixels = fill_pixels (damage_pixel (codec = Webp) pic) width height"
    "stride = width * BytesPerPixel"
    using assms by (auto simp: decodeImage_def split: option.splits sum.splits if_splits prod.splits)
  from not_outside_limit [OF *(2)] *(3,4)
  show r: "1 \<le> sint width" "sint width \<le> 16384" "1 \<le> sint height" "sint height \<le> 16384" by auto
  show s: "sint stride = sint width * 4" using small_area(2) [OF r] *(7) by simp
  have "length pixels = nat (sint height) * (nat (sint width) * 4)"
    using *(6) by (simp add: length_fill_pixels)
  then show l: "int (length pixels) = sint stride * sint height" using s r by simp
  show "length pixels \<le> 268435456"
    using small_area(1) [OF r] *(3-5) l s by (simp add: mult.commute mult.left_commute)
qed

lemma decodeAlphaPNG_Inr:
  assumes "decodeAlphaPNG env data ew eh limit kind = Inr (pixels, w, h)" and "sint limit \<le> 1024"
  shows "1 \<le> sint w" "sint w \<le> 1024" "1 \<le> sint h" "sint h \<le> 1024"
    "int (length pixels) = sint w * sint h * 4" "ew \<noteq> 0 \<longrightarrow> w = ew \<and> h = eh"
proof -
  obtain pic where *: "\<not> outside_limit w h limit" "pixels = fill_pixels (alpha_pixel pic) w h"
    "ew \<noteq> 0 \<longrightarrow> w = ew \<and> h = eh"
    using assms(1) by (auto simp: decodeAlphaPNG_def split: sum.splits if_splits prod.splits)
  from not_outside_limit [OF *(1)] assms(2)
  show r: "1 \<le> sint w" "sint w \<le> 1024" "1 \<le> sint h" "sint h \<le> 1024" by auto
  have "length pixels = nat (sint h) * (nat (sint w) * 4)"
    using *(2) by (simp add: length_fill_pixels)
  then show "int (length pixels) = sint w * sint h * 4" using r by (simp add: mult.commute)
  show "ew \<noteq> 0 \<longrightarrow> w = ew \<and> h = eh" by (rule *(3))
qed

lemma decodeWindowIconPNG_valid:
  assumes "decodeWindowIconPNG env data width height = Inr icon" and "width \<noteq> 0"
  shows "icon_Validate icon = None"
proof -
  from assms(1) obtain pixels w h where *: "decodeAlphaPNG env data width height maxWindowIconDimension ''window icon'' = Inr (pixels, w, h)"
    "icon = \<lparr>icon_Pixels = pixels, icon_Width = width, icon_Height = height\<rparr>"
    by (auto simp: decodeWindowIconPNG_def bind_res_eq_Inr)
  show ?thesis
    using decodeAlphaPNG_Inr [OF *(1)] *(2) assms(2) by (auto simp: icon_Validate_ok)
qed

end
