(* ===== verification/Client_Monitor.thy ===== *)
theory Client_Monitor
  imports Client_State
begin

text \<open>
  Monitor layouts and positions relative to them: \<open>client/monitor.go\<close>, and \<open>monitorCaps\<close> of
  \<open>client/client.go\<close>.
\<close>

definition usableMonitors :: "monitor list \<Rightarrow> monitor list" where
  "usableMonitors ms = filter (\<lambda>m. rect_Valid (Geometry m)) ms"

definition monitor_contains :: "monitor \<Rightarrow> gint \<Rightarrow> gint \<Rightarrow> bool" where
  "monitor_contains m x y =
     (let g = Geometry m; left = rect_X g; upper = rect_Y g;
          right = left + rect_Width g; bottom = upper + rect_Height g in
      sint x \<ge> sint left \<and> sint x < sint right \<and> sint y \<ge> sint upper \<and> sint y < sint bottom)"

fun relative_position_from :: "nat \<Rightarrow> monitor list \<Rightarrow> gint \<Rightarrow> gint \<Rightarrow> (nat \<times> gint \<times> gint) option" where
  "relative_position_from i [] x y = None"
| "relative_position_from i (m # ms) x y =
     (if monitor_contains m x y then Some (i, x - rect_X (Geometry m), y - rect_Y (Geometry m))
      else relative_position_from (Suc i) ms x y)"

definition monitorRelativePosition :: "monitor list \<Rightarrow> gint \<Rightarrow> gint \<Rightarrow> (nat \<times> gint \<times> gint) option" where
  "monitorRelativePosition ms = relative_position_from 0 ms"

definition monitorDescriptor :: "nat \<Rightarrow> gint \<Rightarrow> gint \<Rightarrow> monitor \<Rightarrow> dict" where
  "monitorDescriptor i x y m =
     [(''index'', GInt (of_nat i)),
      (''position'', GList [GInt (x - rect_X (Geometry m)), GInt (y - rect_Y (Geometry m))])]"

definition pointMonitorDescriptor :: "monitor list \<Rightarrow> gint \<Rightarrow> gint \<Rightarrow> dict option" where
  "pointMonitorDescriptor ms x y =
     (case monitorRelativePosition ms x y of
        None \<Rightarrow> None
      | Some (i, _, _) \<Rightarrow> Some (monitorDescriptor i x y (ms ! i)))"

definition windowMonitorDescriptor :: "monitor list \<Rightarrow> gint \<Rightarrow> gint \<Rightarrow> dict option" where
  "windowMonitorDescriptor ms x y =
     (case pointMonitorDescriptor ms x y of
        Some d \<Rightarrow> Some d
      | None \<Rightarrow> if length ms = 0 then None else Some (monitorDescriptor 0 x y (ms ! 0)))"

definition pointerProperties :: "monitor list \<Rightarrow> gint \<Rightarrow> gint \<Rightarrow> any" where
  "pointerProperties ms x y =
     GDict (case pointMonitorDescriptor ms x y of
              Some d \<Rightarrow> Dict_Set [] ''monitor'' (GDict d)
            | None \<Rightarrow> [])"

text \<open>\<open>monitorCaps\<close>: the capabilities of one monitor, and the map that numbers them.\<close>

definition rect_list :: "rectangle \<Rightarrow> any" where
  "rect_list r = GList [GInt (rect_X r), GInt (rect_Y r), GInt (rect_Width r), GInt (rect_Height r)]"

definition monitor_details :: "monitor \<Rightarrow> (bool \<times> string \<times> any) list" where
  "monitor_details m =
       [(rect_Valid (WorkArea m), ''workarea'', rect_list (WorkArea m)),
        (mon_Name m \<noteq> [], ''name'', GString (mon_Name m)),
        (Manufacturer m \<noteq> [], ''manufacturer'', GString (Manufacturer m)),
        (mon_Model m \<noteq> [], ''model'', GString (mon_Model m)),
        (SubpixelLayout m \<noteq> [], ''subpixel-layout'', GString (SubpixelLayout m)),
        (sint (WidthMM m) > 0, ''width-mm'', GInt (WidthMM m)),
        (sint (HeightMM m) > 0, ''height-mm'', GInt (HeightMM m)),
        (sint (RefreshRate m) > 0, ''refresh-rate'', GInt (RefreshRate m)),
        (sint (ScaleFactor m) > 0, ''scale-factor'', GInt (ScaleFactor m)),
        (True, ''primary'', GBool (Primary m))]"

definition set_present :: "dict \<Rightarrow> bool \<times> string \<times> any \<Rightarrow> dict" where
  "set_present d entry = (case entry of (present, k, v) \<Rightarrow> if present then Dict_Set d k v else d)"

definition monitor_info :: "monitor \<Rightarrow> dict" where
  "monitor_info m =
     foldl set_present (Dict_Set [] ''geometry'' (rect_list (Geometry m))) (monitor_details m)"

fun monitor_caps_from :: "(gint \<times> any) list \<Rightarrow> monitor list \<Rightarrow> (gint \<times> any) list" where
  "monitor_caps_from caps [] = caps"
| "monitor_caps_from caps (m # ms) =
     (if \<not> rect_Valid (Geometry m) then monitor_caps_from caps ms
      else monitor_caps_from (caps @ [(of_nat (length caps), GDict (monitor_info m))]) ms)"

definition monitorCaps :: "monitor list \<Rightarrow> (gint \<times> any) list" where
  "monitorCaps ms = monitor_caps_from [] ms"

section \<open>Indexes agree with the hello\<close>

lemma relative_position_from_Some:
  "relative_position_from i ms x y = Some (j, rx, ry) \<longleftrightarrow>
   (\<exists>k<length ms. j = i + k \<and> monitor_contains (ms ! k) x y \<and>
      (\<forall>l<k. \<not> monitor_contains (ms ! l) x y) \<and>
      rx = x - rect_X (Geometry (ms ! k)) \<and> ry = y - rect_Y (Geometry (ms ! k)))"
proof (induction i ms x y arbitrary: j rule: relative_position_from.induct)
  case (2 i m ms x y)
  show ?case
  proof (cases "monitor_contains m x y")
    case True
    then show ?thesis by (auto simp: less_Suc_eq_0_disj)
  next
    case False
    then show ?thesis
      by (simp add: 2 Ex_less_Suc2 All_less_Suc2)
  qed
qed simp

lemma pointMonitorDescriptor_Some:
  "pointMonitorDescriptor ms x y = Some d \<longleftrightarrow>
   (\<exists>k<length ms. monitor_contains (ms ! k) x y \<and> (\<forall>l<k. \<not> monitor_contains (ms ! l) x y) \<and>
      d = monitorDescriptor k x y (ms ! k))"
proof -
  have "pointMonitorDescriptor ms x y = Some d \<longleftrightarrow>
      (\<exists>j rx ry. monitorRelativePosition ms x y = Some (j, rx, ry) \<and>
        d = monitorDescriptor j x y (ms ! j))"
    by (auto simp: pointMonitorDescriptor_def split: option.splits)
  then show ?thesis
    by (auto simp: monitorRelativePosition_def relative_position_from_Some)
qed

lemma relative_position_from_None:
  "relative_position_from i ms x y = None \<longleftrightarrow> (\<forall>m\<in>set ms. \<not> monitor_contains m x y)"
  by (induction i ms x y rule: relative_position_from.induct) auto

lemma pointMonitorDescriptor_None:
  "pointMonitorDescriptor ms x y = None \<longleftrightarrow> (\<forall>m\<in>set ms. \<not> monitor_contains m x y)"
  using relative_position_from_None [of 0 ms x y]
  by (auto simp: pointMonitorDescriptor_def monitorRelativePosition_def split: option.splits)

lemma monitor_caps_from_usable:
  "monitor_caps_from caps (usableMonitors ms) =
   caps @ map (\<lambda>i. (of_nat (length caps + i), GDict (monitor_info (usableMonitors ms ! i))))
     [0..<length (usableMonitors ms)]"
proof (induction ms arbitrary: caps)
  case (Cons m ms)
  show ?case
  proof (cases "rect_Valid (Geometry m)")
    case True
    then have "usableMonitors (m # ms) = m # usableMonitors ms" by (simp add: usableMonitors_def)
    then show ?thesis using True Cons by (simp add: map_upt_Suc del: upt_Suc)
  next
    case False
    then show ?thesis using Cons by (simp add: usableMonitors_def)
  qed
qed (simp add: usableMonitors_def)

lemma length_usable_caps: "length (monitorCaps (usableMonitors ms)) = length (usableMonitors ms)"
  by (simp add: monitorCaps_def monitor_caps_from_usable)

lemma nth_usable_caps:
  "k < length (usableMonitors ms) \<Longrightarrow>
   monitorCaps (usableMonitors ms) ! k = (of_nat k, GDict (monitor_info (usableMonitors ms ! k)))"
  by (simp add: monitorCaps_def monitor_caps_from_usable)

lemma foldl_set_present_other:
  "\<forall>e\<in>set xs. fst (snd e) \<noteq> k \<Longrightarrow> map_of (foldl set_present d xs) k = map_of d k"
  by (induction xs arbitrary: d) (auto simp: set_present_def)

lemma monitor_info_geometry: "map_of (monitor_info m) ''geometry'' = Some (rect_list (Geometry m))"
  unfolding monitor_info_def
  by (subst foldl_set_present_other) (simp_all add: monitor_details_def)

lemma windowMonitorDescriptor_None: "windowMonitorDescriptor ms x y = None \<longleftrightarrow> ms = []"
  by (auto simp: windowMonitorDescriptor_def pointMonitorDescriptor_def monitorRelativePosition_def
      split: option.splits)

lemma windowMonitorDescriptor_Some:
  "windowMonitorDescriptor ms x y = Some d \<Longrightarrow>
   \<exists>k<length ms. d = monitorDescriptor k x y (ms ! k)"
  by (auto simp: windowMonitorDescriptor_def pointMonitorDescriptor_Some
      split: option.splits if_splits)

end
