(* ===== verification/Client_Windows.thy ===== *)
theory Client_Windows
  imports Client_Monitor Ui_Pixels
begin

text \<open>
  The forwarded windows, from \<open>client/client.go\<close>: the handlers of the packets that create,
  change and destroy windows, and of the desktop's reports about them.  Go iterates a map in
  no particular order; where a handler does so the model takes the order of creation.
\<close>

definition on_world :: "('d \<Rightarrow> 'd) \<Rightarrow> 'd client \<Rightarrow> 'd client" where
  "on_world f c = c\<lparr>world := f (world c)\<rparr>"

text \<open>A call of the display that returns an error, which the client only logs.\<close>

definition call_display :: "('d \<Rightarrow> string option \<times> 'd) \<Rightarrow> 'd client \<Rightarrow> 'd client" where
  "call_display f c = on_world (\<lambda>d. snd (f d)) c"

definition packetWindowSize :: "packet \<Rightarrow> gint \<times> gint" where
  "packetWindowSize p =
     (let dimension = (\<lambda>i. gmin (gmax (pkt_Int p i) 1) 0xffff) in (dimension 4, dimension 5))"

definition forgetWindow :: "'d env \<Rightarrow> gint \<Rightarrow> window_id \<Rightarrow> 'd client \<Rightarrow> 'd client" where
  "forgetWindow env wid w c =
     on_world (win_Destroy env w)
       (c\<lparr>byLocal := AList.delete w (byLocal c),
          iconified := AList.delete wid (iconified c),
          serverIconic := AList.delete wid (serverIconic c),
          windows := AList.delete wid (windows c),
          focused := (if focused c = wid then 0 else focused c)\<rparr>)"

definition apply_state :: "'d env \<Rightarrow> window_id \<Rightarrow> gdict \<Rightarrow> string \<Rightarrow> 'd \<Rightarrow> 'd" where
  "apply_state env w metadata state d =
     (case win_SetState env of
        Some set_state \<Rightarrow> if dict_Has metadata state then set_state w state (dict_Bool metadata state) d else d
      | None \<Rightarrow> d)"

definition applyStates :: "'d env \<Rightarrow> gint \<Rightarrow> window_id \<Rightarrow> gdict \<Rightarrow> 'd client \<Rightarrow> 'd client" where
  "applyStates env wid w metadata c =
     (let c = (if dict_Has metadata ''iconic''
               then let iconic = dict_Bool metadata ''iconic'' in
                 on_world (win_Minimize env w iconic)
                   (c\<lparr>serverIconic := AList.update wid iconic (serverIconic c)\<rparr>)
               else c)
      in on_world (fold (apply_state env w metadata) (cl_states c)) c)"

definition map_packet :: "monitor list \<Rightarrow> gint \<Rightarrow> gint \<times> gint \<times> gint \<times> gint \<Rightarrow> packet" where
  "map_packet ms wid geometry =
     (case geometry of (x, y, width, height) \<Rightarrow>
        [GString ''window-map'', GInt64 wid, GInt x, GInt y, GInt width, GInt height, GDict [], GDict []]
        @ (case windowMonitorDescriptor ms x y of Some d \<Rightarrow> [GDict d] | None \<Rightarrow> []))"

definition handleNewWindow :: "'d env \<Rightarrow> packet \<Rightarrow> bool \<Rightarrow> 'd client \<Rightarrow> 'd client" where
  "handleNewWindow env p overrideRedirect c =
     (let wid = pkt_Int p 1; x = pkt_Int p 2; y = pkt_Int p 3;
          (width, height) = packetWindowSize p;
          metadata = pkt_Dict p 6;
          override = (overrideRedirect \<or> dict_Bool metadata ''override-redirect'');
          c1 = (case map_of (windows c) wid of Some old \<Rightarrow> forgetWindow env wid old c | None \<Rightarrow> c)
      in case NewWindow env x y width height override (world c1) of
           (None, d) \<Rightarrow> c1\<lparr>world := d\<rparr>
         | (Some w, d) \<Rightarrow>
             let c2 = on_world (win_SetTitle env w (dict_Str metadata ''title'')) (c1\<lparr>world := d\<rparr>);
                 c3 = on_world (win_Map env w) (applyStates env wid w metadata c2);
                 c4 = c3\<lparr>windows := AList.update wid w (windows c3),
                         byLocal := AList.update w wid (byLocal c3)\<rparr>
             in if override then c4 else send (map_packet (cl_monitors c4) wid (x, y, width, height)) c4)"

text \<open>Most handlers begin by finding the window a packet is about.\<close>

definition with_window :: "packet \<Rightarrow> (gint \<Rightarrow> window_id \<Rightarrow> 'd client \<Rightarrow> 'd client) \<Rightarrow> 'd client \<Rightarrow> 'd client"
  where
  "with_window p f c =
     (case map_of (windows c) (pkt_Int p 1) of None \<Rightarrow> c | Some w \<Rightarrow> f (pkt_Int p 1) w c)"

definition handleLostWindow :: "'d env \<Rightarrow> packet \<Rightarrow> 'd client \<Rightarrow> 'd client" where
  "handleLostWindow env p = with_window p (forgetWindow env)"

definition handleMoveResize :: "'d env \<Rightarrow> packet \<Rightarrow> 'd client \<Rightarrow> 'd client" where
  "handleMoveResize env p =
     with_window p (\<lambda>wid w.
       let x = pkt_Int p 2; y = pkt_Int p 3; (width, height) = packetWindowSize p in
       call_display (win_MoveResize env w x y width height))"

definition handleMetadata :: "'d env \<Rightarrow> packet \<Rightarrow> 'd client \<Rightarrow> 'd client" where
  "handleMetadata env p =
     with_window p (\<lambda>wid w c.
       let metadata = pkt_Dict p 2 in
       applyStates env wid w metadata
         (if dict_Has metadata ''title''
          then on_world (win_SetTitle env w (dict_Str metadata ''title'')) c else c))"

definition handleRaiseWindow :: "'d env \<Rightarrow> packet \<Rightarrow> 'd client \<Rightarrow> 'd client" where
  "handleRaiseWindow env p = with_window p (\<lambda>wid w. on_world (win_Raise env w))"

definition handleBell :: "'d env \<Rightarrow> packet \<Rightarrow> 'd client \<Rightarrow> 'd client" where
  "handleBell env p =
     on_world (disp_Bell env (pkt_Int p 3) (pkt_Int p 4) (pkt_Int p 5) (pkt_Str p 8))"

definition handleShowDesktop :: "'d env \<Rightarrow> packet \<Rightarrow> 'd client \<Rightarrow> 'd client" where
  "handleShowDesktop env p c =
     (let show = (length p \<ge> 2 \<and> pkt_Bool p 1) in
      on_world (fold (\<lambda>(wid, w). win_Minimize env w show) (windows c)) c)"

section \<open>Reports of the desktop\<close>

definition handleConfigure ::
    "'d env \<Rightarrow> window_id \<Rightarrow> gint \<Rightarrow> gint \<Rightarrow> gint \<Rightarrow> gint \<Rightarrow> 'd client \<Rightarrow> 'd client" where
  "handleConfigure env ev_window x y width height c =
     (case lookup ev_window c of
        None \<Rightarrow> c
      | Some (wid, w) \<Rightarrow>
          if win_Geometry env w (world c) = (x, y, width, height) then c
          else case win_Resized env w x y width height (world c) of
              (Some e, d) \<Rightarrow> c\<lparr>world := d\<rparr>
            | (None, d) \<Rightarrow>
                let config = [(''geometry'', GList [GInt x, GInt y, GInt width, GInt height])];
                    config = (case windowMonitorDescriptor (cl_monitors c) x y of
                                Some m \<Rightarrow> Dict_Set config ''monitor'' (GDict m) | None \<Rightarrow> config)
                in send [GString ''window-configure'', GInt64 wid, GDict config] (c\<lparr>world := d\<rparr>))"

definition handleMinimized :: "'d env \<Rightarrow> window_id \<Rightarrow> bool \<Rightarrow> 'd client \<Rightarrow> 'd client" where
  "handleMinimized env ev_window minimized c =
     (case lookup ev_window c of
        None \<Rightarrow> c
      | Some (wid, w) \<Rightarrow>
          if flag (iconified c) wid = minimized then c
          else
            let c1 = c\<lparr>iconified := AList.update wid minimized (iconified c)\<rparr> in
            if map_of (serverIconic c1) wid = Some minimized then c1
            else if minimized then c1\<lparr>iconify_timers := iconify_timers c1 @ [wid]\<rparr>
            else send (map_packet (cl_monitors c1) wid (win_Geometry env w (world c1))) c1)"

definition sendIconified :: "gint \<Rightarrow> 'd client \<Rightarrow> 'd client" where
  "sendIconified wid c =
     (if \<not> flag (iconified c) wid \<or> flag (serverIconic c) wid then c
      else send [GString ''window-unmap'', GInt64 wid, GBool True, GDict [(''iconified'', GBool True)]] c)"

definition handleCloseRequest :: "window_id \<Rightarrow> 'd client \<Rightarrow> 'd client" where
  "handleCloseRequest ev_window c =
     (case lookup ev_window c of
        None \<Rightarrow> c
      | Some (wid, w) \<Rightarrow> send [GString ''window-close'', GInt64 wid] c)"

end
