(* ===== verification/Client_Draw.thy ===== *)
theory Client_Draw
  imports Client_Image Client_Windows
begin

text \<open>
  Screen updates, cursors and icons: \<open>handleDraw\<close>, the cursor handlers and
  \<open>handleWindowIcon\<close> of \<open>client/client.go\<close>.
\<close>

definition decodeError :: gint where "decodeError = -1"
definition decodeNotFound :: gint where "decodeNotFound = -2"

section \<open>The acknowledgement\<close>

definition ack_packet ::
    "bool \<Rightarrow> gint \<Rightarrow> gint \<Rightarrow> gint \<Rightarrow> gint \<Rightarrow> gint \<Rightarrow> string \<Rightarrow> packet" where
  "ack_packet backwardsCompatible wid width height sequence decodeTime message =
     (if backwardsCompatible
      then [GString ''window-draw-ack'', GInt64 sequence, GInt64 wid, GInt width, GInt height,
            GInt64 decodeTime, GString message]
      else [GString ''window-draw-ack'', GInt64 wid, GInt width, GInt height, GInt64 sequence,
            GInt64 decodeTime, GString message])"

text \<open>Releasing the pixels publishes the read cursor in the shared area.\<close>

definition releasePixels :: "32 word option \<Rightarrow> 'd client \<Rightarrow> 'd client" where
  "releasePixels cursor c =
     (case cursor of
        Some n \<Rightarrow> c\<lparr>mmap := map_option (release_chunks n) (mmap c)\<rparr>
      | None \<Rightarrow> c)"

definition mmap_error_text :: "mmap_error \<Rightarrow> string" where
  "mmap_error_text e = (case e of
     MmapNotNegotiated \<Rightarrow> ''mmap screen updates were not negotiated''
   | BadChunkList \<Rightarrow> ''invalid mmap chunk list''
   | BadChunkDescriptor \<Rightarrow> ''invalid mmap chunk descriptor''
   | ChunkOutsideArea \<Rightarrow> ''mmap chunk is outside the shared area''
   | ChunkSizesOverflow \<Rightarrow> ''mmap chunk sizes overflow''
   | NoPixelData \<Rightarrow> ''mmap chunks contain no pixel data''
   | BadToken \<Rightarrow> ''invalid mmap token bounds''
   | TokenOutsideArea \<Rightarrow> ''server returned mmap token bounds outside the shared area''
   | TokenMismatch \<Rightarrow> ''mmap token verification failed''
   | TokenTooLong \<Rightarrow> ''mmap token does not fit in the advertised token size''
   | AreaTooSmall \<Rightarrow> ''mmap area is too small for its token''
   | NoRandomness \<Rightarrow> ''generating mmap token'')"

section \<open>Drawing\<close>

text \<open>
  The second switch of \<open>handleDraw\<close>: what to paint from, with its row stride and format, or
  the message of a failed acknowledgement.
\<close>

definition draw_source ::
    "'d env \<Rightarrow> string \<Rightarrow> bytes \<Rightarrow> gint \<Rightarrow> gint \<Rightarrow> gint \<Rightarrow> gdict \<Rightarrow> string + (bytes \<times> gint \<times> string)" where
  "draw_source env coding pixels width height rowstride options =
     (let rgb_format = dict_Str options ''rgb_format'' in
      if coding = ''mmap'' then
        (if sint rowstride \<le> 0 \<or> sint height \<le> 0 \<or>
            sint rowstride > int (length pixels) div sint height
         then Inl ''mmap pixel data is smaller than its rowstride and height''
         else Inr (pixels, rowstride, if rgb_format = [] then ''RGB'' else rgb_format))
      else if coding = ''rgb'' \<or> coding = ''rgb24'' \<or> coding = ''rgb32'' then
        (if dict_Has options ''lz4'' then Inl ''unexpected lz4 compressed pixels''
         else if dict_Has options ''zstd'' then Inl ''unexpected zstd compressed pixels''
         else Inr (pixels, rowstride,
           if rgb_format \<noteq> [] then rgb_format
           else if coding = ''rgb24'' then ''RGB''
           else if coding = ''rgb32'' then ''RGBX'' else []))
      else if codec_of coding \<noteq> None then
        (case decodeImage env coding pixels width height of
           Inl e \<Rightarrow> Inl (decode_error_text e)
         | Inr (out, stride) \<Rightarrow> Inr (out, stride, ''BGRX''))
      else Inl (''unsupported encoding '' @ coding))"

definition paint_window ::
    "'d env \<Rightarrow> packet \<Rightarrow> window_id \<Rightarrow> bytes \<Rightarrow> (gint \<Rightarrow> string \<Rightarrow> 'd client \<Rightarrow> 'd client) \<Rightarrow> 'd client \<Rightarrow> 'd client"
  where
  "paint_window env p w pixels ack c =
     (let x = pkt_Int p 2; y = pkt_Int p 3; width = pkt_Int p 4; height = pkt_Int p 5 in
      case draw_source env (pkt_Str p 6) pixels width height (pkt_Int p 9) (pkt_Dict p 10) of
        Inl message \<Rightarrow> ack decodeError message c
      | Inr (source, stride, format) \<Rightarrow>
          (case win_Paint env w x y width height source stride format (world c) of
             (Some e, d) \<Rightarrow> ack decodeError e (c\<lparr>world := d\<rparr>)
           | (None, d) \<Rightarrow>
               let elapsed = paint_time env d in
               ack (if sint elapsed \<le> 0 then 1 else elapsed) [] (c\<lparr>world := d\<rparr>)))"

definition handleDraw :: "'d env \<Rightarrow> packet \<Rightarrow> 'd client \<Rightarrow> 'd client" where
  "handleDraw env p c =
     (let wid = pkt_Int p 1; width = pkt_Int p 4; height = pkt_Int p 5;
          coding = pkt_Str p 6; sequence = pkt_Int p 8; options = pkt_Dict p 10;
          ack = (\<lambda>cursor decodeTime message c.
            send (ack_packet (BackwardsCompatible env) wid width height sequence decodeTime message)
              (releasePixels cursor c))
      in if coding = ''mmap'' then
           (case mmap c of
              None \<Rightarrow> ack None decodeError ''mmap screen updates were not negotiated'' c
            | Some area \<Rightarrow>
                let chunks = dict_get options ''chunks'';
                    chunks = (if chunks = GNil \<and> length p > 7 then p ! 7 else chunks)
                in case readChunks chunks area of
                     Inl e \<Rightarrow> ack None decodeError (mmap_error_text e) c
                   | Inr (pixels, cursor) \<Rightarrow>
                       (case map_of (windows c) wid of
                          None \<Rightarrow> ack (Some cursor) decodeNotFound ''window not found'' c
                        | Some w \<Rightarrow> paint_window env p w pixels (ack (Some cursor)) c))
         else
           (case map_of (windows c) wid of
              None \<Rightarrow> ack None decodeNotFound ''window not found'' c
            | Some w \<Rightarrow>
                (case pkt_Bytes p 7 of
                   None \<Rightarrow> ack None decodeError ''no pixel data'' c
                 | Some pixels \<Rightarrow> paint_window env p w pixels (ack None) c)))"

section \<open>Cursors and icons\<close>

definition handleCursorDefault :: "'d env \<Rightarrow> 'd client \<Rightarrow> 'd client" where
  "handleCursorDefault env = call_display (disp_SetCursor env None)"

definition applyCursorPNG ::
    "'d env \<Rightarrow> string \<Rightarrow> bytes \<Rightarrow> gint \<Rightarrow> gint \<Rightarrow> 'd client \<Rightarrow> 'd client" where
  "applyCursorPNG env encoding data hotspotX hotspotY c =
     (if encoding \<noteq> ''png'' then c
      else case decodeCursorPNG env data of
          Inl e \<Rightarrow> c
        | Inr cursor \<Rightarrow>
            call_display (disp_SetCursor env (Some (cursor
              \<lparr>HotspotX := gmin (gmax hotspotX 0) (cursor_Width cursor - 1),
               HotspotY := gmin (gmax hotspotY 0) (cursor_Height cursor - 1)\<rparr>))) c)"

text \<open>What follows the last colon, \<open>strings.LastIndexByte\<close>.\<close>

definition after_last_colon :: "string \<Rightarrow> string" where
  "after_last_colon s =
     (if CHR '':'' \<in> set s then rev (takeWhile (\<lambda>ch. ch \<noteq> CHR '':'') (rev s)) else s)"

definition handleCursor :: "'d env \<Rightarrow> packet \<Rightarrow> 'd client \<Rightarrow> 'd client" where
  "handleCursor env p c =
     (if length p \<le> 2 then handleCursorDefault env c
      else if length p < 10 then c
      else
        let encoding = after_last_colon (pkt_Str p 1) in
        if encoding \<noteq> ''png'' then c
        else case pkt_Bytes p 9 of
            None \<Rightarrow> c
          | Some data \<Rightarrow> applyCursorPNG env encoding data (pkt_Int p 6) (pkt_Int p 7) c)"

definition handleCursorData :: "'d env \<Rightarrow> packet \<Rightarrow> 'd client \<Rightarrow> 'd client" where
  "handleCursorData env p c =
     (if length p < 9 then c
      else case pkt_Bytes p 7 of
          None \<Rightarrow> c
        | Some data \<Rightarrow> applyCursorPNG env (pkt_Str p 1) data (pkt_Int p 4) (pkt_Int p 5) c)"

definition handleWindowIcon :: "'d env \<Rightarrow> packet \<Rightarrow> 'd client \<Rightarrow> 'd client" where
  "handleWindowIcon env p c =
     (if length p < 6 then c
      else case map_of (windows c) (pkt_Int p 1) of
          None \<Rightarrow> c
        | Some w \<Rightarrow>
            if pkt_Str p 4 \<noteq> ''png'' then c
            else case pkt_Bytes p 5 of
                None \<Rightarrow> c
              | Some data \<Rightarrow>
                  if outside_limit (pkt_Int p 2) (pkt_Int p 3) maxWindowIconDimension then c
                  else case decodeWindowIconPNG env data (pkt_Int p 2) (pkt_Int p 3) of
                      Inl e \<Rightarrow> c
                    | Inr icon \<Rightarrow> call_display (win_SetIcon env w (Some icon)) c)"

section \<open>Every draw is acknowledged\<close>

lemma releasePixels_simps [simp]:
  "sent (releasePixels cur c) = sent c" "world (releasePixels cur c) = world c"
  "windows (releasePixels cur c) = windows c" "byLocal (releasePixels cur c) = byLocal c"
  "iconified (releasePixels cur c) = iconified c" "serverIconic (releasePixels cur c) = serverIconic c"
  "focused (releasePixels cur c) = focused c"
  "mmap (releasePixels None c) = mmap c"
  "mmap (releasePixels (Some n) c) = map_option (release_chunks n) (mmap c)"
  by (simp_all add: releasePixels_def split: option.split)

text \<open>What an acknowledgement may report: a paint time, or a failure.\<close>

definition ack_code :: "bool \<Rightarrow> gint \<Rightarrow> string \<Rightarrow> bool" where
  "ack_code known t message \<longleftrightarrow>
     (known \<and> (sint t > 0 \<and> message = [] \<or> t = decodeError)) \<or>
     (\<not> known \<and> (t = decodeError \<or> t = decodeNotFound))"

text \<open>The display after a draw: as before, or after one \<open>Paint\<close> of the rectangle.\<close>

definition paints_once :: "'d env \<Rightarrow> packet \<Rightarrow> window_id \<Rightarrow> 'd \<Rightarrow> 'd \<Rightarrow> bool" where
  "paints_once env p w d d' \<longleftrightarrow>
     d' = d \<or> (\<exists>source stride format. d' = snd (win_Paint env w (pkt_Int p 2) (pkt_Int p 3)
       (pkt_Int p 4) (pkt_Int p 5) source stride format d))"

lemma paint_window_ack:
  "\<exists>t message d. paint_window env p w pixels ack c = ack t message (c\<lparr>world := d\<rparr>) \<and>
     (sint t > 0 \<and> message = [] \<or> t = decodeError) \<and> paints_once env p w (world c) d"
proof (cases "draw_source env (pkt_Str p 6) pixels (pkt_Int p 4) (pkt_Int p 5) (pkt_Int p 9) (pkt_Dict p 10)")
  case (Inl message)
  then have "paint_window env p w pixels ack c = ack decodeError message (c\<lparr>world := world c\<rparr>)"
    by (simp add: paint_window_def)
  moreover have "paints_once env p w (world c) (world c)" by (simp add: paints_once_def)
  ultimately show ?thesis by blast
next
  case (Inr s)
  obtain source stride format where s: "s = (source, stride, format)" by (cases s)
  obtain r d where paint: "win_Paint env w (pkt_Int p 2) (pkt_Int p 3) (pkt_Int p 4) (pkt_Int p 5)
      source stride format (world c) = (r, d)" by fastforce
  then have "paints_once env p w (world c) d" unfolding paints_once_def by (metis snd_conv)
  show ?thesis
  proof (cases r)
    case None
    let ?t = "if sint (paint_time env d) \<le> 0 then 1 else paint_time env d"
    have "paint_window env p w pixels ack c = ack ?t [] (c\<lparr>world := d\<rparr>)"
      using Inr s paint None by (simp add: paint_window_def Let_def)
    moreover have "sint ?t > 0" by simp
    ultimately show ?thesis using \<open>paints_once env p w (world c) d\<close> by blast
  next
    case (Some e)
    then have "paint_window env p w pixels ack c = ack decodeError e (c\<lparr>world := d\<rparr>)"
      using Inr s paint by (simp add: paint_window_def Let_def)
    then show ?thesis using \<open>paints_once env p w (world c) d\<close> by blast
  qed
qed

text \<open>The read cursor a draw packet publishes, if it carries pixels in the shared area.\<close>

definition draw_cursor :: "packet \<Rightarrow> 'd client \<Rightarrow> 32 word option" where
  "draw_cursor p c =
     (if pkt_Str p 6 \<noteq> ''mmap'' then None
      else case mmap c of
          None \<Rightarrow> None
        | Some area \<Rightarrow>
            let chunks = dict_get (pkt_Dict p 10) ''chunks'';
                chunks = (if chunks = GNil \<and> length p > 7 then p ! 7 else chunks)
            in case readChunks chunks area of Inl e \<Rightarrow> None | Inr (pixels, cursor) \<Rightarrow> Some cursor)"

lemma handleDraw_shape:
  obtains t message d where
    "handleDraw env p c =
       send (ack_packet (BackwardsCompatible env) (pkt_Int p 1) (pkt_Int p 4) (pkt_Int p 5) (pkt_Int p 8)
         t message) (releasePixels (draw_cursor p c) (c\<lparr>world := d\<rparr>))"
    "ack_code (map_of (windows c) (pkt_Int p 1) \<noteq> None) t message"
    "d = world c \<or> (\<exists>w. map_of (windows c) (pkt_Int p 1) = Some w \<and> paints_once env p w (world c) d)"
proof -
  note result = that
  let ?ack = "\<lambda>cursor t message c. send (ack_packet (BackwardsCompatible env) (pkt_Int p 1)
    (pkt_Int p 4) (pkt_Int p 5) (pkt_Int p 8) t message) (releasePixels cursor c)"
  let ?w = "map_of (windows c) (pkt_Int p 1)"
  have same: "c\<lparr>world := world c\<rparr> = c" by simp
  have failed: thesis if "handleDraw env p c = ?ack (draw_cursor p c) t message c"
    "t = decodeError \<or> ?w = None \<and> t = decodeNotFound" for t message
    using that result [of t message "world c"] same by (cases ?w) (auto simp: ack_code_def)
  have painted: thesis
    if "handleDraw env p c = paint_window env p w pixels (?ack (draw_cursor p c)) c" "?w = Some w" for w pixels
    using paint_window_ack [of env p w pixels "?ack (draw_cursor p c)" c] that
      result by (auto simp: ack_code_def)
  show thesis
  proof (cases "pkt_Str p 6 = ''mmap''")
    case False
    then have none: "draw_cursor p c = None" by (simp add: draw_cursor_def)
    show ?thesis
    proof (cases ?w)
      case None
      then show ?thesis using failed [of decodeNotFound] False none
        by (simp add: handleDraw_def Let_def)
    next
      case (Some w)
      show ?thesis
      proof (cases "pkt_Bytes p 7")
        case None
        then show ?thesis using failed [of decodeError] False none Some
          by (simp add: handleDraw_def Let_def)
      next
        case (Some pixels)
        then show ?thesis using painted [of w pixels] False none \<open>?w = Some w\<close>
          by (simp add: handleDraw_def Let_def)
      qed
    qed
  next
    case True
    show ?thesis
    proof (cases "mmap c")
      case None
      then show ?thesis using failed [of decodeError] True
        by (simp add: handleDraw_def draw_cursor_def Let_def)
    next
      case (Some area)
      define chunks where "chunks = (let chunks = dict_get (pkt_Dict p 10) ''chunks'' in
        if chunks = GNil \<and> length p > 7 then p ! 7 else chunks)"
      show ?thesis
      proof (cases "readChunks chunks area")
        case (Inl e)
        then show ?thesis using failed [of decodeError] True Some
          by (simp add: handleDraw_def draw_cursor_def Let_def chunks_def)
      next
        case (Inr r)
        obtain pixels cur where r: "r = (pixels, cur)" by (cases r)
        have cur: "draw_cursor p c = Some cur"
          using Inr r True Some by (simp add: draw_cursor_def Let_def chunks_def)
        show ?thesis
        proof (cases ?w)
          case None
          then show ?thesis using failed [of decodeNotFound] True Some Inr r cur
            by (simp add: handleDraw_def Let_def chunks_def)
        next
          case (Some w)
          then show ?thesis using painted [of w pixels] True \<open>mmap c = Some area\<close> Inr r cur
            by (simp add: handleDraw_def Let_def chunks_def)
        qed
      qed
    qed
  qed
qed

section \<open>Only valid images reach the desktop\<close>

lemma sint_clamp:
  "1 \<le> sint n \<Longrightarrow> 0 \<le> sint (gmin (gmax h 0) (n - 1)) \<and> sint (gmin (gmax h 0) (n - 1)) < sint n"
proof -
  assume n: "1 \<le> sint n"
  then have "sint (n - 1) = sint n - 1"
    using sint_minus [of n 1] sint_int64 [of n] by (simp add: int64_range_def)
  then show ?thesis using n by (auto simp: gmin_def gmax_def)
qed

lemma applied_cursor_valid:
  assumes "decodeCursorPNG env data = Inr cur"
  shows "cursor_Validate (cur\<lparr>HotspotX := gmin (gmax x 0) (cursor_Width cur - 1),
    HotspotY := gmin (gmax y 0) (cursor_Height cur - 1)\<rparr>) = None"
proof -
  from assms obtain pixels w h where *: "decodeAlphaPNG env data 0 0 maxCursorDimension ''cursor'' = Inr (pixels, w, h)"
    "cur = \<lparr>cursor_Pixels = pixels, cursor_Width = w, cursor_Height = h, HotspotX = 0, HotspotY = 0\<rparr>"
    by (auto simp: decodeCursorPNG_def bind_res_eq_Inr)
  have lim: "sint maxCursorDimension \<le> 1024" by simp
  note d = decodeAlphaPNG_Inr [OF *(1) lim]
  show ?thesis
    using d(1-5) sint_clamp [OF d(1), of x] sint_clamp [OF d(3), of y] *(2)
    by (auto simp: cursor_Validate_ok)
qed

end
