(* ===== verification/Client_Clipboard.thy ===== *)
theory Client_Clipboard
  imports Client_State Go_Utf8
begin

text \<open>
  The text clipboard, \<open>client/clipboard.go\<close>: announcing local text, answering requests for
  it, and taking over remote text, inline or by a request of our own.  Clipboard text is a
  byte sequence.
\<close>

definition maxClipboardBytes :: nat where "maxClipboardBytes = 16 * 1024 * 1024"
definition maxClipboardTokenBytes :: nat where "maxClipboardTokenBytes = 4 * 1024 * 1024"
definition clipboardSelection :: string where "clipboardSelection = ''CLIPBOARD''"
definition clipboardSelections :: "string list" where "clipboardSelections = [clipboardSelection]"

definition clipboardTargets :: "string list" where
  "clipboardTargets =
     [''UTF8_STRING'', ''text/plain;charset=utf-8'', ''text/plain'', ''TEXT'', ''STRING'']"

section \<open>Values\<close>

definition stringValue :: "any \<Rightarrow> string option" where
  "stringValue v = (case v of GString s \<Rightarrow> Some s | GBytes b \<Rightarrow> Some (bytes_string b) | _ \<Rightarrow> None)"

definition valueStrings :: "any \<Rightarrow> string list" where
  "valueStrings v =
     (case v of GStrings ss \<Rightarrow> ss | GList xs \<Rightarrow> List.map_filter stringValue xs | _ \<Rightarrow> [])"

definition containsString :: "string list \<Rightarrow> string \<Rightarrow> bool" where
  "containsString values want \<longleftrightarrow> want \<in> set values"

definition isClipboardTextTarget :: "string \<Rightarrow> bool" where
  "isClipboardTextTarget target = containsString clipboardTargets target"

definition preferredClipboardTarget :: "string list \<Rightarrow> string" where
  "preferredClipboardTarget targets =
     (if length targets = 0 then ''UTF8_STRING''
      else case find (containsString targets) clipboardTargets of
          Some preferred \<Rightarrow> preferred
        | None \<Rightarrow> [])"

definition text_bytes :: "any \<Rightarrow> bytes option" where
  "text_bytes v = (case v of GBytes b \<Rightarrow> Some b | GString s \<Rightarrow> Some (string_bytes s) | _ \<Rightarrow> None)"

definition clipboardWireText :: "string \<Rightarrow> gint \<Rightarrow> string \<Rightarrow> any \<Rightarrow> bytes option" where
  "clipboardWireText target format encoding v =
     (if \<not> isClipboardTextTarget target \<or> format \<noteq> 8 \<or> encoding \<noteq> ''bytes'' then None
      else case text_bytes v of
          None \<Rightarrow> None
        | Some data \<Rightarrow>
            if length data > maxClipboardBytes then None
            else if utf8_valid data then Some data
            else if target \<noteq> ''STRING'' then None
            else Some (latin1 data))"

section \<open>Sending\<close>

definition text_item :: "bytes \<Rightarrow> any" where
  "text_item data = GList [GString ''UTF8_STRING'', GInt64 8, GString ''bytes'', GBytes data]"

definition sendClipboardToken :: "'d env \<Rightarrow> 'd client \<Rightarrow> 'd client" where
  "sendClipboardToken env c =
     (if \<not> clipboardKnown c then c
      else
        let data = clipboardText c; inline = (length data \<le> maxClipboardTokenBytes) in
        if BackwardsCompatible env then
          send ([GString ''clipboard-token'', GString clipboardSelection, GStrings clipboardTargets] @
                (if inline then [GString ''UTF8_STRING'', GString ''UTF8_STRING'', GInt 8,
                                 GString ''bytes'', GBytes data, GBool True, GBool True] else [])) c
        else
          let options = [(''claim'', GBool True), (''greedy'', GBool True),
                         (''targets'', GStrings clipboardTargets)];
              options = (if inline
                         then Dict_Set options ''data'' (GMap [(''UTF8_STRING'', text_item data)])
                         else options)
          in send [GString ''clipboard-data'', GString clipboardSelection, GDict options] c)"

definition announce :: "'d env \<Rightarrow> 'd client \<Rightarrow> 'd client" where
  "announce env c = (if clipboardCanSend c \<and> clipboardKnown c then sendClipboardToken env c else c)"

definition configureClipboard :: "'d env \<Rightarrow> gdict \<Rightarrow> 'd client \<Rightarrow> 'd client" where
  "configureClipboard env caps c0 =
     (let c = c0\<lparr>clipboardReady := False, clipboardCanSend := False, clipboardCanReceive := False,
                 clipboardRequests := []\<rparr>;
          selections = valueStrings (dict_get caps ''selections'');
          direction = (if dict_Str caps ''direction'' = [] then ''both'' else dict_Str caps ''direction'');
          start = (\<lambda>to_server to_client.
            announce env
              (send [GString ''clipboard-enable-selections'', GStrings clipboardSelections]
                 (c\<lparr>clipboardCanSend := to_server, clipboardCanReceive := to_client,
                    clipboardReady := True\<rparr>)))
      in if \<not> has_clipboard c \<or> caps = None \<or> dict_Has caps ''enabled'' \<and> \<not> dict_Bool caps ''enabled''
         then c
         else if length selections > 0 \<and> \<not> containsString selections clipboardSelection then c
         else if direction = ''both'' then start True True
         else if direction = ''to-server'' then start True False
         else if direction = ''to-client'' then start False True
         else c)"

definition handleClipboardChange :: "'d env \<Rightarrow> bytes \<Rightarrow> 'd client \<Rightarrow> 'd client" where
  "handleClipboardChange env text c =
     (if length text > maxClipboardBytes then c
      else if \<not> utf8_valid text then c
      else if clipboardKnown c \<and> clipboardText c = text then c
      else
        let c1 = c\<lparr>clipboardText := text, clipboardKnown := True\<rparr> in
        if clipboardReady c1 \<and> clipboardCanSend c1 then sendClipboardToken env c1 else c1)"

section \<open>Receiving\<close>

definition mayReceiveClipboard :: "'d client \<Rightarrow> bool" where
  "mayReceiveClipboard c \<longleftrightarrow> clipboardReady c \<and> clipboardCanReceive c \<and> has_clipboard c"

definition applyRemoteClipboard :: "'d env \<Rightarrow> bytes \<Rightarrow> 'd client \<Rightarrow> 'd client" where
  "applyRemoteClipboard env text c =
     (if length text > maxClipboardBytes then c
      else if clipboardKnown c \<and> clipboardText c = text then c
      else case clip_SetText env text (world c) of
          (Some e, d) \<Rightarrow> c\<lparr>world := d\<rparr>
        | (None, d) \<Rightarrow> c\<lparr>world := d, clipboardText := text, clipboardKnown := True\<rparr>)"

definition requestRemoteClipboard :: "string list \<Rightarrow> 'd client \<Rightarrow> 'd client" where
  "requestRemoteClipboard targets c =
     (let target = preferredClipboardTarget targets in
      if target = [] then c
      else
        let ident = nextClipboardRequest c + 1 in
        send [GString ''clipboard-request'', GInt64 ident, GString clipboardSelection, GString target]
          (c\<lparr>nextClipboardRequest := ident,
             clipboardRequests := AList.update ident
               \<lparr>req_generation = clipboardGeneration c, req_target = target\<rparr> (clipboardRequests c)\<rparr>))"

definition beginRemoteClipboard :: "'d client \<Rightarrow> 'd client" where
  "beginRemoteClipboard c =
     c\<lparr>clipboardGeneration := clipboardGeneration c + 1, clipboardRequests := []\<rparr>"

definition handleClipboardToken :: "'d env \<Rightarrow> packet \<Rightarrow> 'd client \<Rightarrow> 'd client" where
  "handleClipboardToken env p c =
     (if length p < 2 \<or> pkt_Str p 1 \<noteq> clipboardSelection \<or> \<not> mayReceiveClipboard c then c
      else if length p \<ge> 10 \<and> \<not> pkt_Bool p 8 then c
      else
        let c1 = beginRemoteClipboard c;
            targets = valueStrings (pkt_at p 2);
            inline = (if length p \<ge> 8
                      then clipboardWireText (pkt_Str p 3) (pkt_Int p 5) (pkt_Str p 6) (pkt_at p 7)
                      else None)
        in case inline of
             Some text \<Rightarrow> applyRemoteClipboard env text c1
           | None \<Rightarrow> requestRemoteClipboard targets c1)"

text \<open>The inline item of one target in the options of \<open>clipboard-data\<close>, if it is usable.\<close>

definition inline_item :: "gdict \<Rightarrow> string \<Rightarrow> bytes option" where
  "inline_item items target =
     (if \<not> dict_Has items target then None
      else case any_list (dict_get items target) of
          None \<Rightarrow> None
        | Some parts \<Rightarrow>
            if length parts < 4 then None
            else clipboardWireText target (any_int (parts ! 1))
                   (case stringValue (parts ! 2) of Some s \<Rightarrow> s | None \<Rightarrow> []) (parts ! 3))"

fun first_inline :: "gdict \<Rightarrow> string list \<Rightarrow> bytes option" where
  "first_inline items [] = None"
| "first_inline items (target # targets) =
     (case inline_item items target of Some text \<Rightarrow> Some text | None \<Rightarrow> first_inline items targets)"

definition handleClipboardData :: "'d env \<Rightarrow> packet \<Rightarrow> 'd client \<Rightarrow> 'd client" where
  "handleClipboardData env p c =
     (if length p < 3 \<or> pkt_Str p 1 \<noteq> clipboardSelection \<or> \<not> mayReceiveClipboard c then c
      else
        let options = pkt_Dict p 2 in
        if options = None \<or> dict_Has options ''token'' \<and> \<not> dict_Bool options ''token'' \<or>
           dict_Has options ''claim'' \<and> \<not> dict_Bool options ''claim'' then c
        else
          let c1 = beginRemoteClipboard c in
          case first_inline (dict_Dict options ''data'') clipboardTargets of
            Some text \<Rightarrow> applyRemoteClipboard env text c1
          | None \<Rightarrow> requestRemoteClipboard (valueStrings (dict_get options ''targets'')) c1)"

definition handleClipboardContents :: "'d env \<Rightarrow> packet \<Rightarrow> 'd client \<Rightarrow> 'd client" where
  "handleClipboardContents env p c =
     (if length p < 7 then c
      else
        let ident = pkt_Int p 1;
            request = map_of (clipboardRequests c) ident;
            c1 = c\<lparr>clipboardRequests := AList.delete ident (clipboardRequests c)\<rparr>
        in case request of
             None \<Rightarrow> c1
           | Some r \<Rightarrow>
               if req_generation r \<noteq> clipboardGeneration c1 \<or> pkt_Str p 2 \<noteq> clipboardSelection then c1
               else case clipboardWireText (req_target r) (pkt_Int p 4) (pkt_Str p 5) (pkt_at p 6) of
                   Some text \<Rightarrow> applyRemoteClipboard env text c1
                 | None \<Rightarrow> c1)"

definition handleClipboardContentsNone :: "packet \<Rightarrow> 'd client \<Rightarrow> 'd client" where
  "handleClipboardContentsNone p c =
     (if length p \<ge> 2
      then c\<lparr>clipboardRequests := AList.delete (pkt_Int p 1) (clipboardRequests c)\<rparr> else c)"

definition handleClipboardRequest :: "packet \<Rightarrow> 'd client \<Rightarrow> 'd client" where
  "handleClipboardRequest p c =
     (if length p < 4 then c
      else
        let ident = pkt_Int p 1; selection = pkt_Str p 2; target = pkt_Str p 3;
            none = [GString ''clipboard-contents-none'', GInt64 ident, GString selection]
        in if \<not> clipboardReady c \<or> \<not> clipboardCanSend c \<or> selection \<noteq> clipboardSelection
           then send none c
           else if target = ''TARGETS'' then
             send [GString ''clipboard-contents'', GInt64 ident, GString selection, GString ''ATOM'',
                   GInt 32, GString ''atoms'', GStrings clipboardTargets, GInt 0] c
           else if \<not> isClipboardTextTarget target \<or> \<not> clipboardKnown c then send none c
           else send [GString ''clipboard-contents'', GInt64 ident, GString selection, GString target,
                      GInt 8, GString ''bytes'', GBytes (clipboardText c), GInt 0] c)"

definition handleClipboardEnableSelections :: "'d env \<Rightarrow> packet \<Rightarrow> 'd client \<Rightarrow> 'd client" where
  "handleClipboardEnableSelections env p c =
     (if length p < 2 \<or> \<not> containsString (valueStrings (pkt_at p 1)) clipboardSelection
      then c\<lparr>clipboardReady := False\<rparr>
      else if has_clipboard c \<and> (clipboardCanSend c \<or> clipboardCanReceive c)
      then announce env (c\<lparr>clipboardReady := True\<rparr>)
      else c)"

definition handleClipboardStatus :: "'d env \<Rightarrow> packet \<Rightarrow> 'd client \<Rightarrow> 'd client" where
  "handleClipboardStatus env p c =
     (if length p < 2 then c
      else
        let enabled = pkt_Bool p 1;
            c1 = c\<lparr>clipboardReady := (enabled \<and> has_clipboard c \<and>
                                       (clipboardCanSend c \<or> clipboardCanReceive c))\<rparr>
        in if \<not> clipboardReady c1 then c1\<lparr>clipboardRequests := []\<rparr> else announce env c1)"

end
