(* ===== verification/Client_Hello.thy ===== *)
theory Client_Hello
  imports Client_Draw Client_Clipboard
begin

text \<open>
  The handshake: the hello packet, the answer to an authentication challenge and what the
  server's own hello sets up (\<open>client/hello.go\<close> and the handlers of \<open>client/client.go\<close>).
  The digests, the random numbers and the machine's names come from the environment.
\<close>

definition clientVersion :: string where "clientVersion = ''8.0''"
definition digestName :: string where "digestName = ''hmac+sha256''"
definition challengeSaltLen :: nat where "challengeSaltLen = 32"
definition MinProtocolVersion :: "gint list" where "MinProtocolVersion = [7, 0]"

section \<open>Hexadecimal\<close>

definition hex_digit :: "nat \<Rightarrow> char" where
  "hex_digit n = (if n < 10 then char_of (48 + n) else char_of (87 + n))"

definition hex_encode :: "bytes \<Rightarrow> string" where
  "hex_encode bs = concat (map (\<lambda>b. [hex_digit (unat b div 16), hex_digit (unat b mod 16)]) bs)"

definition hmacHex :: "'d env \<Rightarrow> bytes \<Rightarrow> bytes \<Rightarrow> string" where
  "hmacHex env key message = hex_encode (hmac_sha256 env key message)"

section \<open>Identifiers\<close>

definition randomHex :: "'d env \<Rightarrow> nat \<Rightarrow> 'd \<Rightarrow> string \<times> 'd" where
  "randomHex env n d =
     (case rand_Read env n d of
        (None, d') \<Rightarrow> (replicate (n * 2) CHR ''0'', d')
      | (Some b, d') \<Rightarrow> (hex_encode b, d'))"

definition hashedID :: "'d env \<Rightarrow> string \<Rightarrow> string" where
  "hashedID env ident = hex_encode (take 16 (sha256 env (string_bytes (''go-xpra:'' @ ident))))"

text \<open>\<open>strings.TrimSpace\<close> on the ASCII text of a machine-id file.\<close>

definition trim_space :: "string \<Rightarrow> string" where
  "trim_space s =
     (let space = (\<lambda>ch. of_char ch \<in> {9, 10, 11, 12, 13, 32 :: nat}) in
      rev (dropWhile space (rev (dropWhile space s))))"

definition machine_id :: "'d env \<Rightarrow> string \<Rightarrow> string option" where
  "machine_id env path =
     (case ReadFile env path of
        None \<Rightarrow> None
      | Some data \<Rightarrow> if trim_space data \<noteq> [] then Some (trim_space data) else None)"

definition machineUUID :: "'d env \<Rightarrow> 'd \<Rightarrow> string \<times> 'd" where
  "machineUUID env d =
     (case machine_id env ''/etc/machine-id'' of
        Some ident \<Rightarrow> (hashedID env ident, d)
      | None \<Rightarrow>
          (case machine_id env ''/var/lib/dbus/machine-id'' of
             Some ident \<Rightarrow> (hashedID env ident, d)
           | None \<Rightarrow>
               (case Hostname env of
                  Some host \<Rightarrow> if host \<noteq> [] then (hashedID env host, d) else randomHex env 16 d
                | None \<Rightarrow> randomHex env 16 d)))"

section \<open>The hello\<close>

definition image_encodings :: any where
  "image_encodings =
     GStrings [''rgb24'', ''rgb32'', ''jpeg'', ''png'', ''png/P'', ''png/L'', ''webp'']"

definition set_all :: "dict \<Rightarrow> (string \<times> any) list \<Rightarrow> dict" where
  "set_all d kvs = foldl (\<lambda>d (k, v). Dict_Set d k v) d kvs"

definition fixed_caps :: "bool \<Rightarrow> string list \<Rightarrow> dict" where
  "fixed_caps backwardsCompatible windowStates =
     [(''version'', GString clientVersion),
      (''client_type'', GString ''go''),
      (''protocol-version'', GInts MinProtocolVersion),
      (''encoders'', GStrings [''rencodeplus'']),
      (''chunks'', GBool True),
      (''compressors'', GStrings [''lz4'']),
      (''compression_level'', GInt 1),
      (''window'', GDict [(''enabled'', GBool True)]),
      (''keyboard'', GBool True),
      (''pointer'', GDict [(''double_click'', GDict [])]),
      (''bell'', GBool True),
      (''show-desktop'', GBool True),
      (''ping'', GBool True),
      (''cursor'', GDict [(''encodings'', GStrings [''png'']),
                          (''backwards-compatible'', GBool backwardsCompatible)]),
      (''notification'', GBool True),
      (''events'', GBool True),
      (''encodings'', image_encodings),
      (''encoding'', GDict [(''options'', image_encodings), (''core'', image_encodings),
                            (''setting'', GString ''auto''),
                            (''rgb_formats'', GStrings [''BGRX'', ''BGRA'']),
                            (''transparency'', GBool False),
                            (''window-icon'', GStrings [''png''])]),
      (''metadata'', GDict [(''supported'', GStrings
         ([''title'', ''window-type'', ''size-constraints'', ''override-redirect'', ''iconic'']
          @ windowStates))]),
      (''digest'', GStrings [digestName]),
      (''salt-digest'', GStrings [digestName])]"

definition clipboard_caps :: any where
  "clipboard_caps =
     GDict [(''enabled'', GBool True), (''selections'', GStrings clipboardSelections),
            (''greedy'', GStrings clipboardSelections),
            (''want_targets'', GStrings clipboardSelections),
            (''preferred-targets'', GStrings clipboardTargets)]"

definition legacy_caps :: "(string \<times> any) list" where
  "legacy_caps =
     [(''rencodeplus'', GBool True), (''windows'', GBool True), (''mouse'', GBool True),
      (''cursors'', GBool True), (''notifications'', GDict [(''enabled'', GBool True)])]"

definition buildHello :: "'d env \<Rightarrow> string \<Rightarrow> bool \<Rightarrow> string list \<Rightarrow> 'd \<Rightarrow> dict \<times> 'd" where
  "buildHello env username clipboard windowStates d0 =
     (let caps = fixed_caps (BackwardsCompatible env) windowStates;
          caps = (if clipboard then Dict_Set caps ''clipboard'' clipboard_caps else caps);
          caps = (if BackwardsCompatible env then set_all caps legacy_caps else caps);
          (uuid, d1) = machineUUID env d0;
          (session, d2) = randomHex env 16 d1;
          caps = set_all caps [(''uuid'', GString uuid), (''session-id'', GString session)];
          caps = (case Hostname env of
                    Some host \<Rightarrow> Dict_Set caps ''hostname'' (GString host) | None \<Rightarrow> caps);
          username = (if username \<noteq> [] then username
                      else if Getenv env ''USER'' \<noteq> [] then Getenv env ''USER''
                      else Getenv env ''USERNAME'');
          caps = (if username \<noteq> []
                  then set_all caps [(''username'', GString username), (''user'', GString username)]
                  else caps)
      in (caps, d2))"

definition display_caps :: "'d env \<Rightarrow> 'd \<Rightarrow> dict" where
  "display_caps env d =
     (let caps = [(''show-desktop'', GBool True), (''monitor-relative'', GBool True)];
          caps = (case DesktopSize env d of
                    Some (width, height, valid) \<Rightarrow>
                      if valid then Dict_Set caps ''desktop_size'' (GList [GInt width, GInt height])
                      else caps
                  | None \<Rightarrow> caps)
      in case Monitors env d of
           Some ms \<Rightarrow>
             (let monitors = monitorCaps (usableMonitors ms) in
              if length monitors \<noteq> 0 then Dict_Set caps ''monitors'' (GIntMap monitors) else caps)
         | None \<Rightarrow> caps)"

definition sendHello :: "'d env \<Rightarrow> string \<Rightarrow> bytes \<Rightarrow> 'd client \<Rightarrow> send_error option \<times> 'd client" where
  "sendHello env challengeResponse clientSalt c =
     (let states = (case WindowStates env (world c) of Some ss \<Rightarrow> ss | None \<Rightarrow> []);
          (caps, d) = buildHello env (cl_username c) (has_clipboard c) states (world c);
          monitors = (case Monitors env d of Some ms \<Rightarrow> usableMonitors ms | None \<Rightarrow> []);
          caps = Dict_Set caps ''display'' (GDict (display_caps env d));
          caps = (case mmap c of
                    Some area \<Rightarrow> Dict_Set caps ''mmap'' (helloCaps (BackwardsCompatible env) area)
                  | None \<Rightarrow> caps);
          caps = (if challengeResponse \<noteq> []
                  then set_all caps [(''challenge_response'', GString challengeResponse),
                                     (''challenge_client_salt'', GBytes clientSalt)]
                  else caps)
      in conn_send [GString ''hello'', GDict caps]
           (c\<lparr>world := d, cl_states := states, cl_monitors := monitors\<rparr>))"

section \<open>The server's hello\<close>

text \<open>\<open>EnableMmap\<close> is called before \<open>Run\<close>; its argument is what \<open>newMmapArea\<close> returned.\<close>

datatype mmap_enable_error = AlreadyEnabled | NotStarted mmap_start_error

definition EnableMmap ::
    "(mmap_start_error + mmap_area) \<Rightarrow> 'd client \<Rightarrow> mmap_enable_error option \<times> 'd client" where
  "EnableMmap area c =
     (if mmap c \<noteq> None then (Some AlreadyEnabled, c)
      else case area of
          Inl e \<Rightarrow> (Some (NotStarted e), c)
        | Inr a \<Rightarrow> (None, c\<lparr>mmap := Some a\<rparr>))"

definition negotiateMmap :: "'d env \<Rightarrow> gdict \<Rightarrow> 'd client \<Rightarrow> mmap_error + 'd client" where
  "negotiateMmap env caps c =
     (case mmap c of
        None \<Rightarrow> Inr c
      | Some area \<Rightarrow>
          bind_res (enableFromCaps (dict_Dict caps ''mmap'') area)
            (\<lambda>(accepted, area').
              if \<not> accepted then Inr (c\<lparr>mmap := None\<rparr>)
              else Inr (c\<lparr>mmap := Some (removeBackingFile (os_Remove env) area')\<rparr>)))"

definition configurePings :: "gdict \<Rightarrow> 'd client \<Rightarrow> 'd client" where
  "configurePings caps c = c\<lparr>pinging := dict_Bool caps ''ping''\<rparr>"

definition handleHello :: "'d env \<Rightarrow> packet \<Rightarrow> 'd client \<Rightarrow> 'd client" where
  "handleHello env p c =
     (let caps = pkt_Dict p 1 in
      case negotiateMmap env caps c of
        Inl e \<Rightarrow> stop (Some (MmapNegotiation e)) c
      | Inr c1 \<Rightarrow>
          configurePings caps
            (configureClipboard env (dict_Dict caps ''clipboard'')
              (c1\<lparr>serverVersion := dict_Str caps ''version''\<rparr>)))"

section \<open>Authentication\<close>

definition challengeReply ::
    "'d env \<Rightarrow> packet \<Rightarrow> string \<Rightarrow> 'd \<Rightarrow> (auth_error + (string \<times> bytes)) \<times> 'd" where
  "challengeReply env p password d =
     (case pkt_Bytes p 1 of
        None \<Rightarrow> (Inl NoServerSalt, d)
      | Some serverSalt \<Rightarrow>
          if length serverSalt = 0 then (Inl NoServerSalt, d)
          else
            let digest = takeWhile (\<lambda>ch. ch \<noteq> CHR '':'') (pkt_Str p 3);
                saltDigest = (if length p \<ge> 5 then pkt_Str p 4 else ''xor'')
            in if digest \<noteq> digestName \<or> saltDigest \<noteq> digestName
               then (Inl (WrongDigests digest saltDigest), d)
               else case rand_Read env challengeSaltLen d of
                   (None, d') \<Rightarrow> (Inl NoClientSalt, d')
                 | (Some clientSalt, d') \<Rightarrow>
                     let salt = hmacHex env clientSalt serverSalt in
                     (Inr (hmacHex env (string_bytes password) (string_bytes salt), clientSalt), d'))"

definition challengePassword :: "'d env \<Rightarrow> string \<Rightarrow> 'd client \<Rightarrow> (client_error + string) \<times> 'd client" where
  "challengePassword env description c =
     (if cl_password c \<noteq> [] then (Inr (cl_password c), c)
      else if Getenv env ''XPRA_PASSWORD'' \<noteq> [] then (Inr (Getenv env ''XPRA_PASSWORD''), c)
      else if \<not> has_prompt c then (Inl PasswordRequired, c)
      else case ask_password env description (world c) of
          (Inl e, d) \<Rightarrow> (Inl (PromptFailed e), c\<lparr>world := d\<rparr>)
        | (Inr password, d) \<Rightarrow>
            (if password = [] then Inl NoPasswordEntered else Inr password, c\<lparr>world := d\<rparr>))"

definition handleChallenge :: "'d env \<Rightarrow> packet \<Rightarrow> 'd client \<Rightarrow> 'd client" where
  "handleChallenge env p c =
     (if challengeSeen c then stop (Some PasswordRejected) c
      else case challengePassword env (pkt_Str p 5) (c\<lparr>challengeSeen := True\<rparr>) of
          (Inl e, c1) \<Rightarrow> stop (Some e) c1
        | (Inr password, c1) \<Rightarrow>
            (case challengeReply env p password (world c1) of
               (Inl e, d) \<Rightarrow> stop (Some (Authentication e)) (c1\<lparr>world := d\<rparr>)
             | (Inr (response, salt), d) \<Rightarrow>
                 (case sendHello env response salt (c1\<lparr>world := d\<rparr>) of
                    (Some e, c2) \<Rightarrow> stop (Some (ResponseNotSent e)) c2
                  | (None, c2) \<Rightarrow> c2)))"

section \<open>Pings\<close>

definition handlePing :: "'d env \<Rightarrow> packet \<Rightarrow> 'd client \<Rightarrow> 'd client" where
  "handlePing env p =
     send [GString (if BackwardsCompatible env then ''ping_echo'' else ''ping-echo''),
           GInt64 (pkt_Int p 1), GInt 0, GInt 0, GInt 0, GInt (- 1),
           GString (if length p \<ge> 4 then pkt_Str p 3 else [])]"

end
