(* ===== verification/Client_Input.thy ===== *)
theory Client_Input
  imports Client_Monitor
begin

text \<open>
  Input events and the packets they become, \<open>client/input.go\<close>.
\<close>

definition deviceID :: gint where "deviceID = -1"

definition point :: "gint \<Rightarrow> gint \<Rightarrow> any" where
  "point x y = GList [GInt x, GInt y]"

definition handleMotion :: "window_id \<Rightarrow> gint \<Rightarrow> gint \<Rightarrow> 'd client \<Rightarrow> 'd client" where
  "handleMotion ev_window x y c =
     (case lookup ev_window c of
        None \<Rightarrow> c
      | Some (wid, w) \<Rightarrow>
          send [GString ''pointer-motion'', GInt deviceID, GInt 0, GInt64 wid, point x y,
                pointerProperties (cl_monitors c) x y] c)"

definition handleButton ::
    "'d env \<Rightarrow> window_id \<Rightarrow> gint \<Rightarrow> bool \<Rightarrow> gint \<Rightarrow> gint \<Rightarrow> 'd client \<Rightarrow> 'd client" where
  "handleButton env ev_window button pressed x y c =
     (case lookup ev_window c of
        None \<Rightarrow> c
      | Some (wid, w) \<Rightarrow>
          if 4 \<le> sint button \<and> sint button \<le> 7 then
            if \<not> pressed then c
            else
              let packetType = (if BackwardsCompatible env then ''wheel-motion'' else ''pointer-wheel'');
                  distance = (if button = 5 \<or> button = 7 then - 1000 else 1000)
              in send [GString packetType, GInt64 wid, GInt button, GInt distance, point x y,
                       GStrings [], GInts [], pointerProperties (cl_monitors c) x y] c
          else send [GString ''pointer-button'', GInt deviceID, GInt 0, GInt64 wid, GInt button,
                     GBool pressed, point x y, pointerProperties (cl_monitors c) x y] c)"

definition handleKey ::
    "window_id \<Rightarrow> bool \<Rightarrow> string \<Rightarrow> gint \<Rightarrow> bytes \<Rightarrow> gint \<Rightarrow> string list \<Rightarrow> 'd client \<Rightarrow> 'd client" where
  "handleKey ev_window pressed name keysym text keycode modifiers c =
     (case lookup ev_window c of
        None \<Rightarrow> c
      | Some (wid, w) \<Rightarrow>
          if name = [] then c
          else send [GString ''keyboard-event'', GInt64 wid, GString name, GBool pressed,
                     GDict [(''modifiers'', GStrings modifiers), (''keyval'', GInt keysym),
                            (''string'', GString (bytes_string text)), (''keycode'', GInt keycode),
                            (''group'', GInt 0)]] c)"

section \<open>Focus\<close>

definition focus_packet :: "gint \<Rightarrow> packet" where
  "focus_packet wid = [GString ''window-focus'', GInt64 wid, GStrings []]"

definition handleFocus :: "window_id \<Rightarrow> 'd client \<Rightarrow> 'd client" where
  "handleFocus ev_window c =
     (case lookup ev_window c of
        None \<Rightarrow> c
      | Some (wid, w) \<Rightarrow>
          if focused c = wid then c else send (focus_packet wid) (c\<lparr>focused := wid\<rparr>))"

definition handleFocusLost :: "window_id \<Rightarrow> 'd client \<Rightarrow> 'd client" where
  "handleFocusLost ev_window c =
     (case lookup ev_window c of
        None \<Rightarrow> c
      | Some (wid, w) \<Rightarrow>
          if focused c \<noteq> wid then c
          else
            let c1 = c\<lparr>focused := 0\<rparr> in
            if focusLosing c1 then c1
            else c1\<lparr>focusLosing := True, focus_timers := Suc (focus_timers c1)\<rparr>)"

definition sendFocusLost :: "'d client \<Rightarrow> 'd client" where
  "sendFocusLost c =
     (let c1 = c\<lparr>focusLosing := False\<rparr> in
      if focused c1 \<noteq> 0 then c1 else send (focus_packet 0) c1)"

end
