(* ===== verification/Client_Run.thy ===== *)
theory Client_Run
  imports Client_Hello Client_Input
begin

text \<open>
  The run loop of the client: \<open>handlePacket\<close>, \<open>handleUIEvent\<close> and \<open>Run\<close> of
  \<open>client/client.go\<close>.  One turn of the loop serves whichever channel is ready; the step
  relation \<open>client_step\<close> has a turn for every channel that can be, and a step for what the
  other goroutines do meanwhile: the desktop changes, the connection makes progress, the
  server writes to the shared area.
\<close>

section \<open>What is only logged\<close>

definition server_event_line :: "packet \<Rightarrow> string" where
  "server_event_line p =
     (if length p < 2 then ''ignoring malformed server-event packet with no event type''
      else if pkt_Str p 1 = [] then ''ignoring malformed server-event packet with an invalid event type''
      else ''server event: '' @ pkt_Str p 1)"

text \<open>\<open>strings.Lines\<close> with the newlines trimmed: no line after a final newline.\<close>

fun split_lines :: "string \<Rightarrow> string \<Rightarrow> string list" where
  "split_lines line [] = (if line = [] then [] else [line])"
| "split_lines line (ch # s) =
     (if ch = CHR 0x0A then line # split_lines [] s else split_lines (line @ [ch]) s)"

definition notification_lines :: "packet \<Rightarrow> string list" where
  "notification_lines p =
     (if length p < 8 then [''ignoring malformed notification-show packet'']
      else
        let appName = pkt_Str p 3; summary = pkt_Str p 6; body = pkt_Str p 7 in
        (if appName = [] then ''notification: '' @ summary
         else ''notification from '' @ appName @ '': '' @ summary)
        # map (\<lambda>line. ''  '' @ line) (split_lines [] body))"

section \<open>Dispatch\<close>

definition handlePacket :: "'d env \<Rightarrow> packet \<Rightarrow> 'd client \<Rightarrow> 'd client" where
  "handlePacket env p c =
     (let bc = BackwardsCompatible env; name = Canonical bc (pkt_Type p) in
      if name = ''hello'' then handleHello env p c
      else if name = ''challenge'' then handleChallenge env p c
      else if name = ''show-desktop'' then handleShowDesktop env p c
      else if name = ''cursor'' then (if bc then handleCursor env p c else c)
      else if name = ''cursor-data'' then handleCursorData env p c
      else if name = ''cursor-default'' then handleCursorDefault env c
      else if name = ''clipboard-data'' then handleClipboardData env p c
      else if name = ''clipboard-token'' then (if bc then handleClipboardToken env p c else c)
      else if name = ''clipboard-request'' then handleClipboardRequest p c
      else if name = ''clipboard-contents'' then handleClipboardContents env p c
      else if name = ''clipboard-contents-none'' then handleClipboardContentsNone p c
      else if name = ''clipboard-enable-selections'' then handleClipboardEnableSelections env p c
      else if name = ''clipboard-status'' then handleClipboardStatus env p c
      else if name = ''set-clipboard-enabled'' then (if bc then handleClipboardStatus env p c else c)
      else if name = ''window-create'' then handleNewWindow env p False c
      else if name = ''new-override-redirect'' then (if bc then handleNewWindow env p True c else c)
      else if name = ''window-destroy'' then handleLostWindow env p c
      else if name = ''window-move-resize'' then handleMoveResize env p c
      else if name = ''window-metadata'' then handleMetadata env p c
      else if name = ''window-raise'' then handleRaiseWindow env p c
      else if name = ''window-bell'' then handleBell env p c
      else if name = ''window-icon'' then handleWindowIcon env p c
      else if name = ''window-draw'' then handleDraw env p c
      else if name = ''ping'' then handlePing env p c
      else if name = ''disconnect'' then (if bc then stop None c else c)
      else if name = ''connection-close'' then stop None c
      else c)"

definition handleUIEvent :: "'d env \<Rightarrow> ui_event \<Rightarrow> 'd client \<Rightarrow> 'd client" where
  "handleUIEvent env ev c =
     (case ev of
        Configure w x y width height \<Rightarrow> handleConfigure env w x y width height c
      | Minimized w b \<Rightarrow> handleMinimized env w b c
      | CloseRequest w \<Rightarrow> handleCloseRequest w c
      | ExitRequest \<Rightarrow> stop None (sendDisconnect env ''client exit'' c)
      | Motion w x y \<Rightarrow> handleMotion w x y c
      | Button w button pressed x y \<Rightarrow> handleButton env w button pressed x y c
      | Key w pressed name keysym text keycode modifiers \<Rightarrow>
          handleKey w pressed name keysym text keycode modifiers c
      | Focus w \<Rightarrow> handleFocus w c
      | FocusLost w \<Rightarrow> handleFocusLost w c
      | ClipboardChange text \<Rightarrow> handleClipboardChange env text c)"

section \<open>The run loop\<close>

datatype turn =
    GotPacket packet
  | PacketsClosed
  | GotEvent ui_event
  | EventsClosed
  | FocusLostDue
  | IconifyDue gint
  | PingDue gint
  | DisconnectAsked
  | Quitting

datatype run_result = Finished "client_error option" | ConnectionFailed conn_error | DisplayLost
  | HelloNotSent send_error

text \<open>Which channels can be ready.\<close>

definition turn_ready :: "turn \<Rightarrow> 'd client \<Rightarrow> bool" where
  "turn_ready t c = (case t of
     FocusLostDue \<Rightarrow> focus_timers c > 0
   | IconifyDue wid \<Rightarrow> wid \<in> set (iconify_timers c)
   | PingDue now \<Rightarrow> pinging c
   | DisconnectAsked \<Rightarrow> disconnect_reason c \<noteq> None
   | Quitting \<Rightarrow> quitting c
   | _ \<Rightarrow> True)"

definition run_turn :: "'d env \<Rightarrow> turn \<Rightarrow> 'd client \<Rightarrow> 'd client \<times> run_result option" where
  "run_turn env t c = (case t of
     GotPacket p \<Rightarrow> (handlePacket env p c, None)
   | PacketsClosed \<Rightarrow>
       (c, Some (case conn_err (cl_conn c) of Some e \<Rightarrow> ConnectionFailed e | None \<Rightarrow> Finished (exitErr c)))
   | GotEvent ev \<Rightarrow> (handleUIEvent env ev c, None)
   | EventsClosed \<Rightarrow> (c, Some DisplayLost)
   | FocusLostDue \<Rightarrow> (sendFocusLost (c\<lparr>focus_timers := focus_timers c - 1\<rparr>), None)
   | IconifyDue wid \<Rightarrow> (sendIconified wid (c\<lparr>iconify_timers := remove1 wid (iconify_timers c)\<rparr>), None)
   | PingDue now \<Rightarrow> (send [GString ''ping'', GInt64 now] c, None)
   | DisconnectAsked \<Rightarrow>
       (case disconnect_reason c of
          Some reason \<Rightarrow>
            (let c1 = stop None (sendDisconnect env reason (c\<lparr>disconnect_reason := None\<rparr>)) in
             (c1, Some (Finished (exitErr c1))))
        | None \<Rightarrow> (c, None))
   | Quitting \<Rightarrow> (c, Some (Finished (exitErr c))))"

text \<open>A whole run over the turns the channels offer; the list ends when the loop is waiting.\<close>

fun run_turns :: "'d env \<Rightarrow> turn list \<Rightarrow> 'd client \<Rightarrow> 'd client \<times> run_result option" where
  "run_turns env [] c = (c, None)"
| "run_turns env (t # ts) c =
     (case run_turn env t c of
        (c', None) \<Rightarrow> run_turns env ts c'
      | (c', Some r) \<Rightarrow> (c', Some r))"

definition client_Run :: "'d env \<Rightarrow> turn list \<Rightarrow> 'd client \<Rightarrow> 'd client \<times> run_result option" where
  "client_Run env ts c =
     (case sendHello env [] [] c of
        (Some e, c') \<Rightarrow> (c'\<lparr>mmap := None\<rparr>, Some (HelloNotSent e))
      | (None, c') \<Rightarrow>
          (case run_turns env ts c' of
             (c'', None) \<Rightarrow> (c'', None)
           | (c'', Some r) \<Rightarrow> (c''\<lparr>pinging := False, mmap := None\<rparr>, Some r)))"

inductive client_step :: "'d env \<Rightarrow> ('d \<Rightarrow> 'd \<Rightarrow> bool) \<Rightarrow> 'd client \<Rightarrow> 'd client \<Rightarrow> bool"
  for env :: "'d env" and desktop :: "'d \<Rightarrow> 'd \<Rightarrow> bool" where
  turn: "turn_ready t c \<Longrightarrow> run_turn env t c = (c', None) \<Longrightarrow> client_step env desktop c c'"
| desktop: "desktop (world c) d \<Longrightarrow> client_step env desktop c (c\<lparr>world := d\<rparr>)"
| connection: "client_step env desktop c (c\<lparr>cl_conn := k\<rparr>)"
| disconnect: "client_step env desktop c (Disconnect reason c)"
| shared: "mmap c = Some area \<Longrightarrow> length data = length (mm_data area) \<Longrightarrow>
    client_step env desktop c (c\<lparr>mmap := Some (area\<lparr>mm_data := data\<rparr>)\<rparr>)"

inductive client_reachable :: "'d env \<Rightarrow> ('d \<Rightarrow> 'd \<Rightarrow> bool) \<Rightarrow> 'd client \<Rightarrow> 'd client \<Rightarrow> bool"
  for env :: "'d env" and desktop :: "'d \<Rightarrow> 'd \<Rightarrow> bool" and start :: "'d client" where
  hello: "sendHello env [] [] start = (None, c) \<Longrightarrow> client_reachable env desktop start c"
| step: "client_reachable env desktop start c \<Longrightarrow> client_step env desktop c c' \<Longrightarrow>
    client_reachable env desktop start c'"

end
