(* ===== verification/Client_Frames.thy ===== *)
theory Client_Frames
  imports Client_Run
begin

text \<open>
  What each handler of the client leaves alone.  The state of the client is divided into the
  parts its components own; for every handler there is one simplification rule per part it
  does not touch, so that an invariant only has to look at the operations that matter to it.
\<close>

section \<open>The parts of the state\<close>

definition windows_part :: "'d client \<Rightarrow> (gint \<times> window_id) list \<times> (window_id \<times> gint) list" where
  "windows_part c = (windows c, byLocal c)"

definition iconic_part :: "'d client \<Rightarrow> (gint \<times> bool) list \<times> (gint \<times> bool) list" where
  "iconic_part c = (iconified c, serverIconic c)"

definition focus_timer_part :: "'d client \<Rightarrow> bool \<times> nat" where
  "focus_timer_part c = (focusLosing c, focus_timers c)"

definition layout_part :: "'d client \<Rightarrow> monitor list \<times> string list" where
  "layout_part c = (cl_monitors c, cl_states c)"

definition exit_part :: "'d client \<Rightarrow> client_error option \<times> bool" where
  "exit_part c = (exitErr c, quitting c)"

definition clipboard_part ::
    "'d client \<Rightarrow> (bool \<times> bool \<times> bool \<times> bool) \<times> (bool \<times> bytes) \<times> gint \<times> gint \<times> (gint \<times> clip_request) list"
  where
  "clipboard_part c =
     ((has_clipboard c, clipboardReady c, clipboardCanSend c, clipboardCanReceive c),
      (clipboardKnown c, clipboardText c), clipboardGeneration c, nextClipboardRequest c,
      clipboardRequests c)"

lemmas part_defs = windows_part_def iconic_part_def focus_timer_part_def layout_part_def
  exit_part_def clipboard_part_def

lemma windows_part_eq:
  "windows_part c' = windows_part c \<longleftrightarrow> windows c' = windows c \<and> byLocal c' = byLocal c"
  by (simp add: windows_part_def)

lemma clipboard_part_eq:
  "clipboard_part c' = clipboard_part c \<longleftrightarrow>
     has_clipboard c' = has_clipboard c \<and> clipboardReady c' = clipboardReady c \<and>
     clipboardCanSend c' = clipboardCanSend c \<and> clipboardCanReceive c' = clipboardCanReceive c \<and>
     clipboardKnown c' = clipboardKnown c \<and> clipboardText c' = clipboardText c \<and>
     clipboardGeneration c' = clipboardGeneration c \<and>
     nextClipboardRequest c' = nextClipboardRequest c \<and> clipboardRequests c' = clipboardRequests c"
  by (auto simp: clipboard_part_def)

text \<open>A change of a component outside a part leaves the part alone.\<close>

lemma windows_part_update [simp]:
  "windows_part (c\<lparr>world := v1\<rparr>) = windows_part c"
  "windows_part (c\<lparr>iconified := v2\<rparr>) = windows_part c"
  "windows_part (c\<lparr>serverIconic := v3\<rparr>) = windows_part c"
  "windows_part (c\<lparr>focused := v4\<rparr>) = windows_part c"
  "windows_part (c\<lparr>focusLosing := v5\<rparr>) = windows_part c"
  "windows_part (c\<lparr>focus_timers := v6\<rparr>) = windows_part c"
  "windows_part (c\<lparr>iconify_timers := v7\<rparr>) = windows_part c"
  "windows_part (c\<lparr>mmap := v8\<rparr>) = windows_part c"
  "windows_part (c\<lparr>exitErr := v9\<rparr>) = windows_part c"
  "windows_part (c\<lparr>quitting := v10\<rparr>) = windows_part c"
  "windows_part (c\<lparr>challengeSeen := v11\<rparr>) = windows_part c"
  "windows_part (c\<lparr>cl_monitors := v12\<rparr>) = windows_part c"
  "windows_part (c\<lparr>cl_states := v13\<rparr>) = windows_part c"
  "windows_part (c\<lparr>disconnect_reason := v14\<rparr>) = windows_part c"
  "windows_part (c\<lparr>cl_conn := v15\<rparr>) = windows_part c"
  "windows_part (c\<lparr>pinging := v16\<rparr>) = windows_part c"
  "windows_part (c\<lparr>serverVersion := v17\<rparr>) = windows_part c"
  "windows_part (c\<lparr>clipboardReady := v18\<rparr>) = windows_part c"
  "windows_part (c\<lparr>clipboardCanSend := v19\<rparr>) = windows_part c"
  "windows_part (c\<lparr>clipboardCanReceive := v20\<rparr>) = windows_part c"
  "windows_part (c\<lparr>clipboardKnown := v21\<rparr>) = windows_part c"
  "windows_part (c\<lparr>clipboardText := v22\<rparr>) = windows_part c"
  "windows_part (c\<lparr>clipboardGeneration := v23\<rparr>) = windows_part c"
  "windows_part (c\<lparr>nextClipboardRequest := v24\<rparr>) = windows_part c"
  "windows_part (c\<lparr>clipboardRequests := v25\<rparr>) = windows_part c"
  by (simp_all add: windows_part_def)

lemma iconic_part_update [simp]:
  "iconic_part (c\<lparr>world := v1\<rparr>) = iconic_part c"
  "iconic_part (c\<lparr>windows := v2\<rparr>) = iconic_part c"
  "iconic_part (c\<lparr>byLocal := v3\<rparr>) = iconic_part c"
  "iconic_part (c\<lparr>focused := v4\<rparr>) = iconic_part c"
  "iconic_part (c\<lparr>focusLosing := v5\<rparr>) = iconic_part c"
  "iconic_part (c\<lparr>focus_timers := v6\<rparr>) = iconic_part c"
  "iconic_part (c\<lparr>iconify_timers := v7\<rparr>) = iconic_part c"
  "iconic_part (c\<lparr>mmap := v8\<rparr>) = iconic_part c"
  "iconic_part (c\<lparr>exitErr := v9\<rparr>) = iconic_part c"
  "iconic_part (c\<lparr>quitting := v10\<rparr>) = iconic_part c"
  "iconic_part (c\<lparr>challengeSeen := v11\<rparr>) = iconic_part c"
  "iconic_part (c\<lparr>cl_monitors := v12\<rparr>) = iconic_part c"
  "iconic_part (c\<lparr>cl_states := v13\<rparr>) = iconic_part c"
  "iconic_part (c\<lparr>disconnect_reason := v14\<rparr>) = iconic_part c"
  "iconic_part (c\<lparr>cl_conn := v15\<rparr>) = iconic_part c"
  "iconic_part (c\<lparr>pinging := v16\<rparr>) = iconic_part c"
  "iconic_part (c\<lparr>serverVersion := v17\<rparr>) = iconic_part c"
  "iconic_part (c\<lparr>clipboardReady := v18\<rparr>) = iconic_part c"
  "iconic_part (c\<lparr>clipboardCanSend := v19\<rparr>) = iconic_part c"
  "iconic_part (c\<lparr>clipboardCanReceive := v20\<rparr>) = iconic_part c"
  "iconic_part (c\<lparr>clipboardKnown := v21\<rparr>) = iconic_part c"
  "iconic_part (c\<lparr>clipboardText := v22\<rparr>) = iconic_part c"
  "iconic_part (c\<lparr>clipboardGeneration := v23\<rparr>) = iconic_part c"
  "iconic_part (c\<lparr>nextClipboardRequest := v24\<rparr>) = iconic_part c"
  "iconic_part (c\<lparr>clipboardRequests := v25\<rparr>) = iconic_part c"
  by (simp_all add: iconic_part_def)

lemma focus_timer_part_update [simp]:
  "focus_timer_part (c\<lparr>world := v1\<rparr>) = focus_timer_part c"
  "focus_timer_part (c\<lparr>windows := v2\<rparr>) = focus_timer_part c"
  "focus_timer_part (c\<lparr>byLocal := v3\<rparr>) = focus_timer_part c"
  "focus_timer_part (c\<lparr>iconified := v4\<rparr>) = focus_timer_part c"
  "focus_timer_part (c\<lparr>serverIconic := v5\<rparr>) = focus_timer_part c"
  "focus_timer_part (c\<lparr>focused := v6\<rparr>) = focus_timer_part c"
  "focus_timer_part (c\<lparr>iconify_timers := v7\<rparr>) = focus_timer_part c"
  "focus_timer_part (c\<lparr>mmap := v8\<rparr>) = focus_timer_part c"
  "focus_timer_part (c\<lparr>exitErr := v9\<rparr>) = focus_timer_part c"
  "focus_timer_part (c\<lparr>quitting := v10\<rparr>) = focus_timer_part c"
  "focus_timer_part (c\<lparr>challengeSeen := v11\<rparr>) = focus_timer_part c"
  "focus_timer_part (c\<lparr>cl_monitors := v12\<rparr>) = focus_timer_part c"
  "focus_timer_part (c\<lparr>cl_states := v13\<rparr>) = focus_timer_part c"
  "focus_timer_part (c\<lparr>disconnect_reason := v14\<rparr>) = focus_timer_part c"
  "focus_timer_part (c\<lparr>cl_conn := v15\<rparr>) = focus_timer_part c"
  "focus_timer_part (c\<lparr>pinging := v16\<rparr>) = focus_timer_part c"
  "focus_timer_part (c\<lparr>serverVersion := v17\<rparr>) = focus_timer_part c"
  "focus_timer_part (c\<lparr>clipboardReady := v18\<rparr>) = focus_timer_part c"
  "focus_timer_part (c\<lparr>clipboardCanSend := v19\<rparr>) = focus_timer_part c"
  "focus_timer_part (c\<lparr>clipboardCanReceive := v20\<rparr>) = focus_timer_part c"
  "focus_timer_part (c\<lparr>clipboardKnown := v21\<rparr>) = focus_timer_part c"
  "focus_timer_part (c\<lparr>clipboardText := v22\<rparr>) = focus_timer_part c"
  "focus_timer_part (c\<lparr>clipboardGeneration := v23\<rparr>) = focus_timer_part c"
  "focus_timer_part (c\<lparr>nextClipboardRequest := v24\<rparr>) = focus_timer_part c"
  "focus_timer_part (c\<lparr>clipboardRequests := v25\<rparr>) = focus_timer_part c"
  by (simp_all add: focus_timer_part_def)

lemma clipboard_part_update [simp]:
  "clipboard_part (c\<lparr>world := v1\<rparr>) = clipboard_part c"
  "clipboard_part (c\<lparr>windows := v2\<rparr>) = clipboard_part c"
  "clipboard_part (c\<lparr>byLocal := v3\<rparr>) = clipboard_part c"
  "clipboard_part (c\<lparr>iconified := v4\<rparr>) = clipboard_part c"
  "clipboard_part (c\<lparr>serverIconic := v5\<rparr>) = clipboard_part c"
  "clipboard_part (c\<lparr>focused := v6\<rparr>) = clipboard_part c"
  "clipboard_part (c\<lparr>focusLosing := v7\<rparr>) = clipboard_part c"
  "clipboard_part (c\<lparr>focus_timers := v8\<rparr>) = clipboard_part c"
  "clipboard_part (c\<lparr>iconify_timers := v9\<rparr>) = clipboard_part c"
  "clipboard_part (c\<lparr>mmap := v10\<rparr>) = clipboard_part c"
  "clipboard_part (c\<lparr>exitErr := v11\<rparr>) = clipboard_part c"
  "clipboard_part (c\<lparr>quitting := v12\<rparr>) = clipboard_part c"
  "clipboard_part (c\<lparr>challengeSeen := v13\<rparr>) = clipboard_part c"
  "clipboard_part (c\<lparr>cl_monitors := v14\<rparr>) = clipboard_part c"
  "clipboard_part (c\<lparr>cl_states := v15\<rparr>) = clipboard_part c"
  "clipboard_part (c\<lparr>disconnect_reason := v16\<rparr>) = clipboard_part c"
  "clipboard_part (c\<lparr>cl_conn := v17\<rparr>) = clipboard_part c"
  "clipboard_part (c\<lparr>pinging := v18\<rparr>) = clipboard_part c"
  "clipboard_part (c\<lparr>serverVersion := v19\<rparr>) = clipboard_part c"
  by (simp_all add: clipboard_part_def)

lemma exit_part_update [simp]:
  "exit_part (c\<lparr>world := v1\<rparr>) = exit_part c"
  "exit_part (c\<lparr>windows := v2\<rparr>) = exit_part c"
  "exit_part (c\<lparr>byLocal := v3\<rparr>) = exit_part c"
  "exit_part (c\<lparr>iconified := v4\<rparr>) = exit_part c"
  "exit_part (c\<lparr>serverIconic := v5\<rparr>) = exit_part c"
  "exit_part (c\<lparr>focused := v6\<rparr>) = exit_part c"
  "exit_part (c\<lparr>focusLosing := v7\<rparr>) = exit_part c"
  "exit_part (c\<lparr>focus_timers := v8\<rparr>) = exit_part c"
  "exit_part (c\<lparr>iconify_timers := v9\<rparr>) = exit_part c"
  "exit_part (c\<lparr>mmap := v10\<rparr>) = exit_part c"
  "exit_part (c\<lparr>challengeSeen := v11\<rparr>) = exit_part c"
  "exit_part (c\<lparr>cl_monitors := v12\<rparr>) = exit_part c"
  "exit_part (c\<lparr>cl_states := v13\<rparr>) = exit_part c"
  "exit_part (c\<lparr>disconnect_reason := v14\<rparr>) = exit_part c"
  "exit_part (c\<lparr>cl_conn := v15\<rparr>) = exit_part c"
  "exit_part (c\<lparr>pinging := v16\<rparr>) = exit_part c"
  "exit_part (c\<lparr>serverVersion := v17\<rparr>) = exit_part c"
  "exit_part (c\<lparr>clipboardReady := v18\<rparr>) = exit_part c"
  "exit_part (c\<lparr>clipboardCanSend := v19\<rparr>) = exit_part c"
  "exit_part (c\<lparr>clipboardCanReceive := v20\<rparr>) = exit_part c"
  "exit_part (c\<lparr>clipboardKnown := v21\<rparr>) = exit_part c"
  "exit_part (c\<lparr>clipboardText := v22\<rparr>) = exit_part c"
  "exit_part (c\<lparr>clipboardGeneration := v23\<rparr>) = exit_part c"
  "exit_part (c\<lparr>nextClipboardRequest := v24\<rparr>) = exit_part c"
  "exit_part (c\<lparr>clipboardRequests := v25\<rparr>) = exit_part c"
  by (simp_all add: exit_part_def)

lemma layout_part_update [simp]:
  "layout_part (c\<lparr>world := v1\<rparr>) = layout_part c"
  "layout_part (c\<lparr>windows := v2\<rparr>) = layout_part c"
  "layout_part (c\<lparr>byLocal := v3\<rparr>) = layout_part c"
  "layout_part (c\<lparr>iconified := v4\<rparr>) = layout_part c"
  "layout_part (c\<lparr>serverIconic := v5\<rparr>) = layout_part c"
  "layout_part (c\<lparr>focused := v6\<rparr>) = layout_part c"
  "layout_part (c\<lparr>focusLosing := v7\<rparr>) = layout_part c"
  "layout_part (c\<lparr>focus_timers := v8\<rparr>) = layout_part c"
  "layout_part (c\<lparr>iconify_timers := v9\<rparr>) = layout_part c"
  "layout_part (c\<lparr>mmap := v10\<rparr>) = layout_part c"
  "layout_part (c\<lparr>exitErr := v11\<rparr>) = layout_part c"
  "layout_part (c\<lparr>quitting := v12\<rparr>) = layout_part c"
  "layout_part (c\<lparr>challengeSeen := v13\<rparr>) = layout_part c"
  "layout_part (c\<lparr>disconnect_reason := v14\<rparr>) = layout_part c"
  "layout_part (c\<lparr>cl_conn := v15\<rparr>) = layout_part c"
  "layout_part (c\<lparr>pinging := v16\<rparr>) = layout_part c"
  "layout_part (c\<lparr>serverVersion := v17\<rparr>) = layout_part c"
  "layout_part (c\<lparr>clipboardReady := v18\<rparr>) = layout_part c"
  "layout_part (c\<lparr>clipboardCanSend := v19\<rparr>) = layout_part c"
  "layout_part (c\<lparr>clipboardCanReceive := v20\<rparr>) = layout_part c"
  "layout_part (c\<lparr>clipboardKnown := v21\<rparr>) = layout_part c"
  "layout_part (c\<lparr>clipboardText := v22\<rparr>) = layout_part c"
  "layout_part (c\<lparr>clipboardGeneration := v23\<rparr>) = layout_part c"
  "layout_part (c\<lparr>nextClipboardRequest := v24\<rparr>) = layout_part c"
  "layout_part (c\<lparr>clipboardRequests := v25\<rparr>) = layout_part c"
  by (simp_all add: layout_part_def)

section \<open>Elementary operations\<close>

lemma send_frame [simp]:
  "windows_part (send p c) = windows_part c" "iconic_part (send p c) = iconic_part c"
  "focused (send p c) = focused c" "focus_timer_part (send p c) = focus_timer_part c"
  "iconify_timers (send p c) = iconify_timers c" "clipboard_part (send p c) = clipboard_part c"
  "mmap (send p c) = mmap c" "challengeSeen (send p c) = challengeSeen c"
  "exit_part (send p c) = exit_part c" "layout_part (send p c) = layout_part c"
  "world (send p c) = world c"
  by (simp_all add: part_defs)

lemma conn_send_frame [simp]:
  "windows_part (snd (conn_send p c)) = windows_part c"
  "iconic_part (snd (conn_send p c)) = iconic_part c" "focused (snd (conn_send p c)) = focused c"
  "focus_timer_part (snd (conn_send p c)) = focus_timer_part c"
  "iconify_timers (snd (conn_send p c)) = iconify_timers c"
  "clipboard_part (snd (conn_send p c)) = clipboard_part c" "mmap (snd (conn_send p c)) = mmap c"
  "challengeSeen (snd (conn_send p c)) = challengeSeen c"
  "exit_part (snd (conn_send p c)) = exit_part c"
  "layout_part (snd (conn_send p c)) = layout_part c" "world (snd (conn_send p c)) = world c"
  by (simp_all add: conn_send_def part_defs split: prod.split)

lemma conn_send_sent [simp]: "sent (snd (conn_send p c)) = sent c @ [p]"
  by (simp add: conn_send_def split: prod.split)

lemma on_world_frame [simp]:
  "windows_part (on_world f c) = windows_part c" "iconic_part (on_world f c) = iconic_part c"
  "focused (on_world f c) = focused c" "focus_timer_part (on_world f c) = focus_timer_part c"
  "iconify_timers (on_world f c) = iconify_timers c"
  "clipboard_part (on_world f c) = clipboard_part c" "mmap (on_world f c) = mmap c"
  "challengeSeen (on_world f c) = challengeSeen c" "exit_part (on_world f c) = exit_part c"
  "layout_part (on_world f c) = layout_part c" "sent (on_world f c) = sent c"
  by (simp_all add: on_world_def)

lemma on_world_fields [simp]:
  "windows (on_world f c) = windows c" "byLocal (on_world f c) = byLocal c"
  "iconified (on_world f c) = iconified c" "serverIconic (on_world f c) = serverIconic c"
  "cl_monitors (on_world f c) = cl_monitors c" "cl_states (on_world f c) = cl_states c"
  by (simp_all add: on_world_def)

lemma world_on_world [simp]: "world (on_world f c) = f (world c)"
  by (simp add: on_world_def)

lemma call_display_frame [simp]:
  "windows_part (call_display f c) = windows_part c"
  "iconic_part (call_display f c) = iconic_part c" "focused (call_display f c) = focused c"
  "focus_timer_part (call_display f c) = focus_timer_part c"
  "iconify_timers (call_display f c) = iconify_timers c"
  "clipboard_part (call_display f c) = clipboard_part c" "mmap (call_display f c) = mmap c"
  "challengeSeen (call_display f c) = challengeSeen c"
  "exit_part (call_display f c) = exit_part c" "layout_part (call_display f c) = layout_part c"
  "sent (call_display f c) = sent c"
  by (simp_all add: call_display_def)

lemma world_call_display [simp]: "world (call_display f c) = snd (f (world c))"
  by (simp add: call_display_def)

lemma stop_frame [simp]:
  "windows_part (stop e c) = windows_part c" "iconic_part (stop e c) = iconic_part c"
  "focused (stop e c) = focused c" "focus_timer_part (stop e c) = focus_timer_part c"
  "iconify_timers (stop e c) = iconify_timers c" "clipboard_part (stop e c) = clipboard_part c"
  "mmap (stop e c) = mmap c" "challengeSeen (stop e c) = challengeSeen c"
  "layout_part (stop e c) = layout_part c" "sent (stop e c) = sent c" "world (stop e c) = world c"
  by (simp_all add: stop_def)

lemma releasePixels_frame [simp]:
  "windows_part (releasePixels cur c) = windows_part c"
  "iconic_part (releasePixels cur c) = iconic_part c" "focused (releasePixels cur c) = focused c"
  "focus_timer_part (releasePixels cur c) = focus_timer_part c"
  "iconify_timers (releasePixels cur c) = iconify_timers c"
  "clipboard_part (releasePixels cur c) = clipboard_part c"
  "challengeSeen (releasePixels cur c) = challengeSeen c"
  "exit_part (releasePixels cur c) = exit_part c"
  "layout_part (releasePixels cur c) = layout_part c" "sent (releasePixels cur c) = sent c"
  "world (releasePixels cur c) = world c"
  by (simp_all add: releasePixels_def split: option.split)

section \<open>Windows\<close>

lemma applyStates_frame [simp]:
  "windows_part (applyStates env wid w metadata c) = windows_part c"
  "focused (applyStates env wid w metadata c) = focused c"
  "focus_timer_part (applyStates env wid w metadata c) = focus_timer_part c"
  "iconify_timers (applyStates env wid w metadata c) = iconify_timers c"
  "clipboard_part (applyStates env wid w metadata c) = clipboard_part c"
  "mmap (applyStates env wid w metadata c) = mmap c"
  "challengeSeen (applyStates env wid w metadata c) = challengeSeen c"
  "exit_part (applyStates env wid w metadata c) = exit_part c"
  "layout_part (applyStates env wid w metadata c) = layout_part c"
  "sent (applyStates env wid w metadata c) = sent c"
  by (simp_all add: applyStates_def Let_def)

lemma forgetWindow_frame [simp]:
  "focus_timer_part (forgetWindow env wid w c) = focus_timer_part c"
  "iconify_timers (forgetWindow env wid w c) = iconify_timers c"
  "clipboard_part (forgetWindow env wid w c) = clipboard_part c"
  "mmap (forgetWindow env wid w c) = mmap c"
  "challengeSeen (forgetWindow env wid w c) = challengeSeen c"
  "exit_part (forgetWindow env wid w c) = exit_part c"
  "layout_part (forgetWindow env wid w c) = layout_part c"
  "sent (forgetWindow env wid w c) = sent c"
  by (simp_all add: forgetWindow_def)

lemma handleNewWindow_frame [simp]:
  "focus_timer_part (handleNewWindow env p ovr c) = focus_timer_part c"
  "iconify_timers (handleNewWindow env p ovr c) = iconify_timers c"
  "clipboard_part (handleNewWindow env p ovr c) = clipboard_part c"
  "mmap (handleNewWindow env p ovr c) = mmap c"
  "challengeSeen (handleNewWindow env p ovr c) = challengeSeen c"
  "exit_part (handleNewWindow env p ovr c) = exit_part c"
  "layout_part (handleNewWindow env p ovr c) = layout_part c"
  by (simp_all add: handleNewWindow_def Let_def split: option.split prod.split)

lemma handleLostWindow_frame [simp]:
  "focus_timer_part (handleLostWindow env p c) = focus_timer_part c"
  "iconify_timers (handleLostWindow env p c) = iconify_timers c"
  "clipboard_part (handleLostWindow env p c) = clipboard_part c"
  "mmap (handleLostWindow env p c) = mmap c"
  "challengeSeen (handleLostWindow env p c) = challengeSeen c"
  "exit_part (handleLostWindow env p c) = exit_part c"
  "layout_part (handleLostWindow env p c) = layout_part c"
  "sent (handleLostWindow env p c) = sent c"
  by (simp_all add: handleLostWindow_def with_window_def split: option.split)

lemma handleMoveResize_frame [simp]:
  "windows_part (handleMoveResize env p c) = windows_part c"
  "iconic_part (handleMoveResize env p c) = iconic_part c"
  "focused (handleMoveResize env p c) = focused c"
  "focus_timer_part (handleMoveResize env p c) = focus_timer_part c"
  "iconify_timers (handleMoveResize env p c) = iconify_timers c"
  "clipboard_part (handleMoveResize env p c) = clipboard_part c"
  "mmap (handleMoveResize env p c) = mmap c"
  "challengeSeen (handleMoveResize env p c) = challengeSeen c"
  "exit_part (handleMoveResize env p c) = exit_part c"
  "layout_part (handleMoveResize env p c) = layout_part c"
  "sent (handleMoveResize env p c) = sent c"
  by (simp_all add: handleMoveResize_def with_window_def Let_def split: option.split prod.split)

lemma handleMetadata_frame [simp]:
  "windows_part (handleMetadata env p c) = windows_part c"
  "focused (handleMetadata env p c) = focused c"
  "focus_timer_part (handleMetadata env p c) = focus_timer_part c"
  "iconify_timers (handleMetadata env p c) = iconify_timers c"
  "clipboard_part (handleMetadata env p c) = clipboard_part c"
  "mmap (handleMetadata env p c) = mmap c"
  "challengeSeen (handleMetadata env p c) = challengeSeen c"
  "exit_part (handleMetadata env p c) = exit_part c"
  "layout_part (handleMetadata env p c) = layout_part c" "sent (handleMetadata env p c) = sent c"
  by (simp_all add: handleMetadata_def with_window_def Let_def split: option.split)

lemma handleRaiseWindow_frame [simp]:
  "windows_part (handleRaiseWindow env p c) = windows_part c"
  "iconic_part (handleRaiseWindow env p c) = iconic_part c"
  "focused (handleRaiseWindow env p c) = focused c"
  "focus_timer_part (handleRaiseWindow env p c) = focus_timer_part c"
  "iconify_timers (handleRaiseWindow env p c) = iconify_timers c"
  "clipboard_part (handleRaiseWindow env p c) = clipboard_part c"
  "mmap (handleRaiseWindow env p c) = mmap c"
  "challengeSeen (handleRaiseWindow env p c) = challengeSeen c"
  "exit_part (handleRaiseWindow env p c) = exit_part c"
  "layout_part (handleRaiseWindow env p c) = layout_part c"
  "sent (handleRaiseWindow env p c) = sent c"
  by (simp_all add: handleRaiseWindow_def with_window_def split: option.split)

lemma handleBell_frame [simp]:
  "windows_part (handleBell env p c) = windows_part c"
  "iconic_part (handleBell env p c) = iconic_part c" "focused (handleBell env p c) = focused c"
  "focus_timer_part (handleBell env p c) = focus_timer_part c"
  "iconify_timers (handleBell env p c) = iconify_timers c"
  "clipboard_part (handleBell env p c) = clipboard_part c" "mmap (handleBell env p c) = mmap c"
  "challengeSeen (handleBell env p c) = challengeSeen c"
  "exit_part (handleBell env p c) = exit_part c"
  "layout_part (handleBell env p c) = layout_part c" "sent (handleBell env p c) = sent c"
  by (simp_all add: handleBell_def)

lemma handleShowDesktop_frame [simp]:
  "windows_part (handleShowDesktop env p c) = windows_part c"
  "iconic_part (handleShowDesktop env p c) = iconic_part c"
  "focused (handleShowDesktop env p c) = focused c"
  "focus_timer_part (handleShowDesktop env p c) = focus_timer_part c"
  "iconify_timers (handleShowDesktop env p c) = iconify_timers c"
  "clipboard_part (handleShowDesktop env p c) = clipboard_part c"
  "mmap (handleShowDesktop env p c) = mmap c"
  "challengeSeen (handleShowDesktop env p c) = challengeSeen c"
  "exit_part (handleShowDesktop env p c) = exit_part c"
  "layout_part (handleShowDesktop env p c) = layout_part c"
  "sent (handleShowDesktop env p c) = sent c"
  by (simp_all add: handleShowDesktop_def Let_def)

lemma handleConfigure_frame [simp]:
  "windows_part (handleConfigure env wx x y width height c) = windows_part c"
  "iconic_part (handleConfigure env wx x y width height c) = iconic_part c"
  "focused (handleConfigure env wx x y width height c) = focused c"
  "focus_timer_part (handleConfigure env wx x y width height c) = focus_timer_part c"
  "iconify_timers (handleConfigure env wx x y width height c) = iconify_timers c"
  "clipboard_part (handleConfigure env wx x y width height c) = clipboard_part c"
  "mmap (handleConfigure env wx x y width height c) = mmap c"
  "challengeSeen (handleConfigure env wx x y width height c) = challengeSeen c"
  "exit_part (handleConfigure env wx x y width height c) = exit_part c"
  "layout_part (handleConfigure env wx x y width height c) = layout_part c"
  by (simp_all add: handleConfigure_def Let_def split: option.split prod.split)

lemma handleMinimized_frame [simp]:
  "windows_part (handleMinimized env wx b c) = windows_part c"
  "focused (handleMinimized env wx b c) = focused c"
  "focus_timer_part (handleMinimized env wx b c) = focus_timer_part c"
  "clipboard_part (handleMinimized env wx b c) = clipboard_part c"
  "mmap (handleMinimized env wx b c) = mmap c"
  "challengeSeen (handleMinimized env wx b c) = challengeSeen c"
  "exit_part (handleMinimized env wx b c) = exit_part c"
  "layout_part (handleMinimized env wx b c) = layout_part c"
  "world (handleMinimized env wx b c) = world c"
  by (simp_all add: handleMinimized_def Let_def split: option.split prod.split)

lemma sendIconified_frame [simp]:
  "windows_part (sendIconified wid c) = windows_part c"
  "iconic_part (sendIconified wid c) = iconic_part c" "focused (sendIconified wid c) = focused c"
  "focus_timer_part (sendIconified wid c) = focus_timer_part c"
  "iconify_timers (sendIconified wid c) = iconify_timers c"
  "clipboard_part (sendIconified wid c) = clipboard_part c" "mmap (sendIconified wid c) = mmap c"
  "challengeSeen (sendIconified wid c) = challengeSeen c"
  "exit_part (sendIconified wid c) = exit_part c"
  "layout_part (sendIconified wid c) = layout_part c" "world (sendIconified wid c) = world c"
  by (simp_all add: sendIconified_def)

lemma handleCloseRequest_frame [simp]:
  "windows_part (handleCloseRequest wx c) = windows_part c"
  "iconic_part (handleCloseRequest wx c) = iconic_part c"
  "focused (handleCloseRequest wx c) = focused c"
  "focus_timer_part (handleCloseRequest wx c) = focus_timer_part c"
  "iconify_timers (handleCloseRequest wx c) = iconify_timers c"
  "clipboard_part (handleCloseRequest wx c) = clipboard_part c"
  "mmap (handleCloseRequest wx c) = mmap c"
  "challengeSeen (handleCloseRequest wx c) = challengeSeen c"
  "exit_part (handleCloseRequest wx c) = exit_part c"
  "layout_part (handleCloseRequest wx c) = layout_part c"
  "world (handleCloseRequest wx c) = world c"
  by (simp_all add: handleCloseRequest_def split: option.split prod.split)

section \<open>Drawing\<close>

text \<open>The shape of \<open>handleDraw\<close> gives its frame.\<close>

lemma handleDraw_frame [simp]:
  "windows_part (handleDraw env p c) = windows_part c"
  "iconic_part (handleDraw env p c) = iconic_part c" "focused (handleDraw env p c) = focused c"
  "focus_timer_part (handleDraw env p c) = focus_timer_part c"
  "iconify_timers (handleDraw env p c) = iconify_timers c"
  "clipboard_part (handleDraw env p c) = clipboard_part c"
  "challengeSeen (handleDraw env p c) = challengeSeen c"
  "exit_part (handleDraw env p c) = exit_part c"
  "layout_part (handleDraw env p c) = layout_part c"
  by (rule handleDraw_shape [of env p c]; simp)+

lemma applyCursorPNG_frame [simp]:
  "windows_part (applyCursorPNG env enc data x y c) = windows_part c"
  "iconic_part (applyCursorPNG env enc data x y c) = iconic_part c"
  "focused (applyCursorPNG env enc data x y c) = focused c"
  "focus_timer_part (applyCursorPNG env enc data x y c) = focus_timer_part c"
  "iconify_timers (applyCursorPNG env enc data x y c) = iconify_timers c"
  "clipboard_part (applyCursorPNG env enc data x y c) = clipboard_part c"
  "mmap (applyCursorPNG env enc data x y c) = mmap c"
  "challengeSeen (applyCursorPNG env enc data x y c) = challengeSeen c"
  "exit_part (applyCursorPNG env enc data x y c) = exit_part c"
  "layout_part (applyCursorPNG env enc data x y c) = layout_part c"
  "sent (applyCursorPNG env enc data x y c) = sent c"
  by (simp_all add: applyCursorPNG_def split: sum.split)

lemma handleCursorDefault_frame [simp]:
  "windows_part (handleCursorDefault env c) = windows_part c"
  "iconic_part (handleCursorDefault env c) = iconic_part c"
  "focused (handleCursorDefault env c) = focused c"
  "focus_timer_part (handleCursorDefault env c) = focus_timer_part c"
  "iconify_timers (handleCursorDefault env c) = iconify_timers c"
  "clipboard_part (handleCursorDefault env c) = clipboard_part c"
  "mmap (handleCursorDefault env c) = mmap c"
  "challengeSeen (handleCursorDefault env c) = challengeSeen c"
  "exit_part (handleCursorDefault env c) = exit_part c"
  "layout_part (handleCursorDefault env c) = layout_part c"
  "sent (handleCursorDefault env c) = sent c"
  by (simp_all add: handleCursorDefault_def)

lemma handleCursor_frame [simp]:
  "windows_part (handleCursor env p c) = windows_part c"
  "iconic_part (handleCursor env p c) = iconic_part c"
  "focused (handleCursor env p c) = focused c"
  "focus_timer_part (handleCursor env p c) = focus_timer_part c"
  "iconify_timers (handleCursor env p c) = iconify_timers c"
  "clipboard_part (handleCursor env p c) = clipboard_part c"
  "mmap (handleCursor env p c) = mmap c" "challengeSeen (handleCursor env p c) = challengeSeen c"
  "exit_part (handleCursor env p c) = exit_part c"
  "layout_part (handleCursor env p c) = layout_part c" "sent (handleCursor env p c) = sent c"
  by (simp_all add: handleCursor_def Let_def split: option.split)

lemma handleCursorData_frame [simp]:
  "windows_part (handleCursorData env p c) = windows_part c"
  "iconic_part (handleCursorData env p c) = iconic_part c"
  "focused (handleCursorData env p c) = focused c"
  "focus_timer_part (handleCursorData env p c) = focus_timer_part c"
  "iconify_timers (handleCursorData env p c) = iconify_timers c"
  "clipboard_part (handleCursorData env p c) = clipboard_part c"
  "mmap (handleCursorData env p c) = mmap c"
  "challengeSeen (handleCursorData env p c) = challengeSeen c"
  "exit_part (handleCursorData env p c) = exit_part c"
  "layout_part (handleCursorData env p c) = layout_part c"
  "sent (handleCursorData env p c) = sent c"
  by (simp_all add: handleCursorData_def split: option.split)

lemma handleWindowIcon_frame [simp]:
  "windows_part (handleWindowIcon env p c) = windows_part c"
  "iconic_part (handleWindowIcon env p c) = iconic_part c"
  "focused (handleWindowIcon env p c) = focused c"
  "focus_timer_part (handleWindowIcon env p c) = focus_timer_part c"
  "iconify_timers (handleWindowIcon env p c) = iconify_timers c"
  "clipboard_part (handleWindowIcon env p c) = clipboard_part c"
  "mmap (handleWindowIcon env p c) = mmap c"
  "challengeSeen (handleWindowIcon env p c) = challengeSeen c"
  "exit_part (handleWindowIcon env p c) = exit_part c"
  "layout_part (handleWindowIcon env p c) = layout_part c"
  "sent (handleWindowIcon env p c) = sent c"
  by (simp_all add: handleWindowIcon_def split: option.split sum.split)

section \<open>Input\<close>

lemma handleMotion_frame [simp]:
  "windows_part (handleMotion wx x y c) = windows_part c"
  "iconic_part (handleMotion wx x y c) = iconic_part c"
  "focused (handleMotion wx x y c) = focused c"
  "focus_timer_part (handleMotion wx x y c) = focus_timer_part c"
  "iconify_timers (handleMotion wx x y c) = iconify_timers c"
  "clipboard_part (handleMotion wx x y c) = clipboard_part c"
  "mmap (handleMotion wx x y c) = mmap c"
  "challengeSeen (handleMotion wx x y c) = challengeSeen c"
  "exit_part (handleMotion wx x y c) = exit_part c"
  "layout_part (handleMotion wx x y c) = layout_part c" "world (handleMotion wx x y c) = world c"
  by (simp_all add: handleMotion_def split: option.split prod.split)

lemma handleButton_frame [simp]:
  "windows_part (handleButton env wx b pressed x y c) = windows_part c"
  "iconic_part (handleButton env wx b pressed x y c) = iconic_part c"
  "focused (handleButton env wx b pressed x y c) = focused c"
  "focus_timer_part (handleButton env wx b pressed x y c) = focus_timer_part c"
  "iconify_timers (handleButton env wx b pressed x y c) = iconify_timers c"
  "clipboard_part (handleButton env wx b pressed x y c) = clipboard_part c"
  "mmap (handleButton env wx b pressed x y c) = mmap c"
  "challengeSeen (handleButton env wx b pressed x y c) = challengeSeen c"
  "exit_part (handleButton env wx b pressed x y c) = exit_part c"
  "layout_part (handleButton env wx b pressed x y c) = layout_part c"
  "world (handleButton env wx b pressed x y c) = world c"
  by (simp_all add: handleButton_def Let_def split: option.split prod.split)

lemma handleKey_frame [simp]:
  "windows_part (handleKey wx pressed name keysym text keycode mods c) = windows_part c"
  "iconic_part (handleKey wx pressed name keysym text keycode mods c) = iconic_part c"
  "focused (handleKey wx pressed name keysym text keycode mods c) = focused c"
  "focus_timer_part (handleKey wx pressed name keysym text keycode mods c) = focus_timer_part c"
  "iconify_timers (handleKey wx pressed name keysym text keycode mods c) = iconify_timers c"
  "clipboard_part (handleKey wx pressed name keysym text keycode mods c) = clipboard_part c"
  "mmap (handleKey wx pressed name keysym text keycode mods c) = mmap c"
  "challengeSeen (handleKey wx pressed name keysym text keycode mods c) = challengeSeen c"
  "exit_part (handleKey wx pressed name keysym text keycode mods c) = exit_part c"
  "layout_part (handleKey wx pressed name keysym text keycode mods c) = layout_part c"
  "world (handleKey wx pressed name keysym text keycode mods c) = world c"
  by (simp_all add: handleKey_def split: option.split prod.split)

lemma handleFocus_frame [simp]:
  "windows_part (handleFocus wx c) = windows_part c"
  "iconic_part (handleFocus wx c) = iconic_part c"
  "focus_timer_part (handleFocus wx c) = focus_timer_part c"
  "iconify_timers (handleFocus wx c) = iconify_timers c"
  "clipboard_part (handleFocus wx c) = clipboard_part c" "mmap (handleFocus wx c) = mmap c"
  "challengeSeen (handleFocus wx c) = challengeSeen c"
  "exit_part (handleFocus wx c) = exit_part c" "layout_part (handleFocus wx c) = layout_part c"
  "world (handleFocus wx c) = world c"
  by (simp_all add: handleFocus_def split: option.split prod.split)

lemma handleFocusLost_frame [simp]:
  "windows_part (handleFocusLost wx c) = windows_part c"
  "iconic_part (handleFocusLost wx c) = iconic_part c"
  "iconify_timers (handleFocusLost wx c) = iconify_timers c"
  "clipboard_part (handleFocusLost wx c) = clipboard_part c"
  "mmap (handleFocusLost wx c) = mmap c" "challengeSeen (handleFocusLost wx c) = challengeSeen c"
  "exit_part (handleFocusLost wx c) = exit_part c"
  "layout_part (handleFocusLost wx c) = layout_part c" "sent (handleFocusLost wx c) = sent c"
  "world (handleFocusLost wx c) = world c"
  by (simp_all add: handleFocusLost_def Let_def split: option.split prod.split)

lemma sendFocusLost_frame [simp]:
  "windows_part (sendFocusLost c) = windows_part c"
  "iconic_part (sendFocusLost c) = iconic_part c" "focused (sendFocusLost c) = focused c"
  "iconify_timers (sendFocusLost c) = iconify_timers c"
  "clipboard_part (sendFocusLost c) = clipboard_part c" "mmap (sendFocusLost c) = mmap c"
  "challengeSeen (sendFocusLost c) = challengeSeen c" "exit_part (sendFocusLost c) = exit_part c"
  "layout_part (sendFocusLost c) = layout_part c" "world (sendFocusLost c) = world c"
  by (simp_all add: sendFocusLost_def Let_def)

section \<open>Clipboard\<close>

lemma sendClipboardToken_frame [simp]:
  "windows_part (sendClipboardToken env c) = windows_part c"
  "iconic_part (sendClipboardToken env c) = iconic_part c"
  "focused (sendClipboardToken env c) = focused c"
  "focus_timer_part (sendClipboardToken env c) = focus_timer_part c"
  "iconify_timers (sendClipboardToken env c) = iconify_timers c"
  "clipboard_part (sendClipboardToken env c) = clipboard_part c"
  "mmap (sendClipboardToken env c) = mmap c"
  "challengeSeen (sendClipboardToken env c) = challengeSeen c"
  "exit_part (sendClipboardToken env c) = exit_part c"
  "layout_part (sendClipboardToken env c) = layout_part c"
  "world (sendClipboardToken env c) = world c"
  by (simp_all add: sendClipboardToken_def Let_def)

lemma announce_frame [simp]:
  "windows_part (announce env c) = windows_part c" "iconic_part (announce env c) = iconic_part c"
  "focused (announce env c) = focused c" "focus_timer_part (announce env c) = focus_timer_part c"
  "iconify_timers (announce env c) = iconify_timers c"
  "clipboard_part (announce env c) = clipboard_part c" "mmap (announce env c) = mmap c"
  "challengeSeen (announce env c) = challengeSeen c" "exit_part (announce env c) = exit_part c"
  "layout_part (announce env c) = layout_part c" "world (announce env c) = world c"
  by (simp_all add: announce_def)

lemma configureClipboard_frame [simp]:
  "windows_part (configureClipboard env caps c) = windows_part c"
  "iconic_part (configureClipboard env caps c) = iconic_part c"
  "focused (configureClipboard env caps c) = focused c"
  "focus_timer_part (configureClipboard env caps c) = focus_timer_part c"
  "iconify_timers (configureClipboard env caps c) = iconify_timers c"
  "mmap (configureClipboard env caps c) = mmap c"
  "challengeSeen (configureClipboard env caps c) = challengeSeen c"
  "exit_part (configureClipboard env caps c) = exit_part c"
  "layout_part (configureClipboard env caps c) = layout_part c"
  "world (configureClipboard env caps c) = world c"
  by (simp_all add: configureClipboard_def Let_def)

lemma handleClipboardChange_frame [simp]:
  "windows_part (handleClipboardChange env text c) = windows_part c"
  "iconic_part (handleClipboardChange env text c) = iconic_part c"
  "focused (handleClipboardChange env text c) = focused c"
  "focus_timer_part (handleClipboardChange env text c) = focus_timer_part c"
  "iconify_timers (handleClipboardChange env text c) = iconify_timers c"
  "mmap (handleClipboardChange env text c) = mmap c"
  "challengeSeen (handleClipboardChange env text c) = challengeSeen c"
  "exit_part (handleClipboardChange env text c) = exit_part c"
  "layout_part (handleClipboardChange env text c) = layout_part c"
  "world (handleClipboardChange env text c) = world c"
  by (simp_all add: handleClipboardChange_def Let_def)

lemma applyRemoteClipboard_frame [simp]:
  "windows_part (applyRemoteClipboard env text c) = windows_part c"
  "iconic_part (applyRemoteClipboard env text c) = iconic_part c"
  "focused (applyRemoteClipboard env text c) = focused c"
  "focus_timer_part (applyRemoteClipboard env text c) = focus_timer_part c"
  "iconify_timers (applyRemoteClipboard env text c) = iconify_timers c"
  "mmap (applyRemoteClipboard env text c) = mmap c"
  "challengeSeen (applyRemoteClipboard env text c) = challengeSeen c"
  "exit_part (applyRemoteClipboard env text c) = exit_part c"
  "layout_part (applyRemoteClipboard env text c) = layout_part c"
  "sent (applyRemoteClipboard env text c) = sent c"
  by (simp_all add: applyRemoteClipboard_def split: option.split prod.split)

lemma requestRemoteClipboard_frame [simp]:
  "windows_part (requestRemoteClipboard ts c) = windows_part c"
  "iconic_part (requestRemoteClipboard ts c) = iconic_part c"
  "focused (requestRemoteClipboard ts c) = focused c"
  "focus_timer_part (requestRemoteClipboard ts c) = focus_timer_part c"
  "iconify_timers (requestRemoteClipboard ts c) = iconify_timers c"
  "mmap (requestRemoteClipboard ts c) = mmap c"
  "challengeSeen (requestRemoteClipboard ts c) = challengeSeen c"
  "exit_part (requestRemoteClipboard ts c) = exit_part c"
  "layout_part (requestRemoteClipboard ts c) = layout_part c"
  "world (requestRemoteClipboard ts c) = world c"
  by (simp_all add: requestRemoteClipboard_def Let_def)

lemma beginRemoteClipboard_frame [simp]:
  "windows_part (beginRemoteClipboard c) = windows_part c"
  "iconic_part (beginRemoteClipboard c) = iconic_part c"
  "focused (beginRemoteClipboard c) = focused c"
  "focus_timer_part (beginRemoteClipboard c) = focus_timer_part c"
  "iconify_timers (beginRemoteClipboard c) = iconify_timers c"
  "mmap (beginRemoteClipboard c) = mmap c"
  "challengeSeen (beginRemoteClipboard c) = challengeSeen c"
  "exit_part (beginRemoteClipboard c) = exit_part c"
  "layout_part (beginRemoteClipboard c) = layout_part c" "sent (beginRemoteClipboard c) = sent c"
  "world (beginRemoteClipboard c) = world c"
  by (simp_all add: beginRemoteClipboard_def)

lemma handleClipboardToken_frame [simp]:
  "windows_part (handleClipboardToken env p c) = windows_part c"
  "iconic_part (handleClipboardToken env p c) = iconic_part c"
  "focused (handleClipboardToken env p c) = focused c"
  "focus_timer_part (handleClipboardToken env p c) = focus_timer_part c"
  "iconify_timers (handleClipboardToken env p c) = iconify_timers c"
  "mmap (handleClipboardToken env p c) = mmap c"
  "challengeSeen (handleClipboardToken env p c) = challengeSeen c"
  "exit_part (handleClipboardToken env p c) = exit_part c"
  "layout_part (handleClipboardToken env p c) = layout_part c"
  by (simp_all add: handleClipboardToken_def Let_def split: option.split)

lemma handleClipboardData_frame [simp]:
  "windows_part (handleClipboardData env p c) = windows_part c"
  "iconic_part (handleClipboardData env p c) = iconic_part c"
  "focused (handleClipboardData env p c) = focused c"
  "focus_timer_part (handleClipboardData env p c) = focus_timer_part c"
  "iconify_timers (handleClipboardData env p c) = iconify_timers c"
  "mmap (handleClipboardData env p c) = mmap c"
  "challengeSeen (handleClipboardData env p c) = challengeSeen c"
  "exit_part (handleClipboardData env p c) = exit_part c"
  "layout_part (handleClipboardData env p c) = layout_part c"
  by (simp_all add: handleClipboardData_def Let_def split: option.split)

lemma handleClipboardContents_frame [simp]:
  "windows_part (handleClipboardContents env p c) = windows_part c"
  "iconic_part (handleClipboardContents env p c) = iconic_part c"
  "focused (handleClipboardContents env p c) = focused c"
  "focus_timer_part (handleClipboardContents env p c) = focus_timer_part c"
  "iconify_timers (handleClipboardContents env p c) = iconify_timers c"
  "mmap (handleClipboardContents env p c) = mmap c"
  "challengeSeen (handleClipboardContents env p c) = challengeSeen c"
  "exit_part (handleClipboardContents env p c) = exit_part c"
  "layout_part (handleClipboardContents env p c) = layout_part c"
  "sent (handleClipboardContents env p c) = sent c"
  by (simp_all add: handleClipboardContents_def Let_def split: option.split)

lemma handleClipboardContentsNone_frame [simp]:
  "windows_part (handleClipboardContentsNone p c) = windows_part c"
  "iconic_part (handleClipboardContentsNone p c) = iconic_part c"
  "focused (handleClipboardContentsNone p c) = focused c"
  "focus_timer_part (handleClipboardContentsNone p c) = focus_timer_part c"
  "iconify_timers (handleClipboardContentsNone p c) = iconify_timers c"
  "mmap (handleClipboardContentsNone p c) = mmap c"
  "challengeSeen (handleClipboardContentsNone p c) = challengeSeen c"
  "exit_part (handleClipboardContentsNone p c) = exit_part c"
  "layout_part (handleClipboardContentsNone p c) = layout_part c"
  "sent (handleClipboardContentsNone p c) = sent c"
  "world (handleClipboardContentsNone p c) = world c"
  by (simp_all add: handleClipboardContentsNone_def)

lemma handleClipboardRequest_frame [simp]:
  "windows_part (handleClipboardRequest p c) = windows_part c"
  "iconic_part (handleClipboardRequest p c) = iconic_part c"
  "focused (handleClipboardRequest p c) = focused c"
  "focus_timer_part (handleClipboardRequest p c) = focus_timer_part c"
  "iconify_timers (handleClipboardRequest p c) = iconify_timers c"
  "clipboard_part (handleClipboardRequest p c) = clipboard_part c"
  "mmap (handleClipboardRequest p c) = mmap c"
  "challengeSeen (handleClipboardRequest p c) = challengeSeen c"
  "exit_part (handleClipboardRequest p c) = exit_part c"
  "layout_part (handleClipboardRequest p c) = layout_part c"
  "world (handleClipboardRequest p c) = world c"
  by (simp_all add: handleClipboardRequest_def Let_def)

lemma handleClipboardEnableSelections_frame [simp]:
  "windows_part (handleClipboardEnableSelections env p c) = windows_part c"
  "iconic_part (handleClipboardEnableSelections env p c) = iconic_part c"
  "focused (handleClipboardEnableSelections env p c) = focused c"
  "focus_timer_part (handleClipboardEnableSelections env p c) = focus_timer_part c"
  "iconify_timers (handleClipboardEnableSelections env p c) = iconify_timers c"
  "mmap (handleClipboardEnableSelections env p c) = mmap c"
  "challengeSeen (handleClipboardEnableSelections env p c) = challengeSeen c"
  "exit_part (handleClipboardEnableSelections env p c) = exit_part c"
  "layout_part (handleClipboardEnableSelections env p c) = layout_part c"
  "world (handleClipboardEnableSelections env p c) = world c"
  by (simp_all add: handleClipboardEnableSelections_def)

lemma handleClipboardStatus_frame [simp]:
  "windows_part (handleClipboardStatus env p c) = windows_part c"
  "iconic_part (handleClipboardStatus env p c) = iconic_part c"
  "focused (handleClipboardStatus env p c) = focused c"
  "focus_timer_part (handleClipboardStatus env p c) = focus_timer_part c"
  "iconify_timers (handleClipboardStatus env p c) = iconify_timers c"
  "mmap (handleClipboardStatus env p c) = mmap c"
  "challengeSeen (handleClipboardStatus env p c) = challengeSeen c"
  "exit_part (handleClipboardStatus env p c) = exit_part c"
  "layout_part (handleClipboardStatus env p c) = layout_part c"
  "world (handleClipboardStatus env p c) = world c"
  by (simp_all add: handleClipboardStatus_def Let_def)

section \<open>Handshake\<close>

lemma configurePings_frame [simp]:
  "windows_part (configurePings caps c) = windows_part c"
  "iconic_part (configurePings caps c) = iconic_part c"
  "focused (configurePings caps c) = focused c"
  "focus_timer_part (configurePings caps c) = focus_timer_part c"
  "iconify_timers (configurePings caps c) = iconify_timers c"
  "clipboard_part (configurePings caps c) = clipboard_part c"
  "mmap (configurePings caps c) = mmap c"
  "challengeSeen (configurePings caps c) = challengeSeen c"
  "exit_part (configurePings caps c) = exit_part c"
  "layout_part (configurePings caps c) = layout_part c" "sent (configurePings caps c) = sent c"
  "world (configurePings caps c) = world c"
  by (simp_all add: configurePings_def)

lemma sendHello_frame [simp]:
  "windows_part (snd (sendHello env resp salt c)) = windows_part c"
  "iconic_part (snd (sendHello env resp salt c)) = iconic_part c"
  "focused (snd (sendHello env resp salt c)) = focused c"
  "focus_timer_part (snd (sendHello env resp salt c)) = focus_timer_part c"
  "iconify_timers (snd (sendHello env resp salt c)) = iconify_timers c"
  "clipboard_part (snd (sendHello env resp salt c)) = clipboard_part c"
  "mmap (snd (sendHello env resp salt c)) = mmap c"
  "challengeSeen (snd (sendHello env resp salt c)) = challengeSeen c"
  "exit_part (snd (sendHello env resp salt c)) = exit_part c"
  by (simp_all add: sendHello_def Let_def split: prod.split)

text \<open>What follows a sent hello sees it through its state only.\<close>

lemma sendHello_case:
  "(case sendHello env response salt c of (Some e, c') \<Rightarrow> f e c' | (None, c') \<Rightarrow> g c') =
   (case fst (sendHello env response salt c) of
      Some e \<Rightarrow> f e (snd (sendHello env response salt c)) | None \<Rightarrow> g (snd (sendHello env response salt c)))"
  by (simp add: case_prod_beta)

lemma challengePassword_frame [simp]:
  "windows_part (snd (challengePassword env descr c)) = windows_part c"
  "iconic_part (snd (challengePassword env descr c)) = iconic_part c"
  "focused (snd (challengePassword env descr c)) = focused c"
  "focus_timer_part (snd (challengePassword env descr c)) = focus_timer_part c"
  "iconify_timers (snd (challengePassword env descr c)) = iconify_timers c"
  "clipboard_part (snd (challengePassword env descr c)) = clipboard_part c"
  "mmap (snd (challengePassword env descr c)) = mmap c"
  "challengeSeen (snd (challengePassword env descr c)) = challengeSeen c"
  "exit_part (snd (challengePassword env descr c)) = exit_part c"
  "layout_part (snd (challengePassword env descr c)) = layout_part c"
  "sent (snd (challengePassword env descr c)) = sent c"
  by (simp_all add: challengePassword_def split: sum.split prod.split)

lemma handlePing_frame [simp]:
  "windows_part (handlePing env p c) = windows_part c"
  "iconic_part (handlePing env p c) = iconic_part c" "focused (handlePing env p c) = focused c"
  "focus_timer_part (handlePing env p c) = focus_timer_part c"
  "iconify_timers (handlePing env p c) = iconify_timers c"
  "clipboard_part (handlePing env p c) = clipboard_part c" "mmap (handlePing env p c) = mmap c"
  "challengeSeen (handlePing env p c) = challengeSeen c"
  "exit_part (handlePing env p c) = exit_part c"
  "layout_part (handlePing env p c) = layout_part c" "world (handlePing env p c) = world c"
  by (simp_all add: handlePing_def)

lemma negotiateMmap_frame:
  assumes "negotiateMmap env caps c = Inr c'"
  obtains m where "c' = c\<lparr>mmap := m\<rparr>"
proof -
  have "c' = c\<lparr>mmap := mmap c'\<rparr>"
    using assms by (auto simp: negotiateMmap_def bind_res_eq_Inr split: option.splits if_splits)
  then show ?thesis by (rule that)
qed

lemma handleHello_shape:
  obtains e where "handleHello env p c = stop e c"
  | m where "handleHello env p c =
      configurePings (pkt_Dict p 1)
        (configureClipboard env (dict_Dict (pkt_Dict p 1) ''clipboard'')
          (c\<lparr>mmap := m, serverVersion := dict_Str (pkt_Dict p 1) ''version''\<rparr>))"
proof (cases "negotiateMmap env (pkt_Dict p 1) c")
  case (Inl e)
  then show ?thesis using that(1) by (simp add: handleHello_def Let_def)
next
  case (Inr c')
  then obtain m where "c' = c\<lparr>mmap := m\<rparr>" by (rule negotiateMmap_frame)
  then show ?thesis using that(2) Inr by (simp add: handleHello_def Let_def)
qed

lemma handleHello_frame [simp]:
  "windows_part (handleHello env p c) = windows_part c"
  "iconic_part (handleHello env p c) = iconic_part c" "focused (handleHello env p c) = focused c"
  "focus_timer_part (handleHello env p c) = focus_timer_part c"
  "iconify_timers (handleHello env p c) = iconify_timers c"
  "challengeSeen (handleHello env p c) = challengeSeen c"
  "layout_part (handleHello env p c) = layout_part c" "world (handleHello env p c) = world c"
  by (rule handleHello_shape [of env p c]; simp)+

lemma challengePassword_state:
  "snd (challengePassword env descr c) = c\<lparr>world := world (snd (challengePassword env descr c))\<rparr>"
  by (auto simp: challengePassword_def split: sum.split prod.split)

text \<open>What a challenge may lead to: a stop, or one more hello.\<close>

lemma handleChallenge_shape:
  obtains (seen) "challengeSeen c" "handleChallenge env p c = stop (Some PasswordRejected) c"
  | (no_password) e d where "\<not> challengeSeen c"
      "challengePassword env (pkt_Str p 5) (c\<lparr>challengeSeen := True\<rparr>) =
         (Inl e, c\<lparr>challengeSeen := True, world := d\<rparr>)"
      "handleChallenge env p c = stop (Some e) (c\<lparr>challengeSeen := True, world := d\<rparr>)"
  | (refused) password d1 e d where "\<not> challengeSeen c"
      "challengePassword env (pkt_Str p 5) (c\<lparr>challengeSeen := True\<rparr>) =
         (Inr password, c\<lparr>challengeSeen := True, world := d1\<rparr>)"
      "challengeReply env p password d1 = (Inl e, d)"
      "handleChallenge env p c = stop (Some (Authentication e)) (c\<lparr>challengeSeen := True, world := d\<rparr>)"
  | (answered) password d1 response salt d where "\<not> challengeSeen c"
      "challengePassword env (pkt_Str p 5) (c\<lparr>challengeSeen := True\<rparr>) =
         (Inr password, c\<lparr>challengeSeen := True, world := d1\<rparr>)"
      "challengeReply env p password d1 = (Inr (response, salt), d)"
      "handleChallenge env p c =
         (case sendHello env response salt (c\<lparr>challengeSeen := True, world := d\<rparr>) of
            (Some err, c2) \<Rightarrow> stop (Some (ResponseNotSent err)) c2
          | (None, c2) \<Rightarrow> c2)"
proof (cases "challengeSeen c")
  case True
  then show ?thesis using seen by (simp add: handleChallenge_def)
next
  case False
  let ?c = "c\<lparr>challengeSeen := True\<rparr>"
  obtain r c1 where pw: "challengePassword env (pkt_Str p 5) ?c = (r, c1)" by fastforce
  define d1 where "d1 = world c1"
  have c1: "c1 = ?c\<lparr>world := d1\<rparr>"
    using challengePassword_state [of env "pkt_Str p 5" ?c] pw by (simp add: d1_def)
  show ?thesis
  proof (cases r)
    case (Inl e)
    then show ?thesis using no_password [of e d1] False pw c1 by (simp add: handleChallenge_def)
  next
    case (Inr password)
    obtain a d where reply: "challengeReply env p password d1 = (a, d)" by fastforce
    show ?thesis
    proof (cases a)
      case (Inl e)
      then show ?thesis using refused [of password d1 e d] False pw c1 \<open>r = Inr password\<close> reply
        by (simp add: handleChallenge_def)
    next
      case (Inr rs)
      obtain response salt where rs: "rs = (response, salt)" by (cases rs)
      show ?thesis
        using answered [of password d1 response salt d] False pw c1 \<open>r = Inr password\<close> reply Inr rs
        by (simp add: handleChallenge_def)
    qed
  qed
qed

lemma handleChallenge_frame [simp]:
  "windows_part (handleChallenge env p c) = windows_part c"
  "iconic_part (handleChallenge env p c) = iconic_part c"
  "focused (handleChallenge env p c) = focused c"
  "focus_timer_part (handleChallenge env p c) = focus_timer_part c"
  "iconify_timers (handleChallenge env p c) = iconify_timers c"
  "clipboard_part (handleChallenge env p c) = clipboard_part c"
  "mmap (handleChallenge env p c) = mmap c"
  by (rule handleChallenge_shape [of c env p]; simp add: sendHello_case split: option.split)+

end
