(* ===== verification/Client_Invariants.thy ===== *)
theory Client_Invariants
  imports Client_Frames
begin

text \<open>
  How an invariant of the client is proved: a case rule for the dispatch of packets and of
  events, and the locale \<open>client_invariant\<close>, which carries a predicate from the state
  after the hello to every reachable state.
\<close>

section \<open>Case rules of the dispatch\<close>

lemma handlePacket_rule:
  assumes "P c" "P (stop None c)"
    and "P (handleHello env p c)" "P (handleChallenge env p c)" "P (handlePing env p c)"
    and "P (handleShowDesktop env p c)" "P (handleCursor env p c)" "P (handleCursorData env p c)"
    and "P (handleCursorDefault env c)" "P (handleWindowIcon env p c)" "P (handleDraw env p c)"
    and "P (handleClipboardData env p c)" "P (handleClipboardToken env p c)"
    and "P (handleClipboardRequest p c)" "P (handleClipboardContents env p c)"
    and "P (handleClipboardContentsNone p c)" "P (handleClipboardEnableSelections env p c)"
    and "P (handleClipboardStatus env p c)"
    and "\<And>ovr. P (handleNewWindow env p ovr c)" "P (handleLostWindow env p c)"
    and "P (handleMoveResize env p c)" "P (handleMetadata env p c)" "P (handleRaiseWindow env p c)"
    and "P (handleBell env p c)"
  shows "P (handlePacket env p c)"
proof -
  have either: "P x \<Longrightarrow> P y \<Longrightarrow> P (if b then x else y)" for b x y by simp
  show ?thesis unfolding handlePacket_def Let_def by (intro either assms)
qed

lemma handleUIEvent_rule:
  assumes "P (stop None (sendDisconnect env ''client exit'' c))"
    and "\<And>w x y width height. P (handleConfigure env w x y width height c)"
    and "\<And>w b. P (handleMinimized env w b c)" "\<And>w. P (handleCloseRequest w c)"
    and "\<And>w x y. P (handleMotion w x y c)" "\<And>w b pressed x y. P (handleButton env w b pressed x y c)"
    and "\<And>w pressed name keysym text keycode mods. P (handleKey w pressed name keysym text keycode mods c)"
    and "\<And>w. P (handleFocus w c)" "\<And>w. P (handleFocusLost w c)"
    and "\<And>text. P (handleClipboardChange env text c)"
  shows "P (handleUIEvent env ev c)"
  by (simp add: handleUIEvent_def assms split: ui_event.split)

section \<open>Reachable states\<close>

locale client_invariant =
  fixes env :: "'d env" and desktop :: "'d \<Rightarrow> 'd \<Rightarrow> bool" and holds :: "'d client \<Rightarrow> bool"
  assumes packet: "holds c \<Longrightarrow> holds (handlePacket env p c)"
    and event: "holds c \<Longrightarrow> holds (handleUIEvent env ev c)"
    and focus_due: "holds c \<Longrightarrow> focus_timers c > 0 \<Longrightarrow>
      holds (sendFocusLost (c\<lparr>focus_timers := focus_timers c - 1\<rparr>))"
    and iconify_due: "holds c \<Longrightarrow> wid \<in> set (iconify_timers c) \<Longrightarrow>
      holds (sendIconified wid (c\<lparr>iconify_timers := remove1 wid (iconify_timers c)\<rparr>))"
    and ping_due: "holds c \<Longrightarrow> holds (send [GString ''ping'', GInt64 now] c)"
    and desktop_moves: "holds c \<Longrightarrow> desktop (world c) d \<Longrightarrow> holds (c\<lparr>world := d\<rparr>)"
    and connection_moves: "holds c \<Longrightarrow> holds (c\<lparr>cl_conn := k\<rparr>)"
    and asked_to_stop: "holds c \<Longrightarrow> holds (c\<lparr>disconnect_reason := r\<rparr>)"
    and server_writes: "holds c \<Longrightarrow> mmap c = Some area \<Longrightarrow> length data = length (mm_data area) \<Longrightarrow>
      holds (c\<lparr>mmap := Some (area\<lparr>mm_data := data\<rparr>)\<rparr>)"
    and greeting: "holds c \<Longrightarrow> holds (snd (sendHello env [] [] c))"
begin

lemma run_turn_keeps:
  assumes "holds c" "turn_ready t c" "run_turn env t c = (c', None)"
  shows "holds c'"
proof (cases t)
  case (PingDue now)
  then show ?thesis using assms ping_due [of c now] by (auto simp: run_turn_def)
next
  case DisconnectAsked
  then show ?thesis using assms by (auto simp: run_turn_def Let_def split: option.splits)
qed (use assms packet event focus_due iconify_due in \<open>auto simp: run_turn_def turn_ready_def\<close>)

lemma step_keeps: "client_step env desktop c c' \<Longrightarrow> holds c \<Longrightarrow> holds c'"
proof (induction rule: client_step.induct)
  case (disconnect c reason)
  have "c\<lparr>disconnect_reason := disconnect_reason c\<rparr> = c" by simp
  then show ?case
    using asked_to_stop [OF disconnect, of "Some reason"] disconnect by (simp add: Disconnect_def)
qed (auto intro: run_turn_keeps desktop_moves connection_moves server_writes)

lemma reachable: "client_reachable env desktop start c \<Longrightarrow> holds start \<Longrightarrow> holds c"
proof (induction rule: client_reachable.induct)
  case (hello c)
  then show ?case using greeting [of start] by simp
qed (auto intro: step_keeps)

end

end
