(* ===== verification/Client_Packets.thy ===== *)
theory Client_Packets
  imports Client_Invariants Rencode_Spec
begin

text \<open>
  The packets the client sends: every one has the shape its kind has in the protocol, its
  name is one the negotiated protocol knows, and it can be encoded.
\<close>

section \<open>Shapes\<close>

datatype wire_type = TString | TInt | TBool | TBytes | TStrings | TInts | TPoint | TDict

definition has_type :: "any \<Rightarrow> wire_type \<Rightarrow> bool" where
  "has_type v t = (case t of
     TString \<Rightarrow> (case v of GString s \<Rightarrow> True | _ \<Rightarrow> False)
   | TInt \<Rightarrow> (case v of GInt n \<Rightarrow> True | GInt64 n \<Rightarrow> True | _ \<Rightarrow> False)
   | TBool \<Rightarrow> (case v of GBool b \<Rightarrow> True | _ \<Rightarrow> False)
   | TBytes \<Rightarrow> (case v of GBytes b \<Rightarrow> True | _ \<Rightarrow> False)
   | TStrings \<Rightarrow> (case v of GStrings ss \<Rightarrow> True | _ \<Rightarrow> False)
   | TInts \<Rightarrow> (case v of GInts ns \<Rightarrow> True | _ \<Rightarrow> False)
   | TPoint \<Rightarrow> (case v of GList [GInt x, GInt y] \<Rightarrow> True | _ \<Rightarrow> False)
   | TDict \<Rightarrow> (case v of GDict kvs \<Rightarrow> distinct (map fst kvs) | _ \<Rightarrow> False))"

lemma has_type_simps [simp]:
  "has_type (GString s) TString" "has_type (GInt n) TInt" "has_type (GInt64 n) TInt"
  "has_type (GBool b) TBool" "has_type (GBytes bs) TBytes" "has_type (GStrings ss) TStrings"
  "has_type (GInts ns) TInts" "has_type (GList [GInt x, GInt y]) TPoint"
  "has_type (GDict kvs) TDict \<longleftrightarrow> distinct (map fst kvs)"
  by (simp_all add: has_type_def)

text \<open>The kinds of packets of both protocols, and those that depend on the protocol.\<close>

definition common_schema :: "(string \<times> wire_type list) list" where
  "common_schema =
     [(''hello'', [TDict]),
      (''ping'', [TInt]),
      (''window-map'', [TInt, TInt, TInt, TInt, TInt, TDict, TDict]),
      (''window-map'', [TInt, TInt, TInt, TInt, TInt, TDict, TDict, TDict]),
      (''window-configure'', [TInt, TDict]),
      (''window-unmap'', [TInt, TBool, TDict]),
      (''window-close'', [TInt]),
      (''window-focus'', [TInt, TStrings]),
      (''window-draw-ack'', [TInt, TInt, TInt, TInt, TInt, TString]),
      (''pointer-motion'', [TInt, TInt, TInt, TPoint, TDict]),
      (''pointer-button'', [TInt, TInt, TInt, TInt, TBool, TPoint, TDict]),
      (''keyboard-event'', [TInt, TString, TBool, TDict]),
      (''clipboard-enable-selections'', [TStrings]),
      (''clipboard-request'', [TInt, TString, TString]),
      (''clipboard-contents-none'', [TInt, TString]),
      (''clipboard-contents'', [TInt, TString, TString, TInt, TString, TStrings, TInt]),
      (''clipboard-contents'', [TInt, TString, TString, TInt, TString, TBytes, TInt])]"

definition protocol_schema :: "bool \<Rightarrow> (string \<times> wire_type list) list" where
  "protocol_schema backwardsCompatible =
     (if backwardsCompatible then
        [(''ping_echo'', [TInt, TInt, TInt, TInt, TInt, TString]),
         (''disconnect'', [TString]),
         (''wheel-motion'', [TInt, TInt, TInt, TPoint, TStrings, TInts, TDict]),
         (''clipboard-token'', [TString, TStrings]),
         (''clipboard-token'', [TString, TStrings, TString, TString, TInt, TString, TBytes, TBool, TBool])]
      else
        [(''ping-echo'', [TInt, TInt, TInt, TInt, TInt, TString]),
         (''connection-close'', [TString]),
         (''pointer-wheel'', [TInt, TInt, TInt, TPoint, TStrings, TInts, TDict]),
         (''clipboard-data'', [TString, TDict])])"

definition shapes :: "bool \<Rightarrow> string \<Rightarrow> wire_type list list" where
  "shapes backwardsCompatible name =
     map snd (filter (\<lambda>s. fst s = name) (common_schema @ protocol_schema backwardsCompatible))"

definition well_formed :: "bool \<Rightarrow> packet \<Rightarrow> bool" where
  "well_formed backwardsCompatible p \<longleftrightarrow>
     (case p of
        GString name # args \<Rightarrow> \<exists>types\<in>set (shapes backwardsCompatible name). list_all2 has_type args types
      | _ \<Rightarrow> False) \<and>
     packet_encodable p"

lemma common_shapes:
  "shapes bc ''hello'' = [[TDict]]"
  "shapes bc ''ping'' = [[TInt]]"
  "shapes bc ''window-map'' = [[TInt, TInt, TInt, TInt, TInt, TDict, TDict],
     [TInt, TInt, TInt, TInt, TInt, TDict, TDict, TDict]]"
  "shapes bc ''window-configure'' = [[TInt, TDict]]"
  "shapes bc ''window-unmap'' = [[TInt, TBool, TDict]]"
  "shapes bc ''window-close'' = [[TInt]]"
  "shapes bc ''window-focus'' = [[TInt, TStrings]]"
  "shapes bc ''window-draw-ack'' = [[TInt, TInt, TInt, TInt, TInt, TString]]"
  "shapes bc ''pointer-motion'' = [[TInt, TInt, TInt, TPoint, TDict]]"
  "shapes bc ''pointer-button'' = [[TInt, TInt, TInt, TInt, TBool, TPoint, TDict]]"
  "shapes bc ''keyboard-event'' = [[TInt, TString, TBool, TDict]]"
  "shapes bc ''clipboard-enable-selections'' = [[TStrings]]"
  "shapes bc ''clipboard-request'' = [[TInt, TString, TString]]"
  "shapes bc ''clipboard-contents-none'' = [[TInt, TString]]"
  "shapes bc ''clipboard-contents'' = [[TInt, TString, TString, TInt, TString, TStrings, TInt],
     [TInt, TString, TString, TInt, TString, TBytes, TInt]]"
  by (cases bc; simp only:; code_simp)+

lemma protocol_shapes:
  "shapes True ''ping_echo'' = [[TInt, TInt, TInt, TInt, TInt, TString]]"
  "shapes True ''disconnect'' = [[TString]]"
  "shapes True ''wheel-motion'' = [[TInt, TInt, TInt, TPoint, TStrings, TInts, TDict]]"
  "shapes True ''clipboard-token'' = [[TString, TStrings],
     [TString, TStrings, TString, TString, TInt, TString, TBytes, TBool, TBool]]"
  "shapes False ''ping-echo'' = [[TInt, TInt, TInt, TInt, TInt, TString]]"
  "shapes False ''connection-close'' = [[TString]]"
  "shapes False ''pointer-wheel'' = [[TInt, TInt, TInt, TPoint, TStrings, TInts, TDict]]"
  "shapes False ''clipboard-data'' = [[TString, TDict]]"
  by code_simp+

definition sends_well :: "'d env \<Rightarrow> 'd client \<Rightarrow> bool" where
  "sends_well env c \<longleftrightarrow> (\<forall>p\<in>set (sent c). well_formed (BackwardsCompatible env) p)"

lemma sends_well_same: "sent c' = sent c \<Longrightarrow> sends_well env c' = sends_well env c"
  by (simp add: sends_well_def)

lemma sends_well_append:
  "sent c' = sent c @ [p] \<Longrightarrow> sends_well env c \<Longrightarrow> well_formed (BackwardsCompatible env) p \<Longrightarrow>
   sends_well env c'"
  by (simp add: sends_well_def)

lemma sends_well_send [simp]:
  "sends_well env (send p c) \<longleftrightarrow> sends_well env c \<and> well_formed (BackwardsCompatible env) p"
  by (auto simp: sends_well_def)

lemma sends_well_update [simp]:
  "sends_well env (c\<lparr>focus_timers := n\<rparr>) = sends_well env c"
  "sends_well env (c\<lparr>iconify_timers := ts\<rparr>) = sends_well env c"
  "sends_well env (c\<lparr>world := d\<rparr>) = sends_well env c"
  "sends_well env (c\<lparr>cl_conn := k\<rparr>) = sends_well env c"
  "sends_well env (c\<lparr>disconnect_reason := r\<rparr>) = sends_well env c"
  "sends_well env (c\<lparr>mmap := m\<rparr>) = sends_well env c"
  by (simp_all add: sends_well_def)

lemmas shape_defs = well_formed_def common_shapes protocol_shapes packet_encodable_def

section \<open>Each packet\<close>

lemma descriptor_ok:
  "pointMonitorDescriptor ms x y = Some d \<Longrightarrow> distinct (map fst d) \<and> first_error (GDict d) = None"
  "windowMonitorDescriptor ms x y = Some d \<Longrightarrow> distinct (map fst d) \<and> first_error (GDict d) = None"
  by (auto simp: monitorDescriptor_def dest!: windowMonitorDescriptor_Some iffD1 [OF pointMonitorDescriptor_Some])

lemma pointer_properties_ok:
  "has_type (pointerProperties ms x y) TDict" "first_error (pointerProperties ms x y) = None"
  using descriptor_ok(1) [of ms x y] by (auto simp: pointerProperties_def split: option.split)

lemma map_packet_ok: "well_formed bc (map_packet ms wid g)"
  using descriptor_ok(2) by (auto simp: map_packet_def shape_defs split: prod.split option.split)

lemma plain_packets_ok:
  "well_formed bc [GString ''ping'', GInt64 n]"
  "well_formed bc [GString ''window-unmap'', GInt64 n, GBool b, GDict [(k, GBool b')]]"
  "well_formed bc [GString ''window-close'', GInt64 n]"
  "well_formed bc (focus_packet n)"
  "well_formed bc (ack_packet bc wid w h seq n message)"
  "well_formed bc [GString ''clipboard-enable-selections'', GStrings ss]"
  "well_formed bc [GString ''clipboard-request'', GInt64 n, GString s, GString t]"
  "well_formed bc [GString ''clipboard-contents-none'', GInt64 n, GString s]"
  "well_formed bc [GString ''clipboard-contents'', GInt64 n, GString s, GString t, GInt m, GString e, GStrings ss, GInt k']"
  "well_formed bc [GString ''clipboard-contents'', GInt64 n, GString s, GString t, GInt m, GString e, GBytes bs, GInt k']"
  by (simp_all add: shape_defs focus_packet_def ack_packet_def)

section \<open>Dictionaries built key by key\<close>

definition caps_ok :: "dict \<Rightarrow> bool" where
  "caps_ok d \<longleftrightarrow> distinct (map fst d) \<and> (\<forall>p\<in>set d. first_error (snd p) = None)"

lemma caps_ok_Nil [simp]: "caps_ok []"
  by (simp add: caps_ok_def)

lemma caps_ok_Cons [simp]:
  "caps_ok ((k, v) # d) \<longleftrightarrow> k \<notin> fst ` set d \<and> first_error v = None \<and> caps_ok d"
  by (auto simp: caps_ok_def)

lemma caps_ok_Set [intro]: "caps_ok d \<Longrightarrow> first_error v = None \<Longrightarrow> caps_ok (Dict_Set d k v)"
  by (auto simp: caps_ok_def distinct_Dict_Set dest!: set_Dict_Set)

lemma caps_ok_set_all [intro]:
  "caps_ok d \<Longrightarrow> \<forall>p\<in>set kvs. first_error (snd p) = None \<Longrightarrow> caps_ok (set_all d kvs)"
  unfolding set_all_def by (induction kvs arbitrary: d) (auto simp: caps_ok_Set)

lemma caps_ok_value: "caps_ok d \<Longrightarrow> has_type (GDict d) TDict \<and> first_error (GDict d) = None"
  by (auto simp: caps_ok_def first_some_None)

lemma monitor_info_ok: "caps_ok (monitor_info m)"
proof -
  have all: "caps_ok (foldl set_present d xs)"
    if "caps_ok d" "\<forall>e\<in>set xs. first_error (snd (snd e)) = None" for d xs
    using that by (induction xs arbitrary: d) (auto simp: set_present_def caps_ok_Set)
  show ?thesis
    unfolding monitor_info_def by (rule all) (simp_all add: monitor_details_def rect_list_def)
qed

lemma monitorCaps_ok: "first_error (GIntMap (monitorCaps ms)) = None"
proof -
  have "\<forall>p\<in>set (monitor_caps_from caps ms). first_error (snd p) = None"
    if "\<forall>p\<in>set caps. first_error (snd p) = None" for caps
    using that
  proof (induction caps ms rule: monitor_caps_from.induct)
    case (2 caps m ms)
    then show ?case using caps_ok_value [OF monitor_info_ok [of m]] by auto
  qed simp
  from this [of "[]"] show ?thesis by (simp add: monitorCaps_def first_some_None)
qed

lemma fixed_caps_ok: "caps_ok (fixed_caps bc states)"
  by (simp add: fixed_caps_def image_encodings_def)

lemma caps_ok_if: "caps_ok d \<Longrightarrow> caps_ok d' \<Longrightarrow> caps_ok (if b then d else d')"
  by simp

lemma caps_ok_option: "caps_ok d \<Longrightarrow> (\<And>x. caps_ok (f x)) \<Longrightarrow> caps_ok (case r of None \<Rightarrow> d | Some x \<Rightarrow> f x)"
  by (cases r) simp_all

lemmas caps_ok_intros = caps_ok_if caps_ok_option caps_ok_Set caps_ok_set_all fixed_caps_ok

lemma buildHello_ok: "caps_ok (fst (buildHello env name clip states d))"
  unfolding buildHello_def Let_def case_prod_beta fst_conv
  by (intro caps_ok_intros) (simp_all add: clipboard_caps_def legacy_caps_def)

lemma display_caps_ok: "first_error (GDict (display_caps env d)) = None"
proof -
  have "caps_ok (display_caps env d)"
    unfolding display_caps_def Let_def
    by (intro caps_ok_intros caps_ok_option [of _ "\<lambda>x. case x of (w, h, b) \<Rightarrow> _ w h b"] monitorCaps_ok)
      (simp_all split: prod.split)
  then show ?thesis using caps_ok_value by blast
qed

lemma helloCaps_ok: "first_error (helloCaps bc area) = None"
  by (simp add: helloCaps_def Let_def)

lemma sendHello_packet:
  "\<exists>caps. sent (snd (sendHello env response salt c)) = sent c @ [[GString ''hello'', GDict caps]] \<and>
     caps_ok caps"
proof -
  let ?b = "buildHello env (cl_username c) (has_clipboard c)
    (case WindowStates env (world c) of Some ss \<Rightarrow> ss | None \<Rightarrow> []) (world c)"
  let ?caps = "let caps = Dict_Set (fst ?b) ''display'' (GDict (display_caps env (snd ?b)));
      caps = (case mmap c of
                None \<Rightarrow> caps
              | Some area \<Rightarrow> Dict_Set caps ''mmap'' (helloCaps (BackwardsCompatible env) area))
    in if response \<noteq> []
       then set_all caps [(''challenge_response'', GString response), (''challenge_client_salt'', GBytes salt)]
       else caps"
  have "sent (snd (sendHello env response salt c)) = sent c @ [[GString ''hello'', GDict ?caps]]"
    by (simp add: sendHello_def Let_def case_prod_beta)
  moreover have "caps_ok ?caps"
    unfolding Let_def
    by (intro caps_ok_intros buildHello_ok display_caps_ok helloCaps_ok) simp
  ultimately show ?thesis by blast
qed

lemma hello_well_formed: "caps_ok caps \<Longrightarrow> well_formed bc [GString ''hello'', GDict caps]"
  using caps_ok_value [of caps] by (auto simp: shape_defs)

lemma sends_well_sendHello:
  "sends_well env c \<Longrightarrow> sends_well env (snd (sendHello env response salt c))"
  using sendHello_packet [of env response salt c] hello_well_formed
  by (auto simp: sends_well_def)

text \<open>So a hello can always be encoded, and only a full queue can refuse it.\<close>

lemma sendHello_accepted:
  assumes "length (writes (cl_conn c)) < writeQueue"
  shows "fst (sendHello env response salt c) = None"
proof -
  obtain caps where sent: "sent (snd (sendHello env response salt c)) = sent c @ [[GString ''hello'', GDict caps]]"
    and ok: "caps_ok caps" using sendHello_packet by blast
  let ?p = "[GString ''hello'', GDict caps]"
  obtain q k where send: "sendHello env response salt c = conn_send q k"
    and k: "cl_conn k = cl_conn c" "sent k = sent c"
    by (simp add: sendHello_def Let_def case_prod_beta)
  have "q = ?p" using sent k unfolding send by simp
  moreover have "encodable (GList ?p)" using caps_ok_value [OF ok] by simp
  then have "Encode (GList ?p) = Inr (wire (GList ?p))" by (rule Encode_wire)
  ultimately show ?thesis
    using assms k by (simp add: send conn_send_def conn_Send_def case_prod_beta del: wire.simps)
qed

section \<open>Each handler\<close>

lemma sends_well_events:
  assumes "sends_well env c"
  shows "sends_well env (handleConfigure env w x y width height c)"
    "sends_well env (handleMinimized env w b c)" "sends_well env (handleCloseRequest w c)"
    "sends_well env (handleMotion w x y c)" "sends_well env (handleButton env w button b x y c)"
    "sends_well env (handleKey w b name keysym text keycode mods c)"
    "sends_well env (handleFocus w c)" "sends_well env (handleFocusLost w c)"
    "sends_well env (sendFocusLost c)" "sends_well env (sendIconified wid c)"
proof -
  have same: "sends_well env (c\<lparr>world := d\<rparr>)" "sends_well env (c\<lparr>iconified := i\<rparr>)"
    "sends_well env (c\<lparr>iconified := i, iconify_timers := ts\<rparr>)" "sends_well env (c\<lparr>focused := n\<rparr>)"
    "sends_well env (c\<lparr>focusLosing := l\<rparr>)" for d i ts n l
    using assms by (simp_all add: sends_well_def)
  show "sends_well env (handleConfigure env w x y width height c)"
    using assms same descriptor_ok(2)
    by (auto simp: handleConfigure_def Let_def shape_defs split: option.split prod.split)
  show "sends_well env (handleMinimized env w b c)"
    using assms same map_packet_ok
    by (simp add: handleMinimized_def Let_def split: option.split prod.split)
  show "sends_well env (handleCloseRequest w c)" "sends_well env (handleFocus w c)"
    "sends_well env (sendFocusLost c)" "sends_well env (sendIconified wid c)"
    using assms same plain_packets_ok
    by (simp_all add: handleCloseRequest_def handleFocus_def sendFocusLost_def sendIconified_def Let_def
        split: option.split prod.split)
  show "sends_well env (handleFocusLost w c)"
    using assms by (simp add: sends_well_def)
  show "sends_well env (handleMotion w x y c)" "sends_well env (handleButton env w button b x y c)"
    "sends_well env (handleKey w b name keysym text keycode mods c)"
    using assms pointer_properties_ok
    by (simp_all add: handleMotion_def handleButton_def handleKey_def Let_def shape_defs point_def
        split: option.split prod.split)
qed

lemma sends_well_token: "sends_well env c \<Longrightarrow> sends_well env (sendClipboardToken env c)"
  by (simp add: sendClipboardToken_def Let_def shape_defs text_item_def sorted_entries_def)

lemma sends_well_announce: "sends_well env c \<Longrightarrow> sends_well env (announce env c)"
  by (simp add: announce_def sends_well_token)

lemma sends_well_clipboard:
  assumes "sends_well env c"
  shows "sends_well env (handleClipboardToken env p c)" "sends_well env (handleClipboardData env p c)"
    "sends_well env (handleClipboardContents env p c)" "sends_well env (handleClipboardContentsNone p c)"
    "sends_well env (handleClipboardRequest p c)" "sends_well env (handleClipboardEnableSelections env p c)"
    "sends_well env (handleClipboardStatus env p c)" "sends_well env (handleClipboardChange env text c)"
    "sends_well env (configureClipboard env caps c)"
proof -
  have same: "sends_well env c'" if "sent c' = sent c" for c' using that assms sends_well_same by blast
  have request: "sends_well env (requestRemoteClipboard ts c')" if "sends_well env c'" for ts c'
    using that plain_packets_ok by (simp add: requestRemoteClipboard_def Let_def) (simp add: sends_well_def)
  have takes: "sends_well env (applyRemoteClipboard env s c')" if "sends_well env c'" for s c'
    using that by (simp add: sends_well_def)
  have begins: "sends_well env (beginRemoteClipboard c)" using assms by (simp add: sends_well_def)
  show "sends_well env (handleClipboardToken env p c)" "sends_well env (handleClipboardData env p c)"
    using assms begins request takes
    by (simp_all add: handleClipboardToken_def handleClipboardData_def Let_def split: option.split)
  show "sends_well env (handleClipboardContents env p c)" "sends_well env (handleClipboardContentsNone p c)"
    by (rule same; simp)+
  show "sends_well env (handleClipboardRequest p c)"
    using assms plain_packets_ok by (simp add: handleClipboardRequest_def Let_def)
  show "sends_well env (handleClipboardEnableSelections env p c)" "sends_well env (handleClipboardStatus env p c)"
    using assms same
    by (simp_all add: handleClipboardEnableSelections_def handleClipboardStatus_def Let_def sends_well_announce)
  show "sends_well env (handleClipboardChange env text c)"
    using assms same by (simp add: handleClipboardChange_def Let_def sends_well_token)
  show "sends_well env (configureClipboard env caps c)"
    using assms same plain_packets_ok
    by (simp add: configureClipboard_def Let_def sends_well_announce)
qed

lemma sends_well_session:
  assumes "sends_well env c"
  shows "sends_well env (handleHello env p c)" "sends_well env (handlePing env p c)"
    "sends_well env (stop e c)" "sends_well env (handleChallenge env p c)"
    "sends_well env (sendDisconnect env reason c)"
proof -
  have same: "sends_well env c'" if "sent c' = sent c" for c' using that assms sends_well_same by blast
  show "sends_well env (stop e c)" by (rule same) simp
  show "sends_well env (sendDisconnect env reason c)" "sends_well env (handlePing env p c)"
    using assms by (simp_all add: sendDisconnect_def handlePing_def shape_defs)
  show "sends_well env (handleHello env p c)"
  proof (rule handleHello_shape [of env p c])
    fix e
    assume "handleHello env p c = stop e c"
    then show ?thesis by (intro same) simp
  next
    fix m
    let ?c = "c\<lparr>mmap := m, serverVersion := dict_Str (pkt_Dict p 1) ''version''\<rparr>"
    assume eq: "handleHello env p c = configurePings (pkt_Dict p 1)
        (configureClipboard env (dict_Dict (pkt_Dict p 1) ''clipboard'') ?c)"
    have "sends_well env ?c" by (rule same) simp
    then have "sends_well env (configureClipboard env (dict_Dict (pkt_Dict p 1) ''clipboard'') ?c)"
      by (rule sends_well_clipboard(9))
    moreover have "sent (configurePings caps c') = sent c'" for caps c' by simp
    ultimately show ?thesis unfolding eq using sends_well_same by blast
  qed
  show "sends_well env (handleChallenge env p c)"
  proof (rule handleChallenge_shape [of c env p])
    fix password d1 response salt d
    let ?c = "c\<lparr>challengeSeen := True, world := d\<rparr>"
    assume eq: "handleChallenge env p c =
        (case sendHello env response salt ?c of
           (Some err, c2) \<Rightarrow> stop (Some (ResponseNotSent err)) c2 | (None, c2) \<Rightarrow> c2)"
    have "sends_well env ?c" by (rule same) simp
    then have "sends_well env (snd (sendHello env response salt ?c))" by (rule sends_well_sendHello)
    then show ?thesis unfolding eq sendHello_case by (simp add: sends_well_def split: option.split)
  qed (auto intro: same)
qed

lemma sends_well_windows:
  assumes "sends_well env c"
  shows "sends_well env (handleNewWindow env p ovr c)" "sends_well env (handleDraw env p c)"
proof -
  have same: "sends_well env c'" if "sent c' = sent c" for c' using that assms sends_well_same by blast
  show "sends_well env (handleNewWindow env p ovr c)"
    using assms map_packet_ok
    by (simp add: handleNewWindow_def Let_def sends_well_def split: option.split prod.split)
  show "sends_well env (handleDraw env p c)"
  proof (rule handleDraw_shape [of env p c])
    fix t message d
    assume eq: "handleDraw env p c = send (ack_packet (BackwardsCompatible env) (pkt_Int p 1) (pkt_Int p 4)
        (pkt_Int p 5) (pkt_Int p 8) t message) (releasePixels (draw_cursor p c) (c\<lparr>world := d\<rparr>))"
    show ?thesis unfolding eq using same plain_packets_ok by simp
  qed
qed

interpretation packets: client_invariant env desktop "sends_well env"
proof unfold_locales
  fix c p
  assume ok: "sends_well env c"
  have same: "sends_well env c'" if "sent c' = sent c" for c' using that ok sends_well_same by blast
  show "sends_well env (handlePacket env p c)"
    by (rule handlePacket_rule [where P = "sends_well env"])
      (simp_all add: ok same sends_well_session sends_well_clipboard sends_well_windows)
next
  fix c ev
  assume ok: "sends_well env c"
  show "sends_well env (handleUIEvent env ev c)"
    by (rule handleUIEvent_rule [where P = "sends_well env"])
      (simp_all add: ok sends_well_session sends_well_events sends_well_clipboard)
qed (simp_all add: sends_well_events(9,10) sends_well_sendHello plain_packets_ok)

end
