(* ===== verification/X11_Server.thy ===== *)
theory X11_Server
  imports Ui_Pixels
begin

text \<open>
  The X11 backend, \<open>x11/display.go\<close>, and the X server it talks to.

  The X server and the libraries xgb and xgbutil are not code of this repository.  The model
  keeps the log of every request sent, in order; what the server answers is a function of that
  log, in the record \<open>xserver\<close>.  The identifiers the connection has still to hand out are the
  list \<open>x_ids\<close>; allocating one fails when there are none.
\<close>

type_synonym xid = "32 word"
type_synonym atom = "32 word"

section \<open>Requests\<close>

datatype xreq =
    CreateWindow xid gint gint gint gint bool      \<comment> \<open>id, x, y, width, height, override-redirect\<close>
  | DestroyWindow xid
  | MapWindow xid
  | UnmapWindow xid
  | StackAbove xid
  | MoveResizeWindow xid gint gint gint gint
  | SetWmName xid string                           \<comment> \<open>both \<open>ewmh.WmNameSet\<close> and \<open>icccm.WmNameSet\<close>\<close>
  | SetWmIcon xid "(gint \<times> gint \<times> 64 word list) option"
  | SetWmProtocols xid "string list"
  | SetWmHints xid bool                            \<comment> \<open>initial state iconic\<close>
  | SetNetWmState xid "string list"
  | RequestNetWmState xid bool string string       \<comment> \<open>add or remove, first and second atom\<close>
  | RequestIconic xid
  | RequestActive xid
  | CreatePixmap xid byte "16 word" "16 word"
  | FreePixmap xid
  | FillBlack xid "16 word" "16 word"
  | SetBackPixmap xid xid
  | SetCursorOf xid xid
  | PutImage xid byte "16 word" "16 word" "16 word" "16 word" bytes   \<comment> \<open>drawable, depth, width, rows, x, y\<close>
  | ClearArea xid "16 word" "16 word" "16 word" "16 word"
  | CreateGC xid xid
  | FreeGC xid
  | CreatePicture xid xid xid                      \<comment> \<open>id, drawable, format\<close>
  | FreePicture xid
  | CreateCursor xid xid "16 word" "16 word"       \<comment> \<open>id, picture, hotspot\<close>
  | FreeCursor xid
  | RingBell "8 word"
  | SetSelectionOwner xid atom
  | ConvertSelection xid atom atom atom "32 word"  \<comment> \<open>requestor, selection, target, property, time\<close>
  | GetProperty xid atom gint                      \<comment> \<open>with delete; length in units of four bytes\<close>
  | GetSelectionOwner atom
  | ChangeProperty xid atom atom byte "32 word" bytes  \<comment> \<open>window, property, type, format, count, data\<close>
  | WatchProperties xid
  | CreateHelperWindow xid
  | SelectSelectionInput xid atom
  | SendSelectionNotify "32 word" xid atom atom atom   \<comment> \<open>time, requestor, selection, target, property\<close>
  | CloseConnection

datatype xlog = Accepted xreq | Rejected xreq

section \<open>The server\<close>

record randr_monitor =
  mi_X :: "16 word"
  mi_Y :: "16 word"
  mi_Width :: "16 word"
  mi_Height :: "16 word"
  mi_WidthMM :: "32 word"
  mi_HeightMM :: "32 word"
  mi_Primary :: bool
  mi_Name :: "string option"    \<comment> \<open>the name of its atom, if the server knows it\<close>

record property =
  prop_Type :: atom
  prop_Format :: byte
  prop_Value :: bytes

record pict_format =
  pf_Id :: xid
  pf_Direct :: bool             \<comment> \<open>\<open>Type == PictTypeDirect\<close>\<close>
  pf_Depth :: byte
  pf_Red :: "16 word \<times> 16 word"    \<comment> \<open>shift and mask\<close>
  pf_Green :: "16 word \<times> 16 word"
  pf_Blue :: "16 word \<times> 16 word"
  pf_Alpha :: "16 word \<times> 16 word"

record xserver =
  xs_refuses :: "xlog list \<Rightarrow> xreq \<Rightarrow> string option"    \<comment> \<open>the error of a checked request\<close>
  xs_depth :: byte
  xs_width :: "16 word"
  xs_height :: "16 word"
  xs_max_request :: "16 word"                          \<comment> \<open>in units of four bytes\<close>
  xs_msb_first :: bool
  xs_formats :: "pict_format list option"              \<comment> \<open>of the X Render extension\<close>
  xs_xfixes :: bool                                    \<comment> \<open>XFixes is there, version 1 or later\<close>
  xs_wm_state :: "xlog list \<Rightarrow> xid \<Rightarrow> 64 word option"
  xs_property :: "xlog list \<Rightarrow> xid \<Rightarrow> atom \<Rightarrow> property option"
  xs_owner :: "xlog list \<Rightarrow> atom \<Rightarrow> xid option"
  xs_keysym :: "byte \<Rightarrow> byte \<Rightarrow> 32 word"               \<comment> \<open>\<open>keybind.KeysymGet\<close>: keycode and column\<close>
  xs_keysym_table :: "32 word \<Rightarrow> string"               \<comment> \<open>the keysym names of xgbutil\<close>
  xs_monitors :: "xlog list \<Rightarrow> randr_monitor list option"
  xs_intern :: "string \<Rightarrow> atom option"

section \<open>The display\<close>

record x11_window =
  xw_pixmap :: xid
  xw_x :: gint
  xw_y :: gint
  xw_width :: gint
  xw_height :: gint
  xw_override :: bool
  xw_mapped :: bool
  xw_minimized :: bool
  xw_initial :: "(string \<times> bool) list"

record transfer =
  tr_target :: atom
  tr_data :: bytes
  tr_offset :: gint

record xclip =
  xc_window :: xid
  xc_text :: bytes
  xc_requested :: atom
  xc_receiving :: bool
  xc_receiveData :: bytes
  xc_transfers :: "((xid \<times> atom) \<times> transfer) list"

text \<open>
  \<open>Display\<close>.  \<open>x_panicked\<close> records a run-time panic, which ends the process: what the model
  does after it no longer describes the program.  \<open>x_others\<close> is the state of whatever is not
  the display: the random numbers, the user at a password prompt.
\<close>

record 'o x11 =
  x_log :: "xlog list"
  x_ids :: "xid list"
  x_windows :: "(xid \<times> x11_window) list"
  x_cursor :: xid
  x_iconic :: "(xid \<times> bool) list"
  x_clipboard :: "xclip option"
  x_gc :: xid
  x_format :: xid
  x_panicked :: bool
  x_done :: bool                  \<comment> \<open>the channel \<open>done\<close> is closed\<close>
  x_others :: 'o

text \<open>Atoms are interned when the display is opened, which fails if one cannot be.\<close>

definition atom_of :: "xserver \<Rightarrow> string \<Rightarrow> atom" where
  "atom_of srv name = (case xs_intern srv name of Some a \<Rightarrow> a | None \<Rightarrow> 0)"

definition maxImageBytes :: "xserver \<Rightarrow> gint" where
  "maxImageBytes srv = ucast (xs_max_request srv) * 4 - 64"

section \<open>Sending requests\<close>

text \<open>An unchecked request, and a checked one with the error of the server.\<close>

definition x_send :: "xreq \<Rightarrow> 'o x11 \<Rightarrow> 'o x11" where
  "x_send r d = d\<lparr>x_log := x_log d @ [Accepted r]\<rparr>"

definition x_check :: "xserver \<Rightarrow> xreq \<Rightarrow> 'o x11 \<Rightarrow> string option \<times> 'o x11" where
  "x_check srv r d =
     (case xs_refuses srv (x_log d) r of
        None \<Rightarrow> (None, d\<lparr>x_log := x_log d @ [Accepted r]\<rparr>)
      | Some e \<Rightarrow> (Some e, d\<lparr>x_log := x_log d @ [Rejected r]\<rparr>))"

definition x_new_id :: "'o x11 \<Rightarrow> xid option \<times> 'o x11" where
  "x_new_id d = (case x_ids d of [] \<Rightarrow> (None, d) | i # ids \<Rightarrow> (Some i, d\<lparr>x_ids := ids\<rparr>))"

text \<open>
  A window of the client is found by its identifier; an operation on a window that was
  destroyed does nothing here, and the client has none (it drops a window as it destroys it).
\<close>

definition x_window :: "window_id \<Rightarrow> 'o x11 \<Rightarrow> x11_window option" where
  "x_window i d = (if ID (xid_of i) = i then map_of (x_windows d) (xid_of i) else None)"

definition set_window :: "xid \<Rightarrow> x11_window \<Rightarrow> 'o x11 \<Rightarrow> 'o x11" where
  "set_window x w d = d\<lparr>x_windows := AList.update x w (x_windows d)\<rparr>"

definition on_window :: "window_id \<Rightarrow> (xid \<Rightarrow> x11_window \<Rightarrow> 'o x11 \<Rightarrow> 'o x11) \<Rightarrow> 'o x11 \<Rightarrow> 'o x11" where
  "on_window i f d = (case x_window i d of None \<Rightarrow> d | Some w \<Rightarrow> f (xid_of i) w d)"

definition try_window ::
    "window_id \<Rightarrow> (xid \<Rightarrow> x11_window \<Rightarrow> 'o x11 \<Rightarrow> string option \<times> 'o x11) \<Rightarrow> 'o x11 \<Rightarrow>
     string option \<times> 'o x11" where
  "try_window i f d = (case x_window i d of None \<Rightarrow> (None, d) | Some w \<Rightarrow> f (xid_of i) w d)"

lemma x_window_ID [simp]: "x_window (ID x) d = map_of (x_windows d) x"
  by (simp add: x_window_def)

lemma x_window_Some: "x_window i d = Some w \<longleftrightarrow> (i = ID (xid_of i) \<and> map_of (x_windows d) (xid_of i) = Some w)"
  by (auto simp: x_window_def)

lemma x_send_simps [simp]:
  "x_log (x_send r d) = x_log d @ [Accepted r]" "x_ids (x_send r d) = x_ids d"
  "x_windows (x_send r d) = x_windows d" "x_cursor (x_send r d) = x_cursor d"
  "x_iconic (x_send r d) = x_iconic d" "x_clipboard (x_send r d) = x_clipboard d"
  "x_gc (x_send r d) = x_gc d" "x_format (x_send r d) = x_format d"
  "x_panicked (x_send r d) = x_panicked d" "x_done (x_send r d) = x_done d"
  "x_others (x_send r d) = x_others d"
  by (simp_all add: x_send_def)

end
