(* ===== verification/X11_Window.thy ===== *)
theory X11_Window
  imports X11_Server "HOL-Library.Char_ord" "HOL-Library.List_Lexorder"
begin

text \<open>
  Windows on the X server, \<open>x11/window.go\<close> and \<open>x11/state.go\<close>.  The pixels of a window are
  an X pixmap installed as its background; \<open>Paint\<close> converts a damage rectangle and uploads
  it in requests the server accepts.  The buffer \<open>scratch\<close> only saves allocations and is not
  part of the state.
\<close>

section \<open>Pixmaps\<close>

text \<open>\<open>freePixmap\<close> and \<open>newPixmap\<close> act on a window that need not be in the table yet.\<close>

definition freePixmap :: "x11_window \<Rightarrow> 'o x11 \<Rightarrow> x11_window \<times> 'o x11" where
  "freePixmap w d =
     (if xw_pixmap w \<noteq> 0 then (w\<lparr>xw_pixmap := 0\<rparr>, x_send (FreePixmap (xw_pixmap w)) d) else (w, d))"

definition newPixmap ::
    "xserver \<Rightarrow> xid \<Rightarrow> x11_window \<Rightarrow> 'o x11 \<Rightarrow> string option \<times> x11_window \<times> 'o x11" where
  "newPixmap srv x w0 d0 =
     (let (w, d) = freePixmap w0 d0; width = ucast (xw_width w); height = ucast (xw_height w) in
      case x_new_id d of
        (None, d1) \<Rightarrow> (Some ''allocating a pixmap id'', w, d1)
      | (Some pixmap, d1) \<Rightarrow>
          (case x_check srv (CreatePixmap pixmap (xs_depth srv) width height) d1 of
             (Some e, d2) \<Rightarrow>
               (Some (''creating a '' @ decimal (sint (xw_width w)) @ ''x'' @ decimal (sint (xw_height w))
                 @ '' pixmap: '' @ e), w, d2)
           | (None, d2) \<Rightarrow>
               (None, w\<lparr>xw_pixmap := pixmap\<rparr>,
                x_send (SetBackPixmap x pixmap) (x_send (FillBlack pixmap width height) d2))))"

section \<open>Creation and destruction\<close>

definition x11_NewWindow ::
    "xserver \<Rightarrow> gint \<Rightarrow> gint \<Rightarrow> gint \<Rightarrow> gint \<Rightarrow> bool \<Rightarrow> 'o x11 \<Rightarrow> window_id option \<times> 'o x11" where
  "x11_NewWindow srv x y width0 height0 overrideRedirect d0 =
     (let (width, height) = ClampSize width0 height0 in
      case x_new_id d0 of
        (None, d1) \<Rightarrow> (None, d1)
      | (Some xid, d1) \<Rightarrow>
          (case x_check srv (CreateWindow xid x y width height overrideRedirect) d1 of
             (Some e, d2) \<Rightarrow> (None, d2)
           | (None, d2) \<Rightarrow>
               let w = \<lparr>xw_pixmap = 0, xw_x = x, xw_y = y, xw_width = width, xw_height = height,
                        xw_override = overrideRedirect, xw_mapped = False, xw_minimized = False,
                        xw_initial = []\<rparr> in
               (case newPixmap srv xid w d2 of
                  (Some e, w, d3) \<Rightarrow> (None, x_send (DestroyWindow xid) d3)
                | (None, w, d3) \<Rightarrow>
                    (case (if overrideRedirect then (None, d3)
                           else x_check srv (SetWmProtocols xid [''WM_DELETE_WINDOW'']) d3) of
                       (Some e, d4) \<Rightarrow> (None, d4)
                     | (None, d4) \<Rightarrow>
                         (case (if x_cursor d4 = 0 then (None, d4)
                                else x_check srv (SetCursorOf xid (x_cursor d4)) d4) of
                            (Some e, d5) \<Rightarrow> (None, x_send (DestroyWindow xid) (snd (freePixmap w d5)))
                          | (None, d5) \<Rightarrow> (Some (ID xid), set_window xid w d5))))))"

definition x11_Geometry :: "window_id \<Rightarrow> 'o x11 \<Rightarrow> gint \<times> gint \<times> gint \<times> gint" where
  "x11_Geometry i d =
     (case x_window i d of
        Some w \<Rightarrow> (xw_x w, xw_y w, xw_width w, xw_height w)
      | None \<Rightarrow> (0, 0, 0, 0))"

definition x11_Destroy :: "window_id \<Rightarrow> 'o x11 \<Rightarrow> 'o x11" where
  "x11_Destroy i =
     on_window i (\<lambda>x w d.
       x_send (DestroyWindow x) (snd (freePixmap w (d\<lparr>x_windows := AList.delete x (x_windows d)\<rparr>))))"

definition x11_SetTitle :: "window_id \<Rightarrow> string \<Rightarrow> 'o x11 \<Rightarrow> 'o x11" where
  "x11_SetTitle i title = on_window i (\<lambda>x w. if title = [] then (\<lambda>d. d) else x_send (SetWmName x title))"

section \<open>Icons\<close>

text \<open>\<open>netWMIcon\<close>: straight ARGB from the premultiplied BGRA bytes of a validated icon.\<close>

definition unpremultiply :: "byte \<Rightarrow> byte \<Rightarrow> byte" where
  "unpremultiply a c = (let v = (ucast c * 0xff :: 32 word) div ucast a in if v \<le> 0xff then ucast v else 0xff)"

fun icon_data :: "bytes \<Rightarrow> 64 word list" where
  "icon_data (b # g # r # a # px) =
     (let f = (if a \<noteq> 0 \<and> a \<noteq> 0xff then unpremultiply a else (\<lambda>c. c)) in
      (push_bit 24 (ucast a) OR push_bit 16 (ucast (f r)) OR push_bit 8 (ucast (f g)) OR ucast (f b))
      # icon_data px)"
| "icon_data px = []"

definition netWMIcon :: "icon \<Rightarrow> string + (gint \<times> gint \<times> 64 word list)" where
  "netWMIcon i =
     (case icon_Validate i of
        Some e \<Rightarrow> Inl (icon_error_text i e)
      | None \<Rightarrow> Inr (icon_Width i, icon_Height i, icon_data (icon_Pixels i)))"

definition x11_SetIcon :: "xserver \<Rightarrow> window_id \<Rightarrow> icon option \<Rightarrow> 'o x11 \<Rightarrow> string option \<times> 'o x11" where
  "x11_SetIcon srv i icon =
     try_window i (\<lambda>x w d.
       case icon of
         None \<Rightarrow> x_check srv (SetWmIcon x None) d
       | Some img \<Rightarrow>
           (case netWMIcon img of
              Inl e \<Rightarrow> (Some e, d)
            | Inr native \<Rightarrow> x_check srv (SetWmIcon x (Some native)) d))"

section \<open>States\<close>

definition netWMStates :: "(string \<times> string list) list" where
  "netWMStates =
     [(''maximized'', [''_NET_WM_STATE_MAXIMIZED_VERT'', ''_NET_WM_STATE_MAXIMIZED_HORZ'']),
      (''fullscreen'', [''_NET_WM_STATE_FULLSCREEN'']),
      (''above'', [''_NET_WM_STATE_ABOVE'']),
      (''below'', [''_NET_WM_STATE_BELOW'']),
      (''sticky'', [''_NET_WM_STATE_STICKY'']),
      (''shaded'', [''_NET_WM_STATE_SHADED'']),
      (''skip-taskbar'', [''_NET_WM_STATE_SKIP_TASKBAR'']),
      (''skip-pager'', [''_NET_WM_STATE_SKIP_PAGER''])]"

definition x11_WindowStates :: "string list" where
  "x11_WindowStates = sort (map fst netWMStates)"

definition x11_SetState :: "window_id \<Rightarrow> string \<Rightarrow> bool \<Rightarrow> 'o x11 \<Rightarrow> 'o x11" where
  "x11_SetState i state enabled =
     on_window i (\<lambda>x w d.
       case map_of netWMStates state of
         None \<Rightarrow> d
       | Some atoms \<Rightarrow>
           if xw_override w then d
           else if \<not> xw_mapped w
           then set_window x (w\<lparr>xw_initial := AList.update state enabled (xw_initial w)\<rparr>) d
           else x_send (RequestNetWmState x enabled (atoms ! 0)
                  (if length atoms > 1 then atoms ! 1 else [])) d)"

definition publishInitialNetWMState :: "xid \<Rightarrow> x11_window \<Rightarrow> 'o x11 \<Rightarrow> x11_window \<times> 'o x11" where
  "publishInitialNetWMState x w d =
     (let atoms = concat (map (\<lambda>(state, enabled).
            if enabled then (case map_of netWMStates state of Some as \<Rightarrow> as | None \<Rightarrow> []) else [])
            (xw_initial w))
      in (w\<lparr>xw_initial := []\<rparr>,
          if length atoms > 0 then x_send (SetNetWmState x (sort atoms)) d else d))"

definition publishInitialState :: "xid \<Rightarrow> x11_window \<Rightarrow> 'o x11 \<Rightarrow> x11_window \<times> 'o x11" where
  "publishInitialState x w d =
     (if xw_override w then (w, d)
      else case publishInitialNetWMState x w d of
          (w1, d1) \<Rightarrow> (w1, x_send (SetWmHints x (xw_minimized w1)) d1))"

definition x11_Map :: "window_id \<Rightarrow> 'o x11 \<Rightarrow> 'o x11" where
  "x11_Map i =
     on_window i (\<lambda>x w0 d.
       let w = w0\<lparr>xw_mapped := True\<rparr> in
       if xw_minimized w \<and> xw_override w then set_window x w d
       else case publishInitialState x w d of
           (w1, d1) \<Rightarrow> x_send (MapWindow x) (set_window x w1 d1))"

definition x11_Raise :: "window_id \<Rightarrow> 'o x11 \<Rightarrow> 'o x11" where
  "x11_Raise i =
     on_window i (\<lambda>x w d.
       let d1 = x_send (StackAbove x) d in
       if xw_override w then d1 else x_send (RequestActive x) d1)"

definition x11_Minimize :: "window_id \<Rightarrow> bool \<Rightarrow> 'o x11 \<Rightarrow> 'o x11" where
  "x11_Minimize i minimized =
     on_window i (\<lambda>x w0 d0.
       let w = w0\<lparr>xw_minimized := minimized\<rparr>; d = set_window x w d0 in
       if \<not> xw_mapped w then d
       else if xw_override w then x_send (if minimized then UnmapWindow x else MapWindow x) d
       else x_send (if minimized then RequestIconic x else RequestActive x) d)"

section \<open>Geometry\<close>

text \<open>Storing a window whose backing pixmap was replaced.\<close>

definition with_newPixmap ::
    "xserver \<Rightarrow> xid \<Rightarrow> x11_window \<Rightarrow> 'o x11 \<Rightarrow> string option \<times> 'o x11" where
  "with_newPixmap srv x w d =
     (case newPixmap srv x w d of (e, w1, d1) \<Rightarrow> (e, set_window x w1 d1))"

definition x11_MoveResize ::
    "xserver \<Rightarrow> window_id \<Rightarrow> gint \<Rightarrow> gint \<Rightarrow> gint \<Rightarrow> gint \<Rightarrow> 'o x11 \<Rightarrow> string option \<times> 'o x11" where
  "x11_MoveResize srv i x y width0 height0 =
     try_window i (\<lambda>xid w0 d.
       let (width, height) = ClampSize width0 height0;
           resized = (width \<noteq> xw_width w0 \<or> height \<noteq> xw_height w0);
           w = w0\<lparr>xw_x := x, xw_y := y\<rparr>;
           w = (if resized then w\<lparr>xw_width := width, xw_height := height\<rparr> else w);
           d1 = x_send (MoveResizeWindow xid x y (xw_width w) (xw_height w)) (set_window xid w d)
       in if resized then with_newPixmap srv xid w d1 else (None, d1))"

definition x11_Resized ::
    "xserver \<Rightarrow> window_id \<Rightarrow> gint \<Rightarrow> gint \<Rightarrow> gint \<Rightarrow> gint \<Rightarrow> 'o x11 \<Rightarrow> string option \<times> 'o x11" where
  "x11_Resized srv i x y width0 height0 =
     try_window i (\<lambda>xid w0 d.
       let (width, height) = ClampSize width0 height0;
           w = w0\<lparr>xw_x := x, xw_y := y\<rparr>
       in if width = xw_width w \<and> height = xw_height w then (None, set_window xid w d)
          else with_newPixmap srv xid (w\<lparr>xw_width := width, xw_height := height\<rparr>) d)"

end
