(* ===== verification/X11_Paint.thy ===== *)
theory X11_Paint
  imports X11_Window
begin

text \<open>
  Pixels on their way to the X server: \<open>Paint\<close> and \<open>putImage\<close> of \<open>x11/window.go\<close>, and the
  cursors of \<open>x11/cursor.go\<close>.  Both split an image into as many requests as the server's
  limit on the size of a request needs.
\<close>

section \<open>Rows per request\<close>

definition rowsPerRequest :: "xserver \<Rightarrow> gint \<Rightarrow> gint" where
  "rowsPerRequest srv stride = gmax 1 (gdiv (maxImageBytes srv) stride)"

text \<open>
  The first row and the number of rows of each request.  Every request has at least one row, so
  the height is fuel enough.
\<close>

fun row_pieces :: "nat \<Rightarrow> gint \<Rightarrow> gint \<Rightarrow> gint \<Rightarrow> (gint \<times> gint) list" where
  "row_pieces 0 per height row = []"
| "row_pieces (Suc n) per height row =
     (if sint row < sint height
      then (row, gmin per (height - row)) # row_pieces n per height (row + per)
      else [])"

definition pieces :: "xserver \<Rightarrow> gint \<Rightarrow> gint \<Rightarrow> (gint \<times> gint) list" where
  "pieces srv stride height = row_pieces (nat (sint height)) (rowsPerRequest srv stride) height 0"

text \<open>The slice \<open>data[row*stride:(row+rows)*stride]\<close>, within bounds for what is uploaded here.\<close>

definition piece_bytes :: "gint \<Rightarrow> bytes \<Rightarrow> gint \<times> gint \<Rightarrow> bytes" where
  "piece_bytes stride data piece =
     subslice (nat (sint (fst piece * stride))) (nat (sint (snd piece * stride))) data"

section \<open>Painting a window\<close>

definition putImage ::
    "xserver \<Rightarrow> xid \<Rightarrow> gint \<Rightarrow> gint \<Rightarrow> gint \<Rightarrow> gint \<Rightarrow> bytes \<Rightarrow> 'o x11 \<Rightarrow> 'o x11" where
  "putImage srv pixmap x y width height data =
     (let stride = width * BytesPerPixel in
      fold (\<lambda>piece. x_send (PutImage pixmap (xs_depth srv) (ucast width) (ucast (snd piece))
              (ucast x) (ucast (y + fst piece)) (piece_bytes stride data piece)))
        (pieces srv stride height))"

text \<open>
  The buffer Go reuses holds old bytes where the model has zeros; \<open>Convert\<close> overwrites all of
  it, since the rows of the buffer are as wide as the damage.
\<close>

definition x11_Paint ::
    "xserver \<Rightarrow> window_id \<Rightarrow> gint \<Rightarrow> gint \<Rightarrow> gint \<Rightarrow> gint \<Rightarrow> bytes \<Rightarrow> gint \<Rightarrow> string \<Rightarrow> 'o x11 \<Rightarrow>
     string option \<times> 'o x11" where
  "x11_Paint srv i x y width0 height0 px rowstride format =
     try_window i (\<lambda>xid w d.
       if xw_pixmap w = 0 then (Some ''window has no pixmap'', d)
       else case ClipDamage x y width0 height0 (xw_width w) (xw_height w) of
           None \<Rightarrow>
             (Some (''negative damage origin '' @ decimal (sint x) @ '','' @ decimal (sint y)), d)
         | Some (width, height) \<Rightarrow>
             if width = 0 \<or> height = 0 then (None, d)
             else
               let dstStride = width * BytesPerPixel;
                   dst = replicate (nat (sint (dstStride * height))) 0
               in case Convert dst dstStride px rowstride width height format of
                    Refused e \<Rightarrow>
                      (Some (convert_error_text dst px dstStride rowstride width height format e), d)
                  | Panics \<Rightarrow> (Some ''panic'', d\<lparr>x_panicked := True\<rparr>)
                  | Converted out \<Rightarrow>
                      (None, x_send (ClearArea xid (ucast x) (ucast y) (ucast width) (ucast height))
                               (putImage srv (xw_pixmap w) x y width height out d)))"

section \<open>Cursors\<close>

text \<open>A \<open>defer\<close>: the request is sent when what follows has finished, whatever its outcome.\<close>

definition deferring :: "xreq \<Rightarrow> ('o x11 \<Rightarrow> 'r \<times> 'o x11) \<Rightarrow> 'o x11 \<Rightarrow> 'r \<times> 'o x11" where
  "deferring r f d = (case f d of (result, d') \<Rightarrow> (result, x_send r d'))"

text \<open>Allocate an identifier and create a resource under it with a checked request.\<close>

definition allocating ::
    "xserver \<Rightarrow> string \<Rightarrow> (xid \<Rightarrow> xreq) \<Rightarrow> (xid \<Rightarrow> 'o x11 \<Rightarrow> (string + xid) \<times> 'o x11) \<Rightarrow>
     'o x11 \<Rightarrow> (string + xid) \<times> 'o x11" where
  "allocating srv what request f d =
     (case x_new_id d of
        (None, d1) \<Rightarrow> (Inl (''allocating a '' @ what), d1)
      | (Some i, d1) \<Rightarrow>
          (case x_check srv (request i) d1 of
             (Some e, d2) \<Rightarrow> (Inl (''creating a '' @ what @ '': '' @ e), d2)
           | (None, d2) \<Rightarrow> f i d2))"

fun swap_pixels :: "bytes \<Rightarrow> bytes" where
  "swap_pixels (b # g # r # a # px) = a # r # g # b # swap_pixels px"
| "swap_pixels px = px"

fun upload_rows ::
    "xserver \<Rightarrow> xid \<Rightarrow> gint \<Rightarrow> gint \<Rightarrow> bytes \<Rightarrow> (gint \<times> gint) list \<Rightarrow> 'o x11 \<Rightarrow> string option \<times> 'o x11"
  where
  "upload_rows srv pixmap width stride data [] d = (None, d)"
| "upload_rows srv pixmap width stride data (piece # rest) d =
     (case x_check srv (PutImage pixmap 32 (ucast width) (ucast (snd piece)) 0 (ucast (fst piece))
            (piece_bytes stride data piece)) d of
        (Some e, d1) \<Rightarrow> (Some (''uploading cursor pixels: '' @ e), d1)
      | (None, d1) \<Rightarrow> upload_rows srv pixmap width stride data rest d1)"

definition createCursor :: "xserver \<Rightarrow> cursor \<Rightarrow> 'o x11 \<Rightarrow> (string + xid) \<times> 'o x11" where
  "createCursor srv c d0 =
     (case cursor_Validate c of
        Some e \<Rightarrow> (Inl (cursor_error_text c e), d0)
      | None \<Rightarrow>
          let width = cursor_Width c; height = cursor_Height c; stride = width * BytesPerPixel;
              data = (if xs_msb_first srv then swap_pixels (cursor_Pixels c) else cursor_Pixels c) in
          allocating srv ''cursor pixmap'' (\<lambda>i. CreatePixmap i 32 (ucast width) (ucast height))
            (\<lambda>pixmap. deferring (FreePixmap pixmap)
              (allocating srv ''cursor graphics context'' (\<lambda>i. CreateGC i pixmap)
                (\<lambda>gc. deferring (FreeGC gc)
                  (\<lambda>d. case upload_rows srv pixmap width stride data (pieces srv stride height) d of
                     (Some e, d1) \<Rightarrow> (Inl e, d1)
                   | (None, d1) \<Rightarrow>
                       allocating srv ''cursor picture'' (\<lambda>i. CreatePicture i pixmap (x_format d1))
                         (\<lambda>picture. deferring (FreePicture picture)
                           (allocating srv ''cursor''
                             (\<lambda>i. CreateCursor i picture (ucast (HotspotX c)) (ucast (HotspotY c)))
                             (\<lambda>cur d. (Inr cur, d)))) d1)))) d0)"

definition x11_SetCursor :: "xserver \<Rightarrow> cursor option \<Rightarrow> 'o x11 \<Rightarrow> string option \<times> 'o x11" where
  "x11_SetCursor srv img d0 =
     (case (case img of None \<Rightarrow> (Inr 0, d0) | Some c \<Rightarrow> createCursor srv c d0) of
        (Inl e, d) \<Rightarrow> (Some e, d)
      | (Inr cur, d) \<Rightarrow>
          let d1 = fold (\<lambda>(x, w). x_send (SetCursorOf x cur)) (x_windows d) d;
              old = x_cursor d1;
              d2 = d1\<lparr>x_cursor := cur\<rparr>
          in (None, if old \<noteq> 0 then x_send (FreeCursor old) d2 else d2))"

end
