(* ===== verification/X11_Clipboard.thy ===== *)
theory X11_Clipboard
  imports X11_Server Go_Utf8
begin

text \<open>
  The CLIPBOARD selection, \<open>x11/clipboard.go\<close>: text of ours that other clients ask for, in one
  property or incrementally, and text of theirs, in one piece or incrementally.
\<close>

definition xMaxClipboardBytes :: nat where "xMaxClipboardBytes = 16 * 1024 * 1024"

definition AtomNone :: atom where "AtomNone = 0"
definition TimeCurrentTime :: "32 word" where "TimeCurrentTime = 0"
definition PropertyNewValue :: byte where "PropertyNewValue = 0"
definition PropertyDelete :: byte where "PropertyDelete = 1"

definition a_selection :: "xserver \<Rightarrow> atom" where "a_selection srv = atom_of srv ''CLIPBOARD''"
definition a_property :: "xserver \<Rightarrow> atom" where "a_property srv = atom_of srv ''GO_XPRA_CLIPBOARD''"
definition a_targets :: "xserver \<Rightarrow> atom" where "a_targets srv = atom_of srv ''TARGETS''"
definition a_utf8 :: "xserver \<Rightarrow> atom" where "a_utf8 srv = atom_of srv ''UTF8_STRING''"
definition a_string :: "xserver \<Rightarrow> atom" where "a_string srv = atom_of srv ''STRING''"
definition a_atom :: "xserver \<Rightarrow> atom" where "a_atom srv = atom_of srv ''ATOM''"
definition a_incr :: "xserver \<Rightarrow> atom" where "a_incr srv = atom_of srv ''INCR''"

text \<open>The atoms of text, in the order of the \<open>TARGETS\<close> reply.\<close>

definition a_texts :: "xserver \<Rightarrow> atom list" where
  "a_texts srv = [a_utf8 srv, atom_of srv ''text/plain;charset=utf-8'', atom_of srv ''text/plain'',
                  atom_of srv ''TEXT'', a_string srv]"

definition put_clip :: "xclip \<Rightarrow> 'o x11 \<Rightarrow> 'o x11" where
  "put_clip c d = d\<lparr>x_clipboard := Some c\<rparr>"

definition request_selection :: "xserver \<Rightarrow> xclip \<Rightarrow> atom \<Rightarrow> 32 word \<Rightarrow> 'o x11 \<Rightarrow> 'o x11" where
  "request_selection srv c target timestamp d =
     x_send (ConvertSelection (xc_window c) (a_selection srv) target (a_property srv) timestamp)
       (put_clip (c\<lparr>xc_requested := target\<rparr>) d)"

text \<open>\<open>newClipboard\<close>: without a helper window there is no clipboard.\<close>

definition clipboard_atoms :: "string list" where
  "clipboard_atoms = [''CLIPBOARD'', ''GO_XPRA_CLIPBOARD'', ''TARGETS'', ''UTF8_STRING'',
     ''text/plain;charset=utf-8'', ''text/plain'', ''TEXT'', ''STRING'', ''ATOM'', ''INCR'']"

definition newClipboard :: "xserver \<Rightarrow> 'o x11 \<Rightarrow> 'o x11" where
  "newClipboard srv d0 =
     (if \<not> xs_xfixes srv then d0
      else case x_new_id d0 of
          (None, d1) \<Rightarrow> d1
        | (Some x, d1) \<Rightarrow>
            (case x_check srv (CreateHelperWindow x) d1 of
               (Some e, d2) \<Rightarrow> d2
             | (None, d2) \<Rightarrow>
                 if \<exists>name\<in>set clipboard_atoms. xs_intern srv name = None then x_send (DestroyWindow x) d2
                 else
                   (case x_check srv (SelectSelectionInput x (a_selection srv)) d2 of
                      (Some e, d3) \<Rightarrow> x_send (DestroyWindow x) d3
                    | (None, d3) \<Rightarrow>
                        request_selection srv \<lparr>xc_window = x, xc_text = [], xc_requested = 0,
                          xc_receiving = False, xc_receiveData = [], xc_transfers = []\<rparr>
                          (a_utf8 srv) TimeCurrentTime d3)))"

section \<open>Text of ours\<close>

definition x11_SetText :: "xserver \<Rightarrow> bytes \<Rightarrow> 'o x11 \<Rightarrow> string option \<times> 'o x11" where
  "x11_SetText srv txt d =
     (case x_clipboard d of
        None \<Rightarrow> (None, d)
      | Some c \<Rightarrow>
          if \<not> utf8_valid txt then (Some ''clipboard text is not valid UTF-8'', d)
          else if length txt > xMaxClipboardBytes
          then (Some (''clipboard text is larger than '' @ decimal (int xMaxClipboardBytes) @ '' bytes''), d)
          else
            (case x_check srv (SetSelectionOwner (xc_window c) (a_selection srv))
                    (put_clip (c\<lparr>xc_text := txt\<rparr>) d) of
               (Some e, d1) \<Rightarrow> (Some (''claiming CLIPBOARD: '' @ e), d1)
             | (None, d1) \<Rightarrow> (None, d1)))"

text \<open>\<open>xgb.Put32\<close> writes the least significant byte first.\<close>

definition put32 :: "32 word \<Rightarrow> bytes" where
  "put32 v = rev (be_bytes 4 v)"

definition succeeded :: "string option \<times> 'o x11 \<Rightarrow> bool \<times> 'o x11" where
  "succeeded r = (fst r = None, snd r)"

definition offer_text ::
    "xserver \<Rightarrow> xclip \<Rightarrow> xid \<Rightarrow> atom \<Rightarrow> atom \<Rightarrow> 'o x11 \<Rightarrow> bool \<times> 'o x11" where
  "offer_text srv c requestor property target d =
     (let data = xc_text c in
      if int (length data) \<le> sint (maxImageBytes srv) then
        succeeded (x_check srv (ChangeProperty requestor property target 8 (of_nat (length data)) data) d)
      else
        (case x_check srv (WatchProperties requestor) d of
           (Some e, d1) \<Rightarrow> (False, d1)
         | (None, d1) \<Rightarrow>
             (case x_check srv (ChangeProperty requestor property (a_incr srv) 32 1
                      (put32 (of_nat (length data)))) d1 of
                (Some e, d2) \<Rightarrow> (False, d2)
              | (None, d2) \<Rightarrow>
                  (True, put_clip (c\<lparr>xc_transfers := AList.update (requestor, property)
                     \<lparr>tr_target = target, tr_data = data, tr_offset = 0\<rparr> (xc_transfers c)\<rparr>) d2))))"

definition selectionRequest ::
    "xserver \<Rightarrow> xclip \<Rightarrow> 32 word \<Rightarrow> xid \<Rightarrow> xid \<Rightarrow> atom \<Rightarrow> atom \<Rightarrow> atom \<Rightarrow> 'o x11 \<Rightarrow> 'o x11" where
  "selectionRequest srv c time owner requestor selection target property0 d =
     (if owner \<noteq> xc_window c \<or> selection \<noteq> a_selection srv then d
      else
        let property = (if property0 = AtomNone then target else property0);
            atoms = a_targets srv # a_texts srv;
            (done, d1) =
              (if target = a_targets srv then
                 succeeded (x_check srv (ChangeProperty requestor property (a_atom srv) 32
                   (of_nat (length atoms)) (concat (map put32 atoms))) d)
               else if target \<in> set (a_texts srv) then offer_text srv c requestor property target d
               else (False, d))
        in x_send (SendSelectionNotify time requestor selection target
             (if done then property else AtomNone)) d1)"

text \<open>The requestor has taken one piece of an incremental transfer by deleting the property.\<close>

definition continue_transfer ::
    "xserver \<Rightarrow> xclip \<Rightarrow> xid \<Rightarrow> atom \<Rightarrow> byte \<Rightarrow> 'o x11 \<Rightarrow> 'o x11" where
  "continue_transfer srv c window property state d =
     (case map_of (xc_transfers c) (window, property) of
        None \<Rightarrow> d
      | Some t \<Rightarrow>
          if state \<noteq> PropertyDelete then d
          else
            let remaining = of_nat (length (tr_data t)) - tr_offset t in
            if remaining = 0 then
              put_clip (c\<lparr>xc_transfers := AList.delete (window, property) (xc_transfers c)\<rparr>)
                (x_send (ChangeProperty window property (tr_target t) 8 0 []) d)
            else
              let n = gmin remaining (maxImageBytes srv) in
              case go_slice (tr_data t) (tr_offset t) (tr_offset t + n) of
                None \<Rightarrow> d\<lparr>x_panicked := True\<rparr>
              | Some chunk \<Rightarrow>
                  x_send (ChangeProperty window property (tr_target t) 8 (of_nat (length chunk)) chunk)
                    (put_clip (c\<lparr>xc_transfers := AList.update (window, property)
                       (t\<lparr>tr_offset := tr_offset t + n\<rparr>) (xc_transfers c)\<rparr>) d))"

section \<open>Text of others\<close>

text \<open>What the bytes of a finished transfer are as text, if anything.\<close>

definition received_text :: "xserver \<Rightarrow> xclip \<Rightarrow> bytes \<Rightarrow> bytes option" where
  "received_text srv c data =
     (if xc_requested c = a_string srv \<and> \<not> utf8_valid data then Some (latin1 data)
      else if \<not> utf8_valid data then None
      else Some data)"

definition ownerChanged ::
    "xserver \<Rightarrow> xclip \<Rightarrow> atom \<Rightarrow> xid \<Rightarrow> 32 word \<Rightarrow> 'o x11 \<Rightarrow> bytes option \<times> 'o x11" where
  "ownerChanged srv c selection owner timestamp d =
     (if selection \<noteq> a_selection srv \<or> owner = xc_window c then (None, d)
      else
        let c1 = c\<lparr>xc_receiving := False, xc_receiveData := []\<rparr> in
        if owner = 0 then (Some [], put_clip c1 d)
        else (None, request_selection srv c1 (a_utf8 srv) timestamp d))"

definition selectionNotify ::
    "xserver \<Rightarrow> xclip \<Rightarrow> xid \<Rightarrow> atom \<Rightarrow> atom \<Rightarrow> 32 word \<Rightarrow> 'o x11 \<Rightarrow> bytes option \<times> 'o x11" where
  "selectionNotify srv c requestor selection property time d =
     (if requestor \<noteq> xc_window c \<or> selection \<noteq> a_selection srv then (None, d)
      else
        let d1 = x_send (GetSelectionOwner (a_selection srv)) d in
        if xs_owner srv (x_log d1) (a_selection srv) = Some (xc_window c) then (None, d1)
        else if property = AtomNone then
          (None, if xc_requested c \<noteq> a_string srv then request_selection srv c (a_string srv) time d1 else d1)
        else
          let d2 = x_send (GetProperty (xc_window c) (a_property srv)
                     (of_nat (xMaxClipboardBytes div 4 + 1))) d1 in
          case xs_property srv (x_log d2) (xc_window c) (a_property srv) of
            None \<Rightarrow> (None, d2)
          | Some reply \<Rightarrow>
              if prop_Type reply = a_incr srv
              then (None, put_clip (c\<lparr>xc_receiving := True, xc_receiveData := []\<rparr>) d2)
              else if prop_Format reply \<noteq> 8 \<or> length (prop_Value reply) > xMaxClipboardBytes
              then (None, d2)
              else (received_text srv c (prop_Value reply), d2))"

definition receive_piece :: "xserver \<Rightarrow> xclip \<Rightarrow> 'o x11 \<Rightarrow> bytes option \<times> 'o x11" where
  "receive_piece srv c d =
     (let d1 = x_send (GetProperty (xc_window c) (a_property srv) (gdiv (maxImageBytes srv) 4 + 1)) d;
          stopped = c\<lparr>xc_receiving := False, xc_receiveData := []\<rparr> in
      case xs_property srv (x_log d1) (xc_window c) (a_property srv) of
        None \<Rightarrow> (None, put_clip stopped d1)
      | Some reply \<Rightarrow>
          if length (prop_Value reply) = 0
          then (received_text srv c (xc_receiveData c), put_clip stopped d1)
          else if prop_Format reply \<noteq> 8 \<or>
                  length (xc_receiveData c) + length (prop_Value reply) > xMaxClipboardBytes
          then (None, put_clip stopped d1)
          else (None, put_clip (c\<lparr>xc_receiveData := xc_receiveData c @ prop_Value reply\<rparr>) d1))"

definition propertyNotify ::
    "xserver \<Rightarrow> xclip \<Rightarrow> xid \<Rightarrow> atom \<Rightarrow> byte \<Rightarrow> 'o x11 \<Rightarrow> bytes option \<times> 'o x11" where
  "propertyNotify srv c window property state d =
     (if window = xc_window c \<and> property = a_property srv \<and> xc_receiving c \<and> state = PropertyNewValue
      then receive_piece srv c d
      else (None, continue_transfer srv c window property state d))"

end
