(* ===== verification/X11_Display.thy ===== *)
theory X11_Display
  imports X11_Paint X11_Clipboard Ui_Keys
begin

text \<open>
  Events of the X server as events of the client (\<open>x11/events.go\<close>, \<open>x11/keys.go\<close>), monitors
  (\<open>x11/monitor.go\<close>) and the display itself (\<open>x11/display.go\<close>).
\<close>

section \<open>Keys\<close>

definition isAlphaKeysym :: "32 word \<Rightarrow> bool" where
  "isAlphaKeysym k \<longleftrightarrow> 0x61 \<le> k \<and> k \<le> 0x7a \<or> 0x41 \<le> k \<and> k \<le> 0x5a"

definition effectiveKeysym :: "xserver \<Rightarrow> byte \<Rightarrow> 16 word \<Rightarrow> 32 word" where
  "effectiveKeysym srv keycode state =
     (let unshifted = xs_keysym srv keycode 0; shifted = xs_keysym srv keycode 1;
          shift = (state AND 1 \<noteq> 0);
          shift = (if state AND 2 \<noteq> 0 \<and> isAlphaKeysym unshifted then \<not> shift else shift)
      in if shift \<and> shifted \<noteq> 0 then shifted else unshifted)"

definition keyText :: "32 word \<Rightarrow> bytes" where
  "keyText k = (if 0x20 \<le> k \<and> k \<le> 0x7e then encode_runes [unat k] else [])"

definition x11_key :: "xserver \<Rightarrow> xid \<Rightarrow> byte \<Rightarrow> 16 word \<Rightarrow> bool \<Rightarrow> ui_event" where
  "x11_key srv x keycode state pressed =
     (let sym = effectiveKeysym srv keycode state in
      Key (ID x) pressed (keysym_Name (xs_keysym_table srv) sym) (ucast sym) (keyText sym)
        (ucast keycode) (ModifierNames (ucast state)))"

section \<open>Events\<close>

datatype xevent =
    XfixesSelectionNotify atom xid "32 word"           \<comment> \<open>selection, owner, timestamp\<close>
  | SelectionNotify xid atom atom "32 word"            \<comment> \<open>requestor, selection, property, time\<close>
  | SelectionRequest "32 word" xid xid atom atom atom  \<comment> \<open>time, owner, requestor, selection, target, property\<close>
  | PropertyNotify xid atom byte
  | DestroyNotify xid
  | ConfigureNotify xid "16 word" "16 word" "16 word" "16 word"
  | ClientMessage xid atom byte "32 word list"
  | MotionNotify xid "16 word" "16 word"
  | ButtonEvent xid byte bool "16 word" "16 word"      \<comment> \<open>press and release\<close>
  | KeyEvent xid byte "16 word" bool
  | FocusInEvent xid byte byte
  | FocusOutEvent xid byte byte
  | OtherEvent

definition realFocusChange :: "byte \<Rightarrow> byte \<Rightarrow> bool" where
  "realFocusChange mode detail \<longleftrightarrow>
     \<not> (mode = 1 \<or> mode = 2) \<and> \<not> (detail = 2 \<or> detail = 5 \<or> detail = 6 \<or> detail = 7)"

definition StateNormal :: "64 word" where "StateNormal = 1"
definition StateIconic :: "64 word" where "StateIconic = 3"

definition iconic_flag :: "(xid \<times> bool) list \<Rightarrow> xid \<Rightarrow> bool" where
  "iconic_flag m x = (case map_of m x of Some b \<Rightarrow> b | None \<Rightarrow> False)"

definition wmStateChanged :: "xserver \<Rightarrow> xid \<Rightarrow> byte \<Rightarrow> 'o x11 \<Rightarrow> ui_event option \<times> 'o x11" where
  "wmStateChanged srv x state d =
     (if state \<noteq> PropertyNewValue then (None, d)
      else case xs_wm_state srv (x_log d) x of
          None \<Rightarrow> (None, d)
        | Some s \<Rightarrow>
            if s \<noteq> StateIconic \<and> s \<noteq> StateNormal then (None, d)
            else
              let iconic = (s = StateIconic) in
              if iconic_flag (x_iconic d) x = iconic then (None, d)
              else (Some (Minimized (ID x) iconic), d\<lparr>x_iconic := AList.update x iconic (x_iconic d)\<rparr>))"

definition x11_button :: "xid \<Rightarrow> byte \<Rightarrow> bool \<Rightarrow> 16 word \<Rightarrow> 16 word \<Rightarrow> ui_event" where
  "x11_button x detail pressed rootX rootY =
     Button (ID x) (ucast detail) pressed (scast rootX) (scast rootY)"

text \<open>The clipboard, if there is one, handles an event that may be text for the client.\<close>

definition clipboard_event ::
    "(xclip \<Rightarrow> 'o x11 \<Rightarrow> bytes option \<times> 'o x11) \<Rightarrow> 'o x11 \<Rightarrow> ui_event option \<times> 'o x11" where
  "clipboard_event f d =
     (case x_clipboard d of
        None \<Rightarrow> (None, d)
      | Some c \<Rightarrow> (case f c d of (txt, d1) \<Rightarrow> (map_option ClipboardChange txt, d1)))"

definition translate :: "xserver \<Rightarrow> xevent \<Rightarrow> 'o x11 \<Rightarrow> ui_event option \<times> 'o x11" where
  "translate srv e d =
     (case e of
        XfixesSelectionNotify selection owner timestamp \<Rightarrow>
          clipboard_event (\<lambda>c. ownerChanged srv c selection owner timestamp) d
      | SelectionNotify requestor selection property time \<Rightarrow>
          clipboard_event (\<lambda>c. selectionNotify srv c requestor selection property time) d
      | SelectionRequest time owner requestor selection target property \<Rightarrow>
          clipboard_event (\<lambda>c d. (None, selectionRequest srv c time owner requestor selection target property d)) d
      | PropertyNotify x atom state \<Rightarrow>
          if atom = atom_of srv ''WM_STATE'' then wmStateChanged srv x state d
          else clipboard_event (\<lambda>c. propertyNotify srv c x atom state) d
      | DestroyNotify x \<Rightarrow> (None, d\<lparr>x_iconic := AList.delete x (x_iconic d)\<rparr>)
      | ConfigureNotify x ex ey width height \<Rightarrow>
          (Some (Configure (ID x) (scast ex) (scast ey) (ucast width) (ucast height)), d)
      | ClientMessage x mtype format data \<Rightarrow>
          if mtype \<noteq> atom_of srv ''WM_PROTOCOLS'' \<or> format \<noteq> 32 then (None, d)
          else if data = [] \<or> hd data \<noteq> atom_of srv ''WM_DELETE_WINDOW'' then (None, d)
          else (Some (CloseRequest (ID x)), d)
      | MotionNotify x rootX rootY \<Rightarrow> (Some (Motion (ID x) (scast rootX) (scast rootY)), d)
      | ButtonEvent x detail pressed rootX rootY \<Rightarrow> (Some (x11_button x detail pressed rootX rootY), d)
      | KeyEvent x keycode state pressed \<Rightarrow> (Some (x11_key srv x keycode state pressed), d)
      | FocusInEvent x mode detail \<Rightarrow> (if realFocusChange mode detail then Some (Focus (ID x)) else None, d)
      | FocusOutEvent x mode detail \<Rightarrow>
          (if realFocusChange mode detail then Some (FocusLost (ID x)) else None, d)
      | OtherEvent \<Rightarrow> (None, d))"

section \<open>The read loop\<close>

text \<open>
  What \<open>WaitForEvent\<close> yields is an event or the error of a request (\<open>None\<close>), and the end of the
  list is the end of the connection.  With each comes the choice of the \<open>select\<close> that delivers
  a translated event: once the display is closed it may end the loop instead.
\<close>

fun x11_readLoop :: "xserver \<Rightarrow> (xevent option \<times> bool) list \<Rightarrow> 'o x11 \<Rightarrow> ui_event list \<times> 'o x11" where
  "x11_readLoop srv [] d = ([], d)"
| "x11_readLoop srv ((None, ends) # inputs) d = x11_readLoop srv inputs d"
| "x11_readLoop srv ((Some e, ends) # inputs) d =
     (case translate srv e d of
        (None, d1) \<Rightarrow> x11_readLoop srv inputs d1
      | (Some ev, d1) \<Rightarrow>
          if ends \<and> x_done d1 then ([], d1)
          else case x11_readLoop srv inputs d1 of (evs, d2) \<Rightarrow> (ev # evs, d2))"

definition x11_Close :: "'o x11 \<Rightarrow> 'o x11" where
  "x11_Close d = (if x_done d then d else x_send CloseConnection (d\<lparr>x_done := True\<rparr>))"

section \<open>Monitors, the bell and the screen\<close>

definition x11_monitor :: "randr_monitor \<Rightarrow> monitor" where
  "x11_monitor i =
     \<lparr>mon_Name = (case mi_Name i of Some n \<Rightarrow> n | None \<Rightarrow> []), Manufacturer = [], mon_Model = [],
      SubpixelLayout = [],
      Geometry = \<lparr>rect_X = scast (mi_X i), rect_Y = scast (mi_Y i),
                  rect_Width = ucast (mi_Width i), rect_Height = ucast (mi_Height i)\<rparr>,
      WorkArea = \<lparr>rect_X = 0, rect_Y = 0, rect_Width = 0, rect_Height = 0\<rparr>,
      WidthMM = ucast (mi_WidthMM i), HeightMM = ucast (mi_HeightMM i), RefreshRate = 0,
      ScaleFactor = 1, Primary = mi_Primary i\<rparr>"

definition x11_Monitors :: "xserver \<Rightarrow> 'o x11 \<Rightarrow> monitor list" where
  "x11_Monitors srv d =
     (case xs_monitors srv (x_log d) of
        None \<Rightarrow> []
      | Some infos \<Rightarrow> filter (\<lambda>m. rect_Valid (Geometry m)) (map x11_monitor infos))"

definition x11_Bell :: "gint \<Rightarrow> gint \<Rightarrow> gint \<Rightarrow> string \<Rightarrow> 'o x11 \<Rightarrow> 'o x11" where
  "x11_Bell percent pitch duration name =
     x_send (RingBell (ucast (gmin (gmax percent (- 100)) 100)))"

definition x11_DesktopSize :: "xserver \<Rightarrow> gint \<times> gint \<times> bool" where
  "x11_DesktopSize srv = (ucast (xs_width srv), ucast (xs_height srv), True)"

section \<open>Opening the display\<close>

definition argb32 :: "pict_format \<Rightarrow> bool" where
  "argb32 f \<longleftrightarrow> pf_Direct f \<and> pf_Depth f = 32 \<and> pf_Red f = (16, 0xff) \<and> pf_Green f = (8, 0xff) \<and>
     pf_Blue f = (0, 0xff) \<and> pf_Alpha f = (24, 0xff)"

definition initCursorFormat :: "xserver \<Rightarrow> string + xid" where
  "initCursorFormat srv =
     (case xs_formats srv of
        None \<Rightarrow> Inl ''querying X Render formats''
      | Some formats \<Rightarrow>
          (case find argb32 formats of
             Some f \<Rightarrow> Inr (pf_Id f)
           | None \<Rightarrow> Inl ''the X server has no ARGB32 Render format for colour cursors''))"

definition createGC :: "xserver \<Rightarrow> 'o x11 \<Rightarrow> string option \<times> 'o x11" where
  "createGC srv d =
     (case x_new_id d of
        (None, d1) \<Rightarrow> (Some ''allocating a graphics context id'', d1)
      | (Some gc, d1) \<Rightarrow>
          (case x_check srv (CreateGC gc 0) d1 of
             (Some e, d2) \<Rightarrow> (Some (''creating a graphics context: '' @ e), d2)
           | (None, d2) \<Rightarrow> (None, d2\<lparr>x_gc := gc\<rparr>)))"

definition x11_Open :: "xserver \<Rightarrow> xid list \<Rightarrow> 'o \<Rightarrow> string + 'o x11" where
  "x11_Open srv ids others =
     (let d0 = \<lparr>x_log = [], x_ids = ids, x_windows = [], x_cursor = 0, x_iconic = [],
                x_clipboard = None, x_gc = 0, x_format = 0, x_panicked = False, x_done = False,
                x_others = others\<rparr> in
      case find (\<lambda>name. xs_intern srv name = None) [''WM_PROTOCOLS'', ''WM_DELETE_WINDOW'', ''WM_STATE''] of
        Some name \<Rightarrow> Inl (''interning '' @ name)
      | None \<Rightarrow>
          (case createGC srv d0 of
             (Some e, d1) \<Rightarrow> Inl e
           | (None, d1) \<Rightarrow>
               bind_res (initCursorFormat srv)
                 (\<lambda>format. Inr (newClipboard srv (d1\<lparr>x_format := format\<rparr>)))))"

end
