(* ===== verification/Client_Registry.thy ===== *)
theory Client_Registry
  imports Client_Invariants
begin

text \<open>
  The window tables of the client.  Abstractly they are one partial map from the server's
  window ids to local windows, which \<open>window-create\<close> and \<open>window-destroy\<close> update; the code
  keeps it as two maps and three maps of flags.  What this needs of a display is the locale
  \<open>display_contract\<close>: a new window has a fresh identifier and stays alive until it is
  destroyed.
\<close>

section \<open>Maps that are inverse to each other\<close>

definition inverse_maps :: "('a \<Rightarrow> 'b option) \<Rightarrow> ('b \<Rightarrow> 'a option) \<Rightarrow> bool" where
  "inverse_maps f g \<longleftrightarrow> (\<forall>a b. f a = Some b \<longleftrightarrow> g b = Some a)"

lemma inverse_maps_iff: "inverse_maps f g \<Longrightarrow> f a = Some b \<longleftrightarrow> g b = Some a"
  by (simp add: inverse_maps_def)

lemma inverse_maps_remove:
  assumes "inverse_maps f g" "f a = Some b"
  shows "inverse_maps (f(a := None)) (g(b := None))" "ran (f(a := None)) = ran f - {b}"
proof -
  have ga: "g b = Some a" using assms by (simp add: inverse_maps_def)
  have f: "f x = Some b \<longleftrightarrow> x = a" and g: "g y = Some a \<longleftrightarrow> y = b" for x y
    using assms ga unfolding inverse_maps_def by (metis option.inject)+
  show "inverse_maps (f(a := None)) (g(b := None))"
    using assms f g unfolding inverse_maps_def by (simp add: fun_upd_def)
  show "ran (f(a := None)) = ran f - {b}"
    using f assms(2) by (auto simp: ran_def) (metis option.inject)
qed

lemma inverse_maps_add:
  assumes "inverse_maps f g" "f a = None" "b \<notin> ran f"
  shows "inverse_maps (f(a := Some b)) (g(b := Some a))"
proof -
  have b: "f x \<noteq> Some b" for x using assms(3) by (auto simp: ran_def)
  have "g y \<noteq> Some a" for y using assms(1,2) unfolding inverse_maps_def by (metis option.distinct(1))
  then show ?thesis using assms(1) b unfolding inverse_maps_def by simp
qed

section \<open>The abstract registry\<close>

definition registry :: "'d client \<Rightarrow> gint \<Rightarrow> window_id option" where
  "registry c = map_of (windows c)"

text \<open>The window \<open>handleNewWindow\<close> gets from the display, after the stale one is gone.\<close>

definition opened :: "'d env \<Rightarrow> bool \<Rightarrow> packet \<Rightarrow> 'd client \<Rightarrow> window_id option" where
  "opened env ovr p c =
     (let wid = pkt_Int p 1; (width, height) = packetWindowSize p;
          c1 = (case map_of (windows c) wid of Some old \<Rightarrow> forgetWindow env wid old c | None \<Rightarrow> c)
      in fst (NewWindow env (pkt_Int p 2) (pkt_Int p 3) width height
           (ovr \<or> dict_Bool (pkt_Dict p 6) ''override-redirect'') (world c1)))"

definition registry_step ::
    "'d env \<Rightarrow> packet \<Rightarrow> 'd client \<Rightarrow> (gint \<Rightarrow> window_id option) \<Rightarrow> gint \<Rightarrow> window_id option" where
  "registry_step env p c reg =
     (let name = Canonical (BackwardsCompatible env) (pkt_Type p) in
      if name = ''window-create'' then reg(pkt_Int p 1 := opened env False p c)
      else if name = ''new-override-redirect'' \<and> BackwardsCompatible env
      then reg(pkt_Int p 1 := opened env True p c)
      else if name = ''window-destroy'' then reg(pkt_Int p 1 := None)
      else reg)"

lemma registry_cong: "windows_part c' = windows_part c \<Longrightarrow> registry c' = registry c"
  by (simp add: registry_def windows_part_eq)

lemma registry_forgetWindow [simp]: "registry (forgetWindow env wid w c) = (registry c)(wid := None)"
  by (simp add: registry_def forgetWindow_def on_world_def delete_conv')

lemma registry_handleLostWindow:
  "registry (handleLostWindow env p c) = (registry c)(pkt_Int p 1 := None)"
proof (cases "map_of (windows c) (pkt_Int p 1)")
  case None
  then show ?thesis by (auto simp: handleLostWindow_def with_window_def registry_def)
qed (simp add: handleLostWindow_def with_window_def)

text \<open>\<open>handleNewWindow\<close>, once the stale window is forgotten and the display has answered.\<close>

definition without_stale :: "'d env \<Rightarrow> gint \<Rightarrow> 'd client \<Rightarrow> 'd client" where
  "without_stale env wid c =
     (case map_of (windows c) wid of Some old \<Rightarrow> forgetWindow env wid old c | None \<Rightarrow> c)"

lemma registry_without_stale [simp]:
  "registry (without_stale env wid c) = (registry c)(wid := None)"
  by (cases "map_of (windows c) wid") (auto simp: without_stale_def, auto simp: registry_def)

lemma handleNewWindow_cases:
  obtains (refused) d where "opened env ovr p c = None"
      "NewWindow env (pkt_Int p 2) (pkt_Int p 3) (fst (packetWindowSize p)) (snd (packetWindowSize p))
         (ovr \<or> dict_Bool (pkt_Dict p 6) ''override-redirect'') (world (without_stale env (pkt_Int p 1) c)) = (None, d)"
      "handleNewWindow env p ovr c = (without_stale env (pkt_Int p 1) c)\<lparr>world := d\<rparr>"
  | (created) w d c3 c4 where "opened env ovr p c = Some w"
      "NewWindow env (pkt_Int p 2) (pkt_Int p 3) (fst (packetWindowSize p)) (snd (packetWindowSize p))
         (ovr \<or> dict_Bool (pkt_Dict p 6) ''override-redirect'') (world (without_stale env (pkt_Int p 1) c)) = (Some w, d)"
      "c3 = on_world (win_Map env w) (applyStates env (pkt_Int p 1) w (pkt_Dict p 6)
         (on_world (win_SetTitle env w (dict_Str (pkt_Dict p 6) ''title''))
           ((without_stale env (pkt_Int p 1) c)\<lparr>world := d\<rparr>)))"
      "c4 = c3\<lparr>windows := AList.update (pkt_Int p 1) w (windows c3),
        byLocal := AList.update w (pkt_Int p 1) (byLocal c3)\<rparr>"
      "handleNewWindow env p ovr c =
        (if ovr \<or> dict_Bool (pkt_Dict p 6) ''override-redirect'' then c4
         else send (map_packet (cl_monitors c4) (pkt_Int p 1)
           (pkt_Int p 2, pkt_Int p 3, fst (packetWindowSize p), snd (packetWindowSize p))) c4)"
proof -
  obtain r d where new: "NewWindow env (pkt_Int p 2) (pkt_Int p 3) (fst (packetWindowSize p))
      (snd (packetWindowSize p)) (ovr \<or> dict_Bool (pkt_Dict p 6) ''override-redirect'')
      (world (without_stale env (pkt_Int p 1) c)) = (r, d)" by fastforce
  have opened: "opened env ovr p c = r"
    using new by (simp add: opened_def without_stale_def Let_def case_prod_beta)
  show ?thesis
  proof (cases r)
    case None
    then show ?thesis using refused [of d] new opened
      by (simp add: handleNewWindow_def without_stale_def Let_def case_prod_beta)
  next
    case (Some w)
    then show ?thesis using created [of w d, OF _ _ refl refl] new opened
      by (simp add: handleNewWindow_def without_stale_def Let_def case_prod_beta)
  qed
qed

lemma registry_handleNewWindow:
  "registry (handleNewWindow env p ovr c) = (registry c)(pkt_Int p 1 := opened env ovr p c)"
proof (rule handleNewWindow_cases [of env ovr p c])
  fix d
  assume "opened env ovr p c = None"
    and "handleNewWindow env p ovr c = (without_stale env (pkt_Int p 1) c)\<lparr>world := d\<rparr>"
  then show ?thesis
    using registry_cong [of "(without_stale env (pkt_Int p 1) c)\<lparr>world := d\<rparr>" "without_stale env (pkt_Int p 1) c"]
    by simp
next
  fix w d c3 c4
  assume "opened env ovr p c = Some w"
    and c3: "c3 = on_world (win_Map env w) (applyStates env (pkt_Int p 1) w (pkt_Dict p 6)
         (on_world (win_SetTitle env w (dict_Str (pkt_Dict p 6) ''title''))
           ((without_stale env (pkt_Int p 1) c)\<lparr>world := d\<rparr>)))"
    and c4: "c4 = c3\<lparr>windows := AList.update (pkt_Int p 1) w (windows c3),
        byLocal := AList.update w (pkt_Int p 1) (byLocal c3)\<rparr>"
    and eq: "handleNewWindow env p ovr c =
        (if ovr \<or> dict_Bool (pkt_Dict p 6) ''override-redirect'' then c4
         else send (map_packet (cl_monitors c4) (pkt_Int p 1)
           (pkt_Int p 2, pkt_Int p 3, fst (packetWindowSize p), snd (packetWindowSize p))) c4)"
  have "registry c3 = registry (without_stale env (pkt_Int p 1) c)"
    by (rule registry_cong) (simp add: c3)
  then have "registry c4 = (registry c)(pkt_Int p 1 := Some w)"
    by (simp add: c4 registry_def [of "c3\<lparr>windows := _, byLocal := _\<rparr>"] update_conv'
        registry_def [of c3, symmetric])
  moreover have "registry (handleNewWindow env p ovr c) = registry c4"
    by (rule registry_cong) (simp add: eq)
  ultimately show ?thesis using \<open>opened env ovr p c = Some w\<close> by simp
qed

lemma registry_handlePacket:
  "registry (handlePacket env p c) = registry_step env p c (registry c)"
proof (cases "Canonical (BackwardsCompatible env) (pkt_Type p)
    \<in> {''window-create'', ''window-destroy'', ''new-override-redirect''}")
  case True
  then show ?thesis
    by (elim insertE emptyE)
      (simp_all add: handlePacket_def registry_step_def Let_def registry_handleNewWindow
        registry_handleLostWindow)
next
  case False
  define name where "name = Canonical (BackwardsCompatible env) (pkt_Type p)"
  have neq: "(name = ''window-create'') = False" "(name = ''window-destroy'') = False"
    "(name = ''new-override-redirect'') = False" using False by (simp_all add: name_def)
  have either: "windows_part x = windows_part c \<Longrightarrow> windows_part y = windows_part c \<Longrightarrow>
    windows_part (if b then x else y) = windows_part c" for b and x y :: "'a client" by simp
  have "windows_part (handlePacket env p c) = windows_part c"
    unfolding handlePacket_def Let_def name_def [symmetric]
    by (simp only: neq if_False) (intro either; simp)
  then have "registry (handlePacket env p c) = registry c" by (rule registry_cong)
  then show ?thesis using False by (simp add: registry_step_def Let_def)
qed

lemma registry_handleUIEvent: "registry (handleUIEvent env ev c) = registry c"
  by (rule registry_cong, rule handleUIEvent_rule) (simp_all add: sendDisconnect_def)

section \<open>What is asked of a display\<close>

definition keeps_windows :: "('d \<Rightarrow> bool) \<Rightarrow> ('d \<Rightarrow> window_id set) \<Rightarrow> ('d \<Rightarrow> 'd) \<Rightarrow> bool" where
  "keeps_windows sound live f \<longleftrightarrow> (\<forall>d. sound d \<longrightarrow> sound (f d) \<and> live (f d) = live d)"

lemma keeps_windowsD: "keeps_windows sound live f \<Longrightarrow> sound d \<Longrightarrow> sound (f d) \<and> live (f d) = live d"
  by (simp add: keeps_windows_def)

lemma keeps_windows_id [simp]: "keeps_windows sound live (\<lambda>d. d)"
  by (simp add: keeps_windows_def)

lemma keeps_windows_fold:
  "(\<And>x. x \<in> set xs \<Longrightarrow> keeps_windows sound live (f x)) \<Longrightarrow> keeps_windows sound live (fold f xs)"
  by (induction xs) (auto simp: keeps_windows_def)

locale display_contract =
  fixes env :: "'d env" and desktop :: "'d \<Rightarrow> 'd \<Rightarrow> bool"
    and sound :: "'d \<Rightarrow> bool" and live :: "'d \<Rightarrow> window_id set"
  assumes created: "sound d \<Longrightarrow> NewWindow env x y w h ovr d = (Some i, d') \<Longrightarrow>
      sound d' \<and> i \<notin> live d \<and> live d' = insert i (live d)"
    and refused: "sound d \<Longrightarrow> NewWindow env x y w h ovr d = (None, d') \<Longrightarrow> sound d' \<and> live d' = live d"
    and destroyed: "sound d \<Longrightarrow> sound (win_Destroy env i d) \<and> live (win_Destroy env i d) = live d - {i}"
    and SetTitle: "keeps_windows sound live (win_SetTitle env i title)"
    and SetIcon: "keeps_windows sound live (\<lambda>d. snd (win_SetIcon env i icon d))"
    and Map: "keeps_windows sound live (win_Map env i)"
    and Raise: "keeps_windows sound live (win_Raise env i)"
    and Minimize: "keeps_windows sound live (win_Minimize env i b)"
    and MoveResize: "keeps_windows sound live (\<lambda>d. snd (win_MoveResize env i x y w h d))"
    and Resized: "keeps_windows sound live (\<lambda>d. snd (win_Resized env i x y w h d))"
    and Paint: "keeps_windows sound live (\<lambda>d. snd (win_Paint env i x y w h px stride fmt d))"
    and SetState: "win_SetState env = Some set_state \<Longrightarrow> keeps_windows sound live (set_state i state b)"
    and Bell: "keeps_windows sound live (disp_Bell env percent pitch duration name)"
    and SetCursor: "keeps_windows sound live (\<lambda>d. snd (disp_SetCursor env cur d))"
    and SetText: "keeps_windows sound live (\<lambda>d. snd (clip_SetText env text d))"
    and random: "keeps_windows sound live (\<lambda>d. snd (rand_Read env n d))"
    and password: "keeps_windows sound live (\<lambda>d. snd (ask_password env descr d))"
    and moves: "desktop d d' \<Longrightarrow> sound d \<Longrightarrow> sound d' \<and> live d' = live d"

section \<open>The invariant of the tables\<close>

definition windows_inv :: "('d \<Rightarrow> bool) \<Rightarrow> ('d \<Rightarrow> window_id set) \<Rightarrow> 'd client \<Rightarrow> bool" where
  "windows_inv sound live c \<longleftrightarrow>
     sound (world c) \<and>
     inverse_maps (registry c) (map_of (byLocal c)) \<and>
     ran (registry c) = live (world c) \<and>
     dom (map_of (iconified c)) \<subseteq> dom (registry c) \<and>
     dom (map_of (serverIconic c)) \<subseteq> dom (registry c) \<and>
     (focused c = 0 \<or> focused c \<in> dom (registry c))"

text \<open>
  An operation that opens and closes no window; flags and the focus may move, but only to
  windows the client has.
\<close>

definition undisturbed :: "('d \<Rightarrow> bool) \<Rightarrow> ('d \<Rightarrow> window_id set) \<Rightarrow> 'd client \<Rightarrow> 'd client \<Rightarrow> bool" where
  "undisturbed sound live c c' \<longleftrightarrow>
     windows_part c' = windows_part c \<and>
     dom (map_of (iconified c')) \<subseteq> dom (map_of (iconified c)) \<union> dom (registry c) \<and>
     dom (map_of (serverIconic c')) \<subseteq> dom (map_of (serverIconic c)) \<union> dom (registry c) \<and>
     (focused c' = focused c \<or> focused c' = 0 \<or> focused c' \<in> dom (registry c)) \<and>
     (sound (world c) \<longrightarrow> sound (world c') \<and> live (world c') = live (world c))"

lemma windows_inv_undisturbed:
  assumes "windows_inv sound live c" and "undisturbed sound live c c'"
  shows "windows_inv sound live c'"
proof -
  note u = assms(2) [unfolded undisturbed_def] and i = assms(1) [unfolded windows_inv_def]
  have same: "registry c' = registry c" "byLocal c' = byLocal c"
    using u registry_cong [of c' c] by (simp_all add: windows_part_eq)
  have "dom (map_of (iconified c')) \<subseteq> dom (registry c)" "dom (map_of (serverIconic c')) \<subseteq> dom (registry c)"
    using u i by blast+
  moreover have "focused c' = 0 \<or> focused c' \<in> dom (registry c)" using u i by metis
  ultimately show ?thesis using u i unfolding windows_inv_def same by simp
qed

text \<open>Most handlers do not touch the flags and the focus at all.\<close>

lemma undisturbedI:
  assumes "windows_part c' = windows_part c" "iconic_part c' = iconic_part c" "focused c' = focused c"
    and "sound (world c) \<Longrightarrow> sound (world c') \<and> live (world c') = live (world c)"
  shows "undisturbed sound live c c'"
  using assms by (auto simp: undisturbed_def iconic_part_def)

lemma lookup_registry: "lookup w c = Some (wid, w') \<Longrightarrow> wid \<in> dom (registry c)"
  by (auto simp: lookup_def registry_def split: option.splits)

lemma buildHello_snd:
  "snd (buildHello env name clip states d) = snd (randomHex env 16 (snd (machineUUID env d)))"
  by (simp add: buildHello_def Let_def case_prod_beta)

lemma lookup_iff:
  assumes "inverse_maps (registry c) (map_of (byLocal c))"
  shows "lookup w c = Some (wid, w') \<longleftrightarrow> w' = w \<and> registry c wid = Some w"
proof (cases "map_of (byLocal c) w")
  case None
  then show ?thesis using inverse_maps_iff [OF assms, of wid w] by (auto simp: lookup_def)
next
  case (Some k)
  then show ?thesis
    using inverse_maps_iff [OF assms, of k w] inverse_maps_iff [OF assms, of wid w]
    by (auto simp: lookup_def registry_def)
qed

context display_contract
begin

abbreviation "tables_ok \<equiv> windows_inv sound live"
abbreviation "calm \<equiv> undisturbed sound live"

lemmas display_keeps = SetTitle SetIcon Map Raise Minimize MoveResize Resized Paint Bell SetCursor
  SetText random password
lemmas display_keepsD = display_keeps [THEN keeps_windowsD]

lemma apply_state_keeps: "keeps_windows sound live (apply_state env w metadata state)"
  using SetState by (auto simp: apply_state_def keeps_windows_def split: option.split)

lemma applyStates_live:
  "sound (world c) \<Longrightarrow>
   sound (world (applyStates env wid w metadata c)) \<and>
   live (world (applyStates env wid w metadata c)) = live (world c)"
  using keeps_windows_fold [of "cl_states c" sound live "apply_state env w metadata"]
    apply_state_keeps Minimize
  by (auto simp: applyStates_def Let_def on_world_def keeps_windows_def)

lemma applyStates_flags:
  "iconified (applyStates env wid w metadata c) = iconified c"
  "dom (map_of (serverIconic (applyStates env wid w metadata c))) \<subseteq>
     insert wid (dom (map_of (serverIconic c)))"
  by (auto simp: applyStates_def Let_def on_world_def update_conv' split: if_splits)

lemma calm_applyStates:
  "wid \<in> dom (registry c) \<Longrightarrow> calm c (applyStates env wid w metadata c)"
  using applyStates_live [of c wid w metadata] applyStates_flags [of wid w metadata c]
  by (auto simp: undisturbed_def)

lemma inv_forgetWindow:
  assumes "tables_ok c" "registry c wid = Some w"
  shows "tables_ok (forgetWindow env wid w c)"
proof -
  let ?c = "forgetWindow env wid w c"
  note i = assms(1) [unfolded windows_inv_def]
  have loc: "map_of (byLocal ?c) = (map_of (byLocal c))(w := None)"
    "dom (map_of (iconified ?c)) = dom (map_of (iconified c)) - {wid}"
    "dom (map_of (serverIconic ?c)) = dom (map_of (serverIconic c)) - {wid}"
    "world ?c = win_Destroy env w (world c)"
    "focused ?c = (if focused c = wid then 0 else focused c)"
    by (auto simp: forgetWindow_def on_world_def delete_conv')
  have inverse: "inverse_maps ((registry c)(wid := None)) ((map_of (byLocal c))(w := None))"
    and ran: "ran ((registry c)(wid := None)) = live (world c) - {w}"
    using i inverse_maps_remove [of "registry c" "map_of (byLocal c)" wid w] assms(2) by simp_all
  have "dom (map_of (iconified c)) - {wid} \<subseteq> dom (registry c) - {wid}"
    "dom (map_of (serverIconic c)) - {wid} \<subseteq> dom (registry c) - {wid}" using i by blast+
  then show ?thesis
    using i inverse ran destroyed [of "world c" w] unfolding windows_inv_def registry_forgetWindow loc
    by auto
qed

lemma inv_without_stale: "tables_ok c \<Longrightarrow> tables_ok (without_stale env wid c)"
  using inv_forgetWindow by (auto simp: without_stale_def registry_def split: option.split)

lemma inv_handleLostWindow: "tables_ok c \<Longrightarrow> tables_ok (handleLostWindow env p c)"
  using inv_forgetWindow
  by (auto simp: handleLostWindow_def with_window_def registry_def split: option.split)

lemma inv_send [simp]: "tables_ok (send p c) = tables_ok c"
proof -
  have "registry (send p c) = registry c" by (rule registry_cong) simp
  then show ?thesis by (simp add: windows_inv_def)
qed

lemma inv_handleNewWindow:
  assumes "tables_ok c"
  shows "tables_ok (handleNewWindow env p ovr c)"
proof (rule handleNewWindow_cases [of env ovr p c])
  let ?c0 = "without_stale env (pkt_Int p 1) c"
  have c0: "tables_ok ?c0" using assms by (rule inv_without_stale)
  then have sound: "sound (world ?c0)" by (simp add: windows_inv_def)
  {
    fix d
    assume new: "NewWindow env (pkt_Int p 2) (pkt_Int p 3) (fst (packetWindowSize p))
        (snd (packetWindowSize p)) (ovr \<or> dict_Bool (pkt_Dict p 6) ''override-redirect'')
        (world ?c0) = (None, d)"
      and eq: "handleNewWindow env p ovr c = ?c0\<lparr>world := d\<rparr>"
    show ?thesis unfolding eq
      using refused [OF sound new] by (intro windows_inv_undisturbed [OF c0] undisturbedI) simp_all
  next
    fix w d c3 c4
    assume new: "NewWindow env (pkt_Int p 2) (pkt_Int p 3) (fst (packetWindowSize p))
        (snd (packetWindowSize p)) (ovr \<or> dict_Bool (pkt_Dict p 6) ''override-redirect'')
        (world ?c0) = (Some w, d)"
      and c3: "c3 = on_world (win_Map env w) (applyStates env (pkt_Int p 1) w (pkt_Dict p 6)
         (on_world (win_SetTitle env w (dict_Str (pkt_Dict p 6) ''title'')) (?c0\<lparr>world := d\<rparr>)))"
      and c4: "c4 = c3\<lparr>windows := AList.update (pkt_Int p 1) w (windows c3),
        byLocal := AList.update w (pkt_Int p 1) (byLocal c3)\<rparr>"
      and eq: "handleNewWindow env p ovr c =
        (if ovr \<or> dict_Bool (pkt_Dict p 6) ''override-redirect'' then c4
         else send (map_packet (cl_monitors c4) (pkt_Int p 1)
           (pkt_Int p 2, pkt_Int p 3, fst (packetWindowSize p), snd (packetWindowSize p))) c4)"
    note fresh = created [OF sound new]
    have reg3: "registry c3 = registry ?c0" "byLocal c3 = byLocal ?c0"
      using registry_cong [of c3 ?c0] windows_part_eq [of c3 ?c0] by (simp_all add: c3)
    have world3: "sound (world c3)" "live (world c3) = insert w (live (world ?c0))"
      unfolding c3 using fresh display_keepsD applyStates_live by simp_all
    have flags: "iconified c3 = iconified ?c0" "focused c3 = focused ?c0"
      "dom (map_of (serverIconic c3)) \<subseteq> insert (pkt_Int p 1) (dom (map_of (serverIconic ?c0)))"
      using applyStates_flags [of "pkt_Int p 1" w "pkt_Dict p 6"
          "on_world (win_SetTitle env w (dict_Str (pkt_Dict p 6) ''title'')) (?c0\<lparr>world := d\<rparr>)"]
      by (simp_all add: c3)
    have none: "registry ?c0 (pkt_Int p 1) = None" by simp
    have reg4: "registry c4 = (registry ?c0)(pkt_Int p 1 := Some w)"
      "map_of (byLocal c4) = (map_of (byLocal ?c0))(w := Some (pkt_Int p 1))"
      using reg3 by (simp_all add: c4 registry_def update_conv')
    note i = c0 [unfolded windows_inv_def]
    have inverse: "inverse_maps (registry c4) (map_of (byLocal c4))"
      unfolding reg4 using i fresh none by (intro inverse_maps_add) simp_all
    have ran: "ran (registry c4) = live (world c4)"
      unfolding reg4 using i none world3 by (simp only: ran_map_upd) (simp add: c4)
    have dom: "dom (registry c4) = insert (pkt_Int p 1) (dom (registry ?c0))"
      unfolding reg4 by simp
    have same: "sound (world c4)" "iconified c4 = iconified ?c0" "focused c4 = focused ?c0"
      "serverIconic c4 = serverIconic c3" using world3 flags by (simp_all add: c4)
    have "tables_ok c4"
      using i inverse ran flags(3) same(1) unfolding windows_inv_def dom same(2-4) by blast
    then show ?thesis unfolding eq by simp
  }
qed

text \<open>Everything else opens and closes no window.\<close>

lemma on_world_calm: "keeps_windows sound live f \<Longrightarrow> calm c (on_world f c)"
  by (rule undisturbedI) (simp_all add: keeps_windowsD)

lemma call_display_calm: "keeps_windows sound live (\<lambda>d. snd (f d)) \<Longrightarrow> calm c (call_display f c)"
  unfolding call_display_def by (rule on_world_calm)

lemma calm_refl [simp]: "calm c c"
  by (rule undisturbedI) simp_all

lemma calm_world:
  "(sound (world c) \<Longrightarrow> sound d \<and> live d = live (world c)) \<Longrightarrow> calm c (c\<lparr>world := d\<rparr>)"
  by (rule undisturbedI) simp_all

lemma tables_ok_cong:
  assumes "windows_part c' = windows_part c" "iconic_part c' = iconic_part c" "focused c' = focused c"
    "world c' = world c" and "tables_ok c"
  shows "tables_ok c'"
  by (rule windows_inv_undisturbed [OF assms(5)], rule undisturbedI) (simp_all add: assms)

lemma tables_ok_window_handlers:
  assumes "tables_ok c"
  shows "tables_ok (handleMoveResize env p c)" "tables_ok (handleMetadata env p c)"
    "tables_ok (handleRaiseWindow env p c)" "tables_ok (handleBell env p c)"
    "tables_ok (handleShowDesktop env p c)"
proof -
  note keep = windows_inv_undisturbed [OF assms]
  show "tables_ok (handleMoveResize env p c)"
    by (rule keep) (auto simp: handleMoveResize_def with_window_def Let_def call_display_calm MoveResize
        split: option.split prod.split)
  show "tables_ok (handleRaiseWindow env p c)"
    by (rule keep) (auto simp: handleRaiseWindow_def with_window_def on_world_calm Raise
        split: option.split)
  show "tables_ok (handleBell env p c)"
    by (rule keep) (auto simp: handleBell_def on_world_calm Bell)
  show "tables_ok (handleShowDesktop env p c)"
    by (rule keep) (auto simp: handleShowDesktop_def Let_def Minimize
        intro!: on_world_calm keeps_windows_fold)
  show "tables_ok (handleMetadata env p c)"
  proof (cases "registry c (pkt_Int p 1)")
    case None
    then show ?thesis using assms by (simp add: handleMetadata_def with_window_def registry_def)
  next
    case (Some w)
    let ?c = "if dict_Has (pkt_Dict p 2) ''title''
      then on_world (win_SetTitle env w (dict_Str (pkt_Dict p 2) ''title'')) c else c"
    have "registry ?c = registry c" by (rule registry_cong) simp
    moreover have "tables_ok ?c" by (rule keep) (simp add: on_world_calm SetTitle)
    ultimately have "tables_ok (applyStates env (pkt_Int p 1) w (pkt_Dict p 2) ?c)"
      using Some by (intro windows_inv_undisturbed [OF _ calm_applyStates]) auto
    then show ?thesis using Some by (simp add: handleMetadata_def with_window_def registry_def Let_def)
  qed
qed

lemma tables_ok_picture_handlers:
  assumes "tables_ok c"
  shows "tables_ok (handleDraw env p c)" "tables_ok (handleCursor env p c)"
    "tables_ok (handleCursorData env p c)" "tables_ok (handleCursorDefault env c)"
    "tables_ok (handleWindowIcon env p c)"
proof -
  note keep = windows_inv_undisturbed [OF assms]
  have png: "calm c (applyCursorPNG env enc data x y c)" for enc data x y
    by (auto simp: applyCursorPNG_def call_display_calm SetCursor split: sum.split)
  have default: "calm c (handleCursorDefault env c)"
    by (simp add: handleCursorDefault_def call_display_calm SetCursor)
  show "tables_ok (handleCursorDefault env c)" by (rule keep [OF default])
  show "tables_ok (handleCursor env p c)" "tables_ok (handleCursorData env p c)"
    by (rule keep; simp add: handleCursor_def handleCursorData_def Let_def png default split: option.split)+
  show "tables_ok (handleWindowIcon env p c)"
    by (rule keep) (auto simp: handleWindowIcon_def call_display_calm SetIcon split: option.split sum.split)
  show "tables_ok (handleDraw env p c)"
  proof (rule handleDraw_shape [of env p c])
    fix t message d
    assume eq: "handleDraw env p c =
        send (ack_packet (BackwardsCompatible env) (pkt_Int p 1) (pkt_Int p 4) (pkt_Int p 5) (pkt_Int p 8)
          t message) (releasePixels (draw_cursor p c) (c\<lparr>world := d\<rparr>))"
      and d: "d = world c \<or> (\<exists>w. map_of (windows c) (pkt_Int p 1) = Some w \<and> paints_once env p w (world c) d)"
    have "tables_ok (c\<lparr>world := d\<rparr>)"
      using d Paint [THEN keeps_windowsD] by (intro keep calm_world) (auto simp: paints_once_def)
    then show ?thesis unfolding eq by (elim tables_ok_cong [rotated -1]) simp_all
  qed
qed

lemma SetText_world: "sound d \<Longrightarrow> clip_SetText env s d = (e, d') \<Longrightarrow> sound d' \<and> live d' = live d"
  using SetText [THEN keeps_windowsD, of d s] by simp

lemma applyRemoteClipboard_live:
  "sound (world c) \<Longrightarrow>
   sound (world (applyRemoteClipboard env text c)) \<and>
   live (world (applyRemoteClipboard env text c)) = live (world c)"
  using SetText_world by (auto simp: applyRemoteClipboard_def split: prod.split option.split)

lemma tables_ok_clipboard_handlers:
  assumes "tables_ok c"
  shows "tables_ok (handleClipboardToken env p c)" "tables_ok (handleClipboardData env p c)"
    "tables_ok (handleClipboardContents env p c)" "tables_ok (handleClipboardContentsNone p c)"
    "tables_ok (handleClipboardRequest p c)" "tables_ok (handleClipboardEnableSelections env p c)"
    "tables_ok (handleClipboardStatus env p c)" "tables_ok (handleClipboardChange env text c)"
proof -
  have sound: "sound (world c)" using assms by (simp add: windows_inv_def)
  have taken: "sound (world (applyRemoteClipboard env s c')) \<and>
      live (world (applyRemoteClipboard env s c')) = live (world c)"
    if "world c' = world c" for s c'
    using applyRemoteClipboard_live [of c' s] that sound by simp
  note keep = windows_inv_undisturbed [OF assms undisturbedI]
  show "tables_ok (handleClipboardToken env p c)"
    by (rule keep) (simp_all add: handleClipboardToken_def Let_def taken split: option.split)
  show "tables_ok (handleClipboardData env p c)"
    by (rule keep) (simp_all add: handleClipboardData_def Let_def taken split: option.split)
  show "tables_ok (handleClipboardContents env p c)"
    by (rule keep) (simp_all add: handleClipboardContents_def Let_def taken split: option.split)
  show "tables_ok (handleClipboardContentsNone p c)" "tables_ok (handleClipboardRequest p c)"
    "tables_ok (handleClipboardEnableSelections env p c)" "tables_ok (handleClipboardStatus env p c)"
    "tables_ok (handleClipboardChange env text c)"
    by (rule keep; simp)+
qed

lemma random_world: "sound d \<Longrightarrow> rand_Read env n d = (r, d') \<Longrightarrow> sound d' \<and> live d' = live d"
  using random [THEN keeps_windowsD, of d n] by simp

lemma randomHex_world: "sound d \<Longrightarrow> randomHex env n d = (r, d') \<Longrightarrow> sound d' \<and> live d' = live d"
  by (auto simp: randomHex_def split: prod.splits option.splits dest: random_world)

lemma machineUUID_world: "sound d \<Longrightarrow> machineUUID env d = (r, d') \<Longrightarrow> sound d' \<and> live d' = live d"
  by (auto simp: machineUUID_def split: option.splits if_splits dest: randomHex_world)

lemma buildHello_world:
  "sound d \<Longrightarrow> buildHello env name clip states d = (caps, d') \<Longrightarrow> sound d' \<and> live d' = live d"
  using buildHello_snd [of env name clip states d] machineUUID_world [of d] randomHex_world
  by (metis prod.collapse snd_conv)

lemma tables_ok_sendHello:
  assumes "tables_ok c"
  shows "tables_ok (snd (sendHello env response salt c))"
proof -
  have "sound (world c)" using assms by (simp add: windows_inv_def)
  then have "sound (world (snd (sendHello env response salt c))) \<and>
      live (world (snd (sendHello env response salt c))) = live (world c)"
    using buildHello_world by (simp add: sendHello_def Let_def conn_send_def split: prod.split)
  then show ?thesis by (intro windows_inv_undisturbed [OF assms undisturbedI]) simp_all
qed

lemma tables_ok_stop [simp]: "tables_ok c \<Longrightarrow> tables_ok (stop e c)"
  by (rule tables_ok_cong) simp_all

lemma challengePassword_world:
  assumes "sound (world c)"
    and "challengePassword env descr (c\<lparr>challengeSeen := True\<rparr>) = (r, c\<lparr>challengeSeen := True, world := d\<rparr>)"
  shows "sound d \<and> live d = live (world c)"
proof -
  have "d = world (snd (challengePassword env descr (c\<lparr>challengeSeen := True\<rparr>)))" using assms(2) by simp
  then show ?thesis
    using assms(1) password [THEN keeps_windowsD, OF assms(1), of descr]
    by (auto simp: challengePassword_def split: prod.splits sum.splits)
qed

lemma challengeReply_world:
  "sound d \<Longrightarrow> challengeReply env p pw d = (r, d') \<Longrightarrow> sound d' \<and> live d' = live d"
  by (auto simp: challengeReply_def Let_def split: prod.splits option.splits if_splits dest: random_world)

lemma tables_ok_session_handlers:
  assumes "tables_ok c"
  shows "tables_ok (handleHello env p c)" "tables_ok (handlePing env p c)"
    "tables_ok (handleChallenge env p c)"
proof -
  show "tables_ok (handleHello env p c)" "tables_ok (handlePing env p c)"
    by (rule tables_ok_cong [OF _ _ _ _ assms]; simp)+
  have passed: "tables_ok (c\<lparr>challengeSeen := True, world := d\<rparr>)"
    if "sound d" "live d = live (world c)" for d
    using that assms by (intro windows_inv_undisturbed [OF assms undisturbedI]) simp_all
  have sound: "sound (world c)" using assms by (simp add: windows_inv_def)
  show "tables_ok (handleChallenge env p c)"
  proof (rule handleChallenge_shape [of c env p])
    assume "handleChallenge env p c = stop (Some PasswordRejected) c"
    then show ?thesis using assms by simp
  next
    fix e d
    assume pw: "challengePassword env (pkt_Str p 5) (c\<lparr>challengeSeen := True\<rparr>) =
        (Inl e, c\<lparr>challengeSeen := True, world := d\<rparr>)"
      and eq: "handleChallenge env p c = stop (Some e) (c\<lparr>challengeSeen := True, world := d\<rparr>)"
    show ?thesis unfolding eq using passed challengePassword_world [OF sound pw] by simp
  next
    fix password d1 e d
    assume pw: "challengePassword env (pkt_Str p 5) (c\<lparr>challengeSeen := True\<rparr>) =
        (Inr password, c\<lparr>challengeSeen := True, world := d1\<rparr>)"
      and reply: "challengeReply env p password d1 = (Inl e, d)"
      and eq: "handleChallenge env p c =
        stop (Some (Authentication e)) (c\<lparr>challengeSeen := True, world := d\<rparr>)"
    show ?thesis unfolding eq
      using passed challengePassword_world [OF sound pw] challengeReply_world [OF _ reply] by simp
  next
    fix password d1 response salt d
    assume pw: "challengePassword env (pkt_Str p 5) (c\<lparr>challengeSeen := True\<rparr>) =
        (Inr password, c\<lparr>challengeSeen := True, world := d1\<rparr>)"
      and reply: "challengeReply env p password d1 = (Inr (response, salt), d)"
      and eq: "handleChallenge env p c =
        (case sendHello env response salt (c\<lparr>challengeSeen := True, world := d\<rparr>) of
           (Some err, c2) \<Rightarrow> stop (Some (ResponseNotSent err)) c2 | (None, c2) \<Rightarrow> c2)"
    have "tables_ok (c\<lparr>challengeSeen := True, world := d\<rparr>)"
      using passed challengePassword_world [OF sound pw] challengeReply_world [OF _ reply] by simp
    then show ?thesis unfolding eq sendHello_case
      by (auto simp: tables_ok_sendHello split: option.split)
  qed
qed

lemma tables_ok_event_handlers:
  assumes "tables_ok c"
  shows "tables_ok (handleConfigure env w x y width height c)" "tables_ok (handleMinimized env w b c)"
    "tables_ok (handleCloseRequest w c)" "tables_ok (handleMotion w x y c)"
    "tables_ok (handleButton env w button b x y c)" "tables_ok (handleKey w b name keysym text keycode mods c)"
    "tables_ok (handleFocus w c)" "tables_ok (handleFocusLost w c)"
    "tables_ok (sendFocusLost c)" "tables_ok (sendIconified wid c)"
proof -
  have sound: "sound (world c)" using assms by (simp add: windows_inv_def)
  note keep = windows_inv_undisturbed [OF assms]
  show "tables_ok (handleCloseRequest w c)" "tables_ok (handleMotion w x y c)"
    "tables_ok (handleButton env w button b x y c)" "tables_ok (handleKey w b name keysym text keycode mods c)"
    "tables_ok (sendFocusLost c)" "tables_ok (sendIconified wid c)"
    by (rule tables_ok_cong [OF _ _ _ _ assms]; simp)+
  show "tables_ok (handleFocusLost w c)"
    by (rule keep) (auto simp: undisturbed_def handleFocusLost_def Let_def split: option.split)
  show "tables_ok (handleFocus w c)"
    by (rule keep) (auto simp: undisturbed_def handleFocus_def iconic_part_def
        dest!: lookup_registry split: option.split)
  have "iconified (handleMinimized env w b c) = iconified c \<or>
      (\<exists>wid\<in>dom (registry c). iconified (handleMinimized env w b c) = AList.update wid b (iconified c))"
    by (auto simp: handleMinimized_def Let_def dest!: lookup_registry split: option.split)
  moreover have "serverIconic (handleMinimized env w b c) = serverIconic c"
    by (simp add: handleMinimized_def Let_def split: option.split prod.split)
  ultimately show "tables_ok (handleMinimized env w b c)"
    by (intro keep) (auto simp: undisturbed_def update_conv' split: if_splits)
  have "sound (world (handleConfigure env w x y width height c)) \<and>
      live (world (handleConfigure env w x y width height c)) = live (world c)"
    using Resized [THEN keeps_windowsD, OF sound] sound
    by (auto simp: handleConfigure_def Let_def split: option.split prod.split) (metis snd_conv)+
  then show "tables_ok (handleConfigure env w x y width height c)"
    by (intro keep undisturbedI) simp_all
qed

end

sublocale display_contract \<subseteq> tables: client_invariant env desktop "windows_inv sound live"
proof
  fix c p
  assume ok: "tables_ok c"
  show "tables_ok (handlePacket env p c)"
    by (rule handlePacket_rule [where P = tables_ok])
      (simp_all only: ok tables_ok_stop tables_ok_session_handlers tables_ok_window_handlers
        tables_ok_picture_handlers tables_ok_clipboard_handlers inv_handleNewWindow inv_handleLostWindow)
next
  fix c ev
  assume ok: "tables_ok c"
  then have "tables_ok (sendDisconnect env ''client exit'' c)" by (simp add: sendDisconnect_def)
  then show "tables_ok (handleUIEvent env ev c)"
    by - (rule handleUIEvent_rule [where P = tables_ok],
      simp_all only: ok tables_ok_stop tables_ok_event_handlers tables_ok_clipboard_handlers)
next
  fix c d
  assume "tables_ok c" "desktop (world c) d"
  then show "tables_ok (c\<lparr>world := d\<rparr>)"
    using moves by (intro windows_inv_undisturbed [OF _ calm_world]) (auto simp: windows_inv_def)
qed (auto intro!: tables_ok_event_handlers tables_ok_sendHello elim!: tables_ok_cong [rotated -1])

end
