(* ===== verification/X11_Client.thy ===== *)
theory X11_Client
  imports X11_Display Client_Registry
begin

text \<open>
  The client on the X11 backend.  \<open>x11_env\<close> puts the operations of the backend where the client
  expects those of a display; what is not the display comes from another environment \<open>base\<close>,
  whose state is \<open>x_others\<close>.  The backend meets the contract the client relies on.
\<close>

definition on_others :: "('o \<Rightarrow> 'r \<times> 'o) \<Rightarrow> 'o x11 \<Rightarrow> 'r \<times> 'o x11" where
  "on_others f d = (case f (x_others d) of (r, rest) \<Rightarrow> (r, d\<lparr>x_others := rest\<rparr>))"

definition x11_env :: "xserver \<Rightarrow> 'o env \<Rightarrow> 'o x11 env" where
  "x11_env srv base =
     \<lparr>BackwardsCompatible = BackwardsCompatible base,
      NewWindow = x11_NewWindow srv,
      win_Geometry = x11_Geometry,
      win_SetTitle = x11_SetTitle,
      win_SetIcon = x11_SetIcon srv,
      win_Map = x11_Map,
      win_Raise = x11_Raise,
      win_Minimize = x11_Minimize,
      win_Destroy = x11_Destroy,
      win_MoveResize = x11_MoveResize srv,
      win_Resized = x11_Resized srv,
      win_Paint = x11_Paint srv,
      win_SetState = Some x11_SetState,
      disp_Bell = x11_Bell,
      disp_SetCursor = x11_SetCursor srv,
      clip_SetText = x11_SetText srv,
      WindowStates = (\<lambda>d. Some x11_WindowStates),
      DesktopSize = (\<lambda>d. Some (x11_DesktopSize srv)),
      Monitors = (\<lambda>d. Some (x11_Monitors srv d)),
      decode_config = decode_config base,
      decode_pixels = decode_pixels base,
      paint_time = (\<lambda>d. paint_time base (x_others d)),
      Getenv = Getenv base,
      Hostname = Hostname base,
      ReadFile = ReadFile base,
      os_Remove = os_Remove base,
      rand_Read = (\<lambda>n. on_others (rand_Read base n)),
      hmac_sha256 = hmac_sha256 base,
      sha256 = sha256 base,
      ask_password = (\<lambda>s. on_others (ask_password base s))\<rparr>"

section \<open>Live windows\<close>

definition x11_live :: "'o x11 \<Rightarrow> window_id set" where
  "x11_live d = ID ` dom (map_of (x_windows d))"

definition x11_fresh :: "'o x11 \<Rightarrow> bool" where
  "x11_fresh d \<longleftrightarrow> distinct (x_ids d) \<and> set (x_ids d) \<inter> dom (map_of (x_windows d)) = {}"

text \<open>The state of the display changes between the client's operations by handling an event.\<close>

definition x11_moves :: "xserver \<Rightarrow> 'o x11 \<Rightarrow> 'o x11 \<Rightarrow> bool" where
  "x11_moves srv d d' \<longleftrightarrow> (\<exists>e. d' = snd (translate srv e d))"

text \<open>Identifiers are only taken, and the set of windows is the same.\<close>

definition x11_calm :: "'o x11 \<Rightarrow> 'o x11 \<Rightarrow> bool" where
  "x11_calm d d' \<longleftrightarrow>
     (\<exists>n. x_ids d' = drop n (x_ids d)) \<and> dom (map_of (x_windows d')) = dom (map_of (x_windows d))"

lemma x11_calm_refl [simp]: "x11_calm d d"
  by (auto simp: x11_calm_def intro: exI [of _ 0])

lemma x11_calm_trans: "x11_calm d d' \<Longrightarrow> x11_calm d' d'' \<Longrightarrow> x11_calm d d''"
  by (auto simp: x11_calm_def)

lemma x11_calm_fresh: "x11_calm d d' \<Longrightarrow> x11_fresh d \<Longrightarrow> x11_fresh d' \<and> x11_live d' = x11_live d"
  using set_drop_subset by (fastforce simp: x11_calm_def x11_fresh_def x11_live_def)

lemma x11_calm_keeps: "(\<And>d. x11_calm d (f d)) \<Longrightarrow> keeps_windows x11_fresh x11_live f"
  unfolding keeps_windows_def using x11_calm_fresh by blast

lemma x11_calm_same: "x_ids d' = x_ids d \<Longrightarrow> x_windows d' = x_windows d \<Longrightarrow> x11_calm d d'"
  by (auto simp: x11_calm_def intro: exI [of _ 0])

lemma x_send_calm [simp]: "x11_calm d (x_send r d')\<longleftrightarrow> x11_calm d d'"
  by (simp add: x11_calm_def)

lemma x_cursor_calm [simp]: "x11_calm d (d'\<lparr>x_cursor := cur\<rparr>) \<longleftrightarrow> x11_calm d d'"
  by (simp add: x11_calm_def)

lemma x_gc_calm [simp]: "x11_calm d (d'\<lparr>x_gc := gc\<rparr>) \<longleftrightarrow> x11_calm d d'"
  by (simp add: x11_calm_def)

lemma x_check_calm: "x_check srv r d = (e, d') \<Longrightarrow> x11_calm d d'"
  by (auto simp: x_check_def intro!: x11_calm_same split: option.splits)

lemma x_check_snd [simp]: "x11_calm d (snd (x_check srv r d))"
  by (rule x_check_calm [of srv r d "fst (x_check srv r d)"]) simp

lemma x_new_id_calm: "x_new_id d = (i, d') \<Longrightarrow> x11_calm d d'"
  by (auto simp: x_new_id_def x11_calm_def intro: exI [of _ 0] exI [of _ 1] split: list.splits)

lemma freePixmap_calm: "freePixmap w d = (w', d') \<Longrightarrow> x11_calm d d'"
  by (auto simp: freePixmap_def split: if_splits)

lemma newPixmap_calm: "newPixmap srv x w d = (e, w', d') \<Longrightarrow> x11_calm d d'"
  by (auto simp: newPixmap_def Let_def split: prod.splits option.splits
      dest!: freePixmap_calm x_new_id_calm x_check_calm intro: x11_calm_trans)

lemma freePixmap_snd [simp]: "x11_calm d (snd (freePixmap w d')) \<longleftrightarrow> x11_calm d d'"
  by (simp add: freePixmap_def)

text \<open>The same relative to an earlier state, to follow a chain of operations.\<close>

lemma x_check_from: "x_check srv r d1 = (e, d2) \<Longrightarrow> x11_calm d d1 \<Longrightarrow> x11_calm d d2"
  using x_check_calm x11_calm_trans by blast

lemma newPixmap_from: "newPixmap srv x w d1 = (e, w', d2) \<Longrightarrow> x11_calm d d1 \<Longrightarrow> x11_calm d d2"
  using newPixmap_calm x11_calm_trans by blast

lemma set_window_calm:
  "map_of (x_windows d) x \<noteq> None \<Longrightarrow> x11_calm d (set_window x w d)"
  by (auto simp: x11_calm_def set_window_def update_conv' intro: exI [of _ 0])

lemma calm_windows: "x11_calm d d' \<Longrightarrow> map_of (x_windows d) x \<noteq> None \<longleftrightarrow> map_of (x_windows d') x \<noteq> None"
  by (auto simp: x11_calm_def)

section \<open>The operations of the backend\<close>

lemma on_window_calm:
  assumes "\<And>w. map_of (x_windows d) (xid_of i) = Some w \<Longrightarrow> x11_calm d (f (xid_of i) w d)"
  shows "x11_calm d (on_window i f d)"
  using assms by (auto simp: on_window_def x_window_def split: option.split)

lemma try_window_calm:
  assumes "\<And>w. map_of (x_windows d) (xid_of i) = Some w \<Longrightarrow> x11_calm d (snd (f (xid_of i) w d))"
  shows "x11_calm d (snd (try_window i f d))"
  using assms by (auto simp: try_window_def x_window_def split: option.split)

lemma set_window_after:
  "x11_calm d d' \<Longrightarrow> map_of (x_windows d) x = Some w0 \<Longrightarrow> x11_calm d (set_window x w d')"
  using set_window_calm [of d' x w] calm_windows [of d d' x] by (auto intro: x11_calm_trans)

lemma publishInitialState_calm: "publishInitialState x w d = (w', d') \<Longrightarrow> x11_calm d d'"
  by (auto simp: publishInitialState_def publishInitialNetWMState_def Let_def split: if_splits)

lemma fold_calm: "(\<And>x d. x11_calm d (f x d)) \<Longrightarrow> x11_calm d (fold f xs d)"
  by (induction xs arbitrary: d) (auto intro: x11_calm_trans)

lemma putImage_calm: "x11_calm d (putImage srv pixmap x y width height data d)"
  unfolding putImage_def Let_def by (rule fold_calm) simp

lemma window_ops_calm:
  "x11_calm d (x11_SetTitle i title d)"
  "x11_calm d (snd (x11_SetIcon srv i icon d))"
  "x11_calm d (x11_Map i d)"
  "x11_calm d (x11_Raise i d)"
  "x11_calm d (x11_Minimize i b d)"
  "x11_calm d (x11_SetState i state b d)"
  "x11_calm d (snd (x11_MoveResize srv i x y width height d))"
  "x11_calm d (snd (x11_Resized srv i x y width height d))"
  "x11_calm d (snd (x11_Paint srv i x y width height px stride fmt d))"
proof -
  have resized: "x11_calm d (snd (with_newPixmap srv x w d'))"
    if "x11_calm d d'" "map_of (x_windows d) x = Some w0" for d d' :: "'a x11" and x w w0
    using that by (auto simp: with_newPixmap_def split: prod.split
        intro!: set_window_after dest: newPixmap_calm intro: x11_calm_trans)
  show "x11_calm d (x11_SetTitle i title d)"
    unfolding x11_SetTitle_def by (rule on_window_calm) simp
  show "x11_calm d (snd (x11_SetIcon srv i icon d))"
    unfolding x11_SetIcon_def
    by (rule try_window_calm) (auto split: option.split sum.split intro: x_check_calm prod.collapse [symmetric])
  show "x11_calm d (x11_Map i d)"
    unfolding x11_Map_def
    by (rule on_window_calm) (auto simp: Let_def split: prod.split
        intro!: set_window_after dest: publishInitialState_calm)
  show "x11_calm d (x11_Raise i d)"
    unfolding x11_Raise_def by (rule on_window_calm) (simp add: Let_def)
  show "x11_calm d (x11_Minimize i b d)"
    unfolding x11_Minimize_def by (rule on_window_calm) (auto simp: Let_def intro!: set_window_after)
  show "x11_calm d (x11_SetState i state b d)"
    unfolding x11_SetState_def
    by (rule on_window_calm) (auto split: option.split intro!: set_window_after)
  show "x11_calm d (snd (x11_MoveResize srv i x y width height d))"
    unfolding x11_MoveResize_def
    by (rule try_window_calm) (auto simp: Let_def split: prod.split intro!: resized set_window_after)
  show "x11_calm d (snd (x11_Resized srv i x y width height d))"
    unfolding x11_Resized_def
    by (rule try_window_calm) (auto simp: Let_def split: prod.split intro!: resized set_window_after)
  show "x11_calm d (snd (x11_Paint srv i x y width height px stride fmt d))"
    unfolding x11_Paint_def
    by (rule try_window_calm) (auto simp: Let_def split: option.split converted.split prod.split
        intro!: putImage_calm x11_calm_same)
qed

lemma deferring_calm: "(\<And>d. x11_calm d (snd (f d))) \<Longrightarrow> x11_calm d (snd (deferring r f d))"
  by (metis (no_types, lifting) deferring_def case_prod_beta snd_conv x_send_calm)

lemma allocating_calm: "(\<And>i d. x11_calm d (snd (f i d))) \<Longrightarrow> x11_calm d (snd (allocating srv what req f d))"
  by (auto simp: allocating_def split: prod.split option.split
      dest!: x_new_id_calm x_check_calm intro: x11_calm_trans)

lemma upload_rows_calm: "x11_calm d (snd (upload_rows srv pixmap width stride data ps d))"
  by (induction ps arbitrary: d)
    (auto split: prod.split option.split dest!: x_check_calm intro: x11_calm_trans)

lemma createCursor_calm: "x11_calm d (snd (createCursor srv c d))"
proof -
  have piece: "x11_calm d (snd (case upload_rows srv pixmap width stride data ps d of
        (Some e, d1) \<Rightarrow> (Inl e, d1) | (None, d1) \<Rightarrow> f d1))"
    if "\<And>d. x11_calm d (snd (f d))" for pixmap width stride data ps f and d :: "'a x11"
    using upload_rows_calm [of d srv pixmap width stride data ps] that
    by (auto split: prod.split option.split intro: x11_calm_trans)
  show ?thesis
    unfolding createCursor_def Let_def
    by (auto split: option.split intro!: allocating_calm deferring_calm piece)
qed

lemma SetCursor_calm: "x11_calm d (snd (x11_SetCursor srv img d))"
proof -
  have set: "x11_calm d (snd (case r of (Inl e, d1) \<Rightarrow> (Some e, d1)
      | (Inr cur, d1) \<Rightarrow>
          let d2 = fold (\<lambda>(x, w). x_send (SetCursorOf x cur)) (x_windows d1) d1;
              old = x_cursor d2; d3 = d2\<lparr>x_cursor := cur\<rparr>
          in (None, if old \<noteq> 0 then x_send (FreeCursor old) d3 else d3)))"
    if "x11_calm d (snd r)" for r and d :: "'a x11"
  proof -
    have "x11_calm d (fold (\<lambda>(x, w). x_send (SetCursorOf x cur)) ws d2)" if "x11_calm d d2"
      for ws :: "(xid \<times> x11_window) list" and cur d2
      by (rule x11_calm_trans [OF that fold_calm]) (simp add: case_prod_beta)
    then show ?thesis
      using that by (cases r; cases "fst r") (simp_all add: Let_def)
  qed
  show ?thesis
    unfolding x11_SetCursor_def
    by (rule set) (simp add: createCursor_calm split: option.split)
qed

lemma put_clip_calm [simp]: "x11_calm d (put_clip c d') \<longleftrightarrow> x11_calm d d'"
  by (simp add: put_clip_def x11_calm_def)

lemma SetText_calm: "x11_calm d (snd (x11_SetText srv txt d))"
  by (auto simp: x11_SetText_def split: option.split prod.split dest!: x_check_calm intro: x11_calm_trans)
    (use put_clip_calm x11_calm_refl x11_calm_trans in blast)+

section \<open>Opening and closing\<close>

text \<open>Whatever becomes of it, a new window takes the first identifier.\<close>

lemma NewWindow_shape:
  assumes "x11_NewWindow srv x y w h ovr d = (r, d')"
  shows "r = None \<and> x11_calm d d' \<or>
    (\<exists>xid ids win d1. x_ids d = xid # ids \<and> r = Some (ID xid) \<and> x11_calm (d\<lparr>x_ids := ids\<rparr>) d1 \<and>
       d' = set_window xid win d1)"
proof (cases "x_ids d")
  case Nil
  then show ?thesis using assms by (auto simp: x11_NewWindow_def x_new_id_def split: prod.splits)
next
  case (Cons xid ids)
  let ?d = "d\<lparr>x_ids := ids\<rparr>"
  have start: "x11_calm d ?d" using Cons by (auto simp: x11_calm_def intro: exI [of _ 1])
  have "r = None \<and> x11_calm ?d d' \<or>
      (\<exists>win d1. r = Some (ID xid) \<and> x11_calm ?d d1 \<and> d' = set_window xid win d1)"
    using assms Cons
    by (auto simp: x11_NewWindow_def x_new_id_def Let_def split: prod.splits option.splits if_splits
        dest!: x_check_from [where d = ?d] newPixmap_from [where d = ?d])
  then show ?thesis using Cons start x11_calm_trans by blast
qed

lemma NewWindow_fresh:
  assumes "x11_fresh d" "x11_NewWindow srv x y w h ovr d = (Some i, d')"
  shows "x11_fresh d' \<and> i \<notin> x11_live d \<and> x11_live d' = insert i (x11_live d)"
proof -
  obtain xid ids win d1 where *: "x_ids d = xid # ids" "i = ID xid" "x11_calm (d\<lparr>x_ids := ids\<rparr>) d1"
    "d' = set_window xid win d1"
    using NewWindow_shape [OF assms(2)] by auto
  obtain n where ids: "x_ids d1 = drop n ids" and dom: "dom (map_of (x_windows d1)) = dom (map_of (x_windows d))"
    using *(3) by (auto simp: x11_calm_def)
  have new: "xid \<notin> dom (map_of (x_windows d))" "distinct (drop n ids)" "xid \<notin> set (drop n ids)"
    "set (drop n ids) \<inter> dom (map_of (x_windows d)) = {}"
    using assms(1) *(1) set_drop_subset [of n ids] by (auto simp: x11_fresh_def)
  have dom': "dom (map_of (x_windows d')) = insert xid (dom (map_of (x_windows d)))"
    using dom by (simp add: *(4) set_window_def update_conv')
  then show ?thesis using new ids *(2) unfolding x11_fresh_def x11_live_def dom'
    by (auto simp: *(4) set_window_def)
qed

lemma NewWindow_refused: "x11_NewWindow srv x y w h ovr d = (None, d') \<Longrightarrow> x11_calm d d'"
  using NewWindow_shape [of srv x y w h ovr d None d'] by auto

lemma NewWindow_refused_fresh:
  "x11_fresh d \<Longrightarrow> x11_NewWindow srv x y w h ovr d = (None, d') \<Longrightarrow>
   x11_fresh d' \<and> x11_live d' = x11_live d"
  using NewWindow_refused x11_calm_fresh by blast

lemma Destroy_live:
  assumes "x11_fresh d"
  shows "x11_fresh (x11_Destroy i d) \<and> x11_live (x11_Destroy i d) = x11_live d - {i}"
proof (cases "x_window i d")
  case None
  then have "i \<notin> x11_live d" by (auto simp: x11_live_def)
  then show ?thesis using assms None by (simp add: x11_Destroy_def on_window_def)
next
  case (Some w)
  then have i: "i = ID (xid_of i)" by (simp add: x_window_Some)
  let ?d = "d\<lparr>x_windows := AList.delete (xid_of i) (x_windows d)\<rparr>"
  have calm: "x11_calm ?d (x11_Destroy i d)"
    using Some by (auto simp: x11_Destroy_def on_window_def freePixmap_def)
  have "dom (map_of (x_windows ?d)) = dom (map_of (x_windows d)) - {xid_of i}"
    by (simp add: delete_conv')
  then have "x11_fresh ?d" "x11_live ?d = x11_live d - {i}"
    using assms i by (auto simp: x11_fresh_def x11_live_def)
  then show ?thesis using x11_calm_fresh [OF calm] by simp
qed

section \<open>Events\<close>

lemma clipboard_event_calm:
  "(\<And>c d. x11_calm d (snd (f c d))) \<Longrightarrow> x11_calm d (snd (clipboard_event f d))"
  by (auto simp: clipboard_event_def split: option.split prod.split) (metis snd_conv)

lemma request_selection_calm: "x11_calm d (request_selection srv c target time d)"
  by (simp add: request_selection_def)

lemma offer_text_calm: "x11_calm d (snd (offer_text srv c requestor property target d))"
  by (auto simp: offer_text_def succeeded_def Let_def split: prod.split option.split
      dest!: x_check_calm intro: x11_calm_trans)

lemma continue_transfer_calm: "x11_calm d (continue_transfer srv c window property state d)"
  by (auto simp: continue_transfer_def Let_def split: option.split intro!: x11_calm_same)

lemma selectionRequest_calm:
  "x11_calm d (selectionRequest srv c time owner requestor selection target property d)"
  using offer_text_calm [of d srv c requestor _ target]
  by (simp add: selectionRequest_def Let_def succeeded_def case_prod_beta)

lemma ownerChanged_calm: "x11_calm d (snd (ownerChanged srv c selection owner time d))"
  by (simp add: ownerChanged_def Let_def request_selection_calm)

lemma selectionNotify_calm: "x11_calm d (snd (selectionNotify srv c requestor selection property time d))"
  using request_selection_calm by (simp add: selectionNotify_def request_selection_def Let_def split: option.split)

lemma propertyNotify_calm: "x11_calm d (snd (propertyNotify srv c window property state d))"
  by (simp add: propertyNotify_def receive_piece_def Let_def continue_transfer_calm split: option.split)

lemma wmStateChanged_calm: "x11_calm d (snd (wmStateChanged srv x state d))"
  by (auto simp: wmStateChanged_def Let_def split: option.split intro!: x11_calm_same)

lemma translate_calm: "x11_calm d (snd (translate srv e d))"
proof (cases e)
  case (DestroyNotify x)
  then show ?thesis by (auto simp: translate_def intro!: x11_calm_same)
qed (auto simp: translate_def wmStateChanged_calm ownerChanged_calm selectionNotify_calm
    selectionRequest_calm propertyNotify_calm intro!: clipboard_event_calm)

section \<open>The contract\<close>

lemma on_others_calm: "x11_calm d (snd (on_others f d))"
  by (auto simp: on_others_def split: prod.split intro!: x11_calm_same)

lemma Bell_calm: "x11_calm d (x11_Bell percent pitch duration name d)"
  by (simp add: x11_Bell_def)

interpretation x11: display_contract "x11_env srv base" "x11_moves srv" x11_fresh x11_live
proof unfold_locales
  fix d d' :: "'a x11"
  assume "x11_moves srv d d'" "x11_fresh d"
  then show "x11_fresh d' \<and> x11_live d' = x11_live d"
    using x11_calm_fresh [OF translate_calm] unfolding x11_moves_def by blast
qed (auto simp: x11_env_def NewWindow_fresh Destroy_live SetCursor_calm SetText_calm on_others_calm Bell_calm
    intro!: x11_calm_keeps window_ops_calm dest: NewWindow_fresh NewWindow_refused_fresh)

section \<open>The start\<close>

lemma newClipboard_calm: "x11_calm d (newClipboard srv d)"
  by (auto simp: newClipboard_def request_selection_def split: prod.split option.split
      dest!: x_check_from [where d = d] x_new_id_calm)

lemma Open_fresh:
  assumes "x11_Open srv ids others = Inr d" and "distinct ids"
  shows "x11_fresh d" "x11_live d = {}"
proof -
  let ?d0 = "\<lparr>x_log = [], x_ids = ids, x_windows = [], x_cursor = 0, x_iconic = [],
    x_clipboard = None, x_gc = 0, x_format = 0, x_panicked = False, x_done = False, x_others = others\<rparr>"
  obtain d1 f where d1: "createGC srv ?d0 = (None, d1)" and d: "d = newClipboard srv (d1\<lparr>x_format := f\<rparr>)"
    using assms(1) by (auto simp: x11_Open_def bind_res_eq_Inr split: option.splits prod.splits)
  have "x11_calm ?d0 d1"
    using d1 x_new_id_calm [of ?d0] x_check_from [where d = ?d0]
    by (auto simp: createGC_def split: prod.splits option.splits)
  then have "x11_calm ?d0 (d1\<lparr>x_format := f\<rparr>)" by (simp add: x11_calm_def)
  then have "x11_calm ?d0 d" using newClipboard_calm x11_calm_trans d by blast
  moreover have "x11_fresh ?d0" "x11_live ?d0 = {}" using assms(2) by (simp_all add: x11_fresh_def x11_live_def)
  ultimately show "x11_fresh d" "x11_live d = {}" using x11_calm_fresh by blast+
qed

end
