(* ===== verification/Properties_Client.thy ===== *)
theory Properties_Client
  imports Client_Packets X11_Client
begin

text \<open>
  What the client guarantees: its window tables, the packets it sends, drawing, the handshake,
  the clipboard, input and focus.  The examples run the client on an X server that refuses
  nothing.
\<close>

section \<open>An environment for the examples\<close>

definition example_server :: xserver where
  "example_server =
     \<lparr>xs_refuses = (\<lambda>log r. None), xs_depth = 24, xs_width = 1920, xs_height = 1080,
      xs_max_request = 0xffff, xs_msb_first = False,
      xs_formats = Some [\<lparr>pf_Id = 90, pf_Direct = True, pf_Depth = 32, pf_Red = (16, 0xff),
        pf_Green = (8, 0xff), pf_Blue = (0, 0xff), pf_Alpha = (24, 0xff)\<rparr>],
      xs_xfixes = False, xs_wm_state = (\<lambda>log x. Some StateIconic), xs_property = (\<lambda>log x a. None),
      xs_owner = (\<lambda>log a. None), xs_keysym = (\<lambda>k column. 0), xs_keysym_table = (\<lambda>k. []),
      xs_monitors = (\<lambda>log. None), xs_intern = (\<lambda>name. Some (of_nat (length name)))\<rparr>"

definition example_base :: "unit env" where
  "example_base =
     \<lparr>BackwardsCompatible = False, NewWindow = (\<lambda>x y w h b d. (None, d)),
      win_Geometry = (\<lambda>i d. (0, 0, 0, 0)), win_SetTitle = (\<lambda>i s d. d), win_SetIcon = (\<lambda>i s d. (None, d)),
      win_Map = (\<lambda>i d. d), win_Raise = (\<lambda>i d. d), win_Minimize = (\<lambda>i b d. d), win_Destroy = (\<lambda>i d. d),
      win_MoveResize = (\<lambda>i x y w h d. (None, d)), win_Resized = (\<lambda>i x y w h d. (None, d)),
      win_Paint = (\<lambda>i x y w h px s f d. (None, d)), win_SetState = None, disp_Bell = (\<lambda>a b c n d. d),
      disp_SetCursor = (\<lambda>c d. (None, d)), clip_SetText = (\<lambda>s d. (None, d)), WindowStates = (\<lambda>d. None),
      DesktopSize = (\<lambda>d. None), Monitors = (\<lambda>d. None), decode_config = (\<lambda>c b. Inl ''no codec''),
      decode_pixels = (\<lambda>c b. Inl ''no codec''), paint_time = (\<lambda>d. 0), Getenv = (\<lambda>s. []), Hostname = None,
      ReadFile = (\<lambda>s. None), os_Remove = (\<lambda>s. True), rand_Read = (\<lambda>n d. (Some (replicate n 7), d)),
      hmac_sha256 = (\<lambda>k m. k @ m), sha256 = (\<lambda>b. b), ask_password = (\<lambda>s d. (Inl ''no terminal'', d))\<rparr>"

definition example_env :: "unit x11 env" where
  "example_env = x11_env example_server example_base"

definition example_display :: "unit x11" where
  "example_display =
     \<lparr>x_log = [Accepted (CreateGC 1 0)], x_ids = [2, 3, 4, 5], x_windows = [], x_cursor = 0,
      x_iconic = [], x_clipboard = None, x_gc = 1, x_format = 90, x_panicked = False, x_done = False, x_others = ()\<rparr>"

definition example_client :: "unit x11 client" where
  "example_client = newClient example_display newConn True [] []"

definition greeted :: "unit x11 client" where
  "greeted = snd (sendHello example_env [] [] example_client)"

lemma example_open: "x11_Open example_server [1, 2, 3, 4, 5] () = Inr example_display"
  by (simp add: x11_Open_def example_server_def example_display_def createGC_def x_new_id_def
      x_check_def initCursorFormat_def argb32_def newClipboard_def)

lemma greeted_reachable: "client_reachable example_env desktop example_client greeted"
proof -
  have "fst (sendHello example_env [] [] example_client) = None"
    by (rule sendHello_accepted) (simp add: example_client_def newClient_def newConn_def writeQueue_def)
  then have "sendHello example_env [] [] example_client = (None, greeted)"
    by (simp add: greeted_def prod_eq_iff)
  then show ?thesis by (rule client_reachable.hello)
qed

lemma greeted_state:
  "windows greeted = []" "byLocal greeted = []" "world greeted = example_display"
proof -
  have "windows_part greeted = windows_part example_client" by (simp add: greeted_def)
  then show "windows greeted = []" "byLocal greeted = []"
    by (simp_all add: windows_part_eq example_client_def newClient_def)
  show "world greeted = example_display"
    by (simp add: greeted_def sendHello_def Let_def case_prod_beta conn_send_def buildHello_snd
        machineUUID_def machine_id_def randomHex_def example_env_def x11_env_def example_base_def
        on_others_def example_client_def newClient_def example_display_def)
qed

lemma packet_reachable:
  "client_reachable env desktop start c \<Longrightarrow> client_reachable env desktop start (handlePacket env p c)"
  by (erule client_reachable.step, rule client_step.turn [of "GotPacket p"])
    (simp_all add: turn_ready_def run_turn_def)

lemma event_reachable:
  "client_reachable env desktop start c \<Longrightarrow> client_reachable env desktop start (handleUIEvent env ev c)"
  by (erule client_reachable.step, rule client_step.turn [of "GotEvent ev"])
    (simp_all add: turn_ready_def run_turn_def)

definition example_create :: packet where
  "example_create =
     [GString ''window-create'', GInt64 7, GInt64 10, GInt64 20, GInt64 300, GInt64 200,
      GMap [(''title'', GString ''term'')]]"

lemma example_opened: "opened example_env False example_create greeted = Some 2"
proof -
  have "x11_NewWindow example_server 10 20 300 200 False example_display =
      (Some 2, snd (x11_NewWindow example_server 10 20 300 200 False example_display))"
    by (simp add: x11_NewWindow_def example_display_def example_server_def x_new_id_def x_check_def
        ClampSize_def gmin_def gmax_def newPixmap_def freePixmap_def ID_def Let_def)
  then show ?thesis
    by (simp add: opened_def greeted_state example_create_def packetWindowSize_def gmin_def gmax_def
        pkt_Int_def pkt_Dict_def pkt_at_def any_int_def any_dict_def dict_Bool_def dict_get_def
        dict_entry_def any_bool_def example_env_def x11_env_def Let_def prod_eq_iff)
qed

section \<open>Windows\<close>

definition example_window :: "unit x11 client" where
  "example_window = handlePacket example_env example_create greeted"

lemma example_facts [simp]:
  "BackwardsCompatible example_env = False" "Canonical False name = name"
  "pkt_Type example_create = ''window-create''" "pkt_Int example_create (Suc 0) = 7"
  by (simp_all add: example_env_def x11_env_def example_base_def Canonical_def example_create_def
      pkt_Type_def pkt_Str_def pkt_Int_def pkt_at_def any_str_def any_int_def)

lemma example_registry: "registry example_window = [7 \<mapsto> 2]"
  by (simp add: example_window_def registry_handlePacket registry_step_def example_opened)
    (simp add: registry_def greeted_state)

lemma example_lookup: "lookup 2 example_window = Some (7, 2)"
proof -
  have "windows_inv x11_fresh x11_live example_client"
    using Open_fresh [OF example_open] by (simp add: windows_inv_def example_client_def newClient_def
        registry_def inverse_maps_def)
  moreover have "client_reachable (x11_env example_server example_base) (x11_moves example_server)
      example_client example_window"
    unfolding example_window_def example_env_def [symmetric] by (rule packet_reachable [OF greeted_reachable])
  ultimately have "windows_inv x11_fresh x11_live example_window" by (rule x11.tables.reachable [rotated])
  then show ?thesis using example_registry by (subst lookup_iff) (simp_all add: windows_inv_def)
qed


text \<open>C18: On the X11 backend, in every reachable state of the client: the two window tables are
  inverse to each other, so every window is found again by the id its events carry; the windows
  of the display are exactly those in the tables, so none is leaked and none is used after its
  destruction; and the iconic flags and the focus refer to windows the client has.\<close>

theorem windows_consistent:
  assumes "x11_Open srv ids others = Inr d" and "distinct ids"
    and "client_reachable (x11_env srv base) (x11_moves srv) (newClient d conn clip user password) c"
  shows "(lookup w c = Some (wid, w') \<longleftrightarrow> w' = w \<and> map_of (windows c) wid = Some w) \<and>
    ran (map_of (windows c)) = x11_live (world c) \<and>
    dom (map_of (iconified c)) \<union> dom (map_of (serverIconic c)) \<subseteq> dom (map_of (windows c)) \<and>
    (focused c = 0 \<or> focused c \<in> dom (map_of (windows c)))"
proof -
  have "windows_inv x11_fresh x11_live (newClient d conn clip user password)"
    using Open_fresh [OF assms(1,2)]
    by (simp add: windows_inv_def newClient_def registry_def inverse_maps_def)
  then have i: "windows_inv x11_fresh x11_live c"
    by (rule x11.tables.reachable [OF assms(3)])
  have "lookup w c = Some (wid, w') \<longleftrightarrow> w' = w \<and> registry c wid = Some w"
    using i by (intro lookup_iff) (simp add: windows_inv_def)
  then show ?thesis using i by (simp add: windows_inv_def registry_def)
qed

theorem windows_consistent_witness:
  "lookup 2 example_window = Some (7, 2) \<and> x11_live (world example_window) = {2} \<and>
   distinct [1, 2, 3, 4, 5 :: xid]"
proof -
  have reach: "client_reachable (x11_env example_server example_base) (x11_moves example_server)
      (newClient example_display newConn True [] []) example_window"
    unfolding example_window_def example_env_def [symmetric] example_client_def [symmetric]
    by (rule packet_reachable [OF greeted_reachable])
  have ids: "distinct [1, 2, 3, 4, 5 :: xid]" by simp
  note w = windows_consistent [OF example_open ids reach, of 2 7 2]
  have "ran [7 :: gint \<mapsto> 2 :: window_id] = {2}" by simp
  then show ?thesis using w ids example_registry by (simp add: registry_def)
qed

end
