(* ===== verification/Client_Clipboard_Inv.thy ===== *)
theory Client_Clipboard_Inv
  imports Client_Invariants
begin

text \<open>
  The invariant of the clipboard: the text kept is valid and bounded, at most one request is
  under way and it belongs to the latest announcement, and the clipboard is only in use in a
  direction that was agreed on.
\<close>

definition clipboard_inv :: "'d client \<Rightarrow> bool" where
  "clipboard_inv c \<longleftrightarrow>
     (clipboardKnown c \<longrightarrow> utf8_valid (clipboardText c) \<and> length (clipboardText c) \<le> maxClipboardBytes) \<and>
     (clipboardRequests c = [] \<or>
       (\<exists>r. clipboardRequests c = [(nextClipboardRequest c, r)] \<and>
          req_generation r = clipboardGeneration c \<and> isClipboardTextTarget (req_target r))) \<and>
     (clipboardReady c \<longrightarrow> has_clipboard c \<and> (clipboardCanSend c \<or> clipboardCanReceive c))"

lemma clipboard_inv_cong: "clipboard_part c' = clipboard_part c \<Longrightarrow> clipboard_inv c \<Longrightarrow> clipboard_inv c'"
  by (simp add: clipboard_inv_def clipboard_part_eq)

lemma clipboard_inv_frames [simp]:
  "clipboard_inv (send q c) = clipboard_inv c" "clipboard_inv (announce env c) = clipboard_inv c"
  "clipboard_inv (sendClipboardToken env c) = clipboard_inv c"
proof -
  have "clipboard_inv c' = clipboard_inv c" if "clipboard_part c' = clipboard_part c" for c'
    using clipboard_inv_cong that by metis
  note same = this
  show "clipboard_inv (send q c) = clipboard_inv c" "clipboard_inv (announce env c) = clipboard_inv c"
    "clipboard_inv (sendClipboardToken env c) = clipboard_inv c" by (rule same; simp)+
qed

lemma clipboardWireText_valid:
  "clipboardWireText target format encoding v = Some txt \<Longrightarrow> utf8_valid txt"
  by (auto simp: clipboardWireText_def latin1_valid split: if_splits option.splits)

lemma preferredClipboardTarget_text:
  assumes "preferredClipboardTarget ts \<noteq> []"
  shows "isClipboardTextTarget (preferredClipboardTarget ts)"
proof (cases "ts = []")
  case True
  then show ?thesis
    by (simp add: preferredClipboardTarget_def isClipboardTextTarget_def containsString_def clipboardTargets_def)
next
  case False
  then obtain x where x: "find (containsString ts) clipboardTargets = Some x"
    and eq: "preferredClipboardTarget ts = x"
    using assms by (auto simp: preferredClipboardTarget_def split: option.splits)
  from x have "x \<in> set clipboardTargets" by (auto simp: find_Some_iff)
  then show ?thesis using eq by (simp add: isClipboardTextTarget_def containsString_def)
qed

lemma inv_applyRemote: "clipboard_inv c \<Longrightarrow> utf8_valid txt \<Longrightarrow> clipboard_inv (applyRemoteClipboard env txt c)"
  by (auto simp: applyRemoteClipboard_def clipboard_inv_def split: prod.split option.split)

lemma inv_requestRemote:
  "clipboard_inv c \<Longrightarrow> clipboardRequests c = [] \<Longrightarrow> clipboard_inv (requestRemoteClipboard ts c)"
  using preferredClipboardTarget_text [of ts]
  by (auto simp: requestRemoteClipboard_def Let_def clipboard_inv_def)

lemma inv_beginRemote: "clipboard_inv c \<Longrightarrow> clipboard_inv (beginRemoteClipboard c)"
  by (simp add: beginRemoteClipboard_def clipboard_inv_def)

lemma inv_fewer_requests:
  assumes "clipboard_inv c"
  shows "clipboard_inv (c\<lparr>clipboardRequests := AList.delete k (clipboardRequests c)\<rparr>)"
proof -
  consider "clipboardRequests c = []" | r where "clipboardRequests c = [(nextClipboardRequest c, r)]"
    using assms by (auto simp: clipboard_inv_def)
  then show ?thesis
  proof cases
    case 1
    then have "c\<lparr>clipboardRequests := AList.delete k (clipboardRequests c)\<rparr> = c" by simp
    then show ?thesis using assms by (simp only:)
  next
    case 2
    then show ?thesis using assms by (simp add: clipboard_inv_def)
  qed
qed

lemma first_inline_valid: "first_inline items ts = Some txt \<Longrightarrow> utf8_valid txt"
  by (induction items ts rule: first_inline.induct)
    (auto simp: inline_item_def split: option.splits if_splits dest: clipboardWireText_valid)

lemma clipboard_inv_handlers:
  assumes inv: "clipboard_inv c"
  shows "clipboard_inv (handleClipboardToken env p c)" "clipboard_inv (handleClipboardData env p c)"
    "clipboard_inv (handleClipboardContents env p c)" "clipboard_inv (handleClipboardContentsNone p c)"
    "clipboard_inv (handleClipboardRequest p c)" "clipboard_inv (handleClipboardEnableSelections env p c)"
    "clipboard_inv (handleClipboardStatus env p c)" "clipboard_inv (handleClipboardChange env txt c)"
    "clipboard_inv (configureClipboard env caps c)"
proof -
  have none: "clipboardRequests (beginRemoteClipboard c) = []" by (simp add: beginRemoteClipboard_def)
  note begun = inv_beginRemote [OF inv]
  show "clipboard_inv (handleClipboardToken env p c)"
    using inv begun none
    by (auto simp: handleClipboardToken_def Let_def inv_applyRemote inv_requestRemote
        dest: clipboardWireText_valid split: option.split if_splits)
  show "clipboard_inv (handleClipboardData env p c)"
    using inv begun none
    by (auto simp: handleClipboardData_def Let_def inv_applyRemote inv_requestRemote
        dest: first_inline_valid split: option.split)
  show "clipboard_inv (handleClipboardContents env p c)"
    using inv inv_fewer_requests [OF inv]
    by (auto simp: handleClipboardContents_def Let_def inv_applyRemote
        dest: clipboardWireText_valid split: option.split)
  show "clipboard_inv (handleClipboardContentsNone p c)"
    using inv inv_fewer_requests [OF inv] by (simp add: handleClipboardContentsNone_def)
  show "clipboard_inv (handleClipboardRequest p c)"
    by (rule clipboard_inv_cong [OF _ inv]) simp
  show "clipboard_inv (handleClipboardEnableSelections env p c)"
    using inv by (simp add: handleClipboardEnableSelections_def) (auto simp: clipboard_inv_def)
  show "clipboard_inv (handleClipboardStatus env p c)"
    using inv by (simp add: handleClipboardStatus_def Let_def) (auto simp: clipboard_inv_def)
  show "clipboard_inv (handleClipboardChange env txt c)"
    using inv by (simp add: handleClipboardChange_def Let_def) (auto simp: clipboard_inv_def)
  show "clipboard_inv (configureClipboard env caps c)"
    using inv by (simp add: configureClipboard_def Let_def) (auto simp: clipboard_inv_def)
qed

text \<open>A reply has an effect only if it answers the request under way.\<close>

lemma handleClipboardContents_effect:
  assumes inv: "clipboard_inv c"
  shows "(\<exists>rs. set rs \<subseteq> set (clipboardRequests c) \<and> handleClipboardContents env p c = c\<lparr>clipboardRequests := rs\<rparr>) \<or>
    (\<exists>r txt e d. clipboardRequests c = [(pkt_Int p 1, r)] \<and> pkt_Int p 1 = nextClipboardRequest c \<and>
       req_generation r = clipboardGeneration c \<and> utf8_valid txt \<and> length txt \<le> maxClipboardBytes \<and>
       clip_SetText env txt (world c) = (e, d) \<and>
       (if e \<noteq> None then handleClipboardContents env p c = c\<lparr>clipboardRequests := [], world := d\<rparr>
        else handleClipboardContents env p c = c\<lparr>clipboardRequests := [], world := d, clipboardText := txt,
               clipboardKnown := True\<rparr> \<and>
             handleUIEvent env (ClipboardChange txt) (handleClipboardContents env p c) = handleClipboardContents env p c))"
    (is "?quiet \<or> ?effect")
proof -
  let ?k = "pkt_Int p 1"
  let ?c = "c\<lparr>clipboardRequests := AList.delete ?k (clipboardRequests c)\<rparr>"
  have sub: "set (AList.delete ?k (clipboardRequests c)) \<subseteq> set (clipboardRequests c)"
    by (auto simp: AList.delete_eq)
  have shape: "handleClipboardContents env p c = c \<or> handleClipboardContents env p c = ?c \<or>
      (\<exists>r s. map_of (clipboardRequests c) ?k = Some r \<and> utf8_valid s \<and>
         handleClipboardContents env p c = applyRemoteClipboard env s ?c)"
  proof (cases "length p < 7 \<or> map_of (clipboardRequests c) ?k = None")
    case True
    then show ?thesis by (auto simp: handleClipboardContents_def)
  next
    case False
    then obtain r where r: "map_of (clipboardRequests c) ?k = Some r" "\<not> length p < 7" by blast
    show ?thesis
    proof (cases "clipboardWireText (req_target r) (pkt_Int p 4) (pkt_Str p 5) (pkt_at p 6)")
      case None
      then show ?thesis using r by (simp add: handleClipboardContents_def Let_def)
    next
      case (Some s)
      then show ?thesis
        using r clipboardWireText_valid [OF Some] by (simp add: handleClipboardContents_def Let_def) blast
    qed
  qed
  have skip: "applyRemoteClipboard env s ?c = ?c"
    if "\<not> (length s \<le> maxClipboardBytes \<and> \<not> (clipboardKnown c \<and> clipboardText c = s))" for s
    using that by (auto simp: applyRemoteClipboard_def)
  from shape show ?thesis
  proof (elim disjE exE conjE)
    assume "handleClipboardContents env p c = c"
    then have "handleClipboardContents env p c = c\<lparr>clipboardRequests := clipboardRequests c\<rparr>" by simp
    then show ?thesis by blast
  next
    assume "handleClipboardContents env p c = ?c"
    then show ?thesis using sub by blast
  next
    fix r s
    assume known: "map_of (clipboardRequests c) ?k = Some r" and s: "utf8_valid s"
      and eq: "handleClipboardContents env p c = applyRemoteClipboard env s ?c"
    have one: "clipboardRequests c = [(?k, r)]" "?k = nextClipboardRequest c" "req_generation r = clipboardGeneration c"
      using inv known by (auto simp: clipboard_inv_def split: if_splits)
    obtain e d where set: "clip_SetText env s (world c) = (e, d)" by fastforce
    show ?thesis
    proof (cases "length s \<le> maxClipboardBytes \<and> \<not> (clipboardKnown c \<and> clipboardText c = s)")
      case True
      have "?effect"
        by (rule exI [of _ r], rule exI [of _ s], rule exI [of _ e], rule exI [of _ d])
          (use True s one set eq in \<open>auto simp: applyRemoteClipboard_def handleUIEvent_def handleClipboardChange_def\<close>)
      then show ?thesis ..
    next
      case False
      then show ?thesis using sub skip eq by auto
    qed
  qed
qed

interpretation clipboard: client_invariant env desktop clipboard_inv
proof unfold_locales
  fix c :: "'a client" and p
  assume ok: "clipboard_inv c"
  have same: "clipboard_inv c'" if "clipboard_part c' = clipboard_part c" for c' :: "'a client"
    using clipboard_inv_cong that ok by blast
  have "clipboard_inv (handleHello env p c)"
  proof (rule handleHello_shape [of env p c])
    fix e assume "handleHello env p c = stop e c"
    then show ?thesis by (intro same) simp
  next
    fix m
    let ?c = "c\<lparr>mmap := m, serverVersion := dict_Str (pkt_Dict p 1) ''version''\<rparr>"
    assume eq: "handleHello env p c = configurePings (pkt_Dict p 1)
        (configureClipboard env (dict_Dict (pkt_Dict p 1) ''clipboard'') ?c)"
    have "clipboard_inv (configureClipboard env (dict_Dict (pkt_Dict p 1) ''clipboard'') ?c)"
      by (rule clipboard_inv_handlers(9), rule same) simp
    then show ?thesis unfolding eq by (rule clipboard_inv_cong [rotated]) simp
  qed
  then show "clipboard_inv (handlePacket env p c)"
    by - (rule handlePacket_rule [where P = clipboard_inv], simp_all add: ok same clipboard_inv_handlers)
next
  fix c :: "'a client" and ev
  assume ok: "clipboard_inv c"
  have same: "clipboard_inv c'" if "clipboard_part c' = clipboard_part c" for c' :: "'a client"
    using clipboard_inv_cong that ok by blast
  show "clipboard_inv (handleUIEvent env ev c)"
    by (rule handleUIEvent_rule [where P = clipboard_inv])
      (simp_all add: same sendDisconnect_def clipboard_inv_handlers ok)
qed (erule clipboard_inv_cong [rotated]; simp)+

end
