(* ===== verification/Client_Traffic.thy ===== *)
theory Client_Traffic
  imports Client_Invariants
begin

text \<open>
  Who speaks when: the kinds of packets each handler may send.  \<open>sends_only\<close> relates the state
  before a handler to the state after it; \<open>packet_answers\<close> and \<open>event_reports\<close> are the tables of
  what the client sends in response to each packet and each event.
\<close>

section \<open>Sending only some kinds\<close>

definition sends_only :: "string set \<Rightarrow> 'd client \<Rightarrow> 'd client \<Rightarrow> bool" where
  "sends_only names c c' \<longleftrightarrow> (\<exists>ps. sent c' = sent c @ ps \<and> pkt_Type ` set ps \<subseteq> names)"

lemma pkt_Type_Cons [simp]: "pkt_Type (GString name # args) = name"
  by (simp add: pkt_Type_def pkt_Str_def pkt_at_def any_str_def)

lemma sends_only_same: "sent c' = sent c \<Longrightarrow> sends_only N c c'"
  by (auto simp: sends_only_def)

lemma sends_only_refl [simp]: "sends_only N c c"
  by (rule sends_only_same) simp

lemma sends_only_trans [trans]: "sends_only N c c' \<Longrightarrow> sends_only N c' c'' \<Longrightarrow> sends_only N c c''"
proof -
  assume "sends_only N c c'" "sends_only N c' c''"
  then obtain ps qs where "sent c' = sent c @ ps" "pkt_Type ` set ps \<subseteq> N" "sent c'' = sent c' @ qs"
    "pkt_Type ` set qs \<subseteq> N" unfolding sends_only_def by blast
  then have "sent c'' = sent c @ (ps @ qs) \<and> pkt_Type ` set (ps @ qs) \<subseteq> N" by (simp add: image_Un)
  then show "sends_only N c c''" unfolding sends_only_def by blast
qed

lemma sends_only_mono: "sends_only M c c' \<Longrightarrow> M \<subseteq> N \<Longrightarrow> sends_only N c c'"
  unfolding sends_only_def by blast

lemma sends_only_cong: "sent c'' = sent c' \<Longrightarrow> sends_only N c c' \<Longrightarrow> sends_only N c c''"
  by (simp add: sends_only_def)

lemma sends_only_send [simp]: "sends_only N c c' \<Longrightarrow> pkt_Type p \<in> N \<Longrightarrow> sends_only N c (send p c')"
  by (rule sends_only_trans [of N c c']) (auto simp: sends_only_def)

lemma sends_only_update [simp]:
  "sends_only N c (c'\<lparr>world := d\<rparr>) = sends_only N c c'"
  "sends_only N c (c'\<lparr>iconified := i\<rparr>) = sends_only N c c'"
  "sends_only N c (c'\<lparr>iconify_timers := ts\<rparr>) = sends_only N c c'"
  "sends_only N c (c'\<lparr>focus_timers := n\<rparr>) = sends_only N c c'"
  "sends_only N c (c'\<lparr>focusLosing := b\<rparr>) = sends_only N c c'"
  "sends_only N c (c'\<lparr>focused := wid\<rparr>) = sends_only N c c'"
  "sends_only N c (c'\<lparr>mmap := m\<rparr>) = sends_only N c c'"
  "sends_only N c (c'\<lparr>serverVersion := v\<rparr>) = sends_only N c c'"
  "sends_only N c (c'\<lparr>challengeSeen := b\<rparr>) = sends_only N c c'"
  "sends_only N c (c'\<lparr>disconnect_reason := r\<rparr>) = sends_only N c c'"
  "sends_only N c (c'\<lparr>clipboardReady := b\<rparr>) = sends_only N c c'"
  "sends_only N c (c'\<lparr>clipboardCanSend := b\<rparr>) = sends_only N c c'"
  "sends_only N c (c'\<lparr>clipboardCanReceive := b\<rparr>) = sends_only N c c'"
  "sends_only N c (c'\<lparr>clipboardKnown := b\<rparr>) = sends_only N c c'"
  "sends_only N c (c'\<lparr>clipboardText := txt\<rparr>) = sends_only N c c'"
  "sends_only N c (c'\<lparr>clipboardRequests := reqs\<rparr>) = sends_only N c c'"
  "sends_only N c (c'\<lparr>clipboardGeneration := g\<rparr>) = sends_only N c c'"
  "sends_only N c (c'\<lparr>nextClipboardRequest := g\<rparr>) = sends_only N c c'"
  "sends_only N c (stop e c') = sends_only N c c'"
  "sends_only N c (configurePings caps c') = sends_only N c c'"
  "sends_only N c (releasePixels cur c') = sends_only N c c'"
  "sends_only N c (c'\<lparr>windows := ws\<rparr>) = sends_only N c c'"
  "sends_only N c (c'\<lparr>byLocal := bs\<rparr>) = sends_only N c c'"
  "sends_only N c (on_world f c') = sends_only N c c'"
  "sends_only N c (applyStates env wid w metadata c') = sends_only N c c'"
  "sends_only N c (forgetWindow env wid w c') = sends_only N c c'"
  "sends_only N c (beginRemoteClipboard c') = sends_only N c c'"
  "sends_only N c (applyRemoteClipboard env txt c') = sends_only N c c'"
  by (simp_all add: sends_only_def)

section \<open>Each handler\<close>

text \<open>The two protocols differ in a few names.\<close>

definition token_name :: "bool \<Rightarrow> string" where
  "token_name bc = (if bc then ''clipboard-token'' else ''clipboard-data'')"

definition wheel_name :: "bool \<Rightarrow> string" where
  "wheel_name bc = (if bc then ''wheel-motion'' else ''pointer-wheel'')"

definition echo_name :: "bool \<Rightarrow> string" where
  "echo_name bc = (if bc then ''ping_echo'' else ''ping-echo'')"

definition bye_name :: "bool \<Rightarrow> string" where
  "bye_name bc = (if bc then ''disconnect'' else ''connection-close'')"

lemmas name_defs = token_name_def wheel_name_def echo_name_def bye_name_def

lemma map_packet_type [simp]: "pkt_Type (map_packet ms wid g) = ''window-map''"
  by (simp add: map_packet_def split: prod.split)

lemma ack_packet_type [simp]: "pkt_Type (ack_packet bc wid w h s t m) = ''window-draw-ack''"
  by (simp add: ack_packet_def)

lemma focus_packet_type [simp]: "pkt_Type (focus_packet wid) = ''window-focus''"
  by (simp add: focus_packet_def)

lemma sends_windows:
  "sends_only {''window-map''} c (handleNewWindow env p ovr c)"
  "sends_only {''window-draw-ack''} c (handleDraw env p c)"
  "sends_only {''window-configure''} c (handleConfigure env w x y width height c)"
  "sends_only {''window-map''} c (handleMinimized env w b c)"
  "sends_only {''window-close''} c (handleCloseRequest w c)"
  "sends_only {''window-unmap''} c (sendIconified wid c)"
proof -
  show "sends_only {''window-draw-ack''} c (handleDraw env p c)"
    by (rule handleDraw_shape [of env p c]) simp
  show "sends_only {''window-map''} c (handleNewWindow env p ovr c)"
    by (simp add: handleNewWindow_def Let_def split: option.split prod.split)
  show "sends_only {''window-configure''} c (handleConfigure env w x y width height c)"
    by (simp add: handleConfigure_def Let_def split: option.split prod.split)
  show "sends_only {''window-map''} c (handleMinimized env w b c)"
    by (simp add: handleMinimized_def Let_def split: option.split prod.split)
  show "sends_only {''window-close''} c (handleCloseRequest w c)"
    by (simp add: handleCloseRequest_def split: option.split prod.split)
  show "sends_only {''window-unmap''} c (sendIconified wid c)"
    by (simp add: sendIconified_def)
qed

lemma sends_input:
  "sends_only {''pointer-motion''} c (handleMotion w x y c)"
  "sends_only {''pointer-button'', wheel_name (BackwardsCompatible env)} c (handleButton env w button b x y c)"
  "sends_only {''keyboard-event''} c (handleKey w b name keysym text keycode mods c)"
  "sends_only {echo_name (BackwardsCompatible env)} c (handlePing env p c)"
  "sends_only {bye_name (BackwardsCompatible env)} c (sendDisconnect env reason c)"
  "sends_only {''window-focus''} c (handleFocus w c)"
  "sends_only {} c (handleFocusLost w c)"
  "sends_only {''window-focus''} c (sendFocusLost c)"
  by (simp_all add: handleMotion_def handleButton_def handleKey_def handlePing_def sendDisconnect_def
      handleFocus_def handleFocusLost_def sendFocusLost_def Let_def name_defs split: option.split)

lemma sends_token:
  "sends_only N c c' \<Longrightarrow> token_name (BackwardsCompatible env) \<in> N \<Longrightarrow> sends_only N c (sendClipboardToken env c')"
  "sends_only N c c' \<Longrightarrow> token_name (BackwardsCompatible env) \<in> N \<Longrightarrow> sends_only N c (announce env c')"
  by (cases "BackwardsCompatible env"; simp add: announce_def sendClipboardToken_def Let_def token_name_def)+

lemma sends_clipboard:
  "sends_only {''clipboard-request''} c (handleClipboardToken env p c)"
  "sends_only {''clipboard-request''} c (handleClipboardData env p c)"
  "sends_only {''clipboard-contents'', ''clipboard-contents-none''} c (handleClipboardRequest p c)"
  "sends_only {token_name (BackwardsCompatible env)} c (handleClipboardEnableSelections env p c)"
  "sends_only {token_name (BackwardsCompatible env)} c (handleClipboardStatus env p c)"
  "sends_only {token_name (BackwardsCompatible env)} c (handleClipboardChange env txt c)"
  "sends_only {''clipboard-enable-selections'', token_name (BackwardsCompatible env)} c
     (configureClipboard env caps c)"
proof -
  have request: "sends_only {''clipboard-request''} c (requestRemoteClipboard ts (beginRemoteClipboard c))" for ts
    by (simp add: requestRemoteClipboard_def Let_def)
  show "sends_only {''clipboard-request''} c (handleClipboardToken env p c)"
    "sends_only {''clipboard-request''} c (handleClipboardData env p c)"
    by (simp_all add: handleClipboardToken_def handleClipboardData_def Let_def request split: option.split)
  show "sends_only {''clipboard-contents'', ''clipboard-contents-none''} c (handleClipboardRequest p c)"
    by (simp add: handleClipboardRequest_def Let_def)
  show "sends_only {token_name (BackwardsCompatible env)} c (handleClipboardEnableSelections env p c)"
    "sends_only {token_name (BackwardsCompatible env)} c (handleClipboardStatus env p c)"
    "sends_only {token_name (BackwardsCompatible env)} c (handleClipboardChange env txt c)"
    "sends_only {''clipboard-enable-selections'', token_name (BackwardsCompatible env)} c
       (configureClipboard env caps c)"
    by (simp_all add: handleClipboardEnableSelections_def handleClipboardStatus_def sends_token
        handleClipboardChange_def configureClipboard_def Let_def)
qed

lemma sends_hello: "sends_only N c c' \<Longrightarrow> ''hello'' \<in> N \<Longrightarrow> sends_only N c (snd (sendHello env response salt c'))"
  by (erule sends_only_trans) (auto simp: sends_only_def sendHello_def Let_def case_prod_beta)

lemma sends_session:
  "sends_only {''clipboard-enable-selections'', token_name (BackwardsCompatible env)} c (handleHello env p c)"
  "sends_only {''hello''} c (handleChallenge env p c)"
proof -
  let ?N = "{''clipboard-enable-selections'', token_name (BackwardsCompatible env)}"
  show "sends_only ?N c (handleHello env p c)"
  proof (rule handleHello_shape [of env p c])
    fix m
    let ?c = "c\<lparr>mmap := m, serverVersion := dict_Str (pkt_Dict p 1) ''version''\<rparr>"
    assume eq: "handleHello env p c = configurePings (pkt_Dict p 1)
        (configureClipboard env (dict_Dict (pkt_Dict p 1) ''clipboard'') ?c)"
    have "sends_only ?N c ?c" by simp
    also have "sends_only ?N ?c (configureClipboard env (dict_Dict (pkt_Dict p 1) ''clipboard'') ?c)"
      by (rule sends_clipboard)
    finally show ?thesis unfolding eq by simp
  qed simp
  show "sends_only {''hello''} c (handleChallenge env p c)"
    by (rule handleChallenge_shape [of c env p]) (simp_all add: sendHello_case sends_hello split: option.split)
qed

section \<open>The tables\<close>

definition packet_answers :: "bool \<Rightarrow> string \<Rightarrow> string set" where
  "packet_answers bc name =
     (if name = ''hello'' then {''clipboard-enable-selections'', token_name bc}
      else if name = ''challenge'' then {''hello''}
      else if name = ''window-create'' then {''window-map''}
      else if name = ''new-override-redirect'' then {''window-map''}
      else if name = ''window-draw'' then {''window-draw-ack''}
      else if name = ''ping'' then {echo_name bc}
      else if name \<in> {''clipboard-token'', ''clipboard-data''} then {''clipboard-request''}
      else if name = ''clipboard-request'' then {''clipboard-contents'', ''clipboard-contents-none''}
      else if name \<in> {''clipboard-enable-selections'', ''clipboard-status'', ''set-clipboard-enabled''}
      then {token_name bc}
      else {})"

definition event_reports :: "bool \<Rightarrow> ui_event \<Rightarrow> string set" where
  "event_reports bc ev =
     (case ev of
        Configure w x y width height \<Rightarrow> {''window-configure''}
      | Minimized w b \<Rightarrow> {''window-map''}
      | CloseRequest w \<Rightarrow> {''window-close''}
      | ExitRequest \<Rightarrow> {bye_name bc}
      | Motion w x y \<Rightarrow> {''pointer-motion''}
      | Button w button pressed x y \<Rightarrow> {''pointer-button'', wheel_name bc}
      | Key w pressed name keysym text keycode modifiers \<Rightarrow> {''keyboard-event''}
      | Focus w \<Rightarrow> {''window-focus''}
      | FocusLost w \<Rightarrow> {}
      | ClipboardChange text \<Rightarrow> {token_name bc})"

lemma packet_answers_cases:
  "name' \<in> packet_answers bc name \<Longrightarrow>
     name' \<in> {''clipboard-enable-selections'', ''hello'', ''window-map'', ''window-draw-ack'',
       ''clipboard-request'', ''clipboard-contents'', ''clipboard-contents-none'', token_name bc, echo_name bc}"
  unfolding packet_answers_def by (simp split: if_splits) (elim disjE; simp)+

lemma handlePacket_sends:
  "sends_only (packet_answers (BackwardsCompatible env) (Canonical (BackwardsCompatible env) (pkt_Type p))) c
     (handlePacket env p c)"
proof -
  have either: "sends_only N c (if b then x else y)"
    if "b \<Longrightarrow> sends_only N c x" "\<not> b \<Longrightarrow> sends_only N c y" for N b and x y :: "'a client"
    using that by simp
  have legacy: "BackwardsCompatible env \<Longrightarrow> sends_only {token_name True} c (handleClipboardStatus env p c)"
    using sends_clipboard(5) [of env c p] by simp
  show ?thesis
    unfolding handlePacket_def Let_def
    by (intro either; simp add: legacy packet_answers_def sends_windows sends_input sends_clipboard
        sends_session sends_only_same)
qed

lemma handleUIEvent_sends: "sends_only (event_reports (BackwardsCompatible env) ev) c (handleUIEvent env ev c)"
  by (simp add: handleUIEvent_def event_reports_def sends_windows sends_input sends_clipboard split: ui_event.split)

definition turn_sends :: "bool \<Rightarrow> turn \<Rightarrow> string set" where
  "turn_sends bc t =
     (case t of
        GotPacket p \<Rightarrow> packet_answers bc (Canonical bc (pkt_Type p))
      | GotEvent ev \<Rightarrow> event_reports bc ev
      | FocusLostDue \<Rightarrow> {''window-focus''}
      | IconifyDue wid \<Rightarrow> {''window-unmap''}
      | PingDue now \<Rightarrow> {''ping''}
      | DisconnectAsked \<Rightarrow> {bye_name bc}
      | _ \<Rightarrow> {})"

lemma run_turn_sends: "sends_only (turn_sends (BackwardsCompatible env) t) c (fst (run_turn env t c))"
proof -
  have before: "sends_only N c c'" if "sends_only N c0 c'" "sent c0 = sent c" for N c0 and c' :: "'a client"
    using that by (simp add: sends_only_def)
  show ?thesis
    by (cases t) (auto simp: run_turn_def turn_sends_def handlePacket_sends handleUIEvent_sends Let_def
        intro: before [OF sends_input(8)] before [OF sends_windows(6)] before [OF sends_input(5)]
        split: option.split)
qed

section \<open>The packets of one kind\<close>

definition traffic :: "string \<Rightarrow> 'd client \<Rightarrow> packet list" where
  "traffic name c = filter (\<lambda>p. pkt_Type p = name) (sent c)"

lemma traffic_send [simp]:
  "traffic name (send p c) = (if pkt_Type p = name then traffic name c @ [p] else traffic name c)"
  by (simp add: traffic_def)

lemma traffic_quiet: "sends_only N c c' \<Longrightarrow> name \<notin> N \<Longrightarrow> traffic name c' = traffic name c"
  by (fastforce simp: sends_only_def traffic_def filter_empty_conv)

lemma traffic_same: "sent c' = sent c \<Longrightarrow> traffic name c' = traffic name c"
  by (simp add: traffic_def)

end
