(* ===== verification/Client_Focus.thy ===== *)
theory Client_Focus
  imports Client_Traffic
begin

text \<open>
  What the server has been told about the focus: the \<open>window-focus\<close> packets among those sent.
  No other handler sends one, and a loss of focus is reported by at most one timer.
\<close>

abbreviation focus_log :: "'d client \<Rightarrow> packet list" where
  "focus_log \<equiv> traffic ''window-focus''"

lemma focus_log_update [simp]:
  "focus_log (c\<lparr>focus_timers := n\<rparr>) = focus_log c" "focus_log (c\<lparr>focusLosing := b\<rparr>) = focus_log c"
  "focus_log (c\<lparr>focused := wid\<rparr>) = focus_log c"
  by (simp_all add: traffic_def)

section \<open>The invariant\<close>

definition focus_inv :: "'d client \<Rightarrow> bool" where
  "focus_inv c \<longleftrightarrow>
     focus_timers c = (if focusLosing c then 1 else 0) \<and>
     (focused c \<noteq> 0 \<longrightarrow> focus_log c \<noteq> [] \<and> last (focus_log c) = focus_packet (focused c))"

lemma focus_inv_same:
  assumes "focus_timer_part c' = focus_timer_part c" "focused c' = focused c \<or> focused c' = 0"
    "focus_log c' = focus_log c" "focus_inv c"
  shows "focus_inv c'"
  using assms by (auto simp: focus_inv_def focus_timer_part_def)

lemma focus_inv_handlers:
  assumes "focus_inv c"
  shows "focus_inv (handleFocus w c)" "focus_inv (handleFocusLost w c)"
  using assms by (auto simp: focus_inv_def handleFocus_def handleFocusLost_def Let_def split: option.split)

lemma focus_inv_due:
  "focus_inv c \<Longrightarrow> focus_timers c > 0 \<Longrightarrow> focus_inv (sendFocusLost (c\<lparr>focus_timers := focus_timers c - 1\<rparr>))"
  by (auto simp: focus_inv_def sendFocusLost_def Let_def split: if_splits)

lemma focused_packet:
  "focused (handlePacket env p c) = focused c \<or> focused (handlePacket env p c) = 0"
proof (rule handlePacket_rule)
  show "focused (handleNewWindow env p ovr c) = focused c \<or> focused (handleNewWindow env p ovr c) = 0" for ovr
    by (simp add: handleNewWindow_def forgetWindow_def Let_def split: option.split prod.split)
  show "focused (handleLostWindow env p c) = focused c \<or> focused (handleLostWindow env p c) = 0"
    by (simp add: handleLostWindow_def with_window_def forgetWindow_def split: option.split)
qed simp_all

lemma focus_timer_packet: "focus_timer_part (handlePacket env p c) = focus_timer_part c"
  by (rule handlePacket_rule) simp_all

lemma focus_inv_quiet:
  assumes "sends_only N c c'" "''window-focus'' \<notin> N"
    and "focus_timer_part c' = focus_timer_part c" "focused c' = focused c \<or> focused c' = 0" "focus_inv c"
  shows "focus_inv c'"
  using focus_inv_same [OF assms(3,4) traffic_quiet [OF assms(1,2)] assms(5)] .

lemma focus_inv_event: "focus_inv c \<Longrightarrow> focus_inv (handleUIEvent env ev c)"
proof -
  assume ok: "focus_inv c"
  note quiet = focus_inv_quiet [OF _ _ _ _ ok]
  have bye: "focus_inv (sendDisconnect env reason c)" for reason
    by (rule quiet [OF sends_input(5)]) (simp_all add: sendDisconnect_def name_defs)
  have stopped: "focus_inv (stop None c')" if "focus_inv c'" for c' :: "'a client"
    by (rule focus_inv_same [OF _ _ _ that]) (simp_all add: traffic_def)
  show ?thesis
    by (rule handleUIEvent_rule [where P = focus_inv];
      (rule stopped bye focus_inv_handlers ok
        quiet [OF sends_windows(3)] quiet [OF sends_windows(4)] quiet [OF sends_windows(5)]
        quiet [OF sends_input(1)] quiet [OF sends_input(2)] quiet [OF sends_input(3)]
        quiet [OF sends_clipboard(6)])+; simp add: name_defs)
qed

interpretation focus: client_invariant env desktop focus_inv
proof unfold_locales
  fix c :: "'a client" and p
  assume ok: "focus_inv c"
  show "focus_inv (handlePacket env p c)"
    by (rule focus_inv_quiet [OF handlePacket_sends _ focus_timer_packet focused_packet ok])
      (auto simp: name_defs dest!: packet_answers_cases split: if_splits)
next
  fix c :: "'a client" and now
  show "focus_inv c \<Longrightarrow> focus_inv (send [GString ''ping'', GInt64 now] c)"
    by (erule focus_inv_same [rotated -1]) simp_all
next
  fix c :: "'a client"
  show "focus_inv c \<Longrightarrow> focus_inv (snd (sendHello env [] [] c))"
    by (erule focus_inv_quiet [rotated -1]) (rule sends_hello [of "{''hello''}"], simp_all)
next
  fix c :: "'a client" and wid
  let ?c = "c\<lparr>iconify_timers := remove1 wid (iconify_timers c)\<rparr>"
  assume ok: "focus_inv c"
  have "focus_inv ?c" by (rule focus_inv_same [OF _ _ _ ok]) (simp_all add: traffic_def)
  then show "focus_inv (sendIconified wid ?c)"
    by (rule focus_inv_quiet [OF sends_windows(6), rotated -1]) simp_all
qed ((rule focus_inv_event focus_inv_due, assumption+)+, (erule focus_inv_same [rotated -1]; simp add: traffic_def)+)

end
