(* ===== verification/Client_Challenge.thy ===== *)
theory Client_Challenge
  imports Client_Traffic
begin

text \<open>
  Authentication over a whole session: the hellos that answer a challenge, \<open>challenge_answers\<close>,
  are counted, and each is the keyed digest the protocol asks for.
\<close>

definition hello_has :: "packet \<Rightarrow> string \<Rightarrow> any \<Rightarrow> bool" where
  "hello_has p key v \<longleftrightarrow> (\<exists>caps. p = [GString ''hello'', GDict caps] \<and> map_of caps key = Some v)"

definition is_answer :: "packet \<Rightarrow> bool" where
  "is_answer p \<longleftrightarrow> pkt_Type p = ''hello'' \<and>
     (case pkt_at p 1 of GDict caps \<Rightarrow> map_of caps ''challenge_response'' \<noteq> None | _ \<Rightarrow> False)"

definition challenge_answers :: "'d client \<Rightarrow> packet list" where
  "challenge_answers c = filter is_answer (sent c)"

lemma is_answer_hello:
  "is_answer [GString ''hello'', GDict caps] \<longleftrightarrow> map_of caps ''challenge_response'' \<noteq> None"
  by (simp add: is_answer_def pkt_at_def)

lemma is_answer_type: "is_answer p \<Longrightarrow> pkt_Type p = ''hello''"
  by (simp add: is_answer_def)

lemma challenge_answers_quiet:
  assumes "sends_only N c c'" "''hello'' \<notin> N"
  shows "challenge_answers c' = challenge_answers c"
proof -
  obtain ps where ps: "sent c' = sent c @ ps" "pkt_Type ` set ps \<subseteq> N"
    using assms(1) by (auto simp: sends_only_def)
  have "\<forall>p\<in>set ps. \<not> is_answer p" using ps(2) assms(2) is_answer_type by fastforce
  then show ?thesis using ps(1) by (simp add: challenge_answers_def filter_empty_conv)
qed

lemma challenge_answers_same: "sent c' = sent c \<Longrightarrow> challenge_answers c' = challenge_answers c"
  by (simp add: challenge_answers_def)

section \<open>The keys of a hello\<close>

lemma set_all_fold: "set_all d [] = d" "set_all d ((k, v) # kvs) = set_all (Dict_Set d k v) kvs"
  by (simp_all add: set_all_def)

lemma fixed_caps_keys: "map_of (fixed_caps bc states) ''challenge_response'' = None"
  by (simp add: fixed_caps_def)

lemma buildHello_keys: "map_of (fst (buildHello env name clip states d)) ''challenge_response'' = None"
  unfolding buildHello_def Let_def case_prod_beta legacy_caps_def set_all_fold
  by (simp add: fixed_caps_keys split: option.split)

lemma sendHello_sent:
  obtains caps where "sent (snd (sendHello env response salt c)) = sent c @ [[GString ''hello'', GDict caps]]"
    "map_of caps ''challenge_response'' = (if response = [] then None else Some (GString response))"
    "response \<noteq> [] \<Longrightarrow> map_of caps ''challenge_client_salt'' = Some (GBytes salt)"
proof -
  let ?states = "case WindowStates env (world c) of Some ss \<Rightarrow> ss | None \<Rightarrow> []"
  let ?built = "buildHello env (cl_username c) (has_clipboard c) ?states (world c)"
  define base where "base = Dict_Set (fst ?built) ''display'' (GDict (display_caps env (snd ?built)))"
  define base' where "base' = (case mmap c of
      Some area \<Rightarrow> Dict_Set base ''mmap'' (helloCaps (BackwardsCompatible env) area) | None \<Rightarrow> base)"
  have "map_of base ''challenge_response'' = None" by (simp add: base_def buildHello_keys)
  then have none: "map_of base' ''challenge_response'' = None" by (simp add: base'_def split: option.split)
  have "sent (snd (sendHello env response salt c)) = sent c @ [[GString ''hello'',
      GDict (if response = [] then base' else set_all base' [(''challenge_response'', GString response),
        (''challenge_client_salt'', GBytes salt)])]]"
    by (cases "mmap c") (simp_all add: sendHello_def Let_def case_prod_beta base_def base'_def)
  then show thesis by (rule that) (simp_all add: none set_all_fold)
qed

lemma sendHello_answers:
  "challenge_answers (snd (sendHello env [] salt c)) = challenge_answers c"
  "response \<noteq> [] \<Longrightarrow> \<exists>a. challenge_answers (snd (sendHello env response salt c)) = challenge_answers c @ [a] \<and>
     hello_has a ''challenge_response'' (GString response) \<and> hello_has a ''challenge_client_salt'' (GBytes salt)"
proof -
  show "challenge_answers (snd (sendHello env [] salt c)) = challenge_answers c"
    by (rule sendHello_sent [of env "[]" salt c]) (simp add: challenge_answers_def is_answer_hello)
  show "\<exists>a. challenge_answers (snd (sendHello env response salt c)) = challenge_answers c @ [a] \<and>
      hello_has a ''challenge_response'' (GString response) \<and> hello_has a ''challenge_client_salt'' (GBytes salt)"
    if "response \<noteq> []"
    by (rule sendHello_sent [of env response salt c])
      (simp add: that challenge_answers_def is_answer_hello hello_has_def)
qed

section \<open>One answer, and only to a challenge\<close>

definition challenge_inv :: "'d client \<Rightarrow> bool" where
  "challenge_inv c \<longleftrightarrow> length (challenge_answers c) \<le> (if challengeSeen c then 1 else 0)"

lemma challenge_inv_quiet:
  "sends_only N c c' \<Longrightarrow> ''hello'' \<notin> N \<Longrightarrow> challengeSeen c' = challengeSeen c \<Longrightarrow>
   challenge_inv c \<Longrightarrow> challenge_inv c'"
  using challenge_answers_quiet [of N c c'] by (simp add: challenge_inv_def)

lemma challenge_inv_same:
  "sent c' = sent c \<Longrightarrow> challengeSeen c' = challengeSeen c \<Longrightarrow> challenge_inv c \<Longrightarrow> challenge_inv c'"
  using challenge_answers_same [of c' c] by (simp add: challenge_inv_def)

text \<open>What a challenge adds to the answers: nothing, or the digest of one password.\<close>

definition keyed_answer :: "'d env \<Rightarrow> packet \<Rightarrow> string \<Rightarrow> packet \<Rightarrow> bool" where
  "keyed_answer env p password a \<longleftrightarrow>
     (\<exists>server_salt client_salt d0 d1.
        pkt_Bytes p 1 = Some server_salt \<and> server_salt \<noteq> [] \<and>
        takeWhile (\<lambda>ch. ch \<noteq> CHR '':'') (pkt_Str p 3) = digestName \<and> pkt_Str p 4 = digestName \<and>
        rand_Read env challengeSaltLen d0 = (Some client_salt, d1) \<and>
        hello_has a ''challenge_client_salt'' (GBytes client_salt) \<and>
        hello_has a ''challenge_response'' (GString (hmacHex env (string_bytes password)
          (string_bytes (hmacHex env client_salt server_salt)))))"

lemma challengeReply_Inr:
  assumes "challengeReply env p password d = (Inr (response, salt), d')"
  obtains server_salt where "pkt_Bytes p 1 = Some server_salt" "server_salt \<noteq> []"
    "takeWhile (\<lambda>ch. ch \<noteq> CHR '':'') (pkt_Str p 3) = digestName" "pkt_Str p 4 = digestName"
    "rand_Read env challengeSaltLen d = (Some salt, d')"
    "response = hmacHex env (string_bytes password) (string_bytes (hmacHex env salt server_salt))"
  using assms
  by (auto simp: challengeReply_def Let_def digestName_def split: option.splits if_splits prod.splits)

lemma handleChallenge_answers:
  obtains (none) "challenge_answers (handleChallenge env p c) = challenge_answers c"
      "challengeSeen (handleChallenge env p c)"
  | (answered) password a where "\<not> challengeSeen c" "challengeSeen (handleChallenge env p c)"
      "challenge_answers (handleChallenge env p c) = challenge_answers c @ [a]"
      "fst (challengePassword env (pkt_Str p 5) (c\<lparr>challengeSeen := True\<rparr>)) = Inr password"
      "keyed_answer env p password a"
proof (rule handleChallenge_shape [of c env p])
  assume "challengeSeen c" "handleChallenge env p c = stop (Some PasswordRejected) c"
  then show thesis by (intro none) (simp_all add: challenge_answers_def)
next
  fix e d
  assume "handleChallenge env p c = stop (Some e) (c\<lparr>challengeSeen := True, world := d\<rparr>)"
  then show thesis by (intro none) (simp_all add: challenge_answers_def)
next
  fix e d
  assume "handleChallenge env p c = stop (Some (Authentication e)) (c\<lparr>challengeSeen := True, world := d\<rparr>)"
  then show thesis by (intro none) (simp_all add: challenge_answers_def)
next
  fix password d1 response salt d
  let ?c = "c\<lparr>challengeSeen := True, world := d\<rparr>"
  assume fresh: "\<not> challengeSeen c"
    and pw: "challengePassword env (pkt_Str p 5) (c\<lparr>challengeSeen := True\<rparr>) =
        (Inr password, c\<lparr>challengeSeen := True, world := d1\<rparr>)"
    and reply: "challengeReply env p password d1 = (Inr (response, salt), d)"
    and eq: "handleChallenge env p c =
        (case sendHello env response salt ?c of
           (Some err, c2) \<Rightarrow> stop (Some (ResponseNotSent err)) c2 | (None, c2) \<Rightarrow> c2)"
  from reply obtain server_salt where key: "pkt_Bytes p 1 = Some server_salt" "server_salt \<noteq> []"
    "takeWhile (\<lambda>ch. ch \<noteq> CHR '':'') (pkt_Str p 3) = digestName" "pkt_Str p 4 = digestName"
    "rand_Read env challengeSaltLen d1 = (Some salt, d)"
    "response = hmacHex env (string_bytes password) (string_bytes (hmacHex env salt server_salt))"
    by (rule challengeReply_Inr)
  have answers: "challenge_answers (handleChallenge env p c) = challenge_answers (snd (sendHello env response salt ?c))"
    "challengeSeen (handleChallenge env p c)"
    unfolding eq sendHello_case by (simp_all add: challenge_answers_def split: option.split)
  have before: "challenge_answers ?c = challenge_answers c" by (simp add: challenge_answers_def)
  show thesis
  proof (cases "response = []")
    case True
    then have "challenge_answers (handleChallenge env p c) = challenge_answers c"
      using answers sendHello_answers(1) [of env salt ?c] before by simp
    then show thesis using none answers(2) by simp
  next
    case False
    obtain a where a: "challenge_answers (handleChallenge env p c) = challenge_answers c @ [a]"
      "hello_has a ''challenge_response'' (GString response)" "hello_has a ''challenge_client_salt'' (GBytes salt)"
      using sendHello_answers(2) [OF False, of env salt ?c] answers before by auto
    then have "keyed_answer env p password a" unfolding keyed_answer_def using key by blast
    then show thesis using answered fresh answers(2) a(1) pw by simp
  qed
qed

lemma challengeSeen_packet:
  assumes "Canonical (BackwardsCompatible env) (pkt_Type p) \<noteq> ''challenge''"
  shows "challengeSeen (handlePacket env p c) = challengeSeen c"
proof -
  have either: "challengeSeen (if b then x else y) = challengeSeen c"
    if "b \<Longrightarrow> challengeSeen x = challengeSeen c" "\<not> b \<Longrightarrow> challengeSeen y = challengeSeen c"
    for b and x y :: "'a client"
    using that by simp
  show ?thesis unfolding handlePacket_def Let_def by (intro either; simp add: assms)
qed

lemma not_challenge_quiet:
  "name \<noteq> ''challenge'' \<Longrightarrow> ''hello'' \<notin> packet_answers bc name"
  unfolding packet_answers_def name_defs by simp

lemma handlePacket_challenge:
  "Canonical (BackwardsCompatible env) (pkt_Type p) = ''challenge'' \<Longrightarrow>
   handlePacket env p c = handleChallenge env p c"
  by (simp add: handlePacket_def)

lemma challenge_inv_packet:
  assumes "challenge_inv c"
  shows "challenge_inv (handlePacket env p c)"
proof (cases "Canonical (BackwardsCompatible env) (pkt_Type p) = ''challenge''")
  case True
  show ?thesis
    unfolding handlePacket_challenge [OF True]
    by (rule handleChallenge_answers [of env p c]) (use assms in \<open>auto simp: challenge_inv_def split: if_splits\<close>)
next
  case False
  show ?thesis
    by (rule challenge_inv_quiet [OF handlePacket_sends not_challenge_quiet [OF False]
        challengeSeen_packet [OF False] assms])
qed

lemma challenge_inv_event: "challenge_inv c \<Longrightarrow> challenge_inv (handleUIEvent env ev c)"
proof (rule challenge_inv_quiet [OF handleUIEvent_sends])
  show "''hello'' \<notin> event_reports (BackwardsCompatible env) ev"
    by (simp add: event_reports_def name_defs split: ui_event.split)
  show "challengeSeen (handleUIEvent env ev c) = challengeSeen c"
    by (rule handleUIEvent_rule) (simp_all add: sendDisconnect_def)
qed

interpretation challenges: client_invariant env desktop challenge_inv
proof unfold_locales
  fix c :: "'a client" and wid
  let ?c = "c\<lparr>iconify_timers := remove1 wid (iconify_timers c)\<rparr>"
  assume "challenge_inv c"
  then have "challenge_inv ?c" by (rule challenge_inv_same [rotated 2]) simp_all
  then show "challenge_inv (sendIconified wid ?c)"
    by (rule challenge_inv_quiet [OF sends_windows(6), rotated 2]) simp_all
next
  fix c :: "'a client"
  let ?c = "c\<lparr>focus_timers := focus_timers c - 1\<rparr>"
  assume "challenge_inv c"
  then have "challenge_inv ?c" by (rule challenge_inv_same [rotated 2]) simp_all
  then show "challenge_inv (sendFocusLost ?c)"
    by (rule challenge_inv_quiet [OF sends_input(8), rotated 2]) simp_all
next
  fix c :: "'a client" and now
  show "challenge_inv c \<Longrightarrow> challenge_inv (send [GString ''ping'', GInt64 now] c)"
    by (rule challenge_inv_quiet [where N = "{''ping''}"]) simp_all
next
  fix c :: "'a client"
  show "challenge_inv c \<Longrightarrow> challenge_inv (snd (sendHello env [] [] c))"
    by (simp add: challenge_inv_def sendHello_answers)
qed (rule challenge_inv_packet challenge_inv_event challenge_inv_same [rotated 2]; simp)+

end
