(* ===== verification/Client_Legacy.thy ===== *)
theory Client_Legacy
  imports Client_Traffic
begin

text \<open>
  Packet names of the old protocol: a packet under its modern name is handled the same, and
  without compatibility the old names are not handled at all.
\<close>

text \<open>A packet under its modern name.\<close>

definition modern :: "packet \<Rightarrow> packet" where
  "modern p = (case p of [] \<Rightarrow> [] | v # args \<Rightarrow> GString (Canonical True (pkt_Type p)) # args)"

definition legacy_names :: "string list" where
  "legacy_names = map fst canonicalNames @
     [''cursor'', ''clipboard-token'', ''set-clipboard-enabled'', ''new-override-redirect'', ''disconnect'']"

lemma modern_at [simp]: "0 < i \<Longrightarrow> pkt_at (modern p) i = pkt_at p i"
  by (simp add: modern_def pkt_at_def nth_Cons' split: list.split)

lemma modern_length [simp]: "length (modern p) = length p"
  by (simp add: modern_def split: list.split)

lemma modern_nth [simp]: "0 < i \<Longrightarrow> modern p ! i = p ! i"
  by (simp add: modern_def nth_Cons' split: list.split)

lemma modern_accessors:
  "0 < i \<Longrightarrow> pkt_Str (modern p) i = pkt_Str p i" "0 < i \<Longrightarrow> pkt_Int (modern p) i = pkt_Int p i"
  "0 < i \<Longrightarrow> pkt_Bool (modern p) i = pkt_Bool p i" "0 < i \<Longrightarrow> pkt_Dict (modern p) i = pkt_Dict p i"
  "0 < i \<Longrightarrow> pkt_Bytes (modern p) i = pkt_Bytes p i"
  by (simp_all add: pkt_Str_def pkt_Int_def pkt_Bool_def pkt_Dict_def pkt_Bytes_def)

lemma modern_Type: "Canonical True (pkt_Type (modern p)) = Canonical True (pkt_Type p)"
proof (cases p)
  case (Cons v args)
  then show ?thesis by (simp add: modern_def Canonical_idem)
qed (simp add: modern_def)

lemmas modern_positions =
  modern_accessors [of 1, OF zero_less_one] modern_accessors [of "numeral k", OF zero_less_numeral]
  modern_at [of 1, OF zero_less_one] modern_at [of "numeral k", OF zero_less_numeral]
  modern_nth [of "numeral k", OF zero_less_numeral] modern_length
  for k

lemma modern_size: "packetWindowSize (modern p) = packetWindowSize p"
  by (simp add: packetWindowSize_def modern_accessors)

lemma modern_handlers:
  "handleHello env (modern p) = handleHello env p" "handleChallenge env (modern p) = handleChallenge env p"
  "handleShowDesktop env (modern p) = handleShowDesktop env p" "handleCursor env (modern p) = handleCursor env p"
  "handleCursorData env (modern p) = handleCursorData env p"
  "handleClipboardData env (modern p) = handleClipboardData env p"
  "handleClipboardToken env (modern p) = handleClipboardToken env p"
  "handleClipboardRequest (modern p) = (handleClipboardRequest p :: 'd client \<Rightarrow> 'd client)"
  "handleClipboardContents env (modern p) = handleClipboardContents env p"
  "handleClipboardContentsNone (modern p) = (handleClipboardContentsNone p :: 'd client \<Rightarrow> 'd client)"
  "handleClipboardEnableSelections env (modern p) = handleClipboardEnableSelections env p"
  "handleClipboardStatus env (modern p) = handleClipboardStatus env p"
  "handleNewWindow env (modern p) = handleNewWindow env p"
  "handleLostWindow env (modern p) = handleLostWindow env p"
  "handleMoveResize env (modern p) = handleMoveResize env p" "handleMetadata env (modern p) = handleMetadata env p"
  "handleRaiseWindow env (modern p) = handleRaiseWindow env p" "handleBell env (modern p) = handleBell env p"
  "handleWindowIcon env (modern p) = handleWindowIcon env p" "handleDraw env (modern p) = handleDraw env p"
  "handlePing env (modern p) = handlePing env p"
  unfolding handleHello_def handleChallenge_def challengeReply_def handleShowDesktop_def handleCursor_def
    handleCursorData_def handleClipboardData_def handleClipboardToken_def handleClipboardRequest_def
    handleClipboardContents_def handleClipboardContentsNone_def handleClipboardEnableSelections_def
    handleClipboardStatus_def handleNewWindow_def modern_size handleLostWindow_def
    handleMoveResize_def handleMetadata_def handleRaiseWindow_def handleBell_def handleWindowIcon_def
    handleDraw_def paint_window_def handlePing_def with_window_def modern_positions
  by (rule refl)+


lemma modern_handled:
  assumes "BackwardsCompatible env"
  shows "handlePacket env (modern p) c = handlePacket env p c"
proof -
  have type: "Canonical (BackwardsCompatible env) (pkt_Type (modern p)) =
      Canonical (BackwardsCompatible env) (pkt_Type p)"
    using assms by (simp add: modern_Type)
  show ?thesis unfolding handlePacket_def Let_def type modern_handlers by (rule refl)
qed

lemma legacy_ignored:
  assumes "\<not> BackwardsCompatible env" and "pkt_Type p \<in> set legacy_names"
  shows "handlePacket env p c = c"
proof -
  have "pkt_Type p = n \<Longrightarrow> handlePacket env p c = c" if "n \<in> set legacy_names" for n
    using that assms(1) unfolding legacy_names_def canonicalNames_def
    by simp (elim disjE; simp add: handlePacket_def)
  then show ?thesis using assms(2) by blast
qed

end
