(* ===== verification/Properties_Session.thy ===== *)
theory Properties_Session
  imports Properties_Client Client_Clipboard_Inv Client_Focus Client_Challenge Client_Legacy
begin

text \<open>
  What the client guarantees in a session: the packets it sends, the answers to packets and
  events, drawing, authentication, the clipboard and the focus.
\<close>

section \<open>Packets\<close>

text \<open>C19: Every packet the client hands to the connection, in any reachable state, has a name of
  the negotiated protocol, the argument types its name has in that protocol, and no part that
  the encoder refuses.\<close>

theorem sent_packets_well_formed:
  assumes "client_reachable env desktop (newClient d conn clip user password) c" and "p \<in> set (sent c)"
  shows "well_formed (BackwardsCompatible env) p"
proof -
  have "sends_well env (newClient d conn clip user password)" by (simp add: sends_well_def newClient_def)
  then have "sends_well env c" by (rule packets.reachable [OF assms(1)])
  then show ?thesis using assms(2) by (simp add: sends_well_def)
qed

lemma greeted_reach:
  "client_reachable example_env desktop (newClient example_display newConn True [] []) greeted"
  using greeted_reachable by (simp add: example_client_def)

theorem sent_packets_well_formed_witness: "sent greeted \<noteq> [] \<and> well_formed False (hd (sent greeted))"
proof -
  have "sent greeted \<noteq> []"
    by (rule sendHello_sent [of example_env "[]" "[]" example_client]) (simp add: greeted_def)
  then show ?thesis using sent_packets_well_formed [OF greeted_reach, of "hd (sent greeted)"] by simp
qed

text \<open>C20: The client speaks only when spoken to: what one turn of its loop sends is of the kinds
  that the protocol gives as the answer to that packet, as the report of that event, or as the
  work of that timer.\<close>

theorem turns_send_only:
  "\<exists>ps. sent (fst (run_turn env t c)) = sent c @ ps \<and>
     pkt_Type ` set ps \<subseteq> turn_sends (BackwardsCompatible env) t"
  using run_turn_sends [of env t c] by (simp add: sends_only_def)


section \<open>Drawing\<close>




section \<open>Authentication\<close>

text \<open>C23: In a whole session at most one answer to a challenge is sent.  It is sent for a
  challenge with a salt that asks for the digest the client supports, and is the digest of the
  client's password, keyed by both salts.\<close>

theorem challenge_answered_once:
  assumes "client_reachable env desktop (newClient d conn clip user password) c"
  shows "length (challenge_answers (handlePacket env p c)) \<le> 1 \<and>
    (challenge_answers (handlePacket env p c) = challenge_answers c \<or>
     (\<exists>a secret. challenge_answers (handlePacket env p c) = [a] \<and> challenge_answers c = [] \<and>
        fst (challengePassword env (pkt_Str p 5) (c\<lparr>challengeSeen := True\<rparr>)) = Inr secret \<and>
        keyed_answer env p secret a))"
proof -
  have "challenge_inv (newClient d conn clip user password)"
    by (simp add: challenge_inv_def challenge_answers_def newClient_def)
  then have inv: "challenge_inv c" by (rule challenges.reachable [OF assms])
  have "length (challenge_answers (handlePacket env p c)) \<le> 1"
    using challenge_inv_packet [OF inv, of env p] by (auto simp: challenge_inv_def split: if_splits)
  moreover have "challenge_answers (handlePacket env p c) = challenge_answers c \<or>
     (\<exists>a secret. challenge_answers (handlePacket env p c) = [a] \<and> challenge_answers c = [] \<and>
        fst (challengePassword env (pkt_Str p 5) (c\<lparr>challengeSeen := True\<rparr>)) = Inr secret \<and>
        keyed_answer env p secret a)"
  proof (cases "Canonical (BackwardsCompatible env) (pkt_Type p) = ''challenge''")
    case True
    show ?thesis
      unfolding handlePacket_challenge [OF True]
      by (rule handleChallenge_answers [of env p c]) (use inv in \<open>auto simp: challenge_inv_def\<close>)
  next
    case False
    then show ?thesis using challenge_answers_quiet [OF handlePacket_sends not_challenge_quiet] by blast
  qed
  ultimately show ?thesis by blast
qed

definition example_login :: "unit x11 client" where
  "example_login = snd (sendHello example_env [] [] (newClient example_display newConn True [] ''secret''))"

definition example_challenge :: packet where
  "example_challenge = [GString ''challenge'', GBytes [1, 2, 3], GMap [], GString ''hmac+sha256'', GString ''hmac+sha256'']"

theorem challenge_answered_once_witness:
  "\<exists>a. challenge_answers (handlePacket example_env example_challenge example_login) = [a] \<and>
     keyed_answer example_env example_challenge ''secret'' a"
proof -
  let ?c0 = "newClient example_display newConn True [] ''secret''"
  have accepted: "fst (sendHello example_env [] [] ?c0) = None"
    by (rule sendHello_accepted) (simp add: newClient_def newConn_def writeQueue_def)
  then have "sendHello example_env [] [] ?c0 = (None, example_login)"
    by (simp add: example_login_def prod_eq_iff)
  then have reach: "client_reachable example_env desktop ?c0 example_login" for desktop
    by (rule client_reachable.hello)
  have none: "challenge_answers example_login = []"
    by (simp add: example_login_def sendHello_answers) (simp add: challenge_answers_def newClient_def)
  have login: "cl_password example_login = ''secret''" "\<not> challengeSeen example_login"
    by (simp_all add: example_login_def sendHello_def conn_send_def Let_def case_prod_beta newClient_def)
  have pw: "challengePassword example_env s (example_login\<lparr>challengeSeen := True\<rparr>) =
      (Inr ''secret'', example_login\<lparr>challengeSeen := True\<rparr>)" for s
    by (simp add: challengePassword_def login)
  obtain response salt d where reply: "challengeReply example_env example_challenge ''secret'' (world example_login) =
      (Inr (response, salt), d)" "response \<noteq> []"
    by (simp add: challengeReply_def example_challenge_def digestName_def pkt_Bytes_def pkt_Str_def pkt_at_def
        any_bytes_def any_str_def example_env_def x11_env_def example_base_def on_others_def hmacHex_def
        hex_encode_def string_bytes_def)
  then have answered: "challenge_answers (handleChallenge example_env example_challenge example_login) \<noteq> []"
    using sendHello_answers(2) [OF reply(2), of example_env salt "example_login\<lparr>challengeSeen := True, world := d\<rparr>"]
    by (auto simp: handleChallenge_def login pw reply(1) sendHello_case challenge_answers_def split: option.split)
  have "Canonical (BackwardsCompatible example_env) (pkt_Type example_challenge) = ''challenge''"
    by (simp add: example_challenge_def)
  note eq = handlePacket_challenge [OF this]
  show ?thesis
    using challenge_answered_once [OF reach, of example_challenge] none pw answered
    unfolding eq by auto
qed

section \<open>Clipboard\<close>


definition example_hello :: packet where
  "example_hello = [GString ''hello'', GMap [(''clipboard'', GMap [(''enabled'', GBool True)])]]"



definition example_token :: packet where
  "example_token =
     [GString ''clipboard-data'', GString ''CLIPBOARD'', GMap [(''targets'', GList [GString ''STRING''])]]"



definition example_clipboard :: "unit x11 client" where
  "example_clipboard = handlePacket example_env example_token (handlePacket example_env example_hello greeted)"


text \<open>C25: A reply with clipboard contents has an effect only if it answers the one request under
  way; then the desktop is given the text, which is valid UTF-8 within the limit, and when the
  desktop reports that text back, nothing is sent.\<close>

theorem clipboard_reply_current:
  assumes "client_reachable env desktop (newClient d0 conn clip user password) c"
    and "Canonical (BackwardsCompatible env) (pkt_Type p) = ''clipboard-contents''"
  shows "(\<exists>rs. set rs \<subseteq> set (clipboardRequests c) \<and> handlePacket env p c = c\<lparr>clipboardRequests := rs\<rparr>) \<or>
    (\<exists>r txt e d. clipboardRequests c = [(pkt_Int p 1, r)] \<and> pkt_Int p 1 = nextClipboardRequest c \<and>
       req_generation r = clipboardGeneration c \<and> utf8_valid txt \<and> length txt \<le> maxClipboardBytes \<and>
       clip_SetText env txt (world c) = (e, d) \<and>
       (if e \<noteq> None then handlePacket env p c = c\<lparr>clipboardRequests := [], world := d\<rparr>
        else handlePacket env p c = c\<lparr>clipboardRequests := [], world := d, clipboardText := txt,
               clipboardKnown := True\<rparr> \<and>
             handleUIEvent env (ClipboardChange txt) (handlePacket env p c) = handlePacket env p c))"
proof -
  have "clipboard_inv (newClient d0 conn clip user password)" by (simp add: clipboard_inv_def newClient_def)
  then have inv: "clipboard_inv c" by (rule clipboard.reachable [OF assms(1)])
  have eq: "handlePacket env p c = handleClipboardContents env p c"
    using assms(2) by (simp add: handlePacket_def)
  show ?thesis
    unfolding eq by (rule handleClipboardContents_effect [OF inv])
qed

definition example_contents :: packet where
  "example_contents =
     [GString ''clipboard-contents'', GInt64 1, GString ''CLIPBOARD'', GString ''STRING'', GInt64 8,
      GString ''bytes'', GBytes [0x68, 0x69]]"

theorem clipboard_reply_current_witness:
  "(\<exists>rs. set rs \<subseteq> set (clipboardRequests example_clipboard) \<and>
      handlePacket example_env example_contents example_clipboard = example_clipboard\<lparr>clipboardRequests := rs\<rparr>) \<or>
   (\<exists>r. clipboardRequests example_clipboard = [(1, r)])"
proof -
  have reach: "client_reachable example_env desktop (newClient example_display newConn True [] []) example_clipboard"
    for desktop
    unfolding example_clipboard_def by (intro packet_reachable greeted_reach)
  have type: "Canonical (BackwardsCompatible example_env) (pkt_Type example_contents) = ''clipboard-contents''"
    by (simp add: example_contents_def)
  have "pkt_Int example_contents 1 = 1" by (simp add: example_contents_def pkt_Int_def pkt_at_def any_int_def)
  then show ?thesis using clipboard_reply_current [OF reach type] by auto
qed

section \<open>Shared memory\<close>

lemma newMmapArea_Inr:
  assumes "newMmapArea (Some name) True (Some data) random (Some place) = Inr area"
  obtains data1 where "writeMmapToken data (mm_token area) (mmapHeaderSize + place) mmapTokenBytes = Inr data1"
    "mm_data area = data1" "tokenIndex area = mmapHeaderSize + place" "tokenBytes area = mmapTokenBytes"
    "0 < mm_token area"
    "0 < sint (available_places (area\<lparr>mm_data := data\<rparr>))"
  using assms
  by (auto simp: newMmapArea_def generateToken_def available_places_def bind_res_eq_Inr Let_def
      split: sum.splits option.splits if_splits)

text \<open>C26: The token of a new shared area is where the hello says, so a peer that maps the same file
  reads it back, and writing it leaves the header alone; and a token that the peer writes into
  the area is accepted exactly when it is the one the peer announces.\<close>

theorem mmap_token_roundtrip:
  assumes "newMmapArea (Some name) True (Some data) random (Some place) = Inr area"
    and "0 \<le> sint place" and "int (length data) < 2 ^ 62" and "sint place < int (length data)"
    and "writeMmapToken (mm_data area) token idx count = Inr data'" and "0 < token"
  shows "readMmapToken (mm_data area) (tokenIndex area) (tokenBytes area) = Inr (mm_token area) \<and>
    0 < mm_token area \<and> length (mm_data area) = length data \<and> take 8 (mm_data area) = take 8 data \<and>
    enableFromCaps (Some [(''write'', GMap [(''token'', GBigPtr (Some announced)),
      (''token_index'', GInt64 idx), (''token_bytes'', GInt64 count)])]) (area\<lparr>mm_data := data'\<rparr>) =
      (if announced = token then Inr (True, area\<lparr>mm_data := data', mm_enabled := True\<rparr>)
       else if announced \<le> 0 then Inl BadToken else Inl TokenMismatch)"
proof -
  obtain data1 where new: "writeMmapToken data (mm_token area) (mmapHeaderSize + place) mmapTokenBytes = Inr data1"
    "mm_data area = data1" "tokenIndex area = mmapHeaderSize + place" "tokenBytes area = mmapTokenBytes"
    "0 < mm_token area"
    using newMmapArea_Inr [OF assms(1)] by metis
  have "sint (mmapHeaderSize + place) = 8 + sint place"
    using assms(2-4) sint_plus [of mmapHeaderSize place] by (simp add: mmapHeaderSize_def int64_range_def)
  then have "i < nat (sint (mmapHeaderSize + place))" if "i < 8" for i
    using that assms(2) by linarith
  then have same: "data1 ! i = data ! i" if "i < 8" for i
    using writeMmapToken_Inr(5) [OF new(1), of i] that by blast
  have len: "length data1 = length data" using writeMmapToken_Inr(3) [OF new(1)] .
  have head: "take 8 data1 = take 8 data" using len same by (intro nth_equalityI) auto
  note peer = writeMmapToken_Inr(2,3) [OF assms(5)] readMmapToken_written [OF assms(5)]
  have "\<not> bad_bounds (length data') idx count" using peer(1,2) by simp
  moreover have "count \<noteq> 0" using peer(1) by (auto simp: bad_bounds_def)
  ultimately have "enableFromCaps (Some [(''write'', GMap [(''token'', GBigPtr (Some announced)),
      (''token_index'', GInt64 idx), (''token_bytes'', GInt64 count)])]) (area\<lparr>mm_data := data'\<rparr>) =
      (if announced = token then Inr (True, area\<lparr>mm_data := data', mm_enabled := True\<rparr>)
       else if announced \<le> 0 then Inl BadToken else Inl TokenMismatch)"
    using assms(6) peer(3)
    by (simp add: enableFromCaps_def dict_Dict_def dict_get_def dict_entry_def any_dict_def dict_Has_def
        mmapInteger_def dict_Int_def any_int_def Let_def)
  then show ?thesis using new len head readMmapToken_written [OF new(1)] by simp
qed

theorem mmap_token_roundtrip_witness:
  "\<exists>area. newMmapArea (Some ''f'') True (Some (replicate 200 0)) (Some [1, 2]) (Some 5) = Inr area \<and>
     readMmapToken (mm_data area) (tokenIndex area) (tokenBytes area) = Inr 258"
proof -
  have new: "newMmapArea (Some ''f'') True (Some (replicate 200 0)) (Some [1, 2]) (Some 5) = Inr
      \<lparr>mm_data = replicate 13 0 @ [2, 1] @ replicate 185 0, mm_file_open = True, mm_filename = ''f'',
       mm_token = 258, tokenIndex = 13, tokenBytes = 128, mm_mapped = True, mm_enabled = False\<rparr>"
    by code_simp
  have peer: "writeMmapToken (replicate 13 0 @ [2, 1] @ replicate 185 0) 77 20 1 =
      Inr (replicate 13 0 @ [2, 1] @ replicate 5 0 @ [77] @ replicate 179 0)"
    by code_simp
  show ?thesis
    using mmap_token_roundtrip [OF new, of 77 20 1 _ 77] peer new by simp
qed

text \<open>C27: A draw packet whose pixels are in the shared area is read only from the area behind its
  header, one or two chunks of it, exactly as many bytes as announced; the read cursor that is
  published when it is acknowledged is the end of the last chunk, and nothing else of the area
  is written.\<close>

theorem mmap_draw_within_area:
  assumes "Canonical (BackwardsCompatible env) (pkt_Type p) = ''window-draw''"
    and "mmap c = Some area" and "length (mm_data area) < 2 ^ 63" and "draw_cursor p c = Some cursor"
  shows "\<exists>raw chunks. readChunks raw area = Inr (concat (map (chunk_slice (mm_data area)) chunks), cursor) \<and>
    length chunks \<in> {1, 2} \<and> list_all (chunk_inside (length (mm_data area))) chunks \<and>
    sum_list (map (\<lambda>k. sint (snd k)) chunks) =
      int (length (concat (map (chunk_slice (mm_data area)) chunks))) \<and>
    cursor = ucast (fst (last chunks) + snd (last chunks)) \<and>
    mmap (handlePacket env p c) = Some (area\<lparr>mm_data := rev (be_bytes 4 cursor) @ drop 4 (mm_data area)\<rparr>)"
proof -
  obtain raw pixels where read: "readChunks raw area = Inr (pixels, cursor)"
    using assms(2,4) by (auto simp: draw_cursor_def Let_def split: if_splits sum.splits)
  obtain chunks where chunks: "parseMmapChunks raw (of_nat (length (mm_data area))) = Inr chunks"
    "pixels = concat (map (chunk_slice (mm_data area)) chunks)"
    "int (length pixels) = sum_list (map (\<lambda>k. sint (snd k)) chunks)"
    "cursor = ucast (fst (last chunks) + snd (last chunks))"
    using readChunks_Inr [OF read assms(3)] by blast
  have eq: "handlePacket env p c = handleDraw env p c" using assms(1) by (simp add: handlePacket_def)
  have "mmap (handlePacket env p c) = Some (release_chunks cursor area)"
    unfolding eq by (rule handleDraw_shape [of env p c]) (simp add: assms(2,4))
  with chunks read parseMmapChunks_Inr [OF chunks(1) assms(3)] show ?thesis
    by (intro exI [of _ raw] exI [of _ chunks]) (simp add: release_chunks_def list_all_iff)
qed

definition example_area :: mmap_area where
  "example_area =
     \<lparr>mm_data = replicate 100 0, mm_file_open = False, mm_filename = [], mm_token = 258, tokenIndex = 13,
      tokenBytes = 16, mm_mapped = True, mm_enabled = True\<rparr>"

definition example_mmap_draw :: packet where
  "example_mmap_draw = [GString ''window-draw'', GInt64 9, GInt64 0, GInt64 0, GInt64 1, GInt64 1,
     GString ''mmap'', GList [GList [GInt64 8, GInt64 4]], GInt64 5, GInt64 4, GMap []]"

theorem mmap_draw_within_area_witness:
  "mmap (handlePacket example_env example_mmap_draw (greeted\<lparr>mmap := Some example_area\<rparr>)) =
     Some (example_area\<lparr>mm_data := [12, 0, 0, 0] @ replicate 96 0\<rparr>)"
proof -
  let ?c = "greeted\<lparr>mmap := Some example_area\<rparr>"
  have type: "Canonical (BackwardsCompatible example_env) (pkt_Type example_mmap_draw) = ''window-draw''"
    by (simp add: example_mmap_draw_def)
  have read: "readChunks (GList [GList [GInt64 8, GInt64 4]]) example_area = Inr ([0, 0, 0, 0], 12)"
    by code_simp
  have "draw_cursor example_mmap_draw ?c = Some 12"
    by (simp add: draw_cursor_def example_mmap_draw_def pkt_Str_def pkt_Dict_def pkt_at_def any_str_def any_dict_def
        dict_get_def dict_entry_def read)
  moreover have "be_bytes 4 (12 :: 32 word) = [0, 0, 0, 12]" by code_simp
  ultimately show ?thesis
    using mmap_draw_within_area [OF type, of ?c example_area 12]
    by (auto simp: example_area_def)
qed

section \<open>Focus\<close>

text \<open>C28: In every reachable state the server's view of the focus is the client's: while a window
  has the focus, the last focus packet names it; a loss is reported by one timer, and when that
  has run, the last focus packet names what then has the focus, a window or nothing.\<close>

theorem focus_reported:
  assumes "client_reachable env desktop (newClient d conn clip user password) c"
  shows "(focused c \<noteq> 0 \<longrightarrow> traffic ''window-focus'' c \<noteq> [] \<and>
      last (traffic ''window-focus'' c) = focus_packet (focused c)) \<and>
    focus_timers c = (if focusLosing c then 1 else 0) \<and>
    (focusLosing c \<longrightarrow>
       (let c' = fst (run_turn env FocusLostDue c) in
        focus_timers c' = 0 \<and> focused c' = focused c \<and>
        last (traffic ''window-focus'' c') = focus_packet (focused c)))"
proof -
  have "focus_inv (newClient d conn clip user password)" by (simp add: focus_inv_def newClient_def)
  then have inv: "focus_inv c" by (rule focus.reachable [OF assms])
  then show ?thesis
    by (auto simp: focus_inv_def run_turn_def sendFocusLost_def Let_def)
qed

definition example_focus :: "unit x11 client" where
  "example_focus = handleUIEvent example_env (Focus 2) example_window"

theorem focus_reported_witness:
  "focused example_focus = 7 \<and> last (traffic ''window-focus'' example_focus) = focus_packet 7"
proof -
  have reach: "client_reachable example_env desktop (newClient example_display newConn True [] []) example_focus"
    for desktop
    unfolding example_focus_def example_window_def
    by (intro event_reachable packet_reachable greeted_reach)
  have "focused example_window = 0"
    using focused_packet [of example_env example_create greeted]
    by (simp add: example_window_def greeted_def example_client_def newClient_def)
  then have "focused example_focus = 7"
    by (simp add: example_focus_def handleUIEvent_def handleFocus_def example_lookup)
  then show ?thesis using focus_reported [OF reach] by simp
qed

end
