(* ===== verification/X11_Upload.thy ===== *)
theory X11_Upload
  imports X11_Paint
begin

text \<open>
  An image on its way to the X server in pieces: the pieces are consecutive, cover the image,
  and none is larger than the server accepts, unless a single row is.
\<close>

section \<open>Converted pixels fill their buffer\<close>

lemma swapRB4_length: "swapRB4 d s = Some y \<Longrightarrow> length y = length d"
  by (induction d s arbitrary: y rule: swapRB4.induct) auto

lemma expandBGR_length: "expandBGR d s = Some y \<Longrightarrow> length y = length d"
  by (induction d s arbitrary: y rule: expandBGR.induct) auto

lemma expandRGB_length: "expandRGB d s = Some y \<Longrightarrow> length y = length d"
  by (induction d s arbitrary: y rule: expandRGB.induct) auto

lemmas copiers_length = swapRB4_length expandBGR_length expandRGB_length

lemma run_converter_length: "run_converter cv d s = Some y \<Longrightarrow> length y = length d"
  by (cases cv) (auto simp: copy4_def Let_def dest: copiers_length)

lemma convert_rows_length:
  "convert_rows cv bpp S src T width row n dst = Converted out \<Longrightarrow> length out = length dst"
proof (induction n arbitrary: row dst)
  case (Suc n)
  from Suc.prems obtain d s y where
    d: "go_slice dst (row * S) (row * S + width * BytesPerPixel) = Some d"
    and y: "run_converter cv d s = Some y"
    and rest: "convert_rows cv bpp S src T width (row + 1) n (go_splice dst (row * S) y) = Converted out"
    by (auto simp: Let_def split: option.splits)
  have "length y = length d" using y by (rule run_converter_length)
  moreover have "nat (sint (row * S)) + length d \<le> length dst"
    using d by (auto simp: go_slice_def length_subslice split: if_splits)
  ultimately have "length (go_splice dst (row * S) y) = length dst" by (simp add: go_splice_def)
  then show ?case using Suc.IH [OF rest] by simp
qed simp

lemma Convert_length: "Convert dst S src T width height format = Converted out \<Longrightarrow> length out = length dst"
  by (auto simp: Convert_def Let_def dest: convert_rows_length split: option.splits prod.splits if_splits)

section \<open>Pieces\<close>

fun consecutive :: "int \<Rightarrow> (gint \<times> gint) list \<Rightarrow> int \<Rightarrow> bool" where
  "consecutive a [] b \<longleftrightarrow> a = b"
| "consecutive a (p # ps) b \<longleftrightarrow> sint (fst p) = a \<and> 0 < sint (snd p) \<and> consecutive (a + sint (snd p)) ps b"

lemma consecutive_le: "consecutive a ps b \<Longrightarrow> a \<le> b"
  by (induction ps arbitrary: a) force+

lemma row_pieces_consecutive:
  assumes "1 \<le> sint per" "sint per < 2 ^ 32" "sint height < 2 ^ 32"
  shows "0 \<le> sint row \<Longrightarrow> sint row \<le> sint height \<Longrightarrow> nat (sint height - sint row) \<le> n \<Longrightarrow>
    consecutive (sint row) (row_pieces n per height row) (sint height) \<and>
    list_all (\<lambda>p. sint (snd p) \<le> sint per) (row_pieces n per height row)"
proof (induction n arbitrary: row)
  case (Suc n)
  have minus: "sint (height - row) = sint height - sint row"
    using Suc.prems assms by (intro sint_minus) (simp add: int64_range_def)
  have plus: "sint (row + per) = sint row + sint per"
    using Suc.prems assms by (intro sint_plus) (simp add: int64_range_def)
  show ?case
  proof (cases "sint row < sint height \<and> sint row + sint per \<le> sint height")
    case True
    then have "consecutive (sint (row + per)) (row_pieces n per height (row + per)) (sint height) \<and>
        list_all (\<lambda>p. sint (snd p) \<le> sint per) (row_pieces n per height (row + per))"
      using Suc.prems assms(1) by (intro Suc.IH) (simp_all add: plus)
    with True assms(1) show ?thesis by (simp add: gmin_def minus plus)
  next
    case False
    show ?thesis
    proof (cases "sint row < sint height")
      case True
      with False have "row_pieces n per height (row + per) = []" by (cases n) (simp_all add: plus)
      with True False show ?thesis by (simp add: gmin_def minus)
    next
      case False
      with Suc.prems show ?thesis by simp
    qed
  qed
qed simp

lemma concat_piece_bytes:
  assumes "sint stride = int s" and "sint height = int h" and "h * s = length data" and "s < 2 ^ 31" "h < 2 ^ 31"
  shows "consecutive (int r) ps (int h) \<Longrightarrow> concat (map (piece_bytes stride data) ps) = drop (r * s) data"
proof (induction ps arbitrary: r)
  case Nil
  then show ?case using assms(3) by simp
next
  case (Cons p ps)
  obtain n where n: "sint (snd p) = int n" "0 < n"
    using Cons.prems by (auto intro!: that [of "nat (sint (snd p))"])
  have first: "sint (fst p) = int r" and rest: "consecutive (int (r + n)) ps (int h)"
    using Cons.prems n by auto
  have le: "r + n \<le> h" using consecutive_le [OF rest] by linarith
  have prod: "sint (a * stride) = int (k * s)" if "sint a = int k" "k \<le> h" for a :: gint and k
  proof -
    have "k * s \<le> h * s" using that(2) by simp
    also have "\<dots> < 2 ^ 62"
      using assms(4,5) mult_strict_mono [of h "2 ^ 31" s "2 ^ 31"] by simp
    finally show ?thesis
      using that assms(1) sint_times [of a stride] by (simp add: int64_range_def flip: of_nat_mult)
  qed
  have "piece_bytes stride data p = subslice (r * s) (n * s) data"
    using prod [OF first] prod [OF n(1)] le by (simp add: piece_bytes_def nat_mult_distrib)
  moreover have "concat (map (piece_bytes stride data) ps) = drop ((r + n) * s) data"
    using rest by (rule Cons.IH)
  ultimately show ?case
    by (simp add: subslice_def add_mult_distrib flip: drop_drop)
      (metis add.commute append_take_drop_id drop_drop)
qed

lemma sint_maxImageBytes: "sint (maxImageBytes srv) = int (unat (xs_max_request srv)) * 4 - 64"
proof -
  define m where "m = unat (xs_max_request srv)"
  have m: "m < 65536" using unsigned_less [of "xs_max_request srv"] by (simp add: m_def)
  have "(ucast (xs_max_request srv) :: gint) = of_nat m" by (simp add: m_def)
  moreover have "sint (of_nat m :: gint) = int m" using m by (intro sint_of_nat) simp
  moreover from this have four: "sint (of_nat m * (4 :: gint)) = int m * 4"
    using m sint_times [of "of_nat m" 4] by (simp add: int64_range_def)
  moreover have "sint (of_nat m * (4 :: gint) - 64) = int m * 4 - 64"
    using m four sint_minus [of "of_nat m * 4" 64] by (simp add: int64_range_def)
  ultimately show ?thesis unfolding maxImageBytes_def m_def [symmetric] by (simp only:)
qed

lemma maxImageBytes_bounds: "- 64 \<le> sint (maxImageBytes srv)" "sint (maxImageBytes srv) < 2 ^ 18"
proof -
  have "int (unat (xs_max_request srv)) < 65536" using unsigned_less [of "xs_max_request srv", where 'a = int] by simp
  then have "- 64 \<le> sint (maxImageBytes srv) \<and> sint (maxImageBytes srv) < 262144"
    unfolding sint_maxImageBytes by linarith
  then show "- 64 \<le> sint (maxImageBytes srv)" "sint (maxImageBytes srv) < 2 ^ 18" by simp_all
qed

lemma rowsPerRequest_bounds:
  assumes "sint stride = int s" "1 \<le> s"
  shows "1 \<le> sint (rowsPerRequest srv stride)" "sint (rowsPerRequest srv stride) < 2 ^ 32"
    "sint (rowsPerRequest srv stride) * int s \<le> max (sint (maxImageBytes srv)) (int s)"
proof -
  let ?M = "sint (maxImageBytes srv)"
  note M = maxImageBytes_bounds [of srv]
  have q: "sint (gdiv (maxImageBytes srv) stride) = (if ?M < 0 then - (\<bar>?M\<bar> div int s) else ?M div int s)"
  proof -
    have "\<bar>?M\<bar> div int s \<le> \<bar>?M\<bar> div 1"
      using assms(2) by (intro zdiv_mono2) simp_all
    then have "\<bar>?M\<bar> div int s \<le> \<bar>?M\<bar>" "0 \<le> \<bar>?M\<bar> div int s"
      using assms(2) by (simp_all add: pos_imp_zdiv_nonneg_iff)
    then have "sint (word_of_int q :: gint) = q" if "q \<in> {- (\<bar>?M\<bar> div int s), \<bar>?M\<bar> div int s}" for q
      using that M by (intro sint_of_int64) (auto simp: int64_range_def)
    then show ?thesis using assms unfolding gdiv_def Let_def by (auto simp: not_less)
  qed
  have d: "?M div int s * int s \<le> ?M" "?M div int s \<le> max ?M 0"
  proof -
    have "?M div int s * int s + ?M mod int s = ?M" "0 \<le> ?M mod int s" using assms(2) by simp_all
    then show "?M div int s * int s \<le> ?M" by linarith
    have "?M div int s \<le> max ?M 0 div int s" using assms(2) by (intro zdiv_mono1) simp_all
    also have "\<dots> \<le> max ?M 0 div 1" using assms(2) by (intro zdiv_mono2) simp_all
    finally show "?M div int s \<le> max ?M 0" by simp
  qed
  have neg: "sint (gdiv (maxImageBytes srv) stride) \<le> 0" if "?M < 0"
    using that assms(2) unfolding q by (simp add: pos_imp_zdiv_nonneg_iff)
  have pos: "sint (gdiv (maxImageBytes srv) stride) = ?M div int s" if "\<not> ?M < 0"
    using that unfolding q by simp
  have per: "sint (rowsPerRequest srv stride) = (if sint (gdiv (maxImageBytes srv) stride) \<le> 1 then 1
      else sint (gdiv (maxImageBytes srv) stride))"
    by (auto simp: rowsPerRequest_def gmax_def)
  have le: "sint (gdiv (maxImageBytes srv) stride) \<le> max ?M 0"
    using neg pos d(2) by (cases "?M < 0") auto
  show "1 \<le> sint (rowsPerRequest srv stride)" unfolding per by simp
  show "sint (rowsPerRequest srv stride) < 2 ^ 32" unfolding per using le M by (auto simp: max_def split: if_splits)
  show "sint (rowsPerRequest srv stride) * int s \<le> max ?M (int s)"
    unfolding per using neg pos d(1) by (cases "?M < 0") auto
qed

lemma pieces_cover:
  assumes "sint width = int w" "sint height = int h" "1 \<le> w" "w \<le> 65535" "1 \<le> h" "h \<le> 65535"
    and "length data = h * (w * 4)"
  shows "consecutive 0 (pieces srv (width * BytesPerPixel) height) (int h)"
    "concat (map (piece_bytes (width * BytesPerPixel) data) (pieces srv (width * BytesPerPixel) height)) = data"
    "list_all (\<lambda>p. sint (snd p) * int (w * 4) \<le> max (sint (maxImageBytes srv)) (int (w * 4)))
       (pieces srv (width * BytesPerPixel) height)"
proof -
  have stride: "sint (width * BytesPerPixel) = int (w * 4)"
    using assms sint_times [of width 4] by (simp add: BytesPerPixel_def int64_range_def)
  note per = rowsPerRequest_bounds [OF stride, of srv]
  have *: "consecutive (sint 0) (pieces srv (width * BytesPerPixel) height) (sint height) \<and>
      list_all (\<lambda>p. sint (snd p) \<le> sint (rowsPerRequest srv (width * BytesPerPixel)))
        (pieces srv (width * BytesPerPixel) height)"
    using row_pieces_consecutive [of "rowsPerRequest srv (width * BytesPerPixel)" height 0 "nat (sint height)"]
      per assms by (simp add: pieces_def)
  then show cover: "consecutive 0 (pieces srv (width * BytesPerPixel) height) (int h)"
    using assms by simp
  show "concat (map (piece_bytes (width * BytesPerPixel) data) (pieces srv (width * BytesPerPixel) height)) = data"
    using concat_piece_bytes [OF stride assms(2), of data 0] cover assms by simp
  have "sint (snd p) * int (w * 4) \<le> max (sint (maxImageBytes srv)) (int (w * 4))"
    if "sint (snd p) \<le> sint (rowsPerRequest srv (width * BytesPerPixel))" for p :: "gint \<times> gint"
  proof (rule order_trans [OF mult_right_mono [OF that]])
    show "sint (rowsPerRequest srv (width * BytesPerPixel)) * int (w * 4) \<le>
        max (sint (maxImageBytes srv)) (int (w * 4))"
      using assms(3) by (intro per(3)) simp
  qed simp
  then show "list_all (\<lambda>p. sint (snd p) * int (w * 4) \<le> max (sint (maxImageBytes srv)) (int (w * 4)))
      (pieces srv (width * BytesPerPixel) height)"
    using * by (simp add: list_all_iff)
qed

section \<open>Painting\<close>

lemma clipped_size:
  assumes "ClipDamage x y width0 height0 ww wh = Some (width, height)"
    and "1 \<le> sint ww" "sint ww \<le> 65535" "1 \<le> sint wh" "sint wh \<le> 65535" "width \<noteq> 0" "height \<noteq> 0"
  shows "1 \<le> sint width" "sint width \<le> 65535" "1 \<le> sint height" "sint height \<le> 65535"
proof -
  have m: "sint (ww - x) = sint ww - sint x" "sint (wh - y) = sint wh - sint y"
    if "0 \<le> sint x" "0 \<le> sint y"
    using that assms sint_int64 [of x] sint_int64 [of y]
    by (simp_all add: sint_minus int64_range_def)
  have nz: "sint width \<noteq> 0" "sint height \<noteq> 0" using assms(6,7) by (metis signed_0 signed_word_eqI)+
  show "1 \<le> sint width" "sint width \<le> 65535" "1 \<le> sint height" "sint height \<le> 65535"
    using assms(1-5) m nz by (auto simp: ClipDamage_def gmin_def gmax_def split: if_splits)
qed

lemma area_bytes:
  fixes width height :: gint
  assumes "1 \<le> sint width" "sint width \<le> 65535" "1 \<le> sint height" "sint height \<le> 65535"
  shows "sint (width * BytesPerPixel * height) = sint height * (sint width * 4)"
  using good_size_area [of width height] assms by (simp add: bad_size_def mult.commute mult.left_commute)

lemma putImage_log:
  "putImage srv pixmap x y width height data d = d\<lparr>x_log := x_log d @
     map (\<lambda>p. Accepted (PutImage pixmap (xs_depth srv) (ucast width) (ucast (snd p)) (ucast x)
       (ucast (y + fst p)) (piece_bytes (width * BytesPerPixel) data p)))
       (pieces srv (width * BytesPerPixel) height)\<rparr>"
proof -
  have "fold (\<lambda>piece. x_send (f piece)) ps d = d\<lparr>x_log := x_log d @ map (\<lambda>p. Accepted (f p)) ps\<rparr>"
    for f :: "gint \<times> gint \<Rightarrow> xreq" and ps
    by (induction ps arbitrary: d) (simp_all add: x_send_def)
  then show ?thesis by (simp add: putImage_def Let_def)
qed

end
