(* ===== verification/X11_Transfer.thy ===== *)
theory X11_Transfer
  imports X11_Display X11_Upload
begin

text \<open>
  An incremental transfer of clipboard text: each time the requestor deletes the property, the
  next piece is put there; after the last piece comes an empty one, and the transfer is over.
\<close>

section \<open>Pieces of text\<close>

fun chunks_of :: "nat \<Rightarrow> bytes \<Rightarrow> bytes list" where
  "chunks_of n xs = (if n = 0 \<or> xs = [] then [] else take n xs # chunks_of n (drop n xs))"

declare chunks_of.simps [simp del]

lemma chunks_of_Nil [simp]: "chunks_of n [] = []"
  by (simp add: chunks_of.simps)

lemma chunks_of_Cons: "0 < n \<Longrightarrow> xs \<noteq> [] \<Longrightarrow> chunks_of n xs = take n xs # chunks_of n (drop n xs)"
  by (simp add: chunks_of.simps)

lemma concat_chunks_of: "0 < n \<Longrightarrow> concat (chunks_of n xs) = xs"
  by (induction n xs rule: chunks_of.induct) (subst chunks_of.simps, simp)

lemma chunks_of_sizes: "list_all (\<lambda>ch. ch \<noteq> [] \<and> length ch \<le> n) (chunks_of n xs)"
  by (induction n xs rule: chunks_of.induct) (subst chunks_of.simps, simp)

section \<open>Taking the pieces\<close>

definition piece_request :: "xid \<Rightarrow> atom \<Rightarrow> atom \<Rightarrow> bytes \<Rightarrow> xreq" where
  "piece_request window property target ch = ChangeProperty window property target 8 (of_nat (length ch)) ch"

text \<open>The requestor deletes the property \<open>n\<close> times.\<close>

definition take_pieces :: "xserver \<Rightarrow> xid \<Rightarrow> atom \<Rightarrow> nat \<Rightarrow> 'o x11 \<Rightarrow> 'o x11" where
  "take_pieces srv window property n d =
     snd (x11_readLoop srv (replicate n (Some (PropertyNotify window property PropertyDelete), False)) d)"

lemma delete_continues:
  assumes "x_clipboard d = Some c" "property \<noteq> atom_of srv ''WM_STATE''"
  shows "translate srv (PropertyNotify window property PropertyDelete) d =
    (None, continue_transfer srv c window property PropertyDelete d)"
  using assms
  by (simp add: translate_def clipboard_event_def propertyNotify_def PropertyDelete_def PropertyNewValue_def)

lemma take_pieces_0 [simp]: "take_pieces srv window property 0 d = d"
  by (simp add: take_pieces_def)

lemma take_pieces_Suc:
  assumes "x_clipboard d = Some c" "property \<noteq> atom_of srv ''WM_STATE''"
  shows "take_pieces srv window property (Suc n) d =
    take_pieces srv window property n (continue_transfer srv c window property PropertyDelete d)"
  by (simp add: take_pieces_def delete_continues [OF assms])

lemma continue_last:
  assumes "map_of (xc_transfers c) (window, property) = Some t" "tr_offset t = of_nat (length (tr_data t))"
  shows "continue_transfer srv c window property PropertyDelete d =
    put_clip (c\<lparr>xc_transfers := AList.delete (window, property) (xc_transfers c)\<rparr>)
      (x_send (piece_request window property (tr_target t) []) d)"
  using assms by (simp add: continue_transfer_def piece_request_def)

lemma continue_next:
  assumes "map_of (xc_transfers c) (window, property) = Some t" "tr_offset t = of_nat k"
    and "k < length (tr_data t)" "length (tr_data t) < 2 ^ 62" "0 < n" "sint (maxImageBytes srv) = int n"
  shows "continue_transfer srv c window property PropertyDelete d =
    x_send (piece_request window property (tr_target t) (take n (drop k (tr_data t))))
      (put_clip (c\<lparr>xc_transfers := AList.update (window, property)
         (t\<lparr>tr_offset := of_nat (min (length (tr_data t)) (k + n))\<rparr>) (xc_transfers c)\<rparr>) d)"
proof -
  let ?len = "length (tr_data t)"
  have len: "sint (of_nat ?len :: gint) = int ?len" "sint (of_nat k :: gint) = int k"
    using assms(3,4) by (simp_all add: sint_of_nat)
  have remaining: "(of_nat ?len - of_nat k :: gint) = of_nat (?len - k)"
    using assms(3) by (simp add: of_nat_diff)
  have rest: "sint (of_nat (?len - k) :: gint) = int (?len - k)" using assms(4) by (intro sint_of_nat) simp
  then have nonzero: "(of_nat (?len - k) :: gint) \<noteq> 0" using assms(3) by auto
  define m where "m = min (?len - k) n"
  have size: "gmin (of_nat (?len - k)) (maxImageBytes srv) = of_nat m"
  proof (cases "?len - k \<le> n")
    case True
    then show ?thesis using rest assms(6) by (simp add: gmin_def m_def)
  next
    case False
    have "maxImageBytes srv = word_of_int (sint (maxImageBytes srv))" by simp
    then have "maxImageBytes srv = of_nat n" unfolding assms(6) by simp
    moreover have "\<not> sint (of_nat (?len - k) :: gint) \<le> sint (maxImageBytes srv)"
      using False unfolding rest assms(6) by linarith
    ultimately show ?thesis using False unfolding gmin_def m_def by (simp del: of_nat_diff)
  qed
  have stop: "(of_nat k + of_nat m :: gint) = of_nat (k + m)" by simp
  have "sint (of_nat (k + m) :: gint) = int (k + m)"
    using assms(3,4) by (intro sint_of_nat) (simp add: m_def)
  then have slice: "go_slice (tr_data t) (of_nat k) (of_nat k + of_nat m) = Some (take n (drop k (tr_data t)))"
    unfolding stop using assms(3) len(2) by (auto simp: go_slice_def m_def subslice_def min_def)
  have "k + m = min ?len (k + n)" using assms(3) by (auto simp: m_def min_def)
  with stop have after: "(of_nat k + of_nat m :: gint) = of_nat (min ?len (k + n))" by metis
  show ?thesis
    unfolding continue_transfer_def assms(1,2) option.case Let_def remaining size slice piece_request_def
    unfolding after by (simp only: nonzero simp_thms if_False)
qed

text \<open>All pieces that remain, then the empty one.\<close>

lemma transfer_finishes:
  assumes "property \<noteq> atom_of srv ''WM_STATE''" "0 < n" "sint (maxImageBytes srv) = int n"
  shows "x_clipboard d = Some c \<Longrightarrow> map_of (xc_transfers c) (window, property) = Some t \<Longrightarrow>
    tr_offset t = of_nat k \<Longrightarrow> k \<le> length (tr_data t) \<Longrightarrow> length (tr_data t) < 2 ^ 62 \<Longrightarrow>
    d' = take_pieces srv window property (Suc (length (chunks_of n (drop k (tr_data t))))) d \<Longrightarrow>
    x_log d' = x_log d @ map (\<lambda>ch. Accepted (piece_request window property (tr_target t) ch))
      (chunks_of n (drop k (tr_data t)) @ [[]]) \<and>
    x_panicked d' = x_panicked d \<and>
    (\<exists>c'. x_clipboard d' = Some c' \<and> map_of (xc_transfers c') (window, property) = None)"
proof (induction "length (tr_data t) - k" arbitrary: k t c d d' rule: less_induct)
  case less
  show ?case
  proof (cases "k = length (tr_data t)")
    case True
    then have "tr_offset t = of_nat (length (tr_data t))" using less.prems(3) by simp
    from continue_last [OF less.prems(2) this, of srv d]
    show ?thesis
      using True less.prems take_pieces_Suc [OF less.prems(1) assms(1), of window 0]
      by (simp add: put_clip_def delete_conv')
  next
    case False
    then have lt: "k < length (tr_data t)" using less.prems(4) by simp
    let ?k = "min (length (tr_data t)) (k + n)"
    let ?t = "t\<lparr>tr_offset := of_nat ?k\<rparr>"
    let ?c = "c\<lparr>xc_transfers := AList.update (window, property) ?t (xc_transfers c)\<rparr>"
    let ?d = "x_send (piece_request window property (tr_target t) (take n (drop k (tr_data t)))) (put_clip ?c d)"
    have chunks: "chunks_of n (drop k (tr_data t)) =
        take n (drop k (tr_data t)) # chunks_of n (drop ?k (tr_data t))"
    proof -
      have "drop n (drop k (tr_data t)) = drop ?k (tr_data t)" by (simp add: min_def add.commute)
      then show ?thesis using chunks_of_Cons [OF assms(2), of "drop k (tr_data t)"] lt by simp
    qed
    have d': "d' = take_pieces srv window property (Suc (length (chunks_of n (drop ?k (tr_data ?t))))) ?d"
      unfolding less.prems(6) chunks list.size(4) add_Suc_right add_0_right
        take_pieces_Suc [OF less.prems(1) assms(1)] continue_next [OF less.prems(2,3) lt less.prems(5) assms(2,3)]
      by simp
    have "x_log d' = x_log ?d @ map (\<lambda>ch. Accepted (piece_request window property (tr_target ?t) ch))
        (chunks_of n (drop ?k (tr_data ?t)) @ [[]]) \<and> x_panicked d' = x_panicked ?d \<and>
      (\<exists>c'. x_clipboard d' = Some c' \<and> map_of (xc_transfers c') (window, property) = None)"
      by (rule less.hyps [OF _ _ _ _ _ _ d']) (use lt less.prems(5) assms(2) in \<open>auto simp: put_clip_def update_conv'\<close>)
    then show ?thesis by (simp add: chunks put_clip_def)
  qed
qed

section \<open>From the request to the last piece\<close>

lemma large_offer:
  assumes "x_clipboard d = Some c" "target \<in> set (a_texts srv)" "target \<noteq> a_targets srv" "property \<noteq> AtomNone"
    and "sint (maxImageBytes srv) < int (length (xc_text c))" "\<And>log r. xs_refuses srv log r = None"
  shows "translate srv (SelectionRequest time (xc_window c) requestor (a_selection srv) target property) d =
    (None, x_send (SendSelectionNotify time requestor (a_selection srv) target property)
       (put_clip (c\<lparr>xc_transfers := AList.update (requestor, property)
            \<lparr>tr_target = target, tr_data = xc_text c, tr_offset = 0\<rparr> (xc_transfers c)\<rparr>)
         (x_send (ChangeProperty requestor property (a_incr srv) 32 1 (put32 (of_nat (length (xc_text c)))))
           (x_send (WatchProperties requestor) d))))"
  using assms
  by (simp add: translate_def clipboard_event_def selectionRequest_def offer_text_def x_check_def x_send_def
      Let_def)

end
