(* ===== verification/Properties_X11.thy ===== *)
theory Properties_X11
  imports Properties_Client X11_Transfer
begin

text \<open>
  What reaches the X server: the pixels of a damage rectangle, in requests it accepts, and
  clipboard text too large for one property, piece by piece.
\<close>

section \<open>Painting\<close>

text \<open>C33: Painting damage that converts sends the converted pixels to the pixmap of the window
  as requests for consecutive rows that together are exactly the pixels, none larger than the
  server accepts unless a single row is, and then clears the damaged area so that the server
  shows them; nothing else of the display changes.\<close>

theorem paint_uploads_damage:
  assumes "map_of (x_windows d) xid = Some w" "xw_pixmap w \<noteq> 0"
    and "1 \<le> sint (xw_width w)" "sint (xw_width w) \<le> 65535" "1 \<le> sint (xw_height w)" "sint (xw_height w) \<le> 65535"
    and "ClipDamage x y width0 height0 (xw_width w) (xw_height w) = Some (width, height)"
    and "width \<noteq> 0" "height \<noteq> 0"
    and "Convert (replicate (nat (sint (width * BytesPerPixel * height))) 0) (width * BytesPerPixel)
      px rowstride width height format = Converted out"
  shows "\<exists>ps d'. x11_Paint srv (ID xid) x y width0 height0 px rowstride format d = (None, d') \<and>
    d' = d\<lparr>x_log := x_log d @
      map (\<lambda>p. Accepted (PutImage (xw_pixmap w) (xs_depth srv) (ucast width) (ucast (snd p))
        (ucast x) (ucast (y + fst p)) (piece_bytes (width * BytesPerPixel) out p))) ps @
      [Accepted (ClearArea xid (ucast x) (ucast y) (ucast width) (ucast height))]\<rparr> \<and>
    consecutive 0 ps (sint height) \<and>
    concat (map (piece_bytes (width * BytesPerPixel) out) ps) = out \<and>
    (\<forall>p\<in>set ps. sint (snd p) * (sint width * 4) \<le> max (sint (maxImageBytes srv)) (sint width * 4))"
proof -
  have range: "1 \<le> sint width" "sint width \<le> 65535" "1 \<le> sint height" "sint height \<le> 65535"
    by (rule clipped_size [OF assms(7,3-6,8,9)])+
  have nats: "sint width = int (nat (sint width))" "sint height = int (nat (sint height))"
    using range by simp_all
  have "length out = nat (sint (width * BytesPerPixel * height))"
    using Convert_length [OF assms(10)] by simp
  also have "\<dots> = nat (sint height) * (nat (sint width) * 4)"
    using range by (simp add: area_bytes nat_mult_distrib)
  finally have len: "length out = nat (sint height) * (nat (sint width) * 4)" .
  note cover = pieces_cover [OF nats _ _ _ _ len, of srv]
  have "x11_Paint srv (ID xid) x y width0 height0 px rowstride format d =
      (None, x_send (ClearArea xid (ucast x) (ucast y) (ucast width) (ucast height))
        (putImage srv (xw_pixmap w) x y width height out d))"
    using assms by (simp add: x11_Paint_def try_window_def Let_def)
  then show ?thesis
    using cover range unfolding putImage_log
    by (intro exI [of _ "pieces srv (width * BytesPerPixel) height"] exI conjI)
      (auto simp: x_send_def list_all_iff)
qed

definition small_server :: xserver where
  "small_server = example_server\<lparr>xs_max_request := 22\<rparr>"

definition painted_display :: "unit x11" where
  "painted_display = example_display\<lparr>x_windows :=
     [(7, \<lparr>xw_pixmap = 8, xw_x = 0, xw_y = 0, xw_width = 3, xw_height = 4, xw_override = False,
          xw_mapped = True, xw_minimized = False, xw_initial = []\<rparr>)]\<rparr>"

theorem paint_uploads_damage_witness:
  "\<exists>ps. x_log (snd (x11_Paint small_server (ID 7) 0 1 9 9 (map of_nat [0..<36]) 12 ''BGRX'' painted_display)) =
       x_log painted_display @
       map (\<lambda>p. Accepted (PutImage 8 24 3 (ucast (snd p)) 0 (ucast (1 + fst p))
         (piece_bytes 12 (map of_nat [0..<36]) p))) ps @ [Accepted (ClearArea 7 0 1 3 3)] \<and>
     consecutive 0 ps 3 \<and> concat (map (piece_bytes 12 (map of_nat [0..<36])) ps) = map of_nat [0..<36] \<and>
     (\<forall>p\<in>set ps. sint (snd p) * 12 \<le> 24)"
proof -
  have clip: "ClipDamage 0 1 9 9 3 4 = Some (3, 3)" by code_simp
  have pixels: "Convert (replicate (nat (sint (3 * BytesPerPixel * 3))) 0) (3 * BytesPerPixel)
      (map of_nat [0..<36]) 12 3 3 ''BGRX'' = Converted (map of_nat [0..<36])"
    by code_simp
  have limit: "sint (maxImageBytes small_server) = 24" by code_simp
  have stride: "3 * BytesPerPixel = (12 :: gint)" by (simp add: BytesPerPixel_def)
  from paint_uploads_damage [of painted_display 7 _ 0 1 9 9 3 3 "map of_nat [0..<36]" 12 "''BGRX''"
      "map of_nat [0..<36]" small_server, OF _ _ _ _ _ _ _ _ _ pixels]
  show ?thesis
    using clip limit unfolding stride
    by (force simp: painted_display_def small_server_def example_server_def del: upt_rec_numeral)
qed

section \<open>Large clipboard text\<close>

text \<open>C34: Clipboard text larger than the server accepts in one property reaches the client that
  asked for it: the request is answered with the size and the INCR type, then each time that
  client takes a piece by deleting the property the next piece is put there, none larger than
  the limit, and after the last one an empty piece.  The pieces together are exactly the
  text, and then the transfer is over.\<close>

theorem incr_transfer_complete:
  fixes requestor :: xid and time :: "32 word"
  assumes "x_clipboard d = Some c" "\<And>log r. xs_refuses srv log r = None"
    and "target \<in> set (a_texts srv)" "target \<noteq> a_targets srv"
    and "property \<noteq> AtomNone" "property \<noteq> atom_of srv ''WM_STATE''"
    and "sint (maxImageBytes srv) = int n" "0 < n" "n < length (xc_text c)" "length (xc_text c) \<le> xMaxClipboardBytes"
  defines "asked \<equiv> snd (translate srv
      (SelectionRequest time (xc_window c) requestor (a_selection srv) target property) d)"
    and "parts \<equiv> chunks_of n (xc_text c)"
  defines "taken \<equiv> take_pieces srv requestor property (Suc (length parts)) asked"
  shows "x_log taken = x_log d @
      [Accepted (WatchProperties requestor),
       Accepted (ChangeProperty requestor property (a_incr srv) 32 1 (put32 (of_nat (length (xc_text c))))),
       Accepted (SendSelectionNotify time requestor (a_selection srv) target property)] @
      map (\<lambda>part. Accepted (piece_request requestor property target part)) (parts @ [[]]) \<and>
    concat parts = xc_text c \<and> (\<forall>part\<in>set parts. part \<noteq> [] \<and> length part \<le> n) \<and>
    x_panicked taken = x_panicked d \<and>
    (\<exists>c'. x_clipboard taken = Some c' \<and> map_of (xc_transfers c') (requestor, property) = None)"
proof -
  let ?t = "\<lparr>tr_target = target, tr_data = xc_text c, tr_offset = 0\<rparr>"
  let ?c = "c\<lparr>xc_transfers := AList.update (requestor, property) ?t (xc_transfers c)\<rparr>"
  have big: "sint (maxImageBytes srv) < int (length (xc_text c))" using assms(7,9) by simp
  have asked: "asked = x_send (SendSelectionNotify time requestor (a_selection srv) target property)
      (put_clip ?c (x_send (ChangeProperty requestor property (a_incr srv) 32 1
          (put32 (of_nat (length (xc_text c))))) (x_send (WatchProperties requestor) d)))"
    unfolding asked_def large_offer [OF assms(1,3,4,5) big assms(2)] by simp
  have "x_clipboard asked = Some ?c" by (simp add: asked put_clip_def)
  moreover have "map_of (xc_transfers ?c) (requestor, property) = Some ?t" by (simp add: update_conv')
  moreover have "length (tr_data ?t) < 2 ^ 62" using assms(10) by (simp add: xMaxClipboardBytes_def)
  ultimately have "x_log taken = x_log asked @
      map (\<lambda>part. Accepted (piece_request requestor property target part)) (parts @ [[]]) \<and>
    x_panicked taken = x_panicked asked \<and>
    (\<exists>c'. x_clipboard taken = Some c' \<and> map_of (xc_transfers c') (requestor, property) = None)"
    using transfer_finishes [OF assms(6,8,7), of asked ?c requestor ?t 0 taken]
    by (simp add: taken_def parts_def)
  then show ?thesis
    using concat_chunks_of [OF assms(8)] chunks_of_sizes [of n "xc_text c"]
    by (simp add: asked put_clip_def parts_def list_all_iff)
qed

definition copied_display :: "unit x11" where
  "copied_display = example_display\<lparr>x_clipboard := Some \<lparr>xc_window = 6, xc_text = map of_nat [0..<50],
     xc_requested = 0, xc_receiving = False, xc_receiveData = [], xc_transfers = []\<rparr>\<rparr>"

theorem incr_transfer_complete_witness:
  "x_log (take_pieces small_server 30 40 4 (snd (translate small_server
     (SelectionRequest 5 6 30 9 11 40) copied_display))) =
   [Accepted (CreateGC 1 0), Accepted (WatchProperties 30),
    Accepted (ChangeProperty 30 40 4 32 1 [50, 0, 0, 0]), Accepted (SendSelectionNotify 5 30 9 11 40),
    Accepted (ChangeProperty 30 40 11 8 24 (map of_nat [0..<24])),
    Accepted (ChangeProperty 30 40 11 8 24 (map of_nat [24..<48])),
    Accepted (ChangeProperty 30 40 11 8 2 [48, 49]), Accepted (ChangeProperty 30 40 11 8 0 [])]"
proof -
  have parts: "chunks_of 24 (map of_nat [0..<50] :: bytes) =
      [map of_nat [0..<24], map of_nat [24..<48], [48, 49]]" by code_simp
  have "a_texts small_server = [11, 24, 10, 4, 6]" "a_targets small_server = 7"
    "a_selection small_server = 9" "a_incr small_server = 4" "atom_of small_server ''WM_STATE'' = 8"
    "sint (maxImageBytes small_server) = 24" by code_simp+
  moreover have "\<And>log r. xs_refuses small_server log r = None"
    by (simp add: small_server_def example_server_def)
  moreover have four: "Suc (Suc (Suc (Suc 0))) = (4 :: nat)" by simp
  moreover have "put32 50 = [50, 0, 0, 0]" by code_simp
  ultimately show ?thesis
    using incr_transfer_complete [THEN conjunct1, of copied_display _ small_server 11 40 24 30 5]
    by (simp add: copied_display_def example_display_def parts piece_request_def AtomNone_def
        xMaxClipboardBytes_def four del: upt_rec_numeral)
qed

end
