(* ===== verification/Go_Url.thy ===== *)
theory Go_Url
  imports Go_Utf8
begin

text \<open>
  The part of Go's \<open>strings\<close>, \<open>net\<close> and \<open>net/url\<close> packages the command line uses, as of Go 1.25.0,
  the version \<open>go.mod\<close> names: \<open>url.Parse\<close>, \<open>URL.Hostname\<close>, \<open>URL.Port\<close>, \<open>URL.String\<close>,
  \<open>url.PathUnescape\<close> and \<open>net.JoinHostPort\<close>.
\<close>

section \<open>Strings\<close>

definition has_prefix :: "string \<Rightarrow> string \<Rightarrow> bool" where
  "has_prefix p s \<longleftrightarrow> take (length p) s = p"

definition has_suffix :: "string \<Rightarrow> string \<Rightarrow> bool" where
  "has_suffix p s \<longleftrightarrow> length p \<le> length s \<and> drop (length s - length p) s = p"

definition trim_prefix :: "string \<Rightarrow> string \<Rightarrow> string" where
  "trim_prefix p s = (if has_prefix p s then drop (length p) s else s)"

definition trim_suffix :: "string \<Rightarrow> string \<Rightarrow> string" where
  "trim_suffix p s = (if has_suffix p s then take (length s - length p) s else s)"

text \<open>\<open>strings.Cut\<close> at a character, and the parts front and after its last occurrence.\<close>

definition cut :: "char \<Rightarrow> string \<Rightarrow> string \<times> string \<times> bool" where
  "cut c s = (case dropWhile (\<lambda>x. x \<noteq> c) s of
     [] \<Rightarrow> (s, [], False)
   | _ # rest \<Rightarrow> (takeWhile (\<lambda>x. x \<noteq> c) s, rest, True))"

definition cut_last :: "char \<Rightarrow> string \<Rightarrow> (string \<times> string) option" where
  "cut_last c s = (case dropWhile (\<lambda>x. x \<noteq> c) (rev s) of
     [] \<Rightarrow> None
   | _ # rest \<Rightarrow> Some (rev rest, rev (takeWhile (\<lambda>x. x \<noteq> c) (rev s))))"

definition char_code :: "char \<Rightarrow> nat" where "char_code c = of_char c"

definition in_range :: "char \<Rightarrow> char \<Rightarrow> char \<Rightarrow> bool" where
  "in_range lo hi c \<longleftrightarrow> char_code lo \<le> char_code c \<and> char_code c \<le> char_code hi"

definition is_digit :: "char \<Rightarrow> bool" where "is_digit = in_range (CHR ''0'') (CHR ''9'')"

definition is_letter :: "char \<Rightarrow> bool" where
  "is_letter c \<longleftrightarrow> in_range (CHR ''a'') (CHR ''z'') c \<or> in_range (CHR ''A'') (CHR ''Z'') c"

text \<open>\<open>strings.ToLower\<close> and \<open>strings.ToUpper\<close> of ASCII text; no other text is compared or shown.\<close>

definition lower_char :: "char \<Rightarrow> char" where
  "lower_char c = (if in_range (CHR ''A'') (CHR ''Z'') c then char_of (char_code c + 32) else c)"

definition upper_char :: "char \<Rightarrow> char" where
  "upper_char c = (if in_range (CHR ''a'') (CHR ''z'') c then char_of (char_code c - 32) else c)"

definition ToLower :: "string \<Rightarrow> string" where "ToLower s = map lower_char s"
definition ToUpper :: "string \<Rightarrow> string" where "ToUpper s = map upper_char s"

text \<open>\<open>unicode.IsControl\<close> and \<open>unicode.IsSpace\<close>.\<close>

definition IsControl :: "nat \<Rightarrow> bool" where
  "IsControl r \<longleftrightarrow> r < 0x20 \<or> 0x7f \<le> r \<and> r < 0xa0"

definition IsSpace :: "nat \<Rightarrow> bool" where
  "IsSpace r \<longleftrightarrow> r \<in> set [9, 10, 11, 12, 13, 32, 0x85, 0xa0, 0x1680, 0x2028, 0x2029, 0x202f, 0x205f, 0x3000]
     \<or> 0x2000 \<le> r \<and> r \<le> 0x200a"

text \<open>The text as runes, each with the bytes it is encoded by; then \<open>strings.TrimSpace\<close>.\<close>

function rune_segments :: "bytes \<Rightarrow> (nat \<times> bytes) list" where
  "rune_segments [] = []"
| "rune_segments (b # bs) =
     (case decode_rune (b # bs) of
        None \<Rightarrow> (RuneError, [b]) # rune_segments bs
      | Some (r, n) \<Rightarrow> (r, take n (b # bs)) # rune_segments (drop n (b # bs)))"
  by pat_completeness auto
termination
  by (relation "measure length") (auto dest!: decode_rune_size simp: less_Suc_eq_le)

definition TrimSpace :: "string \<Rightarrow> string" where
  "TrimSpace s =
     (let blank = (\<lambda>seg. IsSpace (fst seg));
          rest = dropWhile blank (rune_segments (string_bytes s))
      in bytes_string (concat (map snd (rev (dropWhile blank (rev rest))))))"

section \<open>Percent encoding\<close>

datatype url_error =
    ControlCharacter | MissingScheme | ColonInFirstSegment | MissingBracket | InvalidPort string
  | InvalidUserinfo | EscapeError string | InvalidHostError string

datatype encoding = EncodePath | EncodePathSegment | EncodeHost | EncodeZone | EncodeUserPassword | EncodeFragment

definition shouldEscape :: "char \<Rightarrow> encoding \<Rightarrow> bool" where
  "shouldEscape c mode =
     (if is_letter c \<or> is_digit c then False
      else if (mode = EncodeHost \<or> mode = EncodeZone) \<and> c \<in> set (CHR 0x22 # CHR 0x27 # ''!$&()*+,;=:[]<>'') then False
      else if c \<in> set ''-_.~'' then False
      else if c \<in> set ''$&+,/:;=?@'' then
        (case mode of
           EncodePath \<Rightarrow> c = CHR ''?''
         | EncodePathSegment \<Rightarrow> c \<in> set ''/;,?''
         | EncodeUserPassword \<Rightarrow> c \<in> set ''@/?:''
         | EncodeFragment \<Rightarrow> False
         | _ \<Rightarrow> True)
      else if mode = EncodeFragment \<and> c \<in> set ''!()*'' then False
      else True)"

definition hex_value :: "char \<Rightarrow> nat option" where
  "hex_value c =
     (if is_digit c then Some (char_code c - 48)
      else if in_range (CHR ''a'') (CHR ''f'') c then Some (char_code c - 87)
      else if in_range (CHR ''A'') (CHR ''F'') c then Some (char_code c - 55)
      else None)"

text \<open>Whether a mode forbids an encoded byte, given by its two hexadecimal digits.\<close>

definition forbidden_escape :: "encoding \<Rightarrow> nat \<Rightarrow> nat \<Rightarrow> bool" where
  "forbidden_escape mode h l =
     (case mode of
        EncodeHost \<Rightarrow> h < 8 \<and> \<not> (h = 2 \<and> l = 5)
      | EncodeZone \<Rightarrow> \<not> (h = 2 \<and> l = 5) \<and> 16 * h + l \<noteq> 32 \<and> shouldEscape (char_of (16 * h + l)) EncodeHost
      | _ \<Rightarrow> False)"

fun unescape :: "encoding \<Rightarrow> string \<Rightarrow> url_error + string" where
  "unescape mode [] = Inr []"
| "unescape mode (c # s) =
     (if c = CHR ''%'' then
        (case s of
           x # y # rest \<Rightarrow>
             (case (hex_value x, hex_value y) of
                (Some h, Some l) \<Rightarrow>
                  if forbidden_escape mode h l then Inl (EscapeError [c, x, y])
                  else bind_res (unescape mode rest) (\<lambda>t. Inr (char_of (16 * h + l) # t))
              | _ \<Rightarrow> Inl (EscapeError [c, x, y]))
         | _ \<Rightarrow> Inl (EscapeError (c # s)))
      else if (mode = EncodeHost \<or> mode = EncodeZone) \<and> char_code c < 0x80 \<and> shouldEscape c mode
      then Inl (InvalidHostError [c])
      else bind_res (unescape mode s) (\<lambda>t. Inr (c # t)))"

definition hex_digit :: "nat \<Rightarrow> char" where
  "hex_digit d = (if d < 10 then char_of (48 + d) else char_of (55 + d))"

definition escape_char :: "encoding \<Rightarrow> char \<Rightarrow> string" where
  "escape_char mode c =
     (if shouldEscape c mode then [CHR ''%'', hex_digit (char_code c div 16), hex_digit (char_code c mod 16)] else [c])"

definition escape :: "encoding \<Rightarrow> string \<Rightarrow> string" where
  "escape mode s = concat (map (escape_char mode) s)"

definition PathUnescape :: "string \<Rightarrow> url_error + string" where
  "PathUnescape = unescape EncodePathSegment"

section \<open>Parsing URLs\<close>

record url =
  u_Scheme :: string
  u_Opaque :: string
  u_User :: "(string \<times> string option) option"
  u_Host :: string
  u_Path :: string
  u_RawPath :: string
  u_RawQuery :: string
  u_Fragment :: string

definition no_url :: url where
  "no_url = \<lparr>u_Scheme = [], u_Opaque = [], u_User = None, u_Host = [], u_Path = [], u_RawPath = [],
     u_RawQuery = [], u_Fragment = []\<rparr>"

text \<open>The scheme and the rest; the accumulator holds what has been read.\<close>

fun getScheme :: "string \<Rightarrow> string \<Rightarrow> url_error + string \<times> string" where
  "getScheme acc [] = Inr ([], acc)"
| "getScheme acc (c # s) =
     (if is_letter c then getScheme (acc @ [c]) s
      else if is_digit c \<or> c \<in> set ''+-.'' then
        (if acc = [] then Inr ([], acc @ c # s) else getScheme (acc @ [c]) s)
      else if c = CHR '':'' then (if acc = [] then Inl MissingScheme else Inr (acc, s))
      else Inr ([], acc @ c # s))"

definition validUserinfo :: "string \<Rightarrow> bool" where
  "validUserinfo s \<longleftrightarrow> (\<forall>c\<in>set s. is_letter c \<or> is_digit c \<or> c \<in> set (CHR 0x27 # ''-._:~!$&()*+,;=%@''))"

definition validOptionalPort :: "string \<Rightarrow> bool" where
  "validOptionalPort p =
     (case p of [] \<Rightarrow> True | c # ds \<Rightarrow> c = CHR '':'' \<and> list_all is_digit ds)"

text \<open>The text front the first \<open>%25\<close>, and the rest.\<close>

fun cut_zone :: "string \<Rightarrow> (string \<times> string) option" where
  "cut_zone [] = None"
| "cut_zone (c # s) =
     (if has_prefix ''%25'' (c # s) then Some ([], c # s)
      else map_option (\<lambda>(front, zone). (c # front, zone)) (cut_zone s))"

definition parseHost :: "string \<Rightarrow> url_error + string" where
  "parseHost host =
     (if has_prefix ''['' host then
        (case cut_last (CHR '']'') host of
           None \<Rightarrow> Inl MissingBracket
         | Some (inside, colonPort) \<Rightarrow>
             if \<not> validOptionalPort colonPort then Inl (InvalidPort colonPort)
             else
               (case cut_zone inside of
                  Some (host1, zone) \<Rightarrow>
                    bind_res (unescape EncodeHost host1) (\<lambda>h1.
                    bind_res (unescape EncodeZone zone) (\<lambda>h2.
                    bind_res (unescape EncodeHost (CHR '']'' # colonPort)) (\<lambda>h3. Inr (h1 @ h2 @ h3))))
                | None \<Rightarrow> unescape EncodeHost host))
      else
        (case cut_last (CHR '':'') host of
           Some (front, port) \<Rightarrow>
             if \<not> validOptionalPort (CHR '':'' # port) then Inl (InvalidPort (CHR '':'' # port))
             else unescape EncodeHost host
         | None \<Rightarrow> unescape EncodeHost host))"

definition parseAuthority :: "string \<Rightarrow> url_error + (string \<times> string option) option \<times> string" where
  "parseAuthority authority =
     (case cut_last (CHR ''@'') authority of
        None \<Rightarrow> bind_res (parseHost authority) (\<lambda>host. Inr (None, host))
      | Some (userinfo, rest) \<Rightarrow>
          bind_res (parseHost rest) (\<lambda>host.
            if \<not> validUserinfo userinfo then Inl InvalidUserinfo
            else
              (case cut (CHR '':'') userinfo of
                 (_, _, False) \<Rightarrow>
                   bind_res (unescape EncodeUserPassword userinfo) (\<lambda>name. Inr (Some (name, None), host))
               | (username, password, True) \<Rightarrow>
                   bind_res (unescape EncodeUserPassword username) (\<lambda>name.
                   bind_res (unescape EncodeUserPassword password) (\<lambda>pw. Inr (Some (name, Some pw), host))))))"

definition setPath :: "string \<Rightarrow> url \<Rightarrow> url_error + url" where
  "setPath p u =
     bind_res (unescape EncodePath p) (\<lambda>path.
       Inr (u\<lparr>u_Path := path, u_RawPath := (if p = escape EncodePath path then [] else p)\<rparr>))"

definition is_ctl :: "char \<Rightarrow> bool" where "is_ctl c \<longleftrightarrow> char_code c < 32 \<or> char_code c = 0x7f"

definition url_parse :: "string \<Rightarrow> url_error + url" where
  "url_parse raw =
     (if \<exists>c\<in>set raw. is_ctl c then Inl ControlCharacter
      else if raw = ''*'' then Inr (no_url\<lparr>u_Path := ''*''\<rparr>)
      else bind_res (getScheme [] raw) (\<lambda>(scheme, rest0).
        let (rest, query, _) = cut (CHR ''?'') rest0;
            u = no_url\<lparr>u_Scheme := ToLower scheme, u_RawQuery := query\<rparr> in
        if \<not> has_prefix ''/'' rest \<and> scheme \<noteq> [] then Inr (u\<lparr>u_Opaque := rest\<rparr>)
        else if \<not> has_prefix ''/'' rest \<and> CHR '':'' \<in> set (fst (cut (CHR ''/'') rest))
        then Inl ColonInFirstSegment
        else if (scheme \<noteq> [] \<or> \<not> has_prefix ''///'' rest) \<and> has_prefix ''//'' rest then
          (let authority = takeWhile (\<lambda>c. c \<noteq> CHR ''/'') (drop 2 rest);
               path = dropWhile (\<lambda>c. c \<noteq> CHR ''/'') (drop 2 rest) in
           bind_res (parseAuthority authority) (\<lambda>(user, host). setPath path (u\<lparr>u_User := user, u_Host := host\<rparr>)))
        else setPath rest u))"

definition url_Parse :: "string \<Rightarrow> url_error + url" where
  "url_Parse raw =
     (let (front, fragment, _) = cut (CHR ''#'') raw in
      bind_res (url_parse front) (\<lambda>u.
        if fragment = [] then Inr u
        else bind_res (unescape EncodeFragment fragment) (\<lambda>f. Inr (u\<lparr>u_Fragment := f\<rparr>))))"

text \<open>\<open>Hostname\<close> and \<open>Port\<close>.\<close>

definition splitHostPort :: "string \<Rightarrow> string \<times> string" where
  "splitHostPort hostPort =
     (let (host, port) =
        (case cut_last (CHR '':'') hostPort of
           Some (h, p) \<Rightarrow> if validOptionalPort (CHR '':'' # p) then (h, p) else (hostPort, [])
         | None \<Rightarrow> (hostPort, [])) in
      (if has_prefix ''['' host \<and> has_suffix '']'' host then take (length host - 2) (drop 1 host) else host, port))"

definition JoinHostPort :: "string \<Rightarrow> string \<Rightarrow> string" where
  "JoinHostPort host port =
     (if CHR '':'' \<in> set host then ''['' @ host @ '']:'' @ port else host @ '':'' @ port)"

section \<open>Writing URLs\<close>

definition validEncoded :: "string \<Rightarrow> encoding \<Rightarrow> bool" where
  "validEncoded s mode \<longleftrightarrow>
     (\<forall>c\<in>set s. c \<in> set (CHR 0x27 # ''!$&()*+,;=:@[]%'') \<or> \<not> shouldEscape c mode)"

definition EscapedPath :: "url \<Rightarrow> string" where
  "EscapedPath u =
     (if u_RawPath u \<noteq> [] \<and> validEncoded (u_RawPath u) EncodePath \<and>
         unescape EncodePath (u_RawPath u) = Inr (u_Path u)
      then u_RawPath u
      else if u_Path u = ''*'' then ''*''
      else escape EncodePath (u_Path u))"

text \<open>\<open>String\<close> of a URL with a scheme and a host and no opaque part, user or fragment, the only kind
  the program writes.\<close>

definition url_String :: "url \<Rightarrow> string" where
  "url_String u =
     (let path = EscapedPath u in
      u_Scheme u @ ''://'' @ escape EncodeHost (u_Host u) @
      (if path \<noteq> [] \<and> \<not> has_prefix ''/'' path then ''/'' else []) @ path @
      (if u_RawQuery u \<noteq> [] then ''?'' @ u_RawQuery u else []))"

section \<open>Escaped text reads back\<close>

lemma code_less: "char_code c < 256"
  by (simp add: char_code_def)

lemma char_of_code [simp]: "char_of (char_code c) = c"
  by (simp add: char_code_def)

lemma char_eq_code: "c = d \<longleftrightarrow> char_code c = char_code d"
  by (metis char_of_code)

lemma code_Char:
  "char_code (Char b0 b1 b2 b3 b4 b5 b6 b7) = of_bool b0 + 2 * (of_bool b1 + 2 * (of_bool b2 + 2 * (of_bool b3 +
     2 * (of_bool b4 + 2 * (of_bool b5 + 2 * (of_bool b6 + 2 * of_bool b7))))))"
  by (simp add: char_code_def of_char_Char)

lemmas char_simps = is_letter_def is_digit_def in_range_def is_ctl_def char_eq_code code_Char

lemma code_hex_digit: "d < 16 \<Longrightarrow> char_code (hex_digit d) = (if d < 10 then 48 + d else 55 + d)"
  by (simp add: hex_digit_def char_code_def)

lemma hex_value_hex_digit [simp]:
  assumes "d < 16"
  shows "hex_value (hex_digit d) = Some d"
proof -
  have "char_code (CHR ''0'') = 48" "char_code (CHR ''9'') = 57" "char_code (CHR ''a'') = 97" "char_code (CHR ''f'') = 102"
    "char_code (CHR ''A'') = 65" "char_code (CHR ''F'') = 70"
    by code_simp+
  then show ?thesis
    using assms by (simp add: hex_value_def is_digit_def in_range_def code_hex_digit)
qed

lemma byte_of_hex: "char_code c = 16 * h + l \<Longrightarrow> l < 16 \<Longrightarrow> char_code c div 16 = h \<and> char_code c mod 16 = l"
  by simp

lemma while_noteq:
  "c \<notin> set xs \<Longrightarrow> dropWhile (\<lambda>x. x \<noteq> c) (xs @ c # ys) = c # ys"
  "c \<notin> set xs \<Longrightarrow> takeWhile (\<lambda>x. x \<noteq> c) (xs @ c # ys) = xs"
  "c \<notin> set xs \<Longrightarrow> dropWhile (\<lambda>x. x \<noteq> c) xs = []"
  "c \<notin> set xs \<Longrightarrow> takeWhile (\<lambda>x. x \<noteq> c) xs = xs"
  by (induction xs) auto

lemma cut_append:
  "c \<notin> set xs \<Longrightarrow> cut c (xs @ c # ys) = (xs, ys, True)"
  "c \<notin> set xs \<Longrightarrow> cut c xs = (xs, [], False)"
  by (simp_all add: cut_def while_noteq)

lemma cut_last_append: "c \<notin> set ys \<Longrightarrow> cut_last c (xs @ c # ys) = Some (xs, ys)"
  by (simp add: cut_last_def while_noteq)

lemma cut_last_None: "c \<notin> set xs \<Longrightarrow> cut_last c xs = None"
  by (simp add: cut_last_def while_noteq)

lemma cut_last_Some: "cut_last c s = Some (xs, ys) \<Longrightarrow> s = xs @ c # ys \<and> c \<notin> set ys"
proof -
  assume *: "cut_last c s = Some (xs, ys)"
  then obtain d rest where d: "dropWhile (\<lambda>x. x \<noteq> c) (rev s) = d # rest" "xs = rev rest"
    "ys = rev (takeWhile (\<lambda>x. x \<noteq> c) (rev s))"
    by (auto simp: cut_last_def split: list.splits)
  then have "d = c" using hd_dropWhile [of "\<lambda>x. x \<noteq> c" "rev s"] by simp
  moreover have "rev s = takeWhile (\<lambda>x. x \<noteq> c) (rev s) @ d # rest"
    using takeWhile_dropWhile_id [of "\<lambda>x. x \<noteq> c" "rev s"] d(1) by simp
  then have "s = rev (takeWhile (\<lambda>x. x \<noteq> c) (rev s) @ d # rest)" by (metis rev_rev_ident)
  moreover have "c \<notin> set (takeWhile (\<lambda>x. x \<noteq> c) (rev s))" by (auto dest: set_takeWhileD)
  ultimately show ?thesis using d by simp
qed

text \<open>Which modes read back a character they have escaped.\<close>

definition escapable :: "encoding \<Rightarrow> char \<Rightarrow> bool" where
  "escapable mode c \<longleftrightarrow>
     (if shouldEscape c mode then \<not> forbidden_escape mode (char_code c div 16) (char_code c mod 16)
      else c \<noteq> CHR ''%'')"

lemma unescape_escape_char:
  assumes "escapable mode c"
  shows "unescape mode (escape_char mode c @ s) = bind_res (unescape mode s) (\<lambda>t. Inr (c # t))"
proof -
  have "char_code c div 16 < 16" using code_less [of c] by simp
  then show ?thesis using assms by (simp add: escape_char_def escapable_def)
qed

lemma unescape_escape_append:
  "list_all (escapable mode) s \<Longrightarrow>
   unescape mode (escape mode s @ r) = bind_res (unescape mode r) (\<lambda>t. Inr (s @ t))"
proof (induction s)
  case Nil
  show ?case by (cases "unescape mode r") (simp_all add: escape_def)
next
  case (Cons c s)
  have "escape mode (c # s) = escape_char mode c @ escape mode s" by (simp add: escape_def)
  then show ?case using Cons unescape_escape_char [of mode c] by (cases "unescape mode r") simp_all
qed

lemma unescape_escape: "list_all (escapable mode) s \<Longrightarrow> unescape mode (escape mode s) = Inr s"
  using unescape_escape_append [of mode s "[]"] by simp

lemma shouldEscape_percent [simp]: "shouldEscape (CHR ''%'') mode"
  by (cases mode; simp only:; code_simp)

lemma escapable_plain: "mode \<notin> {EncodeHost, EncodeZone} \<Longrightarrow> escapable mode c"
  by (cases mode) (auto simp: escapable_def forbidden_escape_def)

lemma escapable_host: "\<not> shouldEscape c EncodeHost \<or> c = CHR ''%'' \<Longrightarrow> escapable EncodeHost c"
proof (cases "c = CHR ''%''")
  case True
  have "escapable EncodeHost (CHR ''%'')" by code_simp
  with True show ?thesis by simp
qed (auto simp: escapable_def)

lemma shouldEscape_zone [simp]: "shouldEscape c EncodeZone = shouldEscape c EncodeHost"
  by (simp add: shouldEscape_def)

lemma escape_zone: "escape EncodeZone s = escape EncodeHost s"
  by (simp add: escape_def escape_char_def [abs_def])

lemma escapable_zone: "\<not> shouldEscape c EncodeHost \<or> c = CHR ''%'' \<Longrightarrow> escapable EncodeZone c"
proof (cases "c = CHR ''%''")
  case True
  have "escapable EncodeZone (CHR ''%'')" by code_simp
  with True show ?thesis by simp
qed (auto simp: escapable_def)

text \<open>The characters escaped text has.\<close>

lemma set_escape:
  assumes "x \<in> set (escape mode s)"
  shows "x = CHR ''%'' \<or> is_letter x \<or> is_digit x \<or> x \<in> set s \<and> \<not> shouldEscape x mode"
proof -
  have "list_all (\<lambda>d. is_letter d \<or> is_digit d) (map hex_digit [0..<16])" by code_simp
  then have hex: "is_letter (hex_digit d) \<or> is_digit (hex_digit d)" if "d < 16" for d
    using that unfolding list_all_iff set_map set_upt by (meson atLeastLessThan_iff image_eqI zero_le)
  from assms obtain c where c: "c \<in> set s" "x \<in> set (escape_char mode c)" by (auto simp: escape_def)
  have digits: "char_code c div 16 < 16" "char_code c mod 16 < 16" using code_less [of c] by simp_all
  show ?thesis
  proof (cases "shouldEscape c mode")
    case True
    with c(2) consider "x = CHR ''%''" | "x = hex_digit (char_code c div 16)" | "x = hex_digit (char_code c mod 16)"
      unfolding escape_char_def by (auto simp only: if_True list.set insert_iff empty_iff)
    then show ?thesis using hex [OF digits(1)] hex [OF digits(2)] by cases metis+
  next
    case False
    with c show ?thesis by (simp add: escape_char_def)
  qed
qed

end
