(* ===== verification/Wayland_Keymap.thy ===== *)
theory Wayland_Keymap
  imports Go_Url Ui_Keys
begin

text \<open>
  Keys on Wayland, \<open>wayland/keymap.go\<close>: the XKB keymap the compositor hands over as text, read
  into a table from evdev keycodes to X11 keysym names, and the name of a key under the
  modifiers in effect.  A Go map is a function to \<open>option\<close>; a text from an index on is the rest
  of the list.  The keysym names of xgbutil are the parameter \<open>keysym_to_str\<close>.
\<close>

definition keycodeOffset :: "32 word" where "keycodeOffset = 8"
definition modShift :: "32 word" where "modShift = 1"
definition modLock :: "32 word" where "modLock = 2"

type_synonym keymap = "32 word \<Rightarrow> string list option"

section \<open>Text\<close>

text \<open>The text from the first occurrence of a string on: \<open>s[strings.Index(s, p):]\<close>.\<close>

fun find_text :: "string \<Rightarrow> string \<Rightarrow> string option" where
  "find_text p [] = (if p = [] then Some [] else None)"
| "find_text p (c # s) = (if has_prefix p (c # s) then Some (c # s) else find_text p s)"

text \<open>The text behind the first occurrence of a character.\<close>

definition behind :: "char \<Rightarrow> string \<Rightarrow> string option" where
  "behind c s = (case dropWhile (\<lambda>x. x \<noteq> c) s of [] \<Rightarrow> None | _ # rest \<Rightarrow> Some rest)"

fun split_on :: "char \<Rightarrow> string \<Rightarrow> string list" where
  "split_on c [] = [[]]"
| "split_on c (x # s) =
     (if x = c then [] # split_on c s
      else case split_on c s of part # parts \<Rightarrow> (x # part) # parts | [] \<Rightarrow> [])"

definition cut_prefix :: "string \<Rightarrow> string \<Rightarrow> string option" where
  "cut_prefix p s = (if has_prefix p s then Some (drop (length p) s) else None)"

text \<open>\<open>strconv.ParseUint(s, base, 32)\<close> for the bases ten and sixteen.\<close>

definition parse_uint32 :: "string \<Rightarrow> 32 word option" where
  "parse_uint32 s =
     (case parse_unsigned s of Some n \<Rightarrow> if int n < 4294967296 then Some (of_nat n) else None | None \<Rightarrow> None)"

fun hex_number :: "nat \<Rightarrow> string \<Rightarrow> nat option" where
  "hex_number acc [] = Some acc"
| "hex_number acc (c # s) = (case hex_value c of None \<Rightarrow> None | Some d \<Rightarrow> hex_number (16 * acc + d) s)"

definition parse_hex32 :: "string \<Rightarrow> 32 word option" where
  "parse_hex32 s =
     (if s = [] then None
      else case hex_number 0 s of Some n \<Rightarrow> if int n < 4294967296 then Some (of_nat n) else None | None \<Rightarrow> None)"

definition isSpace :: "char \<Rightarrow> bool" where
  "isSpace c \<longleftrightarrow> c = CHR '' '' \<or> c = CHR 0x09 \<or> c = CHR 0x0A \<or> c = CHR 0x0D"

section \<open>Sections\<close>

text \<open>What is up to the brace that closes the one before it, with the number of open braces.\<close>

fun brace_body :: "nat \<Rightarrow> string \<Rightarrow> string option" where
  "brace_body depth [] = None"
| "brace_body depth (c # s) =
     (if c = CHR ''{'' then map_option (Cons c) (brace_body (Suc depth) s)
      else if c = CHR ''}'' then
        (if depth \<le> 1 then Some [] else map_option (Cons c) (brace_body (depth - 1) s))
      else map_option (Cons c) (brace_body depth s))"

definition sectionBody :: "string \<Rightarrow> string \<Rightarrow> string" where
  "sectionBody txt keyword =
     (case find_text keyword txt of
        None \<Rightarrow> []
      | Some start \<Rightarrow>
          (case behind (CHR ''{'') start of
             None \<Rightarrow> []
           | Some rest \<Rightarrow> (case brace_body 1 rest of None \<Rightarrow> [] | Some body \<Rightarrow> body)))"

section \<open>Keycodes\<close>

definition keycode_line :: "string \<Rightarrow> (string \<times> 32 word) option" where
  "keycode_line raw =
     (let line = TrimSpace raw in
      if \<not> has_prefix ''<'' line then None
      else case cut (CHR ''>'') line of
          (_, _, False) \<Rightarrow> None
        | (name, rest, True) \<Rightarrow>
            (case cut_prefix ''='' (TrimSpace rest) of
               None \<Rightarrow> None
             | Some num \<Rightarrow>
                 map_option (\<lambda>code. (name @ ''>'', code)) (parse_uint32 (TrimSpace (fst (cut (CHR '';'') num))))))"

definition parseKeycodes :: "string \<Rightarrow> string \<Rightarrow> 32 word option" where
  "parseKeycodes body =
     fold (\<lambda>line codes. case keycode_line line of None \<Rightarrow> codes | Some (name, code) \<Rightarrow> codes(name \<mapsto> code))
       (split_on (CHR 0x0A) body) (\<lambda>_. None)"

section \<open>Symbols\<close>

fun statements :: "int \<Rightarrow> bool \<Rightarrow> string \<Rightarrow> string \<Rightarrow> string list" where
  "statements depth quoted cur [] = [cur]"
| "statements depth quoted cur (c # s) =
     (if c = CHR 0x22 then statements depth (\<not> quoted) (cur @ [c]) s
      else if quoted then statements depth quoted (cur @ [c]) s
      else if c = CHR ''{'' \<or> c = CHR ''['' then statements (depth + 1) quoted (cur @ [c]) s
      else if c = CHR ''}'' \<or> c = CHR '']'' then statements (depth - 1) quoted (cur @ [c]) s
      else if c = CHR '';'' \<and> depth \<le> 0 then cur # statements depth quoted [] s
      else statements depth quoted (cur @ [c]) s)"

definition splitStatements :: "string \<Rightarrow> string list" where
  "splitStatements = statements 0 False []"

definition bracketGroup :: "string \<Rightarrow> string option" where
  "bracketGroup s =
     (case behind (CHR ''['') s of
        None \<Rightarrow> None
      | Some rest \<Rightarrow> (case cut (CHR '']'') rest of (inner, _, found) \<Rightarrow> if found then Some inner else None))"

definition symbolList :: "string \<Rightarrow> string option" where
  "symbolList statement =
     (case find_text ''symbols['' statement of
        Some label \<Rightarrow>
          (case find_text '']='' label of Some assign \<Rightarrow> bracketGroup (drop 2 assign) | None \<Rightarrow> None)
      | None \<Rightarrow>
          (case behind (CHR ''{'') statement of None \<Rightarrow> None | Some rest \<Rightarrow> bracketGroup rest))"

definition symbolName :: "(32 word \<Rightarrow> string) \<Rightarrow> string \<Rightarrow> string" where
  "symbolName keysym_to_str symbol =
     (if symbol = ''NoSymbol'' \<or> symbol = ''VoidSymbol'' then []
      else case cut_prefix ''0x'' symbol of
          Some hex \<Rightarrow>
            (case parse_hex32 hex of None \<Rightarrow> [] | Some k \<Rightarrow> keysym_Name keysym_to_str k)
        | None \<Rightarrow> symbol)"

definition splitSymbols :: "(32 word \<Rightarrow> string) \<Rightarrow> string \<Rightarrow> string list" where
  "splitSymbols keysym_to_str inner =
     map (\<lambda>level. symbolName keysym_to_str (TrimSpace level)) (split_on (CHR '','') inner)"

definition parseKeyStatement :: "(32 word \<Rightarrow> string) \<Rightarrow> string \<Rightarrow> (string \<times> string list) option" where
  "parseKeyStatement keysym_to_str statement =
     (case cut_prefix ''key'' (TrimSpace statement) of
        None \<Rightarrow> None
      | Some [] \<Rightarrow> None
      | Some (c # rest0) \<Rightarrow>
          if \<not> isSpace c then None
          else
            let rest = TrimSpace (c # rest0) in
            if \<not> has_prefix ''<'' rest then None
            else case cut (CHR ''>'') rest of
                (_, _, False) \<Rightarrow> None
              | (name, behind_name, True) \<Rightarrow>
                  map_option (\<lambda>inner. (name @ ''>'', splitSymbols keysym_to_str inner)) (symbolList behind_name))"

section \<open>The table\<close>

definition add_key ::
    "(32 word \<Rightarrow> string) \<Rightarrow> (string \<Rightarrow> 32 word option) \<Rightarrow> string \<Rightarrow> keymap \<Rightarrow> keymap" where
  "add_key keysym_to_str codes statement levels =
     (case parseKeyStatement keysym_to_str statement of
        None \<Rightarrow> levels
      | Some (name, syms) \<Rightarrow>
          (case codes name of
             None \<Rightarrow> levels
           | Some code \<Rightarrow> if code < keycodeOffset then levels else levels(code - keycodeOffset \<mapsto> syms)))"

text \<open>
  With no keycodes the code returns the empty table at once; here no statement finds a code then,
  with the same result.
\<close>

definition parseKeymap :: "(32 word \<Rightarrow> string) \<Rightarrow> string \<Rightarrow> keymap" where
  "parseKeymap keysym_to_str txt =
     fold (add_key keysym_to_str (parseKeycodes (sectionBody txt ''xkb_keycodes'')))
       (splitStatements (sectionBody txt ''xkb_symbols'')) (\<lambda>_. None)"

definition isAlphaName :: "string \<Rightarrow> bool" where
  "isAlphaName name \<longleftrightarrow> (case name of [c] \<Rightarrow> is_letter c | _ \<Rightarrow> False)"

definition keymap_name :: "keymap \<Rightarrow> 32 word \<Rightarrow> 32 word \<Rightarrow> string" where
  "keymap_name k keycode mods =
     (case k keycode of
        None \<Rightarrow> []
      | Some [] \<Rightarrow> []
      | Some (level0 # levels) \<Rightarrow>
          let shift = (mods AND modShift \<noteq> 0);
              shift = (if mods AND modLock \<noteq> 0 \<and> isAlphaName level0 then \<not> shift else shift)
          in if shift \<and> levels \<noteq> [] \<and> hd levels \<noteq> [] then hd levels else level0)"

definition keyDetails :: "string \<Rightarrow> gint \<times> bytes" where
  "keyDetails name =
     (let c = KeysymFor name in if c = 0 then (0, []) else (of_nat c, encode_runes [c]))"

end
