(* ===== verification/Wayland_Keymap_Roundtrip.thy ===== *)
theory Wayland_Keymap_Roundtrip
  imports Wayland_Keymap
begin

text \<open>
  A keymap written in the form compositors send is read back: every key has the names it was
  written with.
\<close>

section \<open>Trimming ASCII text\<close>

definition ascii :: "char \<Rightarrow> bool" where "ascii c \<longleftrightarrow> char_code c < 128"
definition blank :: "char \<Rightarrow> bool" where "blank c \<longleftrightarrow> IsSpace (char_code c)"

lemma byte_char_back: "char_of_byte (byte_of_char c) = c"
  by simp

lemma rune_segments_ascii:
  "list_all ascii s \<Longrightarrow> rune_segments (string_bytes s) = map (\<lambda>c. (char_code c, [byte_of_char c])) s"
proof (induction s)
  case (Cons c s)
  then have "unat (byte_of_char c) < 128" by (simp add: ascii_def char_code_def)
  then have "decode_rune (byte_of_char c # string_bytes s) = Some (char_code c, 1)"
    using decode_rune_byte by (simp add: char_code_def)
  then show ?case using Cons by (simp add: string_bytes_def)
qed simp

lemma TrimSpace_ascii:
  assumes "list_all ascii s"
  shows "TrimSpace s = rev (dropWhile blank (rev (dropWhile blank s)))"
proof -
  define seg where "seg = (\<lambda>c. (char_code c, [byte_of_char c]))"
  have "(\<lambda>x. IsSpace (fst x)) \<circ> seg = blank" by (auto simp: seg_def blank_def)
  moreover have "bytes_string (concat (map snd (map seg t))) = t" for t
    by (simp add: seg_def comp_def bytes_string_def)
  ultimately show ?thesis
    using rune_segments_ascii [OF assms] unfolding TrimSpace_def Let_def seg_def [symmetric]
    by (simp only: dropWhile_map rev_map)
qed

lemma TrimSpace_around:
  assumes "list_all ascii (a @ core @ b)" "list_all blank a" "list_all blank b"
    and "core \<noteq> []" "\<not> blank (hd core)" "\<not> blank (last core)"
  shows "TrimSpace (a @ core @ b) = core"
proof -
  have "dropWhile blank (a @ core @ b) = core @ b"
    using assms(2,4,5) by (cases core) (auto simp: list_all_iff dropWhile_append2)
  moreover have "dropWhile blank (rev b @ rev core) = dropWhile blank (rev core)"
    using assms(3) by (intro dropWhile_append2) (simp add: list_all_iff)
  then have "dropWhile blank (rev (core @ b)) = rev core"
    using assms(4,6) by (cases core rule: rev_cases) auto
  ultimately show ?thesis using TrimSpace_ascii [OF assms(1)] by simp
qed

section \<open>Scanning\<close>

lemma scan_first:
  "c \<notin> set a \<Longrightarrow> dropWhile (\<lambda>x. x \<noteq> c) (a @ c # b) = c # b"
  "c \<notin> set a \<Longrightarrow> takeWhile (\<lambda>x. x \<noteq> c) (a @ c # b) = a"
  by (induction a) auto

lemma behind_first: "c \<notin> set a \<Longrightarrow> behind c (a @ c # b) = Some b"
  by (simp add: behind_def scan_first)

lemma cut_first: "c \<notin> set a \<Longrightarrow> cut c (a @ c # b) = (a, b, True)"
  by (simp add: cut_def scan_first)

lemma find_text_Some: "find_text p s = Some t \<Longrightarrow> \<exists>a. s = a @ t \<and> has_prefix p t"
proof (induction s)
  case (Cons c s)
  then show ?case
    by (auto split: if_splits intro: exI [of _ "[]"] exI [of _ "c # a" for a])
qed (auto split: if_splits simp: has_prefix_def)

lemma has_prefix_append: "has_prefix p s \<longleftrightarrow> (\<exists>t. s = p @ t)"
  unfolding has_prefix_def by (metis append_eq_conv_conj)

lemma find_text_skip:
  assumes "\<And>x y. a = x @ y \<Longrightarrow> y \<noteq> [] \<Longrightarrow> \<not> has_prefix p (y @ b)"
  shows "find_text p (a @ b) = find_text p b"
  using assms
proof (induction a)
  case (Cons c a)
  have "\<not> has_prefix p ((c # a) @ b)" using Cons.prems [of "[]" "c # a"] by simp
  moreover have "find_text p (a @ b) = find_text p b"
    by (rule Cons.IH) (use Cons.prems in \<open>metis append_Cons\<close>)
  ultimately show ?case by simp
qed simp

lemma find_text_no_head: "hd p \<notin> set a \<Longrightarrow> p \<noteq> [] \<Longrightarrow> find_text p (a @ b) = find_text p b"
  by (rule find_text_skip) (auto simp: has_prefix_append neq_Nil_conv append_eq_Cons_conv)

text \<open>
  A text that occurs in what is before it neither as a whole nor across the border is found
  where it was put.  It cannot be across the border when no end of it is a beginning.
\<close>

definition unbordered :: "string \<Rightarrow> bool" where
  "unbordered p \<longleftrightarrow> (\<forall>n\<in>set [1..<length p]. drop n p \<noteq> take (length p - n) p)"

lemma find_text_put:
  assumes "find_text p a = None" "unbordered p" "p \<noteq> []"
  shows "find_text p (a @ p @ b) = Some (p @ b)"
proof -
  have hit: "find_text p (p @ b) = Some (p @ b)"
    using assms(3) by (cases p) (auto simp: has_prefix_append)
  have none: "\<not> has_prefix p y" if "a = x @ y" for x y
    using assms(1) that
  proof (induction a arbitrary: x)
    case (Cons c a)
    then show ?case by (cases x) (auto split: if_splits)
  qed (use assms(3) in \<open>auto simp: has_prefix_def\<close>)
  have "find_text p (a @ p @ b) = find_text p (p @ b)"
  proof (rule find_text_skip, rule notI)
    fix x y
    assume y: "a = x @ y" "y \<noteq> []" "has_prefix p (y @ p @ b)"
    then obtain t where t: "y @ p @ b = p @ t" by (auto simp: has_prefix_append)
    show False
    proof (cases "length y < length p")
      case True
      have "take (length p - length y) (drop (length y) (y @ p @ b)) = drop (length y) p"
        unfolding t using True by simp
      then have "take (length p - length y) p = drop (length y) p" using True by simp
      then show False
        using assms(2) True y(2) unfolding unbordered_def
        by (metis atLeastLessThan_iff length_0_conv less_one linorder_not_le set_upt)
    next
      case False
      then have "has_prefix p y" using t unfolding has_prefix_append
        by (metis append_eq_append_conv2 append_eq_conv_conj linorder_not_less take_all_iff)
      then show False using none y(1) by blast
    qed
  qed
  then show ?thesis using hit by simp
qed

lemma brace_body_plain:
  "CHR ''{'' \<notin> set t \<Longrightarrow> CHR ''}'' \<notin> set t \<Longrightarrow> brace_body n (t @ s) = map_option ((@) t) (brace_body n s)"
proof (induction t)
  case (Cons c t)
  then show ?case by (cases "brace_body n s") auto
qed (cases "brace_body n s"; simp)

text \<open>How many brackets a text leaves open.\<close>

definition net :: "string \<Rightarrow> int" where
  "net t = int (length (filter (\<lambda>c. c \<in> set ''{['') t)) - int (length (filter (\<lambda>c. c \<in> set ''}]'') t))"

lemma statements_plain:
  "CHR '';'' \<notin> set t \<Longrightarrow> CHR 0x22 \<notin> set t \<Longrightarrow>
   statements depth False cur (t @ s) = statements (depth + net t) False (cur @ t) s"
proof (induction t arbitrary: depth cur)
  case (Cons c t)
  then show ?case by (auto simp: net_def algebra_simps)
qed (simp add: net_def)

section \<open>A keymap as text\<close>

datatype key_symbol = NoKeySymbol | Named string | Numbered "32 word"

record xkb_key =
  xk_name :: string
  xk_code :: "32 word"
  xk_labelled :: bool             \<comment> \<open>the long form, \<open>symbols[Group1]= [ ... ]\<close>\<close>
  xk_symbols :: "key_symbol list"

fun hex_digits :: "nat \<Rightarrow> string" where
  "hex_digits n = (if n < 16 then [hex_digit n] else hex_digits (n div 16) @ [hex_digit (n mod 16)])"

declare hex_digits.simps [simp del]

fun symbol_text :: "key_symbol \<Rightarrow> string" where
  "symbol_text NoKeySymbol = ''NoSymbol''"
| "symbol_text (Named name) = name"
| "symbol_text (Numbered k) = ''0x'' @ hex_digits (unat k)"

fun symbol_meaning :: "(32 word \<Rightarrow> string) \<Rightarrow> key_symbol \<Rightarrow> string" where
  "symbol_meaning f NoKeySymbol = []"
| "symbol_meaning f (Named name) = name"
| "symbol_meaning f (Numbered k) = keysym_Name f k"

fun symbols_text :: "key_symbol list \<Rightarrow> string" where
  "symbols_text [] = []"
| "symbols_text [s] = symbol_text s"
| "symbols_text (s # ss) = symbol_text s @ '', '' @ symbols_text ss"

definition nl :: string where "nl = [CHR 0x0A]"
definition tab :: string where "tab = [CHR 0x09]"

definition code_text :: "xkb_key \<Rightarrow> string" where
  "code_text k = tab @ ''<'' @ xk_name k @ ''> = '' @ nat_digits (unat (xk_code k)) @ '';''"

definition list_text :: "xkb_key \<Rightarrow> string" where
  "list_text k = ''[ '' @ symbols_text (xk_symbols k) @ '' ]''"

definition key_text :: "xkb_key \<Rightarrow> string" where
  "key_text k = tab @ ''key <'' @ xk_name k @ ''> {'' @
     (if xk_labelled k then nl @ tab @ tab @ ''symbols[Group1]= '' @ list_text k @ nl @ tab
      else tab @ list_text k @ '' '') @ ''}''"

definition keymap_text :: "string \<Rightarrow> xkb_key list \<Rightarrow> string" where
  "keymap_text middle keys =
     ''xkb_keymap {'' @ nl @ ''xkb_keycodes (unnamed) {'' @
     concat (map (\<lambda>k. nl @ code_text k) keys) @ nl @ ''};'' @ middle @
     ''xkb_symbols (unnamed) {'' @ concat (map (\<lambda>k. nl @ key_text k @ '';'') keys) @ nl @ ''};'' @ nl @ ''};'' @ nl"

text \<open>Names as XKB has them: capital letters and digits for keys, words for symbols.\<close>

definition name_char :: "char \<Rightarrow> bool" where
  "name_char c \<longleftrightarrow> in_range (CHR ''A'') (CHR ''Z'') c \<or> is_digit c \<or> c \<in> set ''_+-''"

definition word_char :: "char \<Rightarrow> bool" where
  "word_char c \<longleftrightarrow> is_letter c \<or> is_digit c \<or> c = CHR ''_''"

fun good_symbol :: "key_symbol \<Rightarrow> bool" where
  "good_symbol (Named name) \<longleftrightarrow> name \<noteq> [] \<and> list_all word_char name \<and> \<not> has_prefix ''0x'' name \<and>
     name \<noteq> ''NoSymbol'' \<and> name \<noteq> ''VoidSymbol''"
| "good_symbol _ \<longleftrightarrow> True"

definition good_key :: "xkb_key \<Rightarrow> bool" where
  "good_key k \<longleftrightarrow> list_all name_char (xk_name k) \<and> keycodeOffset \<le> xk_code k \<and> xk_symbols k \<noteq> [] \<and>
     list_all good_symbol (xk_symbols k)"

section \<open>Symbols\<close>

lemma hex_number_append:
  "hex_number n (a @ b) = (case hex_number n a of None \<Rightarrow> None | Some m \<Rightarrow> hex_number m b)"
  by (induction a arbitrary: n) (auto split: option.split)

lemma hex_number_digits: "hex_number 0 (hex_digits n) = Some n"
proof (induction n rule: hex_digits.induct)
  case (1 n)
  then show ?case
    by (subst hex_digits.simps) (auto simp: hex_number_append)
qed

lemma hex_digits_nonempty [simp]: "hex_digits n \<noteq> []"
  by (subst hex_digits.simps) simp

lemma parse_hex32_digits: "parse_hex32 (hex_digits (unat k)) = Some k" for k :: "32 word"
proof -
  have "uint k < 2 ^ LENGTH(32)" by (rule unsigned_less)
  then show ?thesis by (simp add: parse_hex32_def hex_number_digits)
qed

lemma parse_uint32_digits: "parse_uint32 (nat_digits (unat k)) = Some k" for k :: "32 word"
proof -
  have "uint k < 2 ^ LENGTH(32)" by (rule unsigned_less)
  then show ?thesis by (simp add: parse_uint32_def parse_unsigned_def parse_digits_nat_digits)
qed

lemma symbolName_text: "good_symbol s \<Longrightarrow> symbolName f (symbol_text s) = symbol_meaning f s"
proof (cases s)
  case (Numbered k)
  then show ?thesis
    by (simp add: symbolName_def cut_prefix_def has_prefix_def parse_hex32_digits)
qed (auto simp: symbolName_def cut_prefix_def)

section \<open>Characters of a keymap\<close>

lemma blank_chars [simp]:
  "blank (CHR '' '')" "blank (CHR 0x09)" "blank (CHR 0x0A)"
  "\<not> blank (CHR ''<'')" "\<not> blank (CHR '';'')" "\<not> blank (CHR ''='')" "\<not> blank (CHR ''k'')" "\<not> blank (CHR ''}'')"
  by (simp_all add: blank_def IsSpace_def char_code_def)

lemma not_blank_if: "33 \<le> char_code c \<Longrightarrow> char_code c < 128 \<Longrightarrow> \<not> blank c"
  by (auto simp: blank_def IsSpace_def)

lemma name_char_plain:
  "name_char c \<Longrightarrow> ascii c \<and> \<not> blank c \<and> c \<notin> set ''{}[]<>;,='' \<and> c \<noteq> CHR 0x22 \<and> c \<noteq> CHR 0x0A \<and> c \<noteq> CHR ''x''"
  by (rule conjI [OF _ conjI [OF not_blank_if]]) (auto simp: name_char_def ascii_def char_simps)

lemma word_char_plain:
  "word_char c \<Longrightarrow> ascii c \<and> \<not> blank c \<and> c \<notin> set ''{}[]<>;,='' \<and> c \<noteq> CHR 0x22 \<and> c \<noteq> CHR 0x0A"
  by (rule conjI [OF _ conjI [OF not_blank_if]]) (auto simp: word_char_def ascii_def char_simps)

lemma digit_name_char: "is_digit c \<Longrightarrow> name_char c"
  by (simp add: name_char_def)

lemma nat_digits_chars: "list_all name_char (nat_digits n)"
proof -
  have "list_all name_char (map digit_char [0..<10])" by code_simp
  then have "\<forall>d<10. name_char (digit_char d)" by (simp add: list_all_iff)
  then show ?thesis using set_nat_digits [of _ n] unfolding list_all_iff by blast
qed

lemma hex_digits_chars: "list_all word_char (hex_digits n)"
proof -
  have "list_all word_char (map hex_digit [0..<16])" by code_simp
  then have digit: "word_char (hex_digit d)" if "d < 16" for d using that by (simp add: list_all_iff)
  show ?thesis
  proof (induction n rule: hex_digits.induct)
    case (1 n)
    then show ?case by (subst hex_digits.simps) (auto simp: digit)
  qed
qed

lemma symbol_text_chars: "good_symbol s \<Longrightarrow> list_all word_char (symbol_text s) \<and> symbol_text s \<noteq> []"
proof -
  have "list_all word_char ''NoSymbol''" "list_all word_char ''0x''" by code_simp+
  then show "good_symbol s \<Longrightarrow> list_all word_char (symbol_text s) \<and> symbol_text s \<noteq> []"
    using hex_digits_chars by (cases s) auto
qed

lemma symbols_text_chars:
  "list_all good_symbol ss \<Longrightarrow> c \<in> set (symbols_text ss) \<Longrightarrow> word_char c \<or> c = CHR '','' \<or> c = CHR '' ''"
proof (induction ss rule: symbols_text.induct)
  case (3 s s' ss)
  then show ?case using symbol_text_chars [of s] by (auto simp: list_all_iff)
qed (use symbol_text_chars in \<open>auto simp: list_all_iff\<close>)

lemma trim_words:
  assumes "list_all word_char core" "core \<noteq> []"
  shows "TrimSpace ('' '' @ core) = core" "TrimSpace ('' '' @ core @ '' '') = core"
proof -
  have sp: "ascii (CHR '' '')" by (simp add: ascii_def char_code_def)
  have "list_all ascii core" "\<not> blank (hd core)" "\<not> blank (last core)"
    using assms word_char_plain by (auto simp: list_all_iff)
  then show "TrimSpace ('' '' @ core) = core" "TrimSpace ('' '' @ core @ '' '') = core"
    using TrimSpace_around [of "'' ''" core "[]"] TrimSpace_around [of "'' ''" core "'' ''"] assms(2) sp
    by simp_all
qed

lemma split_on_skip: "c \<notin> set a \<Longrightarrow> split_on c (a @ c # b) = a # split_on c b"
  by (induction a) auto

lemma split_on_none: "c \<notin> set a \<Longrightarrow> split_on c a = [a]"
  by (induction a) auto

lemma comma_free: "good_symbol s \<Longrightarrow> CHR '','' \<notin> set (symbol_text s)"
  using symbol_text_chars [of s] word_char_plain by (fastforce simp: list_all_iff)

lemma splitSymbols_text:
  "ss \<noteq> [] \<Longrightarrow> list_all good_symbol ss \<Longrightarrow>
   splitSymbols f ('' '' @ symbols_text ss @ '' '') = map (symbol_meaning f) ss"
proof (induction ss rule: symbols_text.induct)
  case (2 s)
  then show ?case
    using split_on_none [of "CHR '',''" "'' '' @ symbol_text s @ '' ''"] comma_free [of s]
      trim_words(2) [of "symbol_text s"] symbol_text_chars [of s] symbolName_text [of s f]
    by (simp add: splitSymbols_def)
next
  case (3 s s' ss)
  have "'' '' @ symbols_text (s # s' # ss) @ '' '' =
      ('' '' @ symbol_text s) @ CHR '','' # ('' '' @ symbols_text (s' # ss) @ '' '')" by simp
  then have "split_on (CHR '','') ('' '' @ symbols_text (s # s' # ss) @ '' '') =
      ('' '' @ symbol_text s) # split_on (CHR '','') ('' '' @ symbols_text (s' # ss) @ '' '')"
    using split_on_skip [of "CHR '',''" "'' '' @ symbol_text s"] comma_free [of s] 3 by simp
  then show ?case
    using 3 trim_words(1) [of "symbol_text s"] symbol_text_chars [of s] symbolName_text [of s f]
    by (simp add: splitSymbols_def del: symbols_text.simps)
qed simp

section \<open>Lines and statements\<close>

lemma keycode_line_text:
  assumes "list_all name_char (xk_name k)"
  shows "keycode_line (code_text k) = Some (''<'' @ xk_name k @ ''>'', xk_code k)"
proof -
  let ?ds = "nat_digits (unat (xk_code k))"
  let ?core = "''<'' @ xk_name k @ ''> = '' @ ?ds @ '';''"
  have chars: "\<forall>c\<in>set (xk_name k) \<union> set ?ds. name_char c"
    using assms nat_digits_chars [of "unat (xk_code k)"] by (auto simp: list_all_iff)
  have lits: "list_all ascii (tab @ ''<> =;'')" by code_simp
  have "list_all ascii (tab @ ?core @ [])"
    using chars lits(1) name_char_plain by (auto simp: list_all_iff)
  then have trim: "TrimSpace (code_text k) = ?core"
    using TrimSpace_around [of tab ?core "[]"] lits by (simp add: code_text_def tab_def)
  have "CHR ''>'' \<notin> set (''<'' @ xk_name k)" using chars name_char_plain by fastforce
  then have c: "cut (CHR ''>'') ?core = (''<'' @ xk_name k, '' = '' @ ?ds @ '';'', True)"
    using cut_first [of "CHR ''>''" "''<'' @ xk_name k" "'' = '' @ ?ds @ '';''"] by simp
  have "list_all ascii ('' '' @ (''= '' @ ?ds @ '';'') @ [])"
    using chars lits(1) name_char_plain by (auto simp: list_all_iff)
  then have eq: "TrimSpace ('' = '' @ ?ds @ '';'') = ''= '' @ ?ds @ '';''"
    using TrimSpace_around [of "'' ''" "''= '' @ ?ds @ '';''" "[]"] lits by simp
  have "CHR '';'' \<notin> set ('' '' @ ?ds)" using chars name_char_plain by fastforce
  then have semi: "fst (cut (CHR '';'') ('' '' @ ?ds @ '';'')) = '' '' @ ?ds"
    using cut_first [of "CHR '';''" "'' '' @ ?ds" "[]"] by simp
  have "list_all ascii ('' '' @ ?ds @ [])" "\<not> blank (hd ?ds)" "\<not> blank (last ?ds)"
    using chars lits(1) name_char_plain by (auto simp: list_all_iff)
  then have "TrimSpace ('' '' @ ?ds) = ?ds"
    using TrimSpace_around [of "'' ''" ?ds "[]"] lits by simp
  then show ?thesis
    using trim c eq semi
    by (simp add: keycode_line_def Let_def has_prefix_def cut_prefix_def parse_uint32_digits)
qed

text \<open>Facts about the characters of a statement, and the statement in its three parts.\<close>

definition group_text :: "xkb_key \<Rightarrow> string" where
  "group_text k =
     (if xk_labelled k then nl @ tab @ tab @ ''symbols[Group1]= '' @ list_text k @ nl @ tab
      else tab @ list_text k @ '' '')"

lemma key_text_parts: "key_text k = tab @ ''key <'' @ xk_name k @ ''> {'' @ group_text k @ ''}''"
  by (simp add: key_text_def group_text_def)

lemma symbols_plain:
  assumes "good_key k" "c \<in> set (symbols_text (xk_symbols k))"
  shows "ascii c \<and> c \<notin> set ''{}[]<>;='' \<and> c \<noteq> CHR 0x22 \<and> c \<noteq> CHR 0x0A"
proof -
  have "word_char c \<or> c = CHR '','' \<or> c = CHR '' ''"
    using symbols_text_chars [of "xk_symbols k" c] assms by (simp add: good_key_def)
  then show ?thesis
  proof (elim disjE)
    assume "word_char c"
    then show ?thesis using word_char_plain [of c] by simp
  qed (simp_all add: ascii_def char_code_def)
qed

lemma bracketGroup_list:
  assumes "good_key k" "CHR ''['' \<notin> set a"
  shows "bracketGroup (a @ list_text k @ b) = Some ('' '' @ symbols_text (xk_symbols k) @ '' '')"
proof -
  have "CHR '']'' \<notin> set ('' '' @ symbols_text (xk_symbols k) @ '' '')"
    using symbols_plain [OF assms(1)] by auto
  then show ?thesis
    using behind_first [OF assms(2), of "'' '' @ symbols_text (xk_symbols k) @ '' '' @ CHR '']'' # b"]
      cut_first [of "CHR '']''" "'' '' @ symbols_text (xk_symbols k) @ '' ''" b]
    by (simp add: bracketGroup_def list_text_def)
qed

lemma symbolList_text:
  assumes "good_key k"
  shows "symbolList ('' {'' @ group_text k @ ''}'') = Some ('' '' @ symbols_text (xk_symbols k) @ '' '')"
proof (cases "xk_labelled k")
  case True
  have "find_text ''symbols['' ('' {'' @ group_text k @ ''}'') =
      Some (''symbols[Group1]= '' @ list_text k @ nl @ tab @ ''}'')"
    using True by (simp add: group_text_def nl_def tab_def has_prefix_def)
  moreover have "find_text '']='' (''symbols[Group1]= '' @ list_text k @ nl @ tab @ ''}'') =
      Some ('']= '' @ list_text k @ nl @ tab @ ''}'')"
    by (simp add: has_prefix_def)
  ultimately show ?thesis
    using bracketGroup_list [OF assms, of "'' ''" "nl @ tab @ ''}''"] by (simp add: symbolList_def)
next
  case False
  let ?s = "'' {'' @ tab @ list_text k @ '' }''"
  have "find_text ''symbols['' ?s = None"
  proof (rule ccontr)
    assume "find_text ''symbols['' ?s \<noteq> None"
    then obtain t where "find_text ''symbols['' ?s = Some t" by blast
    from find_text_Some [OF this] obtain a b where ab: "?s = a @ ''symbols['' @ b"
      by (auto simp: has_prefix_append)
    let ?u = "'' {'' @ tab" and ?v = "'' '' @ symbols_text (xk_symbols k) @ '' ] }''"
    have "CHR ''['' \<notin> set ?u" "CHR ''['' \<notin> set ?v"
      using symbols_plain [OF assms] by (auto simp: tab_def)
    moreover have "?u @ CHR ''['' # ?v = (a @ ''symbols'') @ CHR ''['' # b"
      using ab by (simp add: list_text_def)
    ultimately have "?u = a @ ''symbols''"
      using append_Cons_eq_iff [of "CHR ''[''" ?u ?v "a @ ''symbols''" b] by blast
    then have "last ?u = last (a @ ''symbols'')" by simp
    then show False by (simp add: tab_def)
  qed
  moreover have "behind (CHR ''{'') ?s = Some (tab @ list_text k @ '' }'')"
    using behind_first [of "CHR ''{''" "'' ''" "tab @ list_text k @ '' }''"] by simp
  moreover have "bracketGroup (tab @ list_text k @ '' }'') = Some ('' '' @ symbols_text (xk_symbols k) @ '' '')"
    using bracketGroup_list [OF assms, of tab "'' }''"] by (simp add: tab_def)
  ultimately show ?thesis using False by (simp add: symbolList_def group_text_def)
qed

lemma group_text_chars:
  assumes "good_key k" "c \<in> set (group_text k)"
  shows "ascii c \<and> c \<notin> set ''{};''"  "c \<noteq> CHR 0x22"
proof -
  let ?P = "\<lambda>c. (ascii c \<and> c \<notin> set ''{};'') \<and> c \<noteq> CHR 0x22"
  have "list_all ?P (symbols_text (xk_symbols k))"
    using symbols_plain [OF assms(1)] unfolding list_all_iff by simp
  then have "list_all ?P (group_text k)"
    by (simp add: group_text_def list_text_def nl_def tab_def ascii_def char_code_def)
  then show "ascii c \<and> c \<notin> set ''{};''"  "c \<noteq> CHR 0x22"
    using assms(2) unfolding list_all_iff by blast+
qed

lemma parseKeyStatement_text:
  assumes "good_key k" "list_all blank a" "list_all ascii a"
  shows "parseKeyStatement f (a @ key_text k) =
    Some (''<'' @ xk_name k @ ''>'', map (symbol_meaning f) (xk_symbols k))"
proof -
  let ?rest = "''<'' @ xk_name k @ ''> {'' @ group_text k @ ''}''"
  have names: "\<forall>c\<in>set (xk_name k). name_char c" using assms(1) by (simp add: good_key_def list_all_iff)
  have lits: "list_all ascii (tab @ ''key <> {}'')" by code_simp
  have chars: "list_all ascii ?rest"
    using names name_char_plain group_text_chars [OF assms(1)] lits by (auto simp: list_all_iff)
  then have "TrimSpace ((a @ tab) @ (''key '' @ ?rest) @ []) = ''key '' @ ?rest"
    using assms(2,3) lits by (intro TrimSpace_around) (auto simp: tab_def)
  then have trim: "TrimSpace (a @ key_text k) = ''key '' @ ?rest"
    by (simp add: key_text_parts)
  have "TrimSpace ('' '' @ ?rest @ []) = ?rest"
    using chars lits by (intro TrimSpace_around) auto
  then have trim2: "TrimSpace ('' '' @ ?rest) = ?rest" by simp
  have "CHR ''>'' \<notin> set (''<'' @ xk_name k)" using names name_char_plain by fastforce
  then have c: "cut (CHR ''>'') ?rest = (''<'' @ xk_name k, '' {'' @ group_text k @ ''}'', True)"
    using cut_first [of "CHR ''>''" "''<'' @ xk_name k" "'' {'' @ group_text k @ ''}''"] by simp
  show ?thesis
    using trim trim2 c symbolList_text [OF assms(1)] splitSymbols_text [of "xk_symbols k" f] assms(1)
    by (simp add: parseKeyStatement_def Let_def has_prefix_def cut_prefix_def isSpace_def good_key_def)
qed

section \<open>The sections of the text\<close>

definition codes_text :: "xkb_key list \<Rightarrow> string" where
  "codes_text keys = concat (map (\<lambda>k. nl @ code_text k) keys)"

definition keys_text :: "xkb_key list \<Rightarrow> string" where
  "keys_text keys = concat (map (\<lambda>k. nl @ key_text k @ '';'') keys)"

lemma code_text_chars:
  assumes "good_key k" "c \<in> set (code_text k)"
  shows "c \<notin> set ''{}x'' \<and> c \<noteq> CHR 0x0A"
proof -
  let ?P = "\<lambda>c. c \<notin> set ''{}x'' \<and> c \<noteq> CHR 0x0A"
  have "list_all name_char (xk_name k)" "list_all name_char (nat_digits (unat (xk_code k)))"
    using assms(1) nat_digits_chars by (auto simp: good_key_def)
  then have "list_all ?P (xk_name k)" "list_all ?P (nat_digits (unat (xk_code k)))"
    using name_char_plain unfolding list_all_iff by force+
  then have "list_all ?P (code_text k)" by (simp add: code_text_def tab_def)
  then show ?thesis using assms(2) unfolding list_all_iff by blast
qed

lemma codes_text_chars:
  assumes "list_all good_key keys" "c \<in> set (codes_text keys)"
  shows "c \<notin> set ''{}x''"
proof -
  from assms(2) consider "c = CHR 0x0A" | k where "k \<in> set keys" "c \<in> set (code_text k)"
    by (auto simp: codes_text_def nl_def split: if_splits)
  then show ?thesis
  proof cases
    case 2
    then show ?thesis using code_text_chars [of k c] assms(1) by (simp add: list_all_iff)
  qed simp
qed

lemma split_codes:
  assumes "list_all good_key keys"
  shows "split_on (CHR 0x0A) (codes_text keys @ nl) = [] # map code_text keys @ [[]]"
proof -
  define rest where "rest keys = (case codes_text keys @ nl of _ # s \<Rightarrow> s | [] \<Rightarrow> [])" for keys
  have start: "codes_text keys @ nl = CHR 0x0A # rest keys" for keys
    by (cases keys) (simp_all add: rest_def codes_text_def nl_def)
  have next_line: "rest (k # ks) = code_text k @ CHR 0x0A # rest ks" for k ks
    using start [of ks] by (simp add: rest_def codes_text_def nl_def)
  have "list_all good_key keys \<Longrightarrow> split_on (CHR 0x0A) (rest keys) = map code_text keys @ [[]]"
  proof (induction keys)
    case (Cons k ks)
    then have "CHR 0x0A \<notin> set (code_text k)" using code_text_chars [of k] by auto
    then show ?case using Cons split_on_skip by (simp add: next_line)
  qed (simp add: rest_def codes_text_def nl_def)
  then show ?thesis using assms by (simp add: start)
qed

lemma fold_codes:
  "list_all good_key keys \<Longrightarrow>
   fold (\<lambda>line codes. case keycode_line line of None \<Rightarrow> codes | Some (name, code) \<Rightarrow> codes(name \<mapsto> code))
     (map code_text keys) m = fold (\<lambda>k m. m(''<'' @ xk_name k @ ''>'' \<mapsto> xk_code k)) keys m"
  by (induction keys arbitrary: m) (auto simp: keycode_line_text good_key_def)

lemma fold_update_map_of:
  "distinct (map key xs) \<Longrightarrow>
   fold (\<lambda>x m. m(key x \<mapsto> val x)) xs (\<lambda>_. None) = map_of (map (\<lambda>x. (key x, val x)) xs)"
proof (induction xs rule: rev_induct)
  case (snoc x xs)
  have "map_of (map (\<lambda>x. (key x, val x)) (xs @ [x])) = map_of (map (\<lambda>x. (key x, val x)) ([x] @ xs))"
    using snoc.prems by (intro map_of_inject_set [THEN iffD2]) (auto simp: comp_def)
  then show ?case using snoc by (simp del: fun_upd_apply)
qed simp

lemma parseKeycodes_text:
  assumes "list_all good_key keys"
  shows "parseKeycodes (codes_text keys @ nl) =
    fold (\<lambda>k m. m(''<'' @ xk_name k @ ''>'' \<mapsto> xk_code k)) keys (\<lambda>_. None)"
proof -
  have "keycode_line [] = None"
    by (simp add: keycode_line_def TrimSpace_def bytes_string_def string_bytes_def has_prefix_def)
  then show ?thesis
    using fold_codes [OF assms] by (simp add: parseKeycodes_def split_codes [OF assms])
qed

lemma key_text_braces:
  assumes "good_key k"
  shows "brace_body 1 (nl @ key_text k @ '';'' @ s) = map_option ((@) (nl @ key_text k @ '';'')) (brace_body 1 s)"
proof -
  let ?a = "nl @ tab @ ''key <'' @ xk_name k @ ''> ''"
  have "list_all (\<lambda>c. c \<notin> set ''{}'') (xk_name k)"
    using assms name_char_plain unfolding good_key_def list_all_iff by force
  then have "list_all (\<lambda>c. c \<notin> set ''{}'') ?a" by (simp add: nl_def tab_def)
  then have a: "CHR ''{'' \<notin> set ?a" "CHR ''}'' \<notin> set ?a" unfolding list_all_iff by (metis list.set_intros)+
  have g: "CHR ''{'' \<notin> set (group_text k)" "CHR ''}'' \<notin> set (group_text k)"
    using group_text_chars [OF assms] by auto
  have "brace_body 1 (?a @ CHR ''{'' # group_text k @ CHR ''}'' # CHR '';'' # s) =
      map_option ((@) (?a @ CHR ''{'' # group_text k @ CHR ''}'' # '';'')) (brace_body 1 s)"
    unfolding brace_body_plain [OF a] by (cases "brace_body 1 s") (simp_all add: brace_body_plain [OF g])
  then show ?thesis by (simp add: key_text_parts)
qed

lemma keys_text_braces:
  "list_all good_key keys \<Longrightarrow> brace_body 1 (keys_text keys @ s) = map_option ((@) (keys_text keys)) (brace_body 1 s)"
proof (induction keys)
  case (Cons k ks)
  then show ?case
    using key_text_braces [of k "keys_text ks @ s"]
    by (cases "brace_body 1 s") (simp_all add: keys_text_def)
qed (cases "brace_body 1 s"; simp add: keys_text_def)

lemma net_append: "net (a @ b) = net a + net b"
  by (simp add: net_def)

lemma key_text_statement:
  assumes "good_key k"
  shows "statements 0 False [] (nl @ key_text k @ '';'' @ s) = (nl @ key_text k) # statements 0 False [] s"
proof -
  let ?P = "\<lambda>c. c \<notin> set ''{}[];'' \<and> c \<noteq> CHR 0x22"
  have syms: "list_all ?P (symbols_text (xk_symbols k))"
    using symbols_plain [OF assms] unfolding list_all_iff by simp
  have names: "list_all ?P (xk_name k)"
    using assms name_char_plain unfolding good_key_def list_all_iff by force
  have zero: "list_all ?P t \<Longrightarrow> net t = 0" for t by (induction t) (auto simp: net_def)
  have "net (nl @ key_text k) = 0"
    using zero [OF syms] zero [OF names]
    by (simp add: key_text_def list_text_def net_append) (simp add: net_def nl_def tab_def)
  moreover have "list_all (\<lambda>c. c \<noteq> CHR '';'' \<and> c \<noteq> CHR 0x22) (nl @ key_text k)"
    using syms names by (auto simp: key_text_def list_text_def nl_def tab_def list_all_iff)
  then have "CHR '';'' \<notin> set (nl @ key_text k)" "CHR 0x22 \<notin> set (nl @ key_text k)"
    unfolding list_all_iff by blast+
  ultimately show ?thesis using statements_plain [of "nl @ key_text k" 0 "[]" "CHR '';'' # s"] by simp
qed

lemma splitStatements_text:
  "list_all good_key keys \<Longrightarrow>
   splitStatements (keys_text keys @ nl) = map (\<lambda>k. nl @ key_text k) keys @ [nl]"
proof (induction keys)
  case (Cons k ks)
  then show ?case
    using key_text_statement [of k "keys_text ks @ nl"] by (simp add: keys_text_def splitStatements_def)
qed (simp add: keys_text_def splitStatements_def nl_def)

section \<open>The keymap read back\<close>

lemma sections_text:
  assumes "list_all good_key keys" "find_text ''xkb_symbols'' middle = None"
  shows "sectionBody (keymap_text middle keys) ''xkb_keycodes'' = codes_text keys @ nl"
    and "sectionBody (keymap_text middle keys) ''xkb_symbols'' = keys_text keys @ nl"
proof -
  let ?tail = "nl @ ''};'' @ nl @ ''};'' @ nl"
  let ?front = "''xkb_keymap {'' @ nl @ ''xkb_keycodes (unnamed) {''"
  let ?syms = "''xkb_symbols'' @ '' (unnamed) {'' @ keys_text keys @ ?tail"
  have parts: "keymap_text middle keys = ?front @ codes_text keys @ nl @ ''};'' @ middle @ ?syms"
    by (simp add: keymap_text_def codes_text_def keys_text_def)
  have plain: "CHR ''{'' \<notin> set (codes_text keys @ nl)" "CHR ''}'' \<notin> set (codes_text keys @ nl)"
    "hd ''xkb_symbols'' \<notin> set (codes_text keys @ nl @ ''};'')"
    using codes_text_chars [OF assms(1)] by (auto simp: nl_def)
  have "find_text ''xkb_keycodes'' (?front @ s) = Some (''xkb_keycodes (unnamed) {'' @ s)" for s
    by (simp add: has_prefix_def nl_def)
  moreover have "behind (CHR ''{'') (''xkb_keycodes (unnamed) {'' @ s) = Some s" for s
    using behind_first [of "CHR ''{''" "''xkb_keycodes (unnamed) ''" s] by simp
  moreover have "brace_body 1 ((codes_text keys @ nl) @ ''};'' @ s) = Some (codes_text keys @ nl)" for s
    unfolding brace_body_plain [OF plain(1,2)] by simp
  ultimately show "sectionBody (keymap_text middle keys) ''xkb_keycodes'' = codes_text keys @ nl"
    by (simp add: parts sectionBody_def)
  have skip: "find_text ''xkb_symbols'' (?front @ s) = find_text ''xkb_symbols'' s" for s
    by (simp add: has_prefix_def nl_def)
  have "find_text ''xkb_symbols'' (?front @ (codes_text keys @ nl @ ''};'') @ middle) = None"
    unfolding skip by (subst find_text_no_head [OF plain(3)]) (simp_all add: assms(2))
  moreover have "unbordered ''xkb_symbols''" by code_simp
  ultimately have "find_text ''xkb_symbols'' ((?front @ (codes_text keys @ nl @ ''};'') @ middle) @ ?syms) = Some ?syms"
    by (intro find_text_put) simp_all
  then have "find_text ''xkb_symbols'' (keymap_text middle keys) = Some ?syms"
    by (simp add: parts)
  moreover have "behind (CHR ''{'') (''xkb_symbols'' @ '' (unnamed) {'' @ s) = Some s" for s
    using behind_first [of "CHR ''{''" "''xkb_symbols (unnamed) ''" s] by simp
  moreover have "brace_body 1 (keys_text keys @ ?tail) = Some (keys_text keys @ nl)"
    using keys_text_braces [OF assms(1), of ?tail] by (simp add: nl_def)
  ultimately show "sectionBody (keymap_text middle keys) ''xkb_symbols'' = keys_text keys @ nl"
    unfolding sectionBody_def by simp
qed

lemma fold_add_key:
  assumes "list_all good_key keys" "\<forall>k\<in>set keys. codes (''<'' @ xk_name k @ ''>'') = Some (xk_code k)"
  shows "fold (add_key f codes) (map (\<lambda>k. nl @ key_text k) keys) m =
    fold (\<lambda>k m. m(xk_code k - keycodeOffset \<mapsto> map (symbol_meaning f) (xk_symbols k))) keys m"
  using assms
proof (induction keys arbitrary: m)
  case (Cons k ks)
  have "parseKeyStatement f (nl @ key_text k) = Some (''<'' @ xk_name k @ ''>'', map (symbol_meaning f) (xk_symbols k))"
    using Cons.prems by (intro parseKeyStatement_text) (simp_all add: nl_def ascii_def char_code_def)
  then have "add_key f codes (nl @ key_text k) m =
      m(xk_code k - keycodeOffset \<mapsto> map (symbol_meaning f) (xk_symbols k))"
    using Cons.prems by (auto simp: add_key_def good_key_def)
  then show ?case using Cons by (simp del: fun_upd_apply)
qed simp

lemma parseKeymap_text:
  assumes "list_all good_key keys" "distinct (map xk_name keys)" "distinct (map xk_code keys)"
    and "find_text ''xkb_symbols'' middle = None"
  shows "parseKeymap f (keymap_text middle keys) =
    map_of (map (\<lambda>k. (xk_code k - keycodeOffset, map (symbol_meaning f) (xk_symbols k))) keys)"
proof -
  let ?codes = "map_of (map (\<lambda>k. (''<'' @ xk_name k @ ''>'', xk_code k)) keys)"
  have names: "distinct (map (\<lambda>k. ''<'' @ xk_name k @ ''>'') keys)"
    using assms(2) by (simp add: distinct_map inj_on_def)
  have codes: "parseKeycodes (codes_text keys @ nl) = ?codes"
    using parseKeycodes_text [OF assms(1)] fold_update_map_of [OF names, of xk_code] by simp
  have known: "\<forall>k\<in>set keys. ?codes (''<'' @ xk_name k @ ''>'') = Some (xk_code k)"
    using names by (force intro: map_of_is_SomeI simp: comp_def)
  have "parseKeyStatement f nl = None"
    using TrimSpace_ascii [of nl] by (simp add: parseKeyStatement_def nl_def ascii_def char_code_def cut_prefix_def has_prefix_def)
  then have last: "add_key f ?codes nl m = m" for m by (simp add: add_key_def)
  have "distinct (map (\<lambda>k. xk_code k - keycodeOffset) keys)"
    using assms(3) by (simp add: distinct_map inj_on_def)
  from fold_update_map_of [OF this, of "\<lambda>k. map (symbol_meaning f) (xk_symbols k)"] show ?thesis
    using fold_add_key [OF assms(1) known, of f "\<lambda>_. None"] last
    by (simp add: parseKeymap_def codes sections_text [OF assms(1,4)] splitStatements_text [OF assms(1)])
qed

end
