(* ===== verification/Wayland_Server.thy ===== *)
theory Wayland_Server
  imports Ui_Pixels Wayland_Keymap
begin

text \<open>
  The Wayland backend, \<open>wayland/display.go\<close>, and the compositor it talks to.

  The compositor and the bindings of go-wayland are not code of this repository.  As for X11 the
  model keeps the log of every request written to the socket, in order; whether a write fails
  is a function of that log, in the record \<open>compositor\<close>.  A request that makes an object takes
  the next of the identifiers \<open>l_ids\<close> (the bindings number objects as they register them), and
  fails when there are none.  A log entry tells whether the write succeeded.
\<close>

type_synonym oid = "32 word"
type_synonym int32 = "32 word"

section \<open>Requests\<close>

text \<open>By the interface they belong to; the first argument is the object a request is for.\<close>

datatype positioner_req =
    SetSize int32 int32
  | SetAnchorRect int32 int32 int32 int32
  | SetAnchor "32 word"
  | SetGravity "32 word"
  | SetConstraintAdjustment "32 word"
  | DestroyPositioner

datatype data_req =
    GetDataDevice oid
  | CreateSource oid
  | OfferMime oid string
  | SetSelection oid oid "32 word"         \<comment> \<open>device, source, serial\<close>
  | DestroySource oid
  | ReceiveOffer oid string
  | DestroyOffer oid

datatype seat_req =
    GetPointer oid
  | GetKeyboard oid
  | SetPointerCursor oid "32 word" oid int32 int32    \<comment> \<open>pointer, serial, surface, hotspot\<close>

datatype surface_req =
    Attach oid                             \<comment> \<open>buffer\<close>
  | DamageBuffer int32 int32 int32 int32
  | Commit
  | DestroySurface

datatype xdg_req =
    GetToplevel oid
  | GetPopup oid oid oid                   \<comment> \<open>new, parent, positioner\<close>
  | AckConfigure "32 word"
  | SetWindowGeometry int32 int32 int32 int32
  | DestroyXdgSurface

datatype toplevel_req =
    SetAppID string
  | SetToplevelTitle string
  | SetMinimized
  | DestroyToplevel

datatype shm_req =
    CreatePool oid int32                   \<comment> \<open>new, size\<close>
  | DestroyPool oid
  | CreateBuffer oid oid int32 int32 int32 "32 word"  \<comment> \<open>new, pool, width, height, stride, format\<close>
  | DestroyBuffer oid

datatype icon_req =
    CreateIcon oid
  | AddIconBuffer oid oid int32
  | SetToplevelIcon oid "oid option"       \<comment> \<open>toplevel, icon\<close>
  | DestroyIcon oid

datatype connection_req =
    GetRegistry oid
  | SyncRequest oid
  | BindGlobal "32 word" string "32 word" oid         \<comment> \<open>name, interface, version, new\<close>
  | Pong "32 word"
  | CloseContext                           \<comment> \<open>the connection is closed\<close>

datatype wreq =
    CreateSurface oid
  | Surface oid surface_req
  | GetXdgSurface oid oid                  \<comment> \<open>new, surface\<close>
  | Xdg oid xdg_req
  | Toplevel oid toplevel_req
  | DestroyPopup oid
  | CreatePositioner oid
  | Positioner oid positioner_req
  | GetDecoration oid oid                  \<comment> \<open>new, toplevel\<close>
  | SetDecorationMode oid "32 word"
  | DestroyDecoration oid
  | Shm shm_req
  | Icon icon_req
  | Seat seat_req
  | Data data_req
  | Connection connection_req

datatype wlog = Wrote wreq | Failed wreq

fun logged :: "wlog \<Rightarrow> wreq" where
  "logged (Wrote r) = r"
| "logged (Failed r) = r"

section \<open>The compositor and the system\<close>

text \<open>
  \<open>wc_theme\<close> is what loading the cursor theme yields: the error, or the arrow if there is one,
  as its buffer (or the error of making that), its nbytes and its hotspot.
\<close>

record theme_image =
  ti_buffer :: "string + oid"
  ti_width :: "32 word"
  ti_height :: "32 word"
  ti_hotspotX :: "32 word"
  ti_hotspotY :: "32 word"

record compositor =
  wc_fails :: "wlog list \<Rightarrow> wreq \<Rightarrow> string option"    \<comment> \<open>the error of a write\<close>
  wc_runtime_dir :: string                             \<comment> \<open>\<open>XDG_RUNTIME_DIR\<close>\<close>
  wc_create_temp :: "wlog list \<Rightarrow> string option"       \<comment> \<open>the errors of the calls of \<open>shm.go\<close>\<close>
  wc_unlink :: "wlog list \<Rightarrow> string option"
  wc_truncate :: "wlog list \<Rightarrow> gint \<Rightarrow> string option"
  wc_mmap :: "wlog list \<Rightarrow> gint \<Rightarrow> string option"
  wc_theme :: "string \<Rightarrow> gint \<Rightarrow> string + theme_image option"
  wc_getenv :: "string \<Rightarrow> string"
  wc_pipe :: "wlog list \<Rightarrow> string option"
  wc_keysym_table :: "32 word \<Rightarrow> string"

section \<open>The display\<close>

record wl_window =
  ww_surface :: "oid option"
  ww_xdg :: "oid option"
  ww_toplevel :: "oid option"
  ww_popup :: "oid option"
  ww_decoration :: "oid option"
  ww_memory :: "bytes option"
  ww_pool :: "oid option"
  ww_buffer :: "oid option"
  ww_x :: gint
  ww_y :: gint
  ww_width :: gint
  ww_height :: gint
  ww_bufWidth :: gint
  ww_bufHeight :: gint
  ww_override :: bool
  ww_mapped :: bool
  ww_configured :: bool

record shown_cursor =
  sc_buffer :: oid
  sc_width :: gint
  sc_height :: gint
  sc_hotspotX :: gint
  sc_hotspotY :: gint

text \<open>Pixels shared with the compositor: \<open>ownedCursor\<close> and \<open>ownedWindowIcon\<close>.\<close>

record owned_pixels =
  op_memory :: bytes
  op_pool :: "oid option"
  op_buffer :: "oid option"

text \<open>
  The clipboard.  Offers and sources are objects of the connection: every offer announced, with
  its types, and every source not yet cancelled, with its text, is there until it is destroyed;
  \<open>offer\<close> and \<open>source\<close> of the code are the current ones.  \<open>lc_reading\<close> counts the goroutines that
  read an offer.
\<close>

record wl_clipboard =
  lc_device :: oid
  lc_offers :: "(oid \<times> string list) list"
  lc_offer :: "oid option"
  lc_sources :: "(oid \<times> bytes) list"
  lc_source :: "oid option"
  lc_pending :: "bytes option"
  lc_reading :: nat

record wl_output =
  lo_monitor :: monitor
  lo_modeWidth :: gint
  lo_modeHeight :: gint
  lo_transform :: int32

text \<open>
  \<open>Display\<close>.  A pointer to a window is the identifier of its surface, the key of the window in
  the map \<open>windows\<close>.  Of an optional global the model keeps whether it was bound.
\<close>

record 'o wayland =
  l_log :: "wlog list"
  l_ids :: "oid list"
  l_windows :: "(oid \<times> wl_window) list"
  l_lastToplevel :: "oid option"
  l_pointerOver :: "oid option"
  l_pointerX :: gint
  l_pointerY :: gint
  l_keyboardFocus :: "oid option"
  l_compositor :: bool
  l_shm :: bool
  l_wmBase :: bool
  l_decoration :: bool
  l_iconManager :: bool
  l_dataManager :: bool
  l_seat :: bool
  l_seatBound :: "32 word"
  l_pointer :: "oid option"
  l_keyboard :: "oid option"
  l_outputs :: "(32 word \<times> wl_output) list"
  l_enterSerial :: "32 word"
  l_cursorSurface :: "oid option"
  l_shown :: "shown_cursor option"
  l_ownedCursor :: "owned_pixels option"
  l_theme :: "theme_image option option"   \<comment> \<open>the theme, if loaded, and its arrow, if any\<close>
  l_themeMissing :: bool
  l_clipboard :: "wl_clipboard option"
  l_inputSerial :: "32 word"
  l_keys :: keymap
  l_mods :: "32 word"
  l_panicked :: bool                       \<comment> \<open>a run-time panic, which ends the process\<close>
  l_done :: bool
  l_others :: 'o

section \<open>Writing requests\<close>

definition wl_write :: "compositor \<Rightarrow> wreq \<Rightarrow> 'o wayland \<Rightarrow> string option \<times> 'o wayland" where
  "wl_write co r d =
     (case wc_fails co (l_log d) r of
        None \<Rightarrow> (None, d\<lparr>l_log := l_log d @ [Wrote r]\<rparr>)
      | Some e \<Rightarrow> (Some e, d\<lparr>l_log := l_log d @ [Failed r]\<rparr>))"

text \<open>A write whose error is only logged or ignored.\<close>

definition wl_send :: "compositor \<Rightarrow> wreq \<Rightarrow> 'o wayland \<Rightarrow> 'o wayland" where
  "wl_send co r d = snd (wl_write co r d)"

definition wl_new :: "compositor \<Rightarrow> (oid \<Rightarrow> wreq) \<Rightarrow> 'o wayland \<Rightarrow> (string + oid) \<times> 'o wayland" where
  "wl_new co r d =
     (case l_ids d of
        [] \<Rightarrow> (Inl ''no object identifier'', d)
      | i # ids \<Rightarrow>
          (case wl_write co (r i) (d\<lparr>l_ids := ids\<rparr>) of
             (Some e, d1) \<Rightarrow> (Inl e, d1)
           | (None, d1) \<Rightarrow> (Inr i, d1)))"

text \<open>
  Calls that go on to the next only without an error, and calls that are all made before the
  first of their errors is looked at (the errors are the elements of a slice literal).
\<close>

fun steps :: "('s \<Rightarrow> string option \<times> 's) list \<Rightarrow> 's \<Rightarrow> string option \<times> 's" where
  "steps [] s = (None, s)"
| "steps (f # fs) s = (case f s of (Some e, s1) \<Rightarrow> (Some e, s1) | (None, s1) \<Rightarrow> steps fs s1)"

fun all_steps :: "('s \<Rightarrow> string option \<times> 's) list \<Rightarrow> 's \<Rightarrow> string option \<times> 's" where
  "all_steps [] s = (None, s)"
| "all_steps (f # fs) s =
     (case f s of (e, s1) \<Rightarrow>
        (case all_steps fs s1 of (e', s2) \<Rightarrow> ((case e of None \<Rightarrow> e' | Some _ \<Rightarrow> e), s2)))"

text \<open>\<open>fmt.Errorf("what: %w", err)\<close>.\<close>

definition context_error :: "string \<Rightarrow> ('s \<Rightarrow> string option \<times> 's) \<Rightarrow> 's \<Rightarrow> string option \<times> 's" where
  "context_error what f s = (case f s of (e, s1) \<Rightarrow> (map_option (\<lambda>e. what @ '': '' @ e) e, s1))"

section \<open>Shared memory\<close>

text \<open>A fresh mapping is zeroed.  \<open>close\<close> of \<open>sharedMemory\<close> only gives the memory back.\<close>

definition newSharedMemory :: "compositor \<Rightarrow> wlog list \<Rightarrow> gint \<Rightarrow> string + bytes" where
  "newSharedMemory co log nbytes =
     (if wc_runtime_dir co = [] then Inl ''XDG_RUNTIME_DIR is not set''
      else case wc_create_temp co log of
          Some e \<Rightarrow> Inl (''creating a shared memory file: '' @ e)
        | None \<Rightarrow>
          (case wc_unlink co log of
             Some e \<Rightarrow> Inl (''unlinking a shared memory file: '' @ e)
           | None \<Rightarrow>
             (case wc_truncate co log nbytes of
                Some e \<Rightarrow> Inl (''sizing '' @ decimal (sint nbytes) @ '' bytes of shared memory: '' @ e)
              | None \<Rightarrow>
                (case wc_mmap co log nbytes of
                   Some e \<Rightarrow> Inl (''mapping '' @ decimal (sint nbytes) @ '' bytes of shared memory: '' @ e)
                 | None \<Rightarrow> Inr (replicate (nat (sint nbytes)) 0)))))"

section \<open>Windows of the table\<close>

definition live_window :: "window_id \<Rightarrow> 'o wayland \<Rightarrow> wl_window option" where
  "live_window i d = (if ID (xid_of i) = i then map_of (l_windows d) (xid_of i) else None)"

definition put_window :: "oid \<Rightarrow> wl_window \<Rightarrow> 'o wayland \<Rightarrow> 'o wayland" where
  "put_window s w d = d\<lparr>l_windows := AList.update s w (l_windows d)\<rparr>"

text \<open>
  An operation of a window on the display, with the window as it leaves it.  As on X11 an
  operation on a window that is gone does nothing, and the client has none.
\<close>

definition on_wl_window ::
    "window_id \<Rightarrow> (oid \<Rightarrow> wl_window \<times> 'o wayland \<Rightarrow> string option \<times> wl_window \<times> 'o wayland) \<Rightarrow>
     'o wayland \<Rightarrow> string option \<times> 'o wayland" where
  "on_wl_window i f d =
     (case live_window i d of
        None \<Rightarrow> (None, d)
      | Some w \<Rightarrow> (case f (xid_of i) (w, d) of (e, w1, d1) \<Rightarrow> (e, put_window (xid_of i) w1 d1)))"

end
