(* ===== verification/Wayland_Wire.thy ===== *)
theory Wayland_Wire
  imports Wayland_Server
begin

text \<open>
  The requests the backend frames itself: \<open>wayland/wire.go\<close> and the requests of
  \<open>wayland/icon_protocol.go\<close> and \<open>wayland/clipboard_protocol.go\<close>.  How the bindings write a 32-bit
  number and pad a length is the parameter \<open>wire_codec\<close>.  \<open>read_request\<close> is what the Wayland
  protocol says a receiver makes of a message.
\<close>

record wire_codec =
  put_u32 :: "32 word \<Rightarrow> bytes"
  get_u32 :: "bytes \<Rightarrow> 32 word"
  padded_len :: "nat \<Rightarrow> nat"

definition requestHeader :: nat where "requestHeader = 8"
definition opcodeSurfaceDestroy :: "32 word" where "opcodeSurfaceDestroy = 0"
definition opcodeRegistryBind :: "32 word" where "opcodeRegistryBind = 0"
definition opcodeToplevelSetTitle :: "32 word" where "opcodeToplevelSetTitle = 2"
definition opcodeToplevelSetAppID :: "32 word" where "opcodeToplevelSetAppID = 3"

text \<open>\<open>copy(dst[at:], src)\<close> where the source fits.\<close>

definition write_at :: "nat \<Rightarrow> bytes \<Rightarrow> bytes \<Rightarrow> bytes" where
  "write_at at src dst = take at dst @ src @ drop (at + length src) dst"

definition newRequest :: "wire_codec \<Rightarrow> oid \<Rightarrow> 32 word \<Rightarrow> nat \<Rightarrow> bytes" where
  "newRequest k i opcode argBytes =
     (let nbytes = requestHeader + argBytes in
      write_at 4 (put_u32 k (push_bit 16 (of_nat nbytes) OR opcode))
        (write_at 0 (put_u32 k i) (replicate nbytes 0)))"

definition stringSize :: "wire_codec \<Rightarrow> bytes \<Rightarrow> nat" where
  "stringSize k s = 4 + padded_len k (length s + 1)"

text \<open>\<open>putString(dst[at:], value)\<close>, with how much it used.\<close>

definition putString :: "wire_codec \<Rightarrow> nat \<Rightarrow> bytes \<Rightarrow> bytes \<Rightarrow> bytes \<times> nat" where
  "putString k at s dst =
     (write_at (at + 4) s (write_at at (put_u32 k (of_nat (length s + 1))) dst), stringSize k s)"

definition bindGlobal :: "wire_codec \<Rightarrow> oid \<Rightarrow> 32 word \<Rightarrow> bytes \<Rightarrow> 32 word \<Rightarrow> oid \<Rightarrow> bytes" where
  "bindGlobal k registry name iface version proxy =
     (let r0 = newRequest k registry opcodeRegistryBind (4 + stringSize k iface + 4 + 4);
          at0 = requestHeader;
          r1 = write_at at0 (put_u32 k name) r0;
          at1 = at0 + 4;
          (r2, used) = putString k at1 iface r1;
          at2 = at1 + used;
          r3 = write_at at2 (put_u32 k version) r2;
          at3 = at2 + 4
      in write_at at3 (put_u32 k proxy) r3)"

definition stringRequest :: "wire_codec \<Rightarrow> oid \<Rightarrow> 32 word \<Rightarrow> bytes \<Rightarrow> bytes" where
  "stringRequest k proxy opcode s =
     fst (putString k requestHeader s (newRequest k proxy opcode (stringSize k s)))"

section \<open>Icons and the clipboard\<close>

text \<open>A request with one number, and one with two.\<close>

definition u32_request :: "wire_codec \<Rightarrow> oid \<Rightarrow> 32 word \<Rightarrow> 32 word \<Rightarrow> bytes" where
  "u32_request k i opcode v = write_at requestHeader (put_u32 k v) (newRequest k i opcode 4)"

definition u32_pair_request :: "wire_codec \<Rightarrow> oid \<Rightarrow> 32 word \<Rightarrow> 32 word \<Rightarrow> 32 word \<Rightarrow> bytes" where
  "u32_pair_request k i opcode v1 v2 =
     write_at (requestHeader + 4) (put_u32 k v2)
       (write_at requestHeader (put_u32 k v1) (newRequest k i opcode 8))"

definition createIcon :: "wire_codec \<Rightarrow> oid \<Rightarrow> oid \<Rightarrow> bytes" where
  "createIcon k manager icon = u32_request k manager 1 icon"

definition setIcon :: "wire_codec \<Rightarrow> oid \<Rightarrow> oid \<Rightarrow> oid option \<Rightarrow> bytes" where
  "setIcon k manager toplevel icon =
     u32_pair_request k manager 2 toplevel (case icon of None \<Rightarrow> 0 | Some i \<Rightarrow> i)"

definition addBuffer :: "wire_codec \<Rightarrow> oid \<Rightarrow> oid \<Rightarrow> int32 \<Rightarrow> bytes" where
  "addBuffer k icon buffer scale = u32_pair_request k icon 2 buffer scale"

definition destroyIcon :: "wire_codec \<Rightarrow> oid \<Rightarrow> bytes" where
  "destroyIcon k icon = newRequest k icon 0 0"

definition createSource :: "wire_codec \<Rightarrow> oid \<Rightarrow> oid \<Rightarrow> bytes" where
  "createSource k manager source = u32_request k manager 0 source"

definition getDevice :: "wire_codec \<Rightarrow> oid \<Rightarrow> oid \<Rightarrow> oid \<Rightarrow> bytes" where
  "getDevice k manager device seat = u32_pair_request k manager 1 device seat"

definition setSelection :: "wire_codec \<Rightarrow> oid \<Rightarrow> oid option \<Rightarrow> 32 word \<Rightarrow> bytes" where
  "setSelection k device source serial =
     (let r = newRequest k device 1 8;
          r1 = (case source of None \<Rightarrow> r | Some i \<Rightarrow> write_at requestHeader (put_u32 k i) r)
      in write_at (requestHeader + 4) (put_u32 k serial) r1)"

definition receiveOffer :: "wire_codec \<Rightarrow> oid \<Rightarrow> bytes \<Rightarrow> bytes" where
  "receiveOffer k offer mime =
     fst (putString k requestHeader mime (newRequest k offer 1 (stringSize k mime)))"

definition destroyOffer :: "wire_codec \<Rightarrow> oid \<Rightarrow> bytes" where
  "destroyOffer k offer = newRequest k offer 2 0"

definition offerMime :: "wire_codec \<Rightarrow> oid \<Rightarrow> bytes \<Rightarrow> bytes" where
  "offerMime k source mime = stringRequest k source 0 mime"

definition destroySource :: "wire_codec \<Rightarrow> oid \<Rightarrow> bytes" where
  "destroySource k source = newRequest k source 1 0"

definition destroySurface :: "wire_codec \<Rightarrow> oid \<Rightarrow> bytes" where
  "destroySurface k surface = newRequest k surface opcodeSurfaceDestroy 0"

text \<open>\<open>wireString\<close>, a string in a message; the length is an \<open>int\<close> of 64 bits.\<close>

definition wireString :: "wire_codec \<Rightarrow> bytes \<Rightarrow> bytes" where
  "wireString k msg =
     (if length msg < 4 then []
      else
        let n = unat (get_u32 k (take 4 msg)) in
        if n = 0 \<or> length msg - 4 < n then [] else take (n - 1) (drop 4 msg))"

section \<open>What a receiver reads\<close>

datatype arg_kind = NumberKind | StringKind
datatype wire_arg = Number "32 word" | Bytes bytes

fun read_args :: "wire_codec \<Rightarrow> arg_kind list \<Rightarrow> bytes \<Rightarrow> wire_arg list option" where
  "read_args k [] msg = (if msg = [] then Some [] else None)"
| "read_args k (NumberKind # ks) msg =
     (if length msg < 4 then None
      else map_option (Cons (Number (get_u32 k (take 4 msg)))) (read_args k ks (drop 4 msg)))"
| "read_args k (StringKind # ks) msg =
     (if length msg < 4 then None
      else
        let n = unat (get_u32 k (take 4 msg)); padded = padded_len k n in
        if n = 0 \<or> length msg < 4 + padded \<or> length msg < 4 + n \<or> msg ! (3 + n) \<noteq> 0 then None
        else map_option (Cons (Bytes (wireString k msg))) (read_args k ks (drop (4 + padded) msg)))"

definition read_request ::
    "wire_codec \<Rightarrow> arg_kind list \<Rightarrow> bytes \<Rightarrow> (oid \<times> 32 word \<times> wire_arg list) option" where
  "read_request k ks msg =
     (if length msg < requestHeader then None
      else
        let word = get_u32 k (take 4 (drop 4 msg)) in
        if unat (drop_bit 16 word) \<noteq> length msg then None
        else map_option (\<lambda>args. (get_u32 k (take 4 msg), take_bit 16 word, args))
               (read_args k ks (drop requestHeader msg)))"

section \<open>Requests are read back\<close>

definition good_codec :: "wire_codec \<Rightarrow> bool" where
  "good_codec k \<longleftrightarrow>
     (\<forall>v. length (put_u32 k v) = 4 \<and> get_u32 k (put_u32 k v) = v) \<and> get_u32 k [0, 0, 0, 0] = 0 \<and>
     (\<forall>n. n \<le> padded_len k n)"

lemma good_codec_simps [simp]:
  assumes "good_codec k"
  shows "length (put_u32 k v) = 4" "get_u32 k (put_u32 k v) = v" "n \<le> padded_len k n"
    "get_u32 k [0, 0, 0, 0] = 0"
  using assms by (simp_all add: good_codec_def)

lemma write_at_length [simp]:
  "at + length src \<le> length dst \<Longrightarrow> length (write_at at src dst) = length dst"
  by (simp add: write_at_def)

lemma write_at_behind: "length a = at \<Longrightarrow> length src \<le> n \<Longrightarrow>
    write_at at src (a @ replicate n 0) = a @ src @ replicate (n - length src) 0"
  by (simp add: write_at_def)

text \<open>A request is its header and its arguments, one behind the other.\<close>

definition header_word :: "nat \<Rightarrow> 32 word \<Rightarrow> 32 word" where
  "header_word nbytes opcode = push_bit 16 (of_nat nbytes) OR opcode"

lemma newRequest_eq: "good_codec k \<Longrightarrow>
    newRequest k i opcode n = put_u32 k i @ put_u32 k (header_word (8 + n) opcode) @ replicate n 0"
proof -
  assume k: "good_codec k"
  have "newRequest k i opcode n =
      write_at 4 (put_u32 k (header_word (8 + n) opcode)) (write_at 0 (put_u32 k i) ([] @ replicate (8 + n) 0))"
    by (simp add: newRequest_def requestHeader_def header_word_def Let_def)
  also have "write_at 0 (put_u32 k i) ([] @ replicate (8 + n) 0) = put_u32 k i @ replicate (4 + n) 0"
    using k by (subst write_at_behind) auto
  also have "write_at 4 (put_u32 k (header_word (8 + n) opcode)) \<dots> =
      put_u32 k i @ put_u32 k (header_word (8 + n) opcode) @ replicate n 0"
    using k by (subst write_at_behind) auto
  finally show ?thesis .
qed

definition wire_text :: "wire_codec \<Rightarrow> bytes \<Rightarrow> bytes" where
  "wire_text k s = put_u32 k (of_nat (length s + 1)) @ s @ replicate (padded_len k (length s + 1) - length s) 0"

lemma wire_text_length: "good_codec k \<Longrightarrow> length (wire_text k s) = stringSize k s"
  using le_add_diff_inverse [OF Suc_leD [OF good_codec_simps(3) [of k "Suc (length s)"]]]
  by (simp add: stringSize_def wire_text_def)

lemma putString_eq:
  assumes "good_codec k" "length a = at"
  shows "putString k at s (a @ replicate (stringSize k s + n) 0) =
    ((a @ wire_text k s) @ replicate n 0, stringSize k s)"
proof -
  let ?len = "put_u32 k (of_nat (length s + 1))"
  have pad: "Suc (length s) \<le> padded_len k (Suc (length s))" using assms(1) by (rule good_codec_simps)
  then obtain m where m: "padded_len k (Suc (length s)) = Suc (length s) + m" using le_Suc_ex by blast
  have "write_at at ?len (a @ replicate (stringSize k s + n) 0) = (a @ ?len) @ replicate (Suc (length s) + m + n) 0"
    using assms by (subst write_at_behind) (simp_all add: stringSize_def m)
  moreover have "write_at (at + 4) s ((a @ ?len) @ replicate (Suc (length s) + m + n) 0) =
      (a @ ?len) @ s @ replicate (Suc m + n) 0"
    using assms by (subst write_at_behind) simp_all
  ultimately show ?thesis
    by (simp add: putString_def wire_text_def m replicate_add flip: append_assoc)
qed

lemma put_u32_behind: "good_codec k \<Longrightarrow> length a = at \<Longrightarrow>
    write_at at (put_u32 k v) (a @ replicate (4 + n) 0) = (a @ put_u32 k v) @ replicate n 0"
  by (simp add: write_at_behind)

lemma stringRequest_eq:
  assumes "good_codec k"
  shows "stringRequest k i opcode s =
    put_u32 k i @ put_u32 k (header_word (8 + stringSize k s) opcode) @ wire_text k s"
  using putString_eq [OF assms, of "put_u32 k i @ put_u32 k (header_word (8 + stringSize k s) opcode)" 8 s 0] assms
  by (simp add: stringRequest_def newRequest_eq requestHeader_def)

lemma u32_request_eq:
  assumes "good_codec k"
  shows "u32_request k i opcode v = put_u32 k i @ put_u32 k (header_word 12 opcode) @ put_u32 k v"
  using write_at_behind [of "put_u32 k i @ put_u32 k (header_word 12 opcode)" 8 "put_u32 k v" 4] assms
  by (simp add: u32_request_def newRequest_eq requestHeader_def)

lemma u32_pair_request_eq:
  assumes "good_codec k"
  shows "u32_pair_request k i opcode v1 v2 =
    put_u32 k i @ put_u32 k (header_word 16 opcode) @ put_u32 k v1 @ put_u32 k v2"
  using write_at_behind [of "put_u32 k i @ put_u32 k (header_word 16 opcode)" 8 "put_u32 k v1" 8]
    write_at_behind [of "put_u32 k i @ put_u32 k (header_word 16 opcode) @ put_u32 k v1" 12 "put_u32 k v2" 4] assms
  by (simp add: u32_pair_request_def newRequest_eq requestHeader_def)

lemma bindGlobal_eq:
  assumes "good_codec k"
  shows "bindGlobal k i name iface version proxy =
    put_u32 k i @ put_u32 k (header_word (8 + (12 + stringSize k iface)) 0) @
    put_u32 k name @ wire_text k iface @ put_u32 k version @ put_u32 k proxy"
proof -
  define h where "h = put_u32 k i @ put_u32 k (header_word (8 + (12 + stringSize k iface)) 0)"
  define r1 where "r1 = h @ put_u32 k name"
  define r2 where "r2 = r1 @ wire_text k iface"
  define r3 where "r3 = r2 @ put_u32 k version"
  have len: "length h = 8" "length r1 = 12" "length r2 = 12 + stringSize k iface"
      "length r3 = 16 + stringSize k iface"
    using assms by (simp_all add: h_def r1_def r2_def r3_def wire_text_length)
  let ?n = "stringSize k iface"
  have sums: "4 + ?n + 4 + 4 = 4 + (?n + (4 + 4))" "8 + (4::nat) = 12" "12 + ?n + 4 = 16 + ?n" by simp_all
  have new: "newRequest k i opcodeRegistryBind (4 + (?n + (4 + 4))) = h @ replicate (4 + (?n + (4 + 4))) 0"
    using assms by (simp add: newRequest_eq opcodeRegistryBind_def h_def add.commute [of "?n"])
  have last: "write_at (16 + ?n) (put_u32 k proxy) (r3 @ replicate 4 0) = r3 @ put_u32 k proxy"
    using put_u32_behind [OF assms len(4), of proxy 0] by simp
  have "bindGlobal k i name iface version proxy = r3 @ put_u32 k proxy"
    unfolding bindGlobal_def Let_def requestHeader_def sums new
      put_u32_behind [OF assms len(1), of name "?n + (4 + 4)", folded r1_def] prod.case
      putString_eq [OF assms len(2), of iface "4 + 4", folded r2_def]
      put_u32_behind [OF assms len(3), of version 4, folded r3_def] last ..
  then show ?thesis by (simp add: r3_def r2_def r1_def h_def)
qed

section \<open>Reading\<close>

lemma packed_halves:
  fixes a b :: "32 word"
  assumes "take_bit 16 a = a" "take_bit 16 b = b"
  shows "drop_bit 16 (push_bit 16 a OR b) = a" "take_bit 16 (push_bit 16 a OR b) = b"
proof -
  have low: "bit a n \<Longrightarrow> n < 16" "bit b n \<Longrightarrow> n < 16" for n
    using assms by (metis bit_take_bit_iff)+
  show "drop_bit 16 (push_bit 16 a OR b) = a"
    by (rule bit_eqI) (auto simp: bit_simps dest: low)
  show "take_bit 16 (push_bit 16 a OR b) = b"
    by (rule bit_eqI) (auto simp: bit_simps dest: low)
qed

lemma header_word_parts:
  assumes "n < 65536" "take_bit 16 opcode = opcode"
  shows "unat (drop_bit 16 (header_word n opcode)) = n" "take_bit 16 (header_word n opcode) = opcode"
proof -
  have "take_bit 16 (of_nat n :: 32 word) = of_nat n"
    using take_bit_nat_eq_self [of n 16] assms(1) by (simp add: take_bit_of_nat)
  note * = packed_halves [OF this assms(2)]
  show "unat (drop_bit 16 (header_word n opcode)) = n"
    using assms(1) *(1) by (simp only: header_word_def) (simp add: unat_of_nat)
  show "take_bit 16 (header_word n opcode) = opcode"
    using *(2) by (simp only: header_word_def)
qed

text \<open>The arguments of a request behind its header.\<close>

lemma read_request_put:
  assumes "good_codec k" "8 + length args < 65536" "take_bit 16 opcode = opcode"
  shows "read_request k ks (put_u32 k i @ put_u32 k (header_word (8 + length args) opcode) @ args) =
    map_option (\<lambda>vs. (i, opcode, vs)) (read_args k ks args)"
  using assms header_word_parts [OF assms(2,3)] by (simp add: read_request_def requestHeader_def Let_def)

lemma read_number [simp]:
  "good_codec k \<Longrightarrow> read_args k (NumberKind # ks) (put_u32 k v @ rest) =
     map_option (Cons (Number v)) (read_args k ks rest)"
  by simp

lemma wireString_text:
  assumes "good_codec k" "length s < 65535"
  shows "wireString k (wire_text k s @ rest) = s"
proof -
  have "unat (of_nat (Suc (length s)) :: 32 word) = Suc (length s)"
    using assms(2) by (simp add: unat_of_nat del: of_nat_Suc)
  moreover have "Suc (length s) \<le> padded_len k (Suc (length s))" using assms(1) by (rule good_codec_simps)
  then obtain m where "padded_len k (Suc (length s)) = Suc (length s) + m" using le_Suc_ex by blast
  ultimately show ?thesis
    using assms(1) by (simp add: wireString_def wire_text_def Let_def del: of_nat_Suc)
qed

lemma read_text:
  assumes "good_codec k" "length s < 65535"
  shows "read_args k (StringKind # ks) (wire_text k s @ rest) =
    map_option (Cons (Bytes s)) (read_args k ks rest)"
proof -
  have n: "unat (of_nat (Suc (length s)) :: 32 word) = Suc (length s)"
    using assms(2) by (simp add: unat_of_nat del: of_nat_Suc)
  have pad: "Suc (length s) \<le> padded_len k (Suc (length s))" using assms(1) by (rule good_codec_simps)
  then obtain m where m: "padded_len k (Suc (length s)) = Suc (length s) + m" using le_Suc_ex by blast
  have msg: "wire_text k s @ rest = put_u32 k (of_nat (Suc (length s))) @ s @ replicate (Suc m) 0 @ rest"
    by (simp add: wire_text_def m Suc_diff_le)
  have nul: "(put_u32 k (of_nat (Suc (length s))) @ s @ replicate (Suc m) 0 @ rest) ! (3 + Suc (length s)) = 0"
    using assms(1) by (simp add: nth_append)
  have rest: "drop (4 + (Suc (length s) + m)) (wire_text k s @ rest) = rest"
    using assms(1) by (simp add: msg)
  have u: "unat (get_u32 k (take 4 (wire_text k s @ rest))) = Suc (length s)"
    using assms(1) n by (simp add: msg del: of_nat_Suc)
  have "length (wire_text k s @ rest) = 4 + (Suc (length s) + m) + length rest"
    using assms(1) by (simp add: msg)
  then show ?thesis
    using nul wireString_text [OF assms, of rest]
    unfolding read_args.simps Let_def u m msg [symmetric] rest by simp
qed

lemma short_text:
  assumes "good_codec k" "8 + stringSize k s < 65536"
  shows "length s < 65535"
  using assms(2) good_codec_simps(3) [OF assms(1), of "Suc (length s)"] by (simp add: stringSize_def)

section \<open>The requests\<close>

lemma read_stringRequest:
  assumes "good_codec k" "8 + stringSize k s < 65536" "take_bit 16 opcode = opcode"
  shows "read_request k [StringKind] (stringRequest k i opcode s) = Some (i, opcode, [Bytes s])"
proof -
  have "length s < 65535" using short_text [OF assms(1,2)] .
  then show ?thesis
    using assms read_request_put [of k "wire_text k s" opcode "[StringKind]" i] read_text [of k s "[]" "[]"]
    by (simp add: stringRequest_eq wire_text_length del: read_args.simps(3))
qed

lemma read_bindGlobal:
  assumes "good_codec k" "20 + stringSize k s < 65536"
  shows "read_request k [NumberKind, StringKind, NumberKind, NumberKind] (bindGlobal k i name s version proxy) =
    Some (i, 0, [Number name, Bytes s, Number version, Number proxy])"
proof -
  let ?args = "put_u32 k name @ wire_text k s @ put_u32 k version @ put_u32 k proxy"
  have short: "length s < 65535" using short_text [OF assms(1), of s] assms(2) by simp
  have "length ?args = 12 + stringSize k s" using assms(1) by (simp add: wire_text_length)
  moreover have "read_args k [NumberKind, NumberKind] (put_u32 k version @ put_u32 k proxy) =
      Some [Number version, Number proxy]" using assms(1) by simp
  then have "read_args k [NumberKind, StringKind, NumberKind, NumberKind] ?args =
      Some [Number name, Bytes s, Number version, Number proxy]"
    using read_text [OF assms(1) short] read_number [OF assms(1)]
    by (simp del: read_args.simps(2,3))
  ultimately show ?thesis
    using assms read_request_put [of k ?args 0] by (simp add: bindGlobal_eq del: read_args.simps)
qed

lemma read_u32_request:
  "good_codec k \<Longrightarrow> take_bit 16 opcode = opcode \<Longrightarrow>
   read_request k [NumberKind] (u32_request k i opcode v) = Some (i, opcode, [Number v])"
  using read_request_put [of k "put_u32 k v" opcode "[NumberKind]" i] by (simp add: u32_request_eq)

lemma read_u32_pair_request:
  "good_codec k \<Longrightarrow> take_bit 16 opcode = opcode \<Longrightarrow>
   read_request k [NumberKind, NumberKind] (u32_pair_request k i opcode v1 v2) =
     Some (i, opcode, [Number v1, Number v2])"
  using read_request_put [of k "put_u32 k v1 @ put_u32 k v2" opcode "[NumberKind, NumberKind]" i]
  by (simp add: u32_pair_request_eq)

lemma read_newRequest:
  "good_codec k \<Longrightarrow> take_bit 16 opcode = opcode \<Longrightarrow>
   read_request k [] (newRequest k i opcode 0) = Some (i, opcode, [])"
  using read_request_put [of k "[]" opcode "[]" i] by (simp add: newRequest_eq)

text \<open>Without a source the argument is the four zero bytes the request starts with.\<close>

lemma read_setSelection:
  assumes "good_codec k"
  shows "read_request k [NumberKind, NumberKind] (setSelection k i source serial) =
    Some (i, 1, [Number (case source of None \<Rightarrow> 0 | Some j \<Rightarrow> j), Number serial])"
proof (cases source)
  case (Some j)
  have "setSelection k i source serial = u32_pair_request k i 1 j serial"
    by (simp add: Some setSelection_def u32_pair_request_def Let_def)
  then show ?thesis using read_u32_pair_request [OF assms, of 1 i j serial] Some by simp
next
  case None
  have zeros: "replicate 8 (0::byte) = [0, 0, 0, 0] @ replicate 4 0" by (simp add: numeral_eq_Suc)
  have "newRequest k i 1 8 = (put_u32 k i @ put_u32 k (header_word 16 1) @ [0, 0, 0, 0]) @ replicate 4 0"
    using assms by (simp add: newRequest_eq zeros)
  then have "setSelection k i source serial =
      put_u32 k i @ put_u32 k (header_word (8 + length ([0, 0, 0, 0] @ put_u32 k serial)) 1) @
      ([0, 0, 0, 0] @ put_u32 k serial)"
    using assms write_at_behind [of "put_u32 k i @ put_u32 k (header_word 16 1) @ [0, 0, 0, 0]" 12 "put_u32 k serial" 4]
    by (simp add: None setSelection_def requestHeader_def Let_def)
  then show ?thesis
    using assms read_request_put [of k "[0, 0, 0, 0] @ put_u32 k serial" 1 "[NumberKind, NumberKind]" i]
    by (simp add: None)
qed

lemma receiveOffer_eq: "receiveOffer k offer mime = stringRequest k offer 1 mime"
  by (simp add: receiveOffer_def stringRequest_def)

end
