(* ===== verification/Wayland_Window.thy ===== *)
theory Wayland_Window
  imports Wayland_Server
begin

text \<open>
  Windows on Wayland, \<open>wayland/window.go\<close> and \<open>wayland/icon.go\<close>.  The pixels of a window are
  shared memory that a damage rectangle is copied into; they are shown only once the client
  has mapped the window and the compositor has configured it.
\<close>

type_synonym 'o window_op = "wl_window \<times> 'o wayland \<Rightarrow> string option \<times> wl_window \<times> 'o wayland"

text \<open>A request about the window, one whose error is only logged, and one that makes an object.\<close>

definition w_write :: "compositor \<Rightarrow> wreq \<Rightarrow> 'o window_op" where
  "w_write co r = (\<lambda>(w, d). case wl_write co r d of (e, d1) \<Rightarrow> (e, w, d1))"

definition w_new :: "compositor \<Rightarrow> (oid \<Rightarrow> wreq) \<Rightarrow> (oid \<Rightarrow> wl_window \<Rightarrow> wl_window) \<Rightarrow> 'o window_op" where
  "w_new co r f = (\<lambda>(w, d).
     case wl_new co r d of (Inl e, d1) \<Rightarrow> (Some e, w, d1) | (Inr i, d1) \<Rightarrow> (None, f i w, d1))"

section \<open>Buffers\<close>

definition send_if :: "compositor \<Rightarrow> (oid \<Rightarrow> wreq) \<Rightarrow> oid option \<Rightarrow> 'o wayland \<Rightarrow> 'o wayland" where
  "send_if co r i d = (case i of None \<Rightarrow> d | Some i \<Rightarrow> wl_send co (r i) d)"

definition releaseBuffer :: "compositor \<Rightarrow> wl_window \<times> 'o wayland \<Rightarrow> wl_window \<times> 'o wayland" where
  "releaseBuffer co = (\<lambda>(w, d).
     (w\<lparr>ww_buffer := None, ww_pool := None, ww_memory := None, ww_bufWidth := 0, ww_bufHeight := 0\<rparr>,
      send_if co (\<lambda>p. Shm (DestroyPool p)) (ww_pool w) (send_if co (\<lambda>b. Shm (DestroyBuffer b)) (ww_buffer w) d)))"

definition ShmFormatArgb8888 :: "32 word" where "ShmFormatArgb8888 = 0"
definition ShmFormatXrgb8888 :: "32 word" where "ShmFormatXrgb8888 = 1"

definition newBuffer :: "compositor \<Rightarrow> gint \<Rightarrow> gint \<Rightarrow> 'o window_op" where
  "newBuffer co width height = (\<lambda>(w, d).
     let stride = width * BytesPerPixel; nbytes = stride * height in
     case newSharedMemory co (l_log d) nbytes of
       Inl e \<Rightarrow> (Some e, w, d)
     | Inr memory \<Rightarrow>
         (case wl_new co (\<lambda>p. Shm (CreatePool p (ucast nbytes))) d of
            (Inl e, d1) \<Rightarrow>
              (Some (''sharing '' @ decimal (sint nbytes) @ '' bytes with the compositor: '' @ e), w, d1)
          | (Inr pool, d1) \<Rightarrow>
              (case wl_new co (\<lambda>b. Shm (CreateBuffer b pool (ucast width) (ucast height) (ucast stride)
                       ShmFormatXrgb8888)) d1 of
                 (Inl e, d2) \<Rightarrow>
                   (Some (''creating a '' @ decimal (sint width) @ ''x'' @ decimal (sint height) @ '' buffer: '' @ e),
                    w, wl_send co (Shm (DestroyPool pool)) d2)
               | (Inr buffer, d2) \<Rightarrow>
                   (case releaseBuffer co (w, d2) of (w1, d3) \<Rightarrow>
                      (None, w1\<lparr>ww_memory := Some memory, ww_pool := Some pool, ww_buffer := Some buffer,
                                ww_bufWidth := width, ww_bufHeight := height\<rparr>, d3)))))"

section \<open>Showing pixels\<close>

definition damage :: "compositor \<Rightarrow> gint \<Rightarrow> gint \<Rightarrow> gint \<Rightarrow> gint \<Rightarrow> wl_window \<Rightarrow> 'o wayland \<Rightarrow> 'o wayland" where
  "damage co x y width height w d =
     (case (ww_buffer w, ww_surface w) of
        (Some buffer, Some surface) \<Rightarrow>
          if \<not> ww_mapped w \<or> \<not> ww_configured w then d
          else snd (all_steps [wl_write co (Surface surface (Attach buffer)),
                 wl_write co (Surface surface (DamageBuffer (ucast x) (ucast y) (ucast width) (ucast height))),
                 wl_write co (Surface surface Commit)] d)
      | _ \<Rightarrow> d)"

definition present :: "compositor \<Rightarrow> wl_window \<Rightarrow> 'o wayland \<Rightarrow> 'o wayland" where
  "present co w = damage co 0 0 (ww_bufWidth w) (ww_bufHeight w) w"

definition setGeometry :: "compositor \<Rightarrow> wl_window \<Rightarrow> 'o wayland \<Rightarrow> 'o wayland" where
  "setGeometry co w d =
     (case ww_xdg w of
        None \<Rightarrow> d
      | Some xdg \<Rightarrow> wl_send co (Xdg xdg (SetWindowGeometry 0 0 (ucast (ww_width w)) (ucast (ww_height w)))) d)"

section \<open>Creation\<close>

definition appID :: string where "appID = ''org.xpra.go-xpra''"

definition DecorationServerSide :: "32 word" where "DecorationServerSide = 2"

text \<open>The handlers set on the objects are \<open>dispatch\<close> below; errors of a decoration are logged.\<close>

definition requestDecoration :: "compositor \<Rightarrow> oid \<Rightarrow> wl_window \<times> 'o wayland \<Rightarrow> wl_window \<times> 'o wayland" where
  "requestDecoration co toplevel = (\<lambda>(w, d).
     if \<not> l_decoration d then (w, d)
     else case wl_new co (\<lambda>i. GetDecoration i toplevel) d of
         (Inl e, d1) \<Rightarrow> (w, d1)
       | (Inr i, d1) \<Rightarrow> (w\<lparr>ww_decoration := Some i\<rparr>, wl_send co (SetDecorationMode i DecorationServerSide) d1))"

definition createToplevel :: "compositor \<Rightarrow> oid \<Rightarrow> 'o window_op" where
  "createToplevel co xdg s0 =
     (case context_error ''creating a toplevel''
             (w_new co (\<lambda>i. Xdg xdg (GetToplevel i)) (\<lambda>i w. w\<lparr>ww_toplevel := Some i\<rparr>)) s0 of
        (Some e, s1) \<Rightarrow> (Some e, s1)
      | (None, w, d) \<Rightarrow>
          (case ww_toplevel w of
             None \<Rightarrow> (None, w, d)
           | Some toplevel \<Rightarrow>
               (case context_error ''naming a toplevel'' (w_write co (Toplevel toplevel (SetAppID appID))) (w, d) of
                  (Some e, s2) \<Rightarrow> (Some e, s2)
                | (None, s2) \<Rightarrow> (None, requestDecoration co toplevel s2))))"

definition AnchorTopLeft :: "32 word" where "AnchorTopLeft = 5"
definition GravityBottomRight :: "32 word" where "GravityBottomRight = 8"
definition SlideXY :: "32 word" where "SlideXY = 1 OR 2"

text \<open>The window a popup can hang off: the last ordinary window, if it is shown.\<close>

definition popup_parent :: "'o wayland \<Rightarrow> (oid \<times> wl_window) option" where
  "popup_parent d =
     (case l_lastToplevel d of
        None \<Rightarrow> None
      | Some p \<Rightarrow>
          (case map_of (l_windows d) p of
             None \<Rightarrow> None
           | Some parent \<Rightarrow>
               (case ww_xdg parent of
                  None \<Rightarrow> None
                | Some xdg \<Rightarrow> if ww_mapped parent \<and> ww_configured parent then Some (xdg, parent) else None)))"

definition createPopup :: "compositor \<Rightarrow> oid \<Rightarrow> 'o window_op" where
  "createPopup co xdg = (\<lambda>(w, d).
     case popup_parent d of
       None \<Rightarrow> createToplevel co xdg (w, d)
     | Some (parent_xdg, parent) \<Rightarrow>
         (case wl_new co CreatePositioner d of
            (Inl e, d1) \<Rightarrow> (Some (''creating a popup positioner: '' @ e), w, d1)
          | (Inr q, d1) \<Rightarrow>
              (case all_steps [
                   wl_write co (Positioner q (SetSize (ucast (ww_width w)) (ucast (ww_height w)))),
                   wl_write co (Positioner q (SetAnchorRect (ucast (ww_x w - ww_x parent))
                     (ucast (ww_y w - ww_y parent)) 1 1)),
                   wl_write co (Positioner q (SetAnchor AnchorTopLeft)),
                   wl_write co (Positioner q (SetGravity GravityBottomRight)),
                   wl_write co (Positioner q (SetConstraintAdjustment SlideXY))] d1 of
                 (Some e, d2) \<Rightarrow> (Some (''placing a popup: '' @ e), w, wl_send co (Positioner q DestroyPositioner) d2)
               | (None, d2) \<Rightarrow>
                   (case wl_new co (\<lambda>i. Xdg xdg (GetPopup i parent_xdg q)) d2 of
                      (Inl e, d3) \<Rightarrow>
                        (Some (''creating a popup: '' @ e), w, wl_send co (Positioner q DestroyPositioner) d3)
                    | (Inr popup, d3) \<Rightarrow>
                        (None, w\<lparr>ww_popup := Some popup\<rparr>, wl_send co (Positioner q DestroyPositioner) d3)))))"

definition create_window :: "compositor \<Rightarrow> 'o window_op" where
  "create_window co s0 =
     (case context_error ''creating a surface'' (w_new co CreateSurface (\<lambda>i w. w\<lparr>ww_surface := Some i\<rparr>)) s0 of
        (Some e, s1) \<Rightarrow> (Some e, s1)
      | (None, w1, d1) \<Rightarrow>
          (case ww_surface w1 of
             None \<Rightarrow> (None, w1, d1)
           | Some surface \<Rightarrow>
               (case context_error ''giving a surface a shell role''
                       (w_new co (\<lambda>i. GetXdgSurface i surface) (\<lambda>i w. w\<lparr>ww_xdg := Some i\<rparr>)) (w1, d1) of
                  (Some e, s2) \<Rightarrow> (Some e, s2)
                | (None, w2, d2) \<Rightarrow>
                    (case ww_xdg w2 of
                       None \<Rightarrow> (None, w2, d2)
                     | Some xdg \<Rightarrow>
                         steps [if ww_override w2 then createPopup co xdg else createToplevel co xdg,
                           newBuffer co (ww_width w2) (ww_height w2),
                           context_error ''committing a new surface'' (w_write co (Surface surface Commit))] (w2, d2)))))"

section \<open>Destruction\<close>

text \<open>Every part that is there, each error only logged.\<close>

definition destroy_window :: "compositor \<Rightarrow> wl_window \<times> 'o wayland \<Rightarrow> wl_window \<times> 'o wayland" where
  "destroy_window co = (\<lambda>(w, d).
     releaseBuffer co
       (w\<lparr>ww_decoration := None, ww_toplevel := None, ww_popup := None, ww_xdg := None, ww_surface := None\<rparr>,
        send_if co (\<lambda>s. Surface s DestroySurface) (ww_surface w)
          (send_if co (\<lambda>x. Xdg x DestroyXdgSurface) (ww_xdg w)
            (send_if co DestroyPopup (ww_popup w)
              (send_if co (\<lambda>t. Toplevel t DestroyToplevel) (ww_toplevel w)
                (send_if co DestroyDecoration (ww_decoration w) d))))))"

definition new_wl_window :: "gint \<Rightarrow> gint \<Rightarrow> gint \<Rightarrow> gint \<Rightarrow> bool \<Rightarrow> wl_window" where
  "new_wl_window x y width height overrideRedirect =
     \<lparr>ww_surface = None, ww_xdg = None, ww_toplevel = None, ww_popup = None, ww_decoration = None,
      ww_memory = None, ww_pool = None, ww_buffer = None, ww_x = x, ww_y = y, ww_width = width,
      ww_height = height, ww_bufWidth = 0, ww_bufHeight = 0, ww_override = overrideRedirect,
      ww_mapped = False, ww_configured = False\<rparr>"

definition wl_NewWindow ::
    "compositor \<Rightarrow> gint \<Rightarrow> gint \<Rightarrow> gint \<Rightarrow> gint \<Rightarrow> bool \<Rightarrow> 'o wayland \<Rightarrow> window_id option \<times> 'o wayland" where
  "wl_NewWindow co x y width0 height0 overrideRedirect d =
     (let (width, height) = ClampSize width0 height0 in
      case create_window co (new_wl_window x y width height overrideRedirect, d) of
        (Some e, s) \<Rightarrow> (None, snd (destroy_window co s))
      | (None, w, d1) \<Rightarrow>
          (case ww_surface w of
             None \<Rightarrow> (None, d1)
           | Some surface \<Rightarrow> (Some (ID surface), put_window surface w d1)))"

definition unpoint :: "oid \<Rightarrow> oid option \<Rightarrow> oid option" where
  "unpoint s p = (if p = Some s then None else p)"

definition wl_Destroy :: "compositor \<Rightarrow> window_id \<Rightarrow> 'o wayland \<Rightarrow> 'o wayland" where
  "wl_Destroy co i d =
     (case live_window i d of
        None \<Rightarrow> d
      | Some w \<Rightarrow>
          snd (destroy_window co (w, d\<lparr>l_windows := AList.delete (xid_of i) (l_windows d),
            l_lastToplevel := unpoint (xid_of i) (l_lastToplevel d),
            l_pointerOver := unpoint (xid_of i) (l_pointerOver d),
            l_keyboardFocus := unpoint (xid_of i) (l_keyboardFocus d)\<rparr>)))"

section \<open>What the client asks of a window\<close>

definition wl_Geometry :: "window_id \<Rightarrow> 'o wayland \<Rightarrow> gint \<times> gint \<times> gint \<times> gint" where
  "wl_Geometry i d =
     (case live_window i d of
        Some w \<Rightarrow> (ww_x w, ww_y w, ww_width w, ww_height w)
      | None \<Rightarrow> (0, 0, 0, 0))"

definition wl_SetTitle :: "compositor \<Rightarrow> window_id \<Rightarrow> string \<Rightarrow> 'o wayland \<Rightarrow> 'o wayland" where
  "wl_SetTitle co i title d =
     (if title = [] then d
      else case live_window i d of
          None \<Rightarrow> d
        | Some w \<Rightarrow> send_if co (\<lambda>t. Toplevel t (SetToplevelTitle title)) (ww_toplevel w) d)"

definition wl_Map :: "compositor \<Rightarrow> window_id \<Rightarrow> 'o wayland \<Rightarrow> 'o wayland" where
  "wl_Map co i d =
     (case live_window i d of
        None \<Rightarrow> d
      | Some w0 \<Rightarrow>
          let w = w0\<lparr>ww_mapped := True\<rparr>; d1 = put_window (xid_of i) w d in
          present co w (if ww_toplevel w \<noteq> None then d1\<lparr>l_lastToplevel := Some (xid_of i)\<rparr> else d1))"

definition wl_Raise :: "window_id \<Rightarrow> 'o wayland \<Rightarrow> 'o wayland" where
  "wl_Raise i d = d"

definition wl_Minimize :: "compositor \<Rightarrow> window_id \<Rightarrow> bool \<Rightarrow> 'o wayland \<Rightarrow> 'o wayland" where
  "wl_Minimize co i minimized d =
     (if \<not> minimized then d
      else case live_window i d of
          None \<Rightarrow> d
        | Some w \<Rightarrow> send_if co (\<lambda>t. Toplevel t SetMinimized) (ww_toplevel w) d)"

text \<open>What \<open>MoveResize\<close> and \<open>Resized\<close> share: the geometry recorded, the buffer replaced.\<close>

definition take_geometry ::
    "compositor \<Rightarrow> gint \<Rightarrow> gint \<Rightarrow> gint \<Rightarrow> gint \<Rightarrow> bool \<Rightarrow> 'o window_op" where
  "take_geometry co x y width0 height0 shows = (\<lambda>(w0, d).
     let (width, height) = ClampSize width0 height0; w = w0\<lparr>ww_x := x, ww_y := y\<rparr> in
     if width = ww_width w \<and> height = ww_height w then (None, w, d)
     else case newBuffer co width height (w\<lparr>ww_width := width, ww_height := height\<rparr>, d) of
         (Some e, s) \<Rightarrow> (Some e, s)
       | (None, w1, d1) \<Rightarrow>
           (let d2 = setGeometry co w1 d1 in (None, w1, if shows then present co w1 d2 else d2)))"

definition wl_MoveResize ::
    "compositor \<Rightarrow> window_id \<Rightarrow> gint \<Rightarrow> gint \<Rightarrow> gint \<Rightarrow> gint \<Rightarrow> 'o wayland \<Rightarrow> string option \<times> 'o wayland" where
  "wl_MoveResize co i x y width height = on_wl_window i (\<lambda>_. take_geometry co x y width height True)"

definition wl_Resized ::
    "compositor \<Rightarrow> window_id \<Rightarrow> gint \<Rightarrow> gint \<Rightarrow> gint \<Rightarrow> gint \<Rightarrow> 'o wayland \<Rightarrow> string option \<times> 'o wayland" where
  "wl_Resized co i x y width height = on_wl_window i (\<lambda>_. take_geometry co x y width height False)"

text \<open>
  \<open>Paint\<close> converts into the memory from the first pixel of the damage on.  The slice is
  within bounds for clipped damage; a panic of the conversion leaves the memory as it was.
\<close>

definition wl_Paint ::
    "compositor \<Rightarrow> window_id \<Rightarrow> gint \<Rightarrow> gint \<Rightarrow> gint \<Rightarrow> gint \<Rightarrow> bytes \<Rightarrow> gint \<Rightarrow> string \<Rightarrow>
     'o wayland \<Rightarrow> string option \<times> 'o wayland" where
  "wl_Paint co i x y width0 height0 pixels rowstride format =
     on_wl_window i (\<lambda>_ (w, d).
       case ww_memory w of
         None \<Rightarrow> (Some ''window has no buffer'', w, d)
       | Some memory \<Rightarrow>
           (case ClipDamage x y width0 height0 (ww_bufWidth w) (ww_bufHeight w) of
              None \<Rightarrow>
                (Some (''negative damage origin '' @ decimal (sint x) @ '','' @ decimal (sint y)), w, d)
            | Some (width, height) \<Rightarrow>
                if width = 0 \<or> height = 0 then (None, w, d)
                else
                  let stride = ww_bufWidth w * BytesPerPixel;
                      start = nat (sint (y * stride + x * BytesPerPixel)) in
                  (case Convert (drop start memory) stride pixels rowstride width height format of
                     Converted out \<Rightarrow>
                       let w1 = w\<lparr>ww_memory := Some (take start memory @ out)\<rparr> in
                       (None, w1, damage co x y width height w1 d)
                   | Refused e \<Rightarrow>
                       (Some (convert_error_text (drop start memory) pixels stride rowstride width height format e),
                        w, d)
                   | Panics \<Rightarrow> (Some ''panic'', w, d\<lparr>l_panicked := True\<rparr>))))"

section \<open>What the compositor says about a window\<close>

definition configure_window :: "compositor \<Rightarrow> oid \<Rightarrow> 32 word \<Rightarrow> 'o wayland \<Rightarrow> 'o wayland" where
  "configure_window co s serial d =
     (case map_of (l_windows d) s of
        None \<Rightarrow> d
      | Some w0 \<Rightarrow>
          (case ww_xdg w0 of
             None \<Rightarrow> d
           | Some xdg \<Rightarrow>
               (case wl_write co (Xdg xdg (AckConfigure serial)) d of
                  (Some e, d1) \<Rightarrow> d1
                | (None, d1) \<Rightarrow>
                    let w = w0\<lparr>ww_configured := True\<rparr> in present co w (put_window s w d1))))"

text \<open>A size the compositor has chosen, for a toplevel or a popup; the event reports it.\<close>

definition resize_event :: "oid \<Rightarrow> int32 \<Rightarrow> int32 \<Rightarrow> 'o wayland \<Rightarrow> ui_event list" where
  "resize_event s ewidth eheight d =
     (case map_of (l_windows d) s of
        None \<Rightarrow> []
      | Some w \<Rightarrow>
          if sint ewidth \<le> 0 \<or> sint eheight \<le> 0 then []
          else
            let (width, height) = ClampSize (scast ewidth) (scast eheight) in
            if width = ww_width w \<and> height = ww_height w then []
            else [Configure (ID s) (ww_x w) (ww_y w) width height])"

definition close_event :: "oid \<Rightarrow> 'o wayland \<Rightarrow> ui_event list" where
  "close_event s d = (case map_of (l_windows d) s of None \<Rightarrow> [] | Some w \<Rightarrow> [CloseRequest (ID s)])"

section \<open>Icons\<close>

text \<open>Buffers that are given away as soon as they are used.\<close>

definition release_pixels :: "compositor \<Rightarrow> owned_pixels \<Rightarrow> 'o wayland \<Rightarrow> 'o wayland" where
  "release_pixels co p d =
     send_if co (\<lambda>p. Shm (DestroyPool p)) (op_pool p) (send_if co (\<lambda>b. Shm (DestroyBuffer b)) (op_buffer p) d)"

definition new_pixels ::
    "compositor \<Rightarrow> bytes \<Rightarrow> gint \<Rightarrow> gint \<Rightarrow> gint \<Rightarrow> string \<Rightarrow> string \<Rightarrow> 'o wayland \<Rightarrow>
     (string + owned_pixels) \<times> 'o wayland" where
  "new_pixels co memory nbytes width height sharing creating d =
     (case wl_new co (\<lambda>p. Shm (CreatePool p (ucast nbytes))) d of
        (Inl e, d1) \<Rightarrow> (Inl (sharing @ '': '' @ e), d1)
      | (Inr pool, d1) \<Rightarrow>
          (case wl_new co (\<lambda>b. Shm (CreateBuffer b pool (ucast width) (ucast height)
                   (ucast (width * BytesPerPixel)) ShmFormatArgb8888)) d1 of
             (Inl e, d2) \<Rightarrow>
               (Inl (creating @ '': '' @ e),
                release_pixels co \<lparr>op_memory = memory, op_pool = Some pool, op_buffer = None\<rparr> d2)
           | (Inr buffer, d2) \<Rightarrow>
               (Inr \<lparr>op_memory = memory, op_pool = Some pool, op_buffer = Some buffer\<rparr>, d2)))"

text \<open>The rows of an icon in the middle of a square, transparent around it.\<close>

fun icon_rows :: "bytes \<Rightarrow> gint \<Rightarrow> gint \<Rightarrow> gint \<Rightarrow> gint \<Rightarrow> gint \<Rightarrow> gint \<Rightarrow> nat \<Rightarrow> bytes \<Rightarrow> bytes" where
  "icon_rows pixels x y stride srcStride row height 0 memory = memory"
| "icon_rows pixels x y stride srcStride row height (Suc n) memory =
     icon_rows pixels x y stride srcStride (row + 1) height n
       (go_splice memory ((y + row) * stride + x * BytesPerPixel)
         (subslice (nat (sint (row * srcStride))) (nat (sint srcStride)) pixels))"

definition newWindowIconBuffer ::
    "compositor \<Rightarrow> icon \<Rightarrow> 'o wayland \<Rightarrow> (string + owned_pixels) \<times> 'o wayland" where
  "newWindowIconBuffer co img d =
     (let dimension = gmax (icon_Width img) (icon_Height img);
          stride = dimension * BytesPerPixel;
          nbytes = stride * dimension in
      case newSharedMemory co (l_log d) nbytes of
        Inl e \<Rightarrow> (Inl e, d)
      | Inr memory \<Rightarrow>
          new_pixels co
            (icon_rows (icon_Pixels img) (gdiv (dimension - icon_Width img) 2) (gdiv (dimension - icon_Height img) 2)
              stride (icon_Width img * BytesPerPixel) 0 (icon_Height img) (nat (sint (icon_Height img))) memory)
            nbytes dimension dimension ''sharing a window icon with the compositor''
            (''creating a '' @ decimal (sint dimension) @ ''x'' @ decimal (sint dimension) @ '' window icon buffer'') d)"

definition set_icon :: "compositor \<Rightarrow> oid \<Rightarrow> oid \<Rightarrow> owned_pixels \<Rightarrow> 'o wayland \<Rightarrow> string option \<times> 'o wayland" where
  "set_icon co toplevel surface owned d =
     (case wl_new co (\<lambda>i. Icon (CreateIcon i)) d of
        (Inl e, d1) \<Rightarrow> (Some (''creating a toplevel icon: '' @ e), d1)
      | (Inr native, d1) \<Rightarrow>
          (case steps [
               context_error ''adding a toplevel icon buffer''
                 (\<lambda>d. case op_buffer owned of Some b \<Rightarrow> wl_write co (Icon (AddIconBuffer native b 1)) d | None \<Rightarrow> (None, d)),
               context_error ''setting a toplevel icon'' (wl_write co (Icon (SetToplevelIcon toplevel (Some native)))),
               context_error ''committing a toplevel icon'' (wl_write co (Surface surface Commit))] d1 of
             (e, d2) \<Rightarrow> (e, wl_send co (Icon (DestroyIcon native)) d2)))"

definition wl_SetIcon :: "compositor \<Rightarrow> window_id \<Rightarrow> icon option \<Rightarrow> 'o wayland \<Rightarrow> string option \<times> 'o wayland" where
  "wl_SetIcon co i img d =
     (case map_option (\<lambda>icon. (icon, icon_Validate icon)) img of
        Some (icon, Some e) \<Rightarrow> (Some (icon_error_text icon e), d)
      | _ \<Rightarrow>
        (case live_window i d of
          None \<Rightarrow> (None, d)
        | Some w \<Rightarrow>
            (case (ww_toplevel w, ww_surface w) of
               (Some toplevel, Some surface) \<Rightarrow>
                 if \<not> l_iconManager d then (None, d)
                 else
                   (case img of
                      None \<Rightarrow>
                        steps [context_error ''resetting the toplevel icon'' (wl_write co (Icon (SetToplevelIcon toplevel None))),
                          wl_write co (Surface surface Commit)] d
                    | Some icon \<Rightarrow>
                        (case newWindowIconBuffer co icon d of
                           (Inl e, d1) \<Rightarrow> (Some e, d1)
                         | (Inr owned, d1) \<Rightarrow>
                             (case set_icon co toplevel surface owned d1 of
                                (e, d2) \<Rightarrow> (e, release_pixels co owned d2))))
             | _ \<Rightarrow> (None, d))))"

end
