(* ===== verification/Wayland_Input.thy ===== *)
theory Wayland_Input
  imports Wayland_Window
begin

text \<open>
  The seat on Wayland: the pointer image (\<open>wayland/cursor.go\<close>), the clipboard
  (\<open>wayland/clipboard.go\<close>, \<open>wayland/clipboard_protocol.go\<close>), the pointer and the keyboard
  (\<open>wayland/input.go\<close>).  Handlers return the events they emit.
\<close>

section \<open>The pointer image\<close>

definition defaultCursorSize :: gint where "defaultCursorSize = 24"

definition cursorSize :: "compositor \<Rightarrow> gint" where
  "cursorSize co =
     (case atoi (wc_getenv co ''XCURSOR_SIZE'') of
        Some n \<Rightarrow> if 0 < n then word_of_int n else defaultCursorSize
      | None \<Rightarrow> defaultCursorSize)"

definition show_pixels :: "compositor \<Rightarrow> oid \<Rightarrow> shown_cursor \<Rightarrow> 'o wayland \<Rightarrow> string option \<times> 'o wayland" where
  "show_pixels co surface c d =
     (case l_pointer d of
        None \<Rightarrow> (None, d)
      | Some pointer \<Rightarrow>
          (case context_error ''setting the cursor'' (all_steps [
               wl_write co (Surface surface (Attach (sc_buffer c))),
               wl_write co (Surface surface (DamageBuffer 0 0 (ucast (sc_width c)) (ucast (sc_height c)))),
               wl_write co (Surface surface Commit),
               wl_write co (Seat (SetPointerCursor pointer (l_enterSerial d) surface
                 (ucast (sc_hotspotX c)) (ucast (sc_hotspotY c))))]) d of
             (Some e, d1) \<Rightarrow> (Some e, d1)
           | (None, d1) \<Rightarrow> (None, d1\<lparr>l_shown := Some c\<rparr>)))"

definition showCursor :: "compositor \<Rightarrow> shown_cursor \<Rightarrow> 'o wayland \<Rightarrow> string option \<times> 'o wayland" where
  "showCursor co c d =
     (case l_cursorSurface d of
        Some surface \<Rightarrow> show_pixels co surface c d
      | None \<Rightarrow>
          (case wl_new co CreateSurface d of
             (Inl e, d1) \<Rightarrow> (Some (''creating a cursor surface: '' @ e), d1)
           | (Inr surface, d1) \<Rightarrow> show_pixels co surface c (d1\<lparr>l_cursorSurface := Some surface\<rparr>)))"

definition release_owned :: "compositor \<Rightarrow> owned_pixels option \<Rightarrow> 'o wayland \<Rightarrow> 'o wayland" where
  "release_owned co p d = (case p of None \<Rightarrow> d | Some p \<Rightarrow> release_pixels co p d)"

text \<open>The arrow of the theme, which is loaded when it is first wanted.\<close>

definition themeCursor :: "compositor \<Rightarrow> 'o wayland \<Rightarrow> theme_image option \<times> 'o wayland" where
  "themeCursor co d =
     (case l_theme d of
        Some arrow \<Rightarrow> (arrow, d)
      | None \<Rightarrow>
          if l_themeMissing d then (None, d)
          else case wc_theme co (wc_getenv co ''XCURSOR_THEME'') (cursorSize co) of
              Inl e \<Rightarrow> (None, d\<lparr>l_themeMissing := True\<rparr>)
            | Inr arrow \<Rightarrow> (arrow, d\<lparr>l_theme := Some arrow\<rparr>))"

definition showThemeCursor :: "compositor \<Rightarrow> 'o wayland \<Rightarrow> string option \<times> 'o wayland" where
  "showThemeCursor co d =
     (if l_shown d = None then (None, d)
      else case themeCursor co d of
          (None, d1) \<Rightarrow> (None, d1)
        | (Some img, d1) \<Rightarrow>
            (case ti_buffer img of
               Inl e \<Rightarrow> (Some (''reading the default cursor: '' @ e), d1)
             | Inr buffer \<Rightarrow>
                 (case showCursor co \<lparr>sc_buffer = buffer, sc_width = ucast (ti_width img),
                      sc_height = ucast (ti_height img), sc_hotspotX = ucast (ti_hotspotX img),
                      sc_hotspotY = ucast (ti_hotspotY img)\<rparr> d1 of
                    (Some e, d2) \<Rightarrow> (Some e, d2)
                  | (None, d2) \<Rightarrow> (None, release_owned co (l_ownedCursor d2) (d2\<lparr>l_ownedCursor := None\<rparr>)))))"

definition newCursorBuffer :: "compositor \<Rightarrow> cursor \<Rightarrow> 'o wayland \<Rightarrow> (string + owned_pixels) \<times> 'o wayland" where
  "newCursorBuffer co img d =
     (let stride = cursor_Width img * BytesPerPixel; nbytes = stride * cursor_Height img in
      case newSharedMemory co (l_log d) nbytes of
        Inl e \<Rightarrow> (Inl e, d)
      | Inr memory \<Rightarrow>
          new_pixels co
            (take (length memory) (cursor_Pixels img) @ drop (length (cursor_Pixels img)) memory)
            nbytes (cursor_Width img) (cursor_Height img) ''sharing a cursor with the compositor''
            (''creating a '' @ decimal (sint (cursor_Width img)) @ ''x'' @ decimal (sint (cursor_Height img))
              @ '' cursor buffer'') d)"

definition wl_SetCursor :: "compositor \<Rightarrow> cursor option \<Rightarrow> 'o wayland \<Rightarrow> string option \<times> 'o wayland" where
  "wl_SetCursor co img d =
     (if l_pointer d = None then (None, d)
      else case img of
          None \<Rightarrow> showThemeCursor co d
        | Some c \<Rightarrow>
            (case cursor_Validate c of
               Some e \<Rightarrow> (Some (cursor_error_text c e), d)
             | None \<Rightarrow>
                 (case newCursorBuffer co c d of
                    (Inl e, d1) \<Rightarrow> (Some e, d1)
                  | (Inr owned, d1) \<Rightarrow>
                      (case op_buffer owned of
                         None \<Rightarrow> (None, d1)
                       | Some buffer \<Rightarrow>
                           (case showCursor co \<lparr>sc_buffer = buffer, sc_width = cursor_Width c,
                                sc_height = cursor_Height c, sc_hotspotX = HotspotX c, sc_hotspotY = HotspotY c\<rparr> d1 of
                              (Some e, d2) \<Rightarrow> (Some e, release_pixels co owned d2)
                            | (None, d2) \<Rightarrow>
                                (None, release_owned co (l_ownedCursor d2) (d2\<lparr>l_ownedCursor := Some owned\<rparr>)))))))"

definition restoreCursor :: "compositor \<Rightarrow> 'o wayland \<Rightarrow> 'o wayland" where
  "restoreCursor co d = (case l_shown d of None \<Rightarrow> d | Some c \<Rightarrow> snd (showCursor co c d))"

definition releaseCursor :: "compositor \<Rightarrow> 'o wayland \<Rightarrow> 'o wayland" where
  "releaseCursor co d =
     (let d1 = (release_owned co (l_ownedCursor d) d)\<lparr>l_ownedCursor := None, l_shown := None, l_theme := None\<rparr>
      in send_if co (\<lambda>s. Surface s DestroySurface) (l_cursorSurface d1) (d1\<lparr>l_cursorSurface := None\<rparr>))"

section \<open>The clipboard\<close>

definition wlMaxClipboardBytes :: nat where "wlMaxClipboardBytes = 16 * 1024 * 1024"

definition waylandTextMIMEs :: "string list" where
  "waylandTextMIMEs = [''text/plain;charset=utf-8'', ''text/plain'', ''UTF8_STRING'']"

definition preferredWaylandMIME :: "string list \<Rightarrow> string" where
  "preferredWaylandMIME offered =
     (case find (\<lambda>preferred. preferred \<in> set offered) waylandTextMIMEs of Some m \<Rightarrow> m | None \<Rightarrow> [])"

definition put_clipboard :: "wl_clipboard \<Rightarrow> 'o wayland \<Rightarrow> 'o wayland" where
  "put_clipboard c d = d\<lparr>l_clipboard := Some c\<rparr>"

text \<open>Giving up a source whose offers or selection failed leaves nothing of it.\<close>

definition publish :: "compositor \<Rightarrow> wl_clipboard \<Rightarrow> bytes \<Rightarrow> 'o wayland \<Rightarrow> string option \<times> 'o wayland" where
  "publish co c txt d =
     (case wl_new co (\<lambda>i. Data (CreateSource i)) d of
        (Inl e, d1) \<Rightarrow> (Some e, d1)
      | (Inr source, d1) \<Rightarrow>
          (case steps (map (\<lambda>mime. wl_write co (Data (OfferMime source mime))) waylandTextMIMEs @
                 [wl_write co (Data (SetSelection (lc_device c) source (l_inputSerial d)))]) d1 of
             (Some e, d2) \<Rightarrow> (Some e, wl_send co (Data (DestroySource source)) d2)
           | (None, d2) \<Rightarrow>
               (None, put_clipboard (c\<lparr>lc_sources := AList.update source txt (lc_sources c),
                        lc_source := Some source, lc_pending := None\<rparr>) d2)))"

definition wl_SetText :: "compositor \<Rightarrow> bytes \<Rightarrow> 'o wayland \<Rightarrow> string option \<times> 'o wayland" where
  "wl_SetText co txt d =
     (case l_clipboard d of
        None \<Rightarrow> (None, d)
      | Some c \<Rightarrow>
          if \<not> utf8_valid txt then (Some ''clipboard text is not valid UTF-8'', d)
          else if wlMaxClipboardBytes < length txt
          then (Some (''clipboard text is larger than '' @ decimal (int wlMaxClipboardBytes) @ '' bytes''), d)
          else if l_inputSerial d = 0 then (None, put_clipboard (c\<lparr>lc_pending := Some txt\<rparr>) d)
          else publish co c txt d)"

definition setInputSerial :: "compositor \<Rightarrow> 32 word \<Rightarrow> 'o wayland \<Rightarrow> 'o wayland" where
  "setInputSerial co serial d =
     (if serial = 0 then d
      else
        let d1 = d\<lparr>l_inputSerial := serial\<rparr> in
        case l_clipboard d1 of
          None \<Rightarrow> d1
        | Some c \<Rightarrow> (case lc_pending c of None \<Rightarrow> d1 | Some txt \<Rightarrow> snd (publish co c txt d1)))"

text \<open>The handler of an offer that replaces the one before; a change by others is asked for.\<close>

definition destroy_offer :: "compositor \<Rightarrow> oid \<Rightarrow> wl_clipboard \<Rightarrow> 'o wayland \<Rightarrow> wl_clipboard \<times> 'o wayland" where
  "destroy_offer co old c d =
     (c\<lparr>lc_offers := AList.delete old (lc_offers c)\<rparr>, wl_send co (Data (DestroyOffer old)) d)"

definition ask_offer :: "compositor \<Rightarrow> oid \<Rightarrow> wl_clipboard \<Rightarrow> 'o wayland \<Rightarrow> wl_clipboard \<times> 'o wayland" where
  "ask_offer co offer c d =
     (let mime = preferredWaylandMIME (case map_of (lc_offers c) offer of Some ms \<Rightarrow> ms | None \<Rightarrow> []) in
      if mime = [] \<or> wc_pipe co (l_log d) \<noteq> None then (c, d)
      else case wl_write co (Data (ReceiveOffer offer mime)) d of
          (Some e, d1) \<Rightarrow> (c, d1)
        | (None, d1) \<Rightarrow> (c\<lparr>lc_reading := Suc (lc_reading c)\<rparr>, d1))"

definition selection_changed ::
    "compositor \<Rightarrow> oid option \<Rightarrow> wl_clipboard \<Rightarrow> 'o wayland \<Rightarrow> ui_event list \<times> 'o wayland" where
  "selection_changed co offer c d =
     (if offer = None \<and> lc_source c \<noteq> None then ([], d)
      else
        let (c1, d1) = (case lc_offer c of
               Some old \<Rightarrow> if Some old \<noteq> offer then destroy_offer co old c d else (c, d)
             | None \<Rightarrow> (c, d));
            c2 = c1\<lparr>lc_offer := offer\<rparr>
        in case offer of
             None \<Rightarrow> ([ClipboardChange []], put_clipboard c2 d1)
           | Some i \<Rightarrow> (case ask_offer co i c2 d1 of (c3, d2) \<Rightarrow> ([], put_clipboard c3 d2)))"

text \<open>The goroutine that reads an offer: what came, or the error.\<close>

definition readOffer :: "bytes option \<Rightarrow> wl_clipboard \<Rightarrow> 'o wayland \<Rightarrow> ui_event list \<times> 'o wayland" where
  "readOffer stream c d =
     (if lc_reading c = 0 then ([], d)
      else
        let d1 = put_clipboard (c\<lparr>lc_reading := lc_reading c - 1\<rparr>) d in
        case map_option (take (wlMaxClipboardBytes + 1)) stream of
          None \<Rightarrow> ([], d1)
        | Some data \<Rightarrow>
            if wlMaxClipboardBytes < length data \<or> \<not> utf8_valid data then ([], d1)
            else ([ClipboardChange data], d1))"

text \<open>A source that another client replaced.\<close>

definition source_cancelled :: "compositor \<Rightarrow> oid \<Rightarrow> wl_clipboard \<Rightarrow> 'o wayland \<Rightarrow> 'o wayland" where
  "source_cancelled co source c d =
     (if source \<in> set (map fst (lc_sources c))
      then wl_send co (Data (DestroySource source))
        (put_clipboard (c\<lparr>lc_source := (if lc_source c = Some source then None else lc_source c),
           lc_sources := AList.delete source (lc_sources c)\<rparr>) d)
      else d)"

text \<open>What a source writes to the client that asks for its text.\<close>

definition source_text :: "oid \<Rightarrow> 'o wayland \<Rightarrow> bytes option" where
  "source_text source d = (case l_clipboard d of None \<Rightarrow> None | Some c \<Rightarrow> map_of (lc_sources c) source)"

definition releaseClipboard :: "compositor \<Rightarrow> 'o wayland \<Rightarrow> 'o wayland" where
  "releaseClipboard co d =
     (case l_clipboard d of
        None \<Rightarrow> d
      | Some c \<Rightarrow> send_if co (\<lambda>i. Data (DestroySource i)) (lc_source c)
          (send_if co (\<lambda>i. Data (DestroyOffer i)) (lc_offer c) d))"

section \<open>The pointer\<close>

definition pointerButtons :: "(32 word \<times> gint) list" where
  "pointerButtons = [(0x110, 1), (0x112, 2), (0x111, 3), (0x113, 8), (0x114, 9)]"

definition axisStep :: int where "axisStep = 10"
definition maxScrollClicks :: gint where "maxScrollClicks = 10"

text \<open>
  Positions and scroll distances are fixed-point numbers of the protocol, counted in 256ths; the
  code has them as floating-point numbers and cuts off their fraction.
\<close>

definition cut_fraction :: "int \<Rightarrow> int \<Rightarrow> gint" where
  "cut_fraction n unit = word_of_int (sgn n * (\<bar>n\<bar> div unit))"

definition window_of :: "oid option \<Rightarrow> 'o wayland \<Rightarrow> (oid \<times> wl_window) option" where
  "window_of surface d =
     (case surface of
        None \<Rightarrow> None
      | Some s \<Rightarrow> (case map_of (l_windows d) s of None \<Rightarrow> None | Some w \<Rightarrow> Some (s, w)))"

definition pointer_at :: "oid \<times> wl_window \<Rightarrow> 'o wayland \<Rightarrow> gint \<times> gint" where
  "pointer_at = (\<lambda>(s, w) d. (ww_x w + l_pointerX d, ww_y w + l_pointerY d))"

definition motion :: "oid \<times> wl_window \<Rightarrow> 'o wayland \<Rightarrow> ui_event list" where
  "motion p d = (case pointer_at p d of (x, y) \<Rightarrow> [Motion (ID (fst p)) x y])"

definition pointerEnter ::
    "compositor \<Rightarrow> 32 word \<Rightarrow> oid option \<Rightarrow> int \<Rightarrow> int \<Rightarrow> 'o wayland \<Rightarrow> ui_event list \<times> 'o wayland" where
  "pointerEnter co serial surface fx fy d0 =
     (let d = setInputSerial co serial d0 in
      case window_of surface d of
        None \<Rightarrow> ([], d)
      | Some p \<Rightarrow>
          let d1 = restoreCursor co (d\<lparr>l_pointerOver := Some (fst p), l_pointerX := cut_fraction fx 256,
                l_pointerY := cut_fraction fy 256, l_enterSerial := serial\<rparr>)
          in (motion p d1, d1))"

definition pointerLeave :: "'o wayland \<Rightarrow> 'o wayland" where
  "pointerLeave d = d\<lparr>l_pointerOver := None\<rparr>"

definition pointerMotion :: "int \<Rightarrow> int \<Rightarrow> 'o wayland \<Rightarrow> ui_event list \<times> 'o wayland" where
  "pointerMotion fx fy d =
     (case window_of (l_pointerOver d) d of
        None \<Rightarrow> ([], d)
      | Some p \<Rightarrow>
          let d1 = d\<lparr>l_pointerX := cut_fraction fx 256, l_pointerY := cut_fraction fy 256\<rparr> in (motion p d1, d1))"

definition pointerButton ::
    "compositor \<Rightarrow> 32 word \<Rightarrow> 32 word \<Rightarrow> 32 word \<Rightarrow> 'o wayland \<Rightarrow> ui_event list \<times> 'o wayland" where
  "pointerButton co serial code state d0 =
     (let d = setInputSerial co serial d0 in
      (case (window_of (l_pointerOver d) d, map_of pointerButtons code) of
         (Some p, Some button) \<Rightarrow>
           (case pointer_at p d of (x, y) \<Rightarrow> [Button (ID (fst p)) button (state = 1) x y])
       | _ \<Rightarrow> [], d))"

definition HorizontalScroll :: "32 word" where "HorizontalScroll = 1"

definition scroll :: "32 word \<Rightarrow> gint \<Rightarrow> 'o wayland \<Rightarrow> ui_event list" where
  "scroll axis notches d =
     (case window_of (l_pointerOver d) d of
        None \<Rightarrow> []
      | Some p \<Rightarrow>
          if notches = 0 then []
          else
            let (positive, negative) = (if axis = HorizontalScroll then (7, 6) else (5, 4));
                (button, count) = (if sint notches < 0 then (negative, - notches) else (positive, notches));
                (x, y) = pointer_at p d
            in concat (replicate (nat (sint (gmin count maxScrollClicks)))
                 (map (\<lambda>pressed. Button (ID (fst p)) button pressed x y) [True, False])))"

definition pointerAxis :: "32 word \<Rightarrow> int \<Rightarrow> 'o wayland \<Rightarrow> ui_event list" where
  "pointerAxis axis fvalue d =
     (if 5 \<le> l_seatBound d then [] else scroll axis (cut_fraction fvalue (256 * axisStep)) d)"

definition pointerAxisDiscrete :: "32 word \<Rightarrow> int32 \<Rightarrow> 'o wayland \<Rightarrow> ui_event list" where
  "pointerAxisDiscrete axis discrete d = scroll axis (scast discrete) d"

section \<open>The keyboard\<close>

definition KeymapFormatXkbV1 :: "32 word" where "KeymapFormatXkbV1 = 1"

text \<open>The mapped text of the keymap, or the error of mapping it; the descriptor may be missing.\<close>

definition keyboardKeymap ::
    "compositor \<Rightarrow> bool \<Rightarrow> 32 word \<Rightarrow> 32 word \<Rightarrow> string + string \<Rightarrow> 'o wayland \<Rightarrow> 'o wayland" where
  "keyboardKeymap co descriptor format nbytes mapped d =
     (if \<not> descriptor \<or> format \<noteq> KeymapFormatXkbV1 \<or> nbytes = 0 then d
      else case mapped of
          Inl e \<Rightarrow> d
        | Inr txt \<Rightarrow>
            d\<lparr>l_keys := parseKeymap (wc_keysym_table co)
                (if txt \<noteq> [] \<and> last txt = CHR 0x00 then butlast txt else txt)\<rparr>)"

definition keyboardEnter ::
    "compositor \<Rightarrow> 32 word \<Rightarrow> oid option \<Rightarrow> 'o wayland \<Rightarrow> ui_event list \<times> 'o wayland" where
  "keyboardEnter co serial surface d0 =
     (let d = setInputSerial co serial d0 in
      case window_of surface d of
        None \<Rightarrow> ([], d)
      | Some (s, w) \<Rightarrow>
          ([Focus (ID s)],
           d\<lparr>l_keyboardFocus := Some s,
             l_lastToplevel := (if ww_toplevel w \<noteq> None then Some s else l_lastToplevel d)\<rparr>))"

definition keyboardLeave :: "'o wayland \<Rightarrow> ui_event list \<times> 'o wayland" where
  "keyboardLeave d =
     (case l_keyboardFocus d of None \<Rightarrow> [] | Some s \<Rightarrow> [FocusLost (ID s)], d\<lparr>l_keyboardFocus := None\<rparr>)"

definition keyboardModifiers :: "32 word \<Rightarrow> 32 word \<Rightarrow> 32 word \<Rightarrow> 'o wayland \<Rightarrow> 'o wayland" where
  "keyboardModifiers depressed latched locked d = d\<lparr>l_mods := depressed OR latched OR locked\<rparr>"

definition keyboardKey ::
    "compositor \<Rightarrow> 32 word \<Rightarrow> 32 word \<Rightarrow> 32 word \<Rightarrow> 'o wayland \<Rightarrow> ui_event list \<times> 'o wayland" where
  "keyboardKey co serial key state d0 =
     (let d = setInputSerial co serial d0 in
      (case l_keyboardFocus d of
         None \<Rightarrow> []
       | Some s \<Rightarrow>
           let name = keymap_name (l_keys d) key (l_mods d); (keysym, txt) = keyDetails name in
           [Key (ID s) (state = 1) name keysym txt (ucast key + ucast keycodeOffset) (ModifierNames (l_mods d))],
       d))"

end
