(* ===== verification/Wayland_Display.thy ===== *)
theory Wayland_Display
  imports Wayland_Input "HOL-Library.Product_Lexorder"
begin

text \<open>
  The connection to the compositor (\<open>wayland/display.go\<close>) and the monitors
  (\<open>wayland/monitor.go\<close>): the globals, the dispatch of one message, opening and closing.
\<close>

section \<open>Events of the compositor\<close>

text \<open>
  A message with the object it is for: a window is named by its surface, an output by its name
  in the registry, a source and an offer by its identifier.  \<open>OfferRead\<close> is the end of reading an
  offer, in a goroutine.
\<close>

datatype pointer_event =
    PointerEnter "32 word" "oid option" int int
  | PointerLeave
  | PointerMotion int int
  | PointerButton "32 word" "32 word" "32 word"             \<comment> \<open>serial, button, state\<close>
  | PointerAxis "32 word" int
  | PointerAxisDiscrete "32 word" int32

datatype keyboard_event =
    KeyboardKeymap bool "32 word" "32 word" "string + string"
  | KeyboardEnter "32 word" "oid option"
  | KeyboardLeave
  | KeyboardKey "32 word" "32 word" "32 word"               \<comment> \<open>serial, key, state\<close>
  | KeyboardModifiers "32 word" "32 word" "32 word"

datatype output_event =
    OutputGeometry int32 int32 int32 int32 int32 string string int32
  | OutputMode "32 word" int32 int32 int32                  \<comment> \<open>flags, width, height, refresh\<close>
  | OutputScale int32
  | OutputName string

datatype data_event =
    DataOffer oid
  | OfferType oid string
  | SelectionEvent "oid option"
  | SourceCancelled oid
  | OfferRead "bytes option"

datatype wevent =
    RegistryGlobal "32 word" string "32 word"              \<comment> \<open>name, interface, version\<close>
  | RegistryGlobalRemove "32 word"
  | DisplayError "32 word" string
  | DeleteId oid
  | PingEvent "32 word"
  | SeatCapabilities "32 word"
  | SurfaceConfigure oid "32 word"
  | ToplevelConfigure oid int32 int32
  | ToplevelClose oid
  | PopupConfigure oid int32 int32
  | PopupDone oid
  | PointerEvent pointer_event
  | KeyboardEvent keyboard_event
  | OutputEvent "32 word" output_event
  | DataEvent data_event

section \<open>Monitors\<close>

definition subpixelName :: "int32 \<Rightarrow> string" where
  "subpixelName v =
     (if v = 1 then ''none'' else if v = 2 then ''horizontal-rgb'' else if v = 3 then ''horizontal-bgr''
      else if v = 4 then ''vertical-rgb'' else if v = 5 then ''vertical-bgr'' else ''unknown'')"

definition updateGeometry :: "wl_output \<Rightarrow> wl_output" where
  "updateGeometry o1 =
     (let (width, height) =
            (if lo_transform o1 \<in> set [1, 3, 5, 7] then (lo_modeHeight o1, lo_modeWidth o1)
             else (lo_modeWidth o1, lo_modeHeight o1));
          m = lo_monitor o1;
          scale = gmax (ScaleFactor m) 1
      in o1\<lparr>lo_monitor := m\<lparr>Geometry := (Geometry m)\<lparr>rect_Width := gdiv width scale,
             rect_Height := gdiv height scale\<rparr>\<rparr>\<rparr>)"

definition no_monitor :: monitor where
  "no_monitor =
     \<lparr>mon_Name = [], Manufacturer = [], mon_Model = [], SubpixelLayout = [],
      Geometry = \<lparr>rect_X = 0, rect_Y = 0, rect_Width = 0, rect_Height = 0\<rparr>,
      WorkArea = \<lparr>rect_X = 0, rect_Y = 0, rect_Width = 0, rect_Height = 0\<rparr>,
      WidthMM = 0, HeightMM = 0, RefreshRate = 0, ScaleFactor = 0, Primary = False\<rparr>"

definition new_output :: wl_output where
  "new_output =
     \<lparr>lo_monitor = no_monitor\<lparr>ScaleFactor := 1\<rparr>, lo_modeWidth = 0, lo_modeHeight = 0, lo_transform = 0\<rparr>"

definition on_output :: "32 word \<Rightarrow> (wl_output \<Rightarrow> wl_output) \<Rightarrow> 'o wayland \<Rightarrow> 'o wayland" where
  "on_output name f d =
     (case map_of (l_outputs d) name of
        None \<Rightarrow> d
      | Some info \<Rightarrow> d\<lparr>l_outputs := AList.update name (f info) (l_outputs d)\<rparr>)"

definition output_geometry ::
    "int32 \<Rightarrow> int32 \<Rightarrow> int32 \<Rightarrow> int32 \<Rightarrow> int32 \<Rightarrow> string \<Rightarrow> string \<Rightarrow> int32 \<Rightarrow> wl_output \<Rightarrow> wl_output" where
  "output_geometry x y widthMM heightMM subpixel maker model transform o1 =
     (let m = lo_monitor o1 in
      updateGeometry (o1\<lparr>lo_monitor := m\<lparr>Geometry := (Geometry m)\<lparr>rect_X := scast x, rect_Y := scast y\<rparr>,
          WidthMM := scast widthMM, HeightMM := scast heightMM, Manufacturer := maker, mon_Model := model,
          SubpixelLayout := subpixelName subpixel\<rparr>, lo_transform := transform\<rparr>))"

definition output_mode :: "32 word \<Rightarrow> int32 \<Rightarrow> int32 \<Rightarrow> int32 \<Rightarrow> wl_output \<Rightarrow> wl_output" where
  "output_mode flgs width height refresh o1 =
     (if flgs AND 1 = 0 then o1
      else updateGeometry (o1\<lparr>lo_modeWidth := scast width, lo_modeHeight := scast height,
             lo_monitor := (lo_monitor o1)\<lparr>RefreshRate := scast refresh\<rparr>\<rparr>))"

definition output_scale :: "int32 \<Rightarrow> wl_output \<Rightarrow> wl_output" where
  "output_scale factor o1 =
     (if 0 < sint factor
      then updateGeometry (o1\<lparr>lo_monitor := (lo_monitor o1)\<lparr>ScaleFactor := scast factor\<rparr>\<rparr>) else o1)"

text \<open>The valid monitors in the order of their names, the first one primary.\<close>

fun mark_primary :: "monitor list \<Rightarrow> monitor list" where
  "mark_primary [] = []"
| "mark_primary (m # ms) = m\<lparr>Primary := True\<rparr> # map (\<lambda>m. m\<lparr>Primary := False\<rparr>) ms"

definition wl_Monitors :: "'o wayland \<Rightarrow> monitor list" where
  "wl_Monitors d =
     mark_primary (filter (\<lambda>m. rect_Valid (Geometry m))
       (map (\<lambda>name. case map_of (l_outputs d) name of Some info \<Rightarrow> lo_monitor info | None \<Rightarrow> no_monitor)
         (sort (map fst (l_outputs d)))))"

definition wl_DesktopSize :: "'o wayland \<Rightarrow> gint \<times> gint \<times> bool" where
  "wl_DesktopSize d =
     (case map Geometry (wl_Monitors d) of
        [] \<Rightarrow> (0, 0, False)
      | first # rest \<Rightarrow>
          let minX = fold (\<lambda>g a. gmin a (rect_X g)) rest (rect_X first);
              minY = fold (\<lambda>g a. gmin a (rect_Y g)) rest (rect_Y first);
              maxX = fold (\<lambda>g a. gmax a (rect_X g + rect_Width g)) rest (rect_X first + rect_Width first);
              maxY = fold (\<lambda>g a. gmax a (rect_Y g + rect_Height g)) rest (rect_Y first + rect_Height first)
          in (maxX - minX, maxY - minY, True))"

section \<open>Globals\<close>

text \<open>
  A new proxy takes the next identifier and is bound, at the lower of the two versions; that
  the write may fail is only logged, and the proxy is kept.
\<close>

definition bind_version :: "32 word \<Rightarrow> 32 word \<Rightarrow> 32 word" where
  "bind_version theirs ours = (if theirs \<le> ours then theirs else ours)"

definition bind_global ::
    "compositor \<Rightarrow> 32 word \<Rightarrow> string \<Rightarrow> 32 word \<Rightarrow> 32 word \<Rightarrow> 'o wayland \<Rightarrow> 'o wayland" where
  "bind_global co name iface theirs ours d =
     snd (wl_new co (\<lambda>i. Connection (BindGlobal name iface (bind_version theirs ours) i)) d)"

definition global_announced :: "compositor \<Rightarrow> 32 word \<Rightarrow> string \<Rightarrow> 32 word \<Rightarrow> 'o wayland \<Rightarrow> 'o wayland" where
  "global_announced co name iface version d =
     (let bind = (\<lambda>ours. bind_global co name iface version ours) in
      if iface = ''wl_compositor'' then bind 4 (d\<lparr>l_compositor := True\<rparr>)
      else if iface = ''wl_shm'' then bind 1 (d\<lparr>l_shm := True\<rparr>)
      else if iface = ''xdg_wm_base'' then bind 1 (d\<lparr>l_wmBase := True\<rparr>)
      else if iface = ''zxdg_decoration_manager_v1'' then bind 1 (d\<lparr>l_decoration := True\<rparr>)
      else if iface = ''xdg_toplevel_icon_manager_v1'' then bind 1 (d\<lparr>l_iconManager := True\<rparr>)
      else if iface = ''wl_data_device_manager'' then bind 3 (d\<lparr>l_dataManager := True\<rparr>)
      else if iface = ''wl_seat'' then
        (if l_seat d then d
         else bind 5 (d\<lparr>l_seat := True, l_seatBound := bind_version version 5\<rparr>))
      else if iface = ''wl_output'' then
        bind 4 (d\<lparr>l_outputs := AList.update name new_output (l_outputs d)\<rparr>)
      else d)"

definition seatCapabilities :: "compositor \<Rightarrow> 32 word \<Rightarrow> 'o wayland \<Rightarrow> 'o wayland" where
  "seatCapabilities co caps d =
     (let d1 = (if caps AND 1 \<noteq> 0 \<and> l_pointer d = None
                then case wl_new co (\<lambda>i. Seat (GetPointer i)) d of
                    (Inl e, d1) \<Rightarrow> d1
                  | (Inr p, d1) \<Rightarrow> d1\<lparr>l_pointer := Some p\<rparr>
                else d)
      in if caps AND 2 \<noteq> 0 \<and> l_keyboard d1 = None
         then case wl_new co (\<lambda>i. Seat (GetKeyboard i)) d1 of
             (Inl e, d2) \<Rightarrow> d2
           | (Inr k, d2) \<Rightarrow> d2\<lparr>l_keyboard := Some k\<rparr>
         else d1)"

section \<open>Closing\<close>

definition wl_shutdown :: "compositor \<Rightarrow> 'o wayland \<Rightarrow> 'o wayland" where
  "wl_shutdown co d =
     (if l_done d then d
      else wl_send co (Connection CloseContext) (releaseCursor co (releaseClipboard co (d\<lparr>l_done := True\<rparr>))))"

section \<open>Dispatch\<close>

text \<open>A type an offer announces; a message for an offer that is gone has no receiver.\<close>

definition offer_type :: "oid \<Rightarrow> string \<Rightarrow> wl_clipboard \<Rightarrow> wl_clipboard" where
  "offer_type offer mime c =
     (case map_of (lc_offers c) offer of
        None \<Rightarrow> c
      | Some ms \<Rightarrow> c\<lparr>lc_offers := AList.update offer (ms @ [mime]) (lc_offers c)\<rparr>)"

text \<open>The offer a selection names, nil if there is no such object.\<close>

definition known_offer :: "oid option \<Rightarrow> wl_clipboard \<Rightarrow> oid option" where
  "known_offer offer c =
     (case offer of
        None \<Rightarrow> None
      | Some i \<Rightarrow> if i \<noteq> 0 \<and> map_of (lc_offers c) i \<noteq> None then Some i else None)"

fun pointer_handler :: "compositor \<Rightarrow> pointer_event \<Rightarrow> 'o wayland \<Rightarrow> ui_event list \<times> 'o wayland" where
  "pointer_handler co (PointerEnter serial surface fx fy) d = pointerEnter co serial surface fx fy d"
| "pointer_handler co PointerLeave d = ([], pointerLeave d)"
| "pointer_handler co (PointerMotion fx fy) d = pointerMotion fx fy d"
| "pointer_handler co (PointerButton serial code state) d = pointerButton co serial code state d"
| "pointer_handler co (PointerAxis axis fvalue) d = (pointerAxis axis fvalue d, d)"
| "pointer_handler co (PointerAxisDiscrete axis discrete) d = (pointerAxisDiscrete axis discrete d, d)"

fun keyboard_handler :: "compositor \<Rightarrow> keyboard_event \<Rightarrow> 'o wayland \<Rightarrow> ui_event list \<times> 'o wayland" where
  "keyboard_handler co (KeyboardKeymap descriptor format nbytes mapped) d =
     ([], keyboardKeymap co descriptor format nbytes mapped d)"
| "keyboard_handler co (KeyboardEnter serial surface) d = keyboardEnter co serial surface d"
| "keyboard_handler co KeyboardLeave d = keyboardLeave d"
| "keyboard_handler co (KeyboardKey serial key state) d = keyboardKey co serial key state d"
| "keyboard_handler co (KeyboardModifiers depressed latched locked) d =
     ([], keyboardModifiers depressed latched locked d)"

fun output_handler :: "output_event \<Rightarrow> wl_output \<Rightarrow> wl_output" where
  "output_handler (OutputGeometry x y widthMM heightMM subpixel maker model transform) o1 =
     output_geometry x y widthMM heightMM subpixel maker model transform o1"
| "output_handler (OutputMode flgs width height refresh) o1 = output_mode flgs width height refresh o1"
| "output_handler (OutputScale factor) o1 = output_scale factor o1"
| "output_handler (OutputName str) o1 = o1\<lparr>lo_monitor := (lo_monitor o1)\<lparr>mon_Name := str\<rparr>\<rparr>"

fun data_handler ::
    "compositor \<Rightarrow> data_event \<Rightarrow> wl_clipboard \<Rightarrow> 'o wayland \<Rightarrow> ui_event list \<times> 'o wayland" where
  "data_handler co (DataOffer i) c d =
     ([], put_clipboard (c\<lparr>lc_offers := AList.update i [] (lc_offers c)\<rparr>) d)"
| "data_handler co (OfferType i mime) c d = ([], put_clipboard (offer_type i mime c) d)"
| "data_handler co (SelectionEvent offer) c d = selection_changed co (known_offer offer c) c d"
| "data_handler co (SourceCancelled i) c d = ([], source_cancelled co i c d)"
| "data_handler co (OfferRead stream) c d = readOffer stream c d"

definition dispatch :: "compositor \<Rightarrow> wevent \<Rightarrow> 'o wayland \<Rightarrow> ui_event list \<times> 'o wayland" where
  "dispatch co e d =
     (case e of
        RegistryGlobal name iface version \<Rightarrow> ([], global_announced co name iface version d)
      | RegistryGlobalRemove name \<Rightarrow> ([], d\<lparr>l_outputs := AList.delete name (l_outputs d)\<rparr>)
      | DisplayError code message \<Rightarrow> ([], wl_shutdown co d)
      | DeleteId i \<Rightarrow> ([], d)
      | PingEvent serial \<Rightarrow> ([], wl_send co (Connection (Pong serial)) d)
      | SeatCapabilities caps \<Rightarrow> ([], seatCapabilities co caps d)
      | SurfaceConfigure s serial \<Rightarrow> ([], configure_window co s serial d)
      | ToplevelConfigure s width height \<Rightarrow> (resize_event s width height d, d)
      | ToplevelClose s \<Rightarrow> (close_event s d, d)
      | PopupConfigure s width height \<Rightarrow> (resize_event s width height d, d)
      | PopupDone s \<Rightarrow> (close_event s d, d)
      | PointerEvent e \<Rightarrow> pointer_handler co e d
      | KeyboardEvent e \<Rightarrow> keyboard_handler co e d
      | OutputEvent name e \<Rightarrow> ([], on_output name (output_handler e) d)
      | DataEvent e \<Rightarrow> (case l_clipboard d of None \<Rightarrow> ([], d) | Some c \<Rightarrow> data_handler co e c d))"

fun dispatch_all :: "compositor \<Rightarrow> wevent list \<Rightarrow> 'o wayland \<Rightarrow> ui_event list \<times> 'o wayland" where
  "dispatch_all co [] d = ([], d)"
| "dispatch_all co (e # es) d =
     (case dispatch co e d of (evs, d1) \<Rightarrow> (case dispatch_all co es d1 of (evs', d2) \<Rightarrow> (evs @ evs', d2)))"

section \<open>Opening\<close>

text \<open>
  A roundtrip is a sync request and the messages up to its answer, or to the error that ends
  the connection.
\<close>

definition roundtrip ::
    "compositor \<Rightarrow> wevent list \<times> string option \<Rightarrow> 'o wayland \<Rightarrow> string option \<times> 'o wayland" where
  "roundtrip co = (\<lambda>(es, failure) d.
     case wl_new co (\<lambda>i. Connection (SyncRequest i)) d of
       (Inl e, d1) \<Rightarrow> (Some e, d1)
     | (Inr callback, d1) \<Rightarrow> (failure, snd (dispatch_all co es d1)))"

definition closed_wayland :: "oid list \<Rightarrow> 'o \<Rightarrow> 'o wayland" where
  "closed_wayland ids others =
     \<lparr>l_log = [], l_ids = ids, l_windows = [], l_lastToplevel = None, l_pointerOver = None, l_pointerX = 0,
      l_pointerY = 0, l_keyboardFocus = None, l_compositor = False, l_shm = False, l_wmBase = False,
      l_decoration = False, l_iconManager = False, l_dataManager = False, l_seat = False, l_seatBound = 0,
      l_pointer = None, l_keyboard = None, l_outputs = [], l_enterSerial = 0, l_cursorSurface = None,
      l_shown = None, l_ownedCursor = None, l_theme = None, l_themeMissing = False, l_clipboard = None,
      l_inputSerial = 0, l_keys = (\<lambda>_. None), l_mods = 0, l_panicked = False, l_done = False,
      l_others = others\<rparr>"

definition new_wl_clipboard :: "compositor \<Rightarrow> 'o wayland \<Rightarrow> 'o wayland" where
  "new_wl_clipboard co d =
     (if \<not> l_dataManager d \<or> \<not> l_seat d then d
      else case wl_new co (\<lambda>i. Data (GetDataDevice i)) d of
          (Inl e, d1) \<Rightarrow> d1
        | (Inr device, d1) \<Rightarrow>
            put_clipboard \<lparr>lc_device = device, lc_offers = [], lc_offer = None, lc_sources = [],
              lc_source = None, lc_pending = None, lc_reading = 0\<rparr> d1)"

definition missing_global :: "'o wayland \<Rightarrow> string option" where
  "missing_global d =
     (if \<not> l_compositor d then Some ''wl_compositor'' else if \<not> l_shm d then Some ''wl_shm''
      else if \<not> l_wmBase d then Some ''xdg_wm_base'' else None)"

definition wl_Open ::
    "compositor \<Rightarrow> string option \<Rightarrow> oid list \<Rightarrow> 'o \<Rightarrow> wevent list \<times> string option \<Rightarrow>
     wevent list \<times> string option \<Rightarrow> string + 'o wayland" where
  "wl_Open co connecting ids others globals properties =
     (case connecting of
        Some e \<Rightarrow> Inl (''connecting to the Wayland compositor: '' @ e)
      | None \<Rightarrow>
        (case wl_new co (\<lambda>i. Connection (GetRegistry i)) (closed_wayland ids others) of
           (Inl e, d) \<Rightarrow> Inl (''getting the Wayland registry: '' @ e)
         | (Inr registry, d) \<Rightarrow>
           (case roundtrip co globals d of
              (Some e, d1) \<Rightarrow> Inl (''listing the Wayland globals: '' @ e)
            | (None, d1) \<Rightarrow>
              (case missing_global d1 of
                 Some name \<Rightarrow> Inl (''the compositor does not offer '' @ name)
               | None \<Rightarrow>
                 (case (if l_outputs d1 = [] then (None, d1) else roundtrip co properties d1) of
                    (Some e, d2) \<Rightarrow> Inl (''reading Wayland outputs: '' @ e)
                  | (None, d2) \<Rightarrow> Inr (new_wl_clipboard co d2))))))"

end
