(* ===== verification/Wayland_Protocol.thy ===== *)
theory Wayland_Protocol
  imports Wayland_Display "HOL-Library.Multiset"
begin

text \<open>
  The rules of the Wayland protocol the backend must keep, as a monitor that reads the log of its
  requests, and the judgement \<open>tracks\<close>: the monitor has accepted the log so far and the objects
  that exist are exactly a given multiset.  An object is its identifier, its kind, the object it
  hangs on, and for an xdg surface whether a configure of it was acknowledged.
\<close>

datatype kind =
    SurfaceK | XdgK | ToplevelK | PopupK | PositionerK | DecorationK | PoolK | BufferK | IconK
  | SourceK | DeviceK | PointerK | KeyboardK | OtherK

type_synonym obj = "oid \<times> kind \<times> oid option \<times> bool"

record wl_monitor =
  m_objects :: "obj list"
  m_seen :: "oid list"
  m_closed :: bool

section \<open>What a request does\<close>

text \<open>The object it makes.\<close>

fun makes :: "wreq \<Rightarrow> (oid \<times> kind \<times> oid option) option" where
  "makes (CreateSurface i) = Some (i, SurfaceK, None)"
| "makes (GetXdgSurface i s) = Some (i, XdgK, Some s)"
| "makes (Xdg x (GetToplevel i)) = Some (i, ToplevelK, Some x)"
| "makes (Xdg x (GetPopup i parent q)) = Some (i, PopupK, Some x)"
| "makes (CreatePositioner i) = Some (i, PositionerK, None)"
| "makes (GetDecoration i t) = Some (i, DecorationK, Some t)"
| "makes (Shm (CreatePool i n)) = Some (i, PoolK, None)"
| "makes (Shm (CreateBuffer i p w h stride fmt)) = Some (i, BufferK, None)"
| "makes (Icon (CreateIcon i)) = Some (i, IconK, None)"
| "makes (Seat (GetPointer i)) = Some (i, PointerK, None)"
| "makes (Seat (GetKeyboard i)) = Some (i, KeyboardK, None)"
| "makes (Data (GetDataDevice i)) = Some (i, DeviceK, None)"
| "makes (Data (CreateSource i)) = Some (i, SourceK, None)"
| "makes _ = None"

text \<open>The objects that must exist for it.\<close>

fun uses :: "wreq \<Rightarrow> (oid \<times> kind) list" where
  "uses (Surface s r) = [(s, SurfaceK)]"
| "uses (GetXdgSurface i s) = [(s, SurfaceK)]"
| "uses (Xdg x (GetPopup i parent q)) = [(x, XdgK), (parent, XdgK), (q, PositionerK)]"
| "uses (Xdg x r) = [(x, XdgK)]"
| "uses (Toplevel t r) = [(t, ToplevelK)]"
| "uses (DestroyPopup p) = [(p, PopupK)]"
| "uses (Positioner q r) = [(q, PositionerK)]"
| "uses (GetDecoration i t) = [(t, ToplevelK)]"
| "uses (SetDecorationMode i mode) = [(i, DecorationK)]"
| "uses (DestroyDecoration i) = [(i, DecorationK)]"
| "uses (Shm (DestroyPool p)) = [(p, PoolK)]"
| "uses (Shm (CreateBuffer i p w h stride fmt)) = [(p, PoolK)]"
| "uses (Shm (DestroyBuffer b)) = [(b, BufferK)]"
| "uses (Icon (AddIconBuffer i b scale)) = [(i, IconK), (b, BufferK)]"
| "uses (Icon (SetToplevelIcon t None)) = [(t, ToplevelK)]"
| "uses (Icon (SetToplevelIcon t (Some i))) = [(t, ToplevelK), (i, IconK)]"
| "uses (Icon (DestroyIcon i)) = [(i, IconK)]"
| "uses (Seat (SetPointerCursor p serial s x y)) = [(p, PointerK), (s, SurfaceK)]"
| "uses (Data (OfferMime i mime)) = [(i, SourceK)]"
| "uses (Data (SetSelection dev i serial)) = [(dev, DeviceK), (i, SourceK)]"
| "uses (Data (DestroySource i)) = [(i, SourceK)]"
| "uses _ = []"

text \<open>The object it destroys.\<close>

fun ends :: "wreq \<Rightarrow> oid option" where
  "ends (Surface s DestroySurface) = Some s"
| "ends (Xdg x DestroyXdgSurface) = Some x"
| "ends (Toplevel t DestroyToplevel) = Some t"
| "ends (DestroyPopup p) = Some p"
| "ends (Positioner q DestroyPositioner) = Some q"
| "ends (DestroyDecoration i) = Some i"
| "ends (Shm (DestroyPool p)) = Some p"
| "ends (Shm (DestroyBuffer b)) = Some b"
| "ends (Icon (DestroyIcon i)) = Some i"
| "ends (Data (DestroySource i)) = Some i"
| "ends _ = None"

text \<open>
  The object that must have nothing of these kinds hanging on it: it gets its one child, or it
  goes, after its child.
\<close>

fun lonely :: "wreq \<Rightarrow> (oid \<times> kind list) option" where
  "lonely (GetXdgSurface i s) = Some (s, [XdgK])"
| "lonely (Surface s DestroySurface) = Some (s, [XdgK])"
| "lonely (Xdg x (GetToplevel i)) = Some (x, [ToplevelK, PopupK])"
| "lonely (Xdg x (GetPopup i parent q)) = Some (x, [ToplevelK, PopupK])"
| "lonely (Xdg x DestroyXdgSurface) = Some (x, [ToplevelK, PopupK])"
| "lonely (GetDecoration i t) = Some (t, [DecorationK])"
| "lonely (Toplevel t DestroyToplevel) = Some (t, [DecorationK])"
| "lonely _ = None"

fun makes_other :: "wreq \<Rightarrow> oid option" where
  "makes_other (Connection (GetRegistry i)) = Some i"
| "makes_other (Connection (SyncRequest i)) = Some i"
| "makes_other (Connection (BindGlobal name iface version i)) = Some i"
| "makes_other _ = None"

section \<open>The monitor\<close>

definition childless :: "oid \<Rightarrow> kind list \<Rightarrow> obj list \<Rightarrow> bool" where
  "childless i ks objs \<longleftrightarrow> list_all (\<lambda>(j, k, p, a). p = Some i \<longrightarrow> k \<notin> set ks) objs"

definition has_obj :: "oid \<times> kind \<Rightarrow> obj list \<Rightarrow> bool" where
  "has_obj = (\<lambda>(i, k) objs. list_ex (\<lambda>(j, k', p, a). j = i \<and> k' = k) objs)"

text \<open>
  A buffer is attached only to a surface that is not waiting for its first configure; buffers
  of the cursor theme are made by its library.
\<close>

fun attach_ok :: "wreq \<Rightarrow> wl_monitor \<Rightarrow> bool" where
  "attach_ok (Surface s (Attach b)) m \<longleftrightarrow>
     (has_obj (b, BufferK) (m_objects m) \<or> b \<notin> set (m_seen m)) \<and>
     list_all (\<lambda>(j, k, p, a). k = XdgK \<and> p = Some s \<longrightarrow> a) (m_objects m)"
| "attach_ok _ m \<longleftrightarrow> True"

definition allowed :: "wreq \<Rightarrow> wl_monitor \<Rightarrow> bool" where
  "allowed r m \<longleftrightarrow>
     list_all (\<lambda>u. has_obj u (m_objects m)) (uses r) \<and>
     (case makes r of None \<Rightarrow> True | Some (i, _) \<Rightarrow> i \<notin> set (m_seen m)) \<and>
     (case makes_other r of None \<Rightarrow> True | Some i \<Rightarrow> i \<notin> set (m_seen m)) \<and>
     (case lonely r of None \<Rightarrow> True | Some (i, ks) \<Rightarrow> childless i ks (m_objects m)) \<and>
     attach_ok r m"

fun acknowledged :: "wreq \<Rightarrow> oid option" where
  "acknowledged (Xdg x (AckConfigure serial)) = Some x"
| "acknowledged _ = None"

definition drop_ended :: "wreq \<Rightarrow> obj list \<Rightarrow> obj list" where
  "drop_ended r objs = (case ends r of None \<Rightarrow> objs | Some i \<Rightarrow> filter (\<lambda>ob. fst ob \<noteq> i) objs)"

definition acknowledge :: "oid \<Rightarrow> obj list \<Rightarrow> obj list" where
  "acknowledge x = map (\<lambda>(i, k, p, a). (i, k, p, a \<or> i = x))"

definition written :: "wreq \<Rightarrow> wl_monitor \<Rightarrow> wl_monitor" where
  "written r m =
     (let objs = drop_ended r (m_objects m);
          objs = (case acknowledged r of None \<Rightarrow> objs | Some x \<Rightarrow> acknowledge x objs)
      in m\<lparr>m_objects := (case makes r of None \<Rightarrow> objs | Some (i, k, p) \<Rightarrow> (i, k, p, False) # objs),
           m_seen := (case makes r of None \<Rightarrow> [] | Some (i, _) \<Rightarrow> [i]) @
             (case makes_other r of None \<Rightarrow> [] | Some i \<Rightarrow> [i]) @ m_seen m,
           m_closed := (r = Connection CloseContext)\<rparr>)"

text \<open>After a failed write the object of a destructor is not used any more either.\<close>

definition not_written :: "wreq \<Rightarrow> wl_monitor \<Rightarrow> wl_monitor" where
  "not_written r m = m\<lparr>m_objects := drop_ended r (m_objects m), m_closed := (r = Connection CloseContext)\<rparr>"

fun watch :: "wlog \<Rightarrow> wl_monitor \<Rightarrow> wl_monitor option" where
  "watch (Wrote r) m =
     (if m_closed m then Some m else if allowed r m then Some (written r m) else None)"
| "watch (Failed r) m =
     (if m_closed m then Some m else if allowed r m then Some (not_written r m) else None)"

definition new_monitor :: wl_monitor where
  "new_monitor = \<lparr>m_objects = [], m_seen = [], m_closed = False\<rparr>"

fun watch_all :: "wlog list \<Rightarrow> wl_monitor \<Rightarrow> wl_monitor option" where
  "watch_all [] m = Some m"
| "watch_all (x # xs) m = (case watch x m of None \<Rightarrow> None | Some m' \<Rightarrow> watch_all xs m')"

definition protocol_kept :: "wlog list \<Rightarrow> bool" where
  "protocol_kept log \<longleftrightarrow> watch_all log new_monitor \<noteq> None"

lemma watch_all_append:
  "watch_all (xs @ ys) m = (case watch_all xs m of None \<Rightarrow> None | Some m' \<Rightarrow> watch_all ys m')"
  by (induction xs arbitrary: m) (auto split: option.split)

section \<open>The judgement\<close>

text \<open>\<open>U\<close> are the identifiers of the session.  Once the connection is closed everything is accepted.\<close>

definition key_set :: "obj multiset \<Rightarrow> oid set" where
  "key_set E = fst ` set_mset E"

definition parents :: "obj multiset \<Rightarrow> oid set" where
  "parents E = {q. \<exists>i k a. (i, k, Some q, a) \<in># E}"

definition unique_keys :: "obj multiset \<Rightarrow> bool" where
  "unique_keys E \<longleftrightarrow> (\<forall>i. count (image_mset fst E) i \<le> 1)"

definition agrees :: "oid set \<Rightarrow> obj multiset \<Rightarrow> wl_monitor \<Rightarrow> oid list \<Rightarrow> bool" where
  "agrees U E m ids \<longleftrightarrow>
     mset (m_objects m) = E \<and> unique_keys E \<and> key_set E \<subseteq> set (m_seen m) \<and> parents E \<subseteq> set (m_seen m) \<and>
     set (m_seen m) \<inter> set ids = {} \<and> distinct ids \<and> set (m_seen m) \<union> set ids \<subseteq> U"

definition tracks :: "bool \<Rightarrow> oid set \<Rightarrow> obj multiset \<Rightarrow> 'o wayland \<Rightarrow> bool" where
  "tracks Q U E d \<longleftrightarrow>
     (\<exists>m. watch_all (l_log d) new_monitor = Some m \<and> (m_closed m \<or> Q \<and> agrees U E m (l_ids d)))"

definition no_child :: "oid \<Rightarrow> kind list \<Rightarrow> obj multiset \<Rightarrow> bool" where
  "no_child i ks E \<longleftrightarrow> (\<forall>j k a. (j, k, Some i, a) \<in># E \<longrightarrow> k \<notin> set ks)"

definition has :: "oid \<times> kind \<Rightarrow> obj multiset \<Rightarrow> bool" where
  "has u E \<longleftrightarrow> (\<exists>p a. (fst u, snd u, p, a) \<in># E)"

lemma no_child_add [simp]:
  "no_child i ks (add_mset (j, k, p, a) E) \<longleftrightarrow> (p = Some i \<longrightarrow> k \<notin> set ks) \<and> no_child i ks E"
  "no_child i ks (E1 + E2) \<longleftrightarrow> no_child i ks E1 \<and> no_child i ks E2"
  "no_child i ks {#}"
  by (simp_all add: no_child_def) blast+

lemma has_add [simp]:
  "has (i, k) (add_mset (j, k', p, a) E) \<longleftrightarrow> i = j \<and> k = k' \<or> has (i, k) E"
  "has (i, k) (E1 + E2) \<longleftrightarrow> has (i, k) E1 \<or> has (i, k) E2"
  "\<not> has (i, k) {#}"
  by (auto simp: has_def)

lemma childless_mset: "childless i ks objs \<longleftrightarrow> no_child i ks (mset objs)"
  by (auto simp: childless_def no_child_def list_all_iff)

lemma has_obj_mset: "has_obj u objs \<longleftrightarrow> has u (mset objs)"
  by (auto simp: has_obj_def has_def list_ex_iff split: prod.split) blast

lemma tracks_kept: "tracks Q U E d \<Longrightarrow> protocol_kept (l_log d)"
  by (auto simp: tracks_def protocol_kept_def)

lemma tracks_weaken: "tracks Q U E d \<Longrightarrow> (Q \<Longrightarrow> Q' \<and> E = E') \<Longrightarrow> tracks Q' U E' d"
  by (auto simp: tracks_def)

lemma tracks_cong: "l_log d' = l_log d \<Longrightarrow> l_ids d' = l_ids d \<Longrightarrow> tracks Q U E d' = tracks Q U E d"
  by (simp add: tracks_def)

section \<open>Distinct identifiers\<close>

lemma key_set_simps [simp]:
  "key_set {#} = {}" "key_set (add_mset ob E) = insert (fst ob) (key_set E)" "key_set (E1 + E2) = key_set E1 \<union> key_set E2"
  by (auto simp: key_set_def)

lemma parents_simps [simp]:
  "parents {#} = {}" "parents (add_mset (i, k, p, a) E) = set_option p \<union> parents E"
  "parents (E1 + E2) = parents E1 \<union> parents E2"
  by (auto simp: parents_def)

lemma key_count: "count (image_mset fst E) i = 0 \<longleftrightarrow> i \<notin> key_set E"
  by (simp add: key_set_def count_eq_zero_iff)

lemma unique_keys_simps [simp]:
  "unique_keys {#}" "unique_keys (add_mset ob E) \<longleftrightarrow> fst ob \<notin> key_set E \<and> unique_keys E"
proof -
  let ?c = "count (image_mset fst E)"
  have "unique_keys (add_mset ob E) \<longleftrightarrow> (\<forall>j. ?c j + (if j = fst ob then 1 else 0) \<le> 1)"
    by (auto simp: unique_keys_def)
  also have "\<dots> \<longleftrightarrow> ?c (fst ob) = 0 \<and> (\<forall>j. ?c j \<le> 1)"
  proof
    assume *: "\<forall>j. ?c j + (if j = fst ob then 1 else 0) \<le> 1"
    have "?c j \<le> 1" for j using spec [OF *, of j] by simp
    then show "?c (fst ob) = 0 \<and> (\<forall>j. ?c j \<le> 1)" using spec [OF *, of "fst ob"] by simp
  qed auto
  finally show "unique_keys (add_mset ob E) \<longleftrightarrow> fst ob \<notin> key_set E \<and> unique_keys E"
    unfolding key_count unique_keys_def .
qed (simp add: unique_keys_def)

lemma unique_keys_union: "unique_keys (E1 + E2) \<longleftrightarrow> unique_keys E1 \<and> unique_keys E2 \<and> key_set E1 \<inter> key_set E2 = {}"
  by (induction E1) auto

lemma agrees_keys: "agrees U E m ids \<Longrightarrow> unique_keys E \<and> key_set E \<subseteq> U"
  by (auto simp: agrees_def)

lemma tracks_keys: "tracks Q U E d \<Longrightarrow> tracks (Q \<and> unique_keys E \<and> key_set E \<subseteq> U) U E d"
  unfolding tracks_def using agrees_keys by blast

section \<open>Writing\<close>

definition drop_key :: "oid \<Rightarrow> obj multiset \<Rightarrow> obj multiset" where
  "drop_key i = filter_mset (\<lambda>ob. fst ob \<noteq> i)"

definition set_flag :: "oid \<Rightarrow> obj multiset \<Rightarrow> obj multiset" where
  "set_flag x = image_mset (\<lambda>(i, k, p, a). (i, k, p, a \<or> i = x))"

lemma drop_key_simps [simp]:
  "drop_key i {#} = {#}"
  "drop_key i (add_mset (j, r) E) = (if i = j then drop_key i E else add_mset (j, r) (drop_key i E))"
  by (simp_all add: drop_key_def)

lemma set_flag_simps [simp]:
  "set_flag x {#} = {#}"
  "set_flag x (add_mset (i, k, p, a) E) = add_mset (i, k, p, a \<or> i = x) (set_flag x E)"
  by (simp_all add: set_flag_def)

lemma drop_key_other [simp]: "i \<notin> key_set E \<Longrightarrow> drop_key i E = E"
  by (induction E) auto

lemma set_flag_other [simp]: "i \<notin> key_set E \<Longrightarrow> set_flag i E = E"
  by (induction E) auto

lemma drop_key_subset: "key_set (drop_key i E) = key_set E - {i}" "parents (drop_key i E) \<subseteq> parents E"
  by (auto simp: key_set_def parents_def drop_key_def)

lemma unique_drop_key: "unique_keys E \<Longrightarrow> unique_keys (drop_key i E)"
  by (induction E) (auto simp: drop_key_subset)

lemma set_flag_keys [simp]: "key_set (set_flag x E) = key_set E" "parents (set_flag x E) = parents E"
    "unique_keys (set_flag x E) = unique_keys E"
  by (induction E) auto

fun attach_fine :: "oid set \<Rightarrow> wreq \<Rightarrow> obj multiset \<Rightarrow> bool" where
  "attach_fine U (Surface s (Attach b)) E \<longleftrightarrow>
     (has (b, BufferK) E \<or> b \<notin> U) \<and> (\<forall>j. (j, XdgK, Some s, False) \<notin># E)"
| "attach_fine U _ E \<longleftrightarrow> True"

definition ready :: "oid set \<Rightarrow> wreq \<Rightarrow> obj multiset \<Rightarrow> bool" where
  "ready U r E \<longleftrightarrow> (\<forall>u\<in>set (uses r). has u E) \<and>
     (case lonely r of None \<Rightarrow> True | Some (i, ks) \<Rightarrow> no_child i ks E) \<and> attach_fine U r E"

lemma attach_fine_ok:
  assumes "attach_fine U r E" "agrees U E m ids"
  shows "attach_ok r m"
proof (cases r)
  case (Surface s q)
  show ?thesis
  proof (cases q)
    case (Attach b)
    have "has_obj (b, BufferK) (m_objects m) \<or> b \<notin> set (m_seen m)"
      using assms Surface Attach by (auto simp: agrees_def has_obj_mset)
    moreover have "\<forall>j. (j, XdgK, Some s, False) \<notin> set (m_objects m)"
      using assms Surface Attach by (auto simp: agrees_def)
    then have "a" if "(j, XdgK, Some s, a) \<in> set (m_objects m)" for j a using that by (cases a) auto
    ultimately show ?thesis
      using Surface Attach by (auto simp: list_all_iff)
  qed (simp_all add: Surface)
qed simp_all

lemma ready_allowed:
  assumes "ready U r E" "agrees U E m ids" "makes_other r = None"
    and "case makes r of None \<Rightarrow> True | Some (i, _) \<Rightarrow> i \<notin> set (m_seen m)"
  shows "allowed r m"
  using assms attach_fine_ok [OF _ assms(2)]
  by (auto simp: ready_def allowed_def agrees_def has_obj_mset childless_mset list_all_iff split: option.splits)

lemma mset_drop_ended: "mset (drop_ended r objs) = (case ends r of None \<Rightarrow> mset objs | Some i \<Rightarrow> drop_key i (mset objs))"
  by (simp add: drop_ended_def drop_key_def split: option.split)

lemma mset_acknowledge: "mset (acknowledge x objs) = set_flag x (mset objs)"
  by (simp add: acknowledge_def set_flag_def)

definition after :: "string option \<Rightarrow> wreq \<Rightarrow> obj multiset \<Rightarrow> obj multiset" where
  "after e r E =
     (let E1 = (case ends r of None \<Rightarrow> E | Some i \<Rightarrow> drop_key i E)
      in case acknowledged r of None \<Rightarrow> E1 | Some x \<Rightarrow> if e = None then set_flag x E1 else E1)"

lemma agrees_after:
  assumes "agrees U E m ids"
  shows "makes r = None \<Longrightarrow> makes_other r = None \<Longrightarrow> agrees U (after None r E) (written r m) ids"
    and "agrees U (after (Some e) r E) (not_written r m) ids"
  using assms
  by (auto simp: agrees_def after_def written_def not_written_def mset_drop_ended mset_acknowledge Let_def
      drop_key_subset unique_drop_key dest!: subsetD [OF drop_key_subset(2)] split: option.split)

lemma tracks_write:
  assumes "wl_write co r d = (e, d')" "tracks Q U E d"
    and "Q \<Longrightarrow> ready U r E" "makes r = None" "makes_other r = None"
  shows "tracks Q U (after e r E) d'"
proof -
  obtain m where m: "watch_all (l_log d) new_monitor = Some m" "m_closed m \<or> Q \<and> agrees U E m (l_ids d)"
    using assms(2) by (auto simp: tracks_def)
  have d': "l_log d' = l_log d @ [if e = None then Wrote r else Failed r]" "l_ids d' = l_ids d"
    using assms(1) by (auto simp: wl_write_def split: option.splits)
  show ?thesis
  proof (cases "m_closed m")
    case True
    then show ?thesis using m d' by (auto simp: tracks_def watch_all_append)
  next
    case False
    then have ok: "Q" "agrees U E m (l_ids d)" using m by simp_all
    then have "allowed r m" using ready_allowed assms(3,4,5) by simp
    then show ?thesis
      using m(1) d' False ok agrees_after [OF ok(2)] assms(4,5)
      by (cases e) (auto simp: tracks_def watch_all_append)
  qed
qed

section \<open>Rules\<close>

text \<open>A request that only uses objects, one that destroys an object, and one that makes one.\<close>

definition plain :: "wreq \<Rightarrow> bool" where
  "plain r \<longleftrightarrow> makes r = None \<and> makes_other r = None \<and> ends r = None \<and> acknowledged r = None"

lemma after_plain [simp]: "plain r \<Longrightarrow> after e r E = E"
  by (simp add: plain_def after_def)

lemma tracks_use:
  assumes "wl_write co r d = (e, d')" "tracks Q U E d" "Q \<Longrightarrow> ready U r E" "plain r"
  shows "tracks Q U E d'"
  using tracks_write [OF assms(1-3)] assms(4) by (simp add: plain_def after_def)

lemma tracks_send: "tracks Q U E d \<Longrightarrow> (Q \<Longrightarrow> ready U r E) \<Longrightarrow> plain r \<Longrightarrow> tracks Q U E (wl_send co r d)"
  unfolding wl_send_def by (rule tracks_use [OF prod.collapse [symmetric]])

lemma tracks_end:
  assumes "tracks Q U (add_mset (i, ob) E) d" "Q \<Longrightarrow> ready U r (add_mset (i, ob) E)"
    and "ends r = Some i" "makes r = None" "makes_other r = None" "acknowledged r = None"
  shows "tracks Q U E (wl_send co r d)"
proof -
  let ?Q = "Q \<and> unique_keys (add_mset (i, ob) E) \<and> key_set (add_mset (i, ob) E) \<subseteq> U"
  have "tracks ?Q U (after (fst (wl_write co r d)) r (add_mset (i, ob) E)) (wl_send co r d)"
    unfolding wl_send_def
    by (rule tracks_write [OF prod.collapse [symmetric] tracks_keys [OF assms(1)]]) (use assms in auto)
  then show ?thesis
    by (rule tracks_weaken) (use assms in \<open>auto simp: after_def\<close>)
qed

text \<open>The same for an object that may be missing.\<close>

definition part :: "kind \<Rightarrow> oid option \<Rightarrow> bool \<Rightarrow> oid option \<Rightarrow> obj multiset" where
  "part k p a i = (case i of None \<Rightarrow> {#} | Some i \<Rightarrow> {#(i, k, p, a)#})"

lemma part_simps [simp]: "part k p a None = {#}" "part k p a (Some i) = {#(i, k, p, a)#}"
  by (simp_all add: part_def)

lemma tracks_end_if:
  assumes "tracks Q U (part k p a i + E) d" "\<And>i. Q \<Longrightarrow> ready U (r i) (add_mset (i, k, p, a) E)"
    and "\<And>i. ends (r i) = Some i" "\<And>i. makes (r i) = None" "\<And>i. makes_other (r i) = None" "\<And>i. acknowledged (r i) = None"
  shows "tracks Q U E (send_if co r i d)"
  using assms by (auto simp: send_if_def intro!: tracks_end split: option.split)

definition new_key :: "oid set \<Rightarrow> oid \<Rightarrow> obj multiset \<Rightarrow> bool" where
  "new_key U i E \<longleftrightarrow> i \<in> U \<and> i \<notin> key_set E \<and> i \<notin> parents E"

lemma new_key_no_child: "new_key U i E \<Longrightarrow> no_child i ks E"
  by (auto simp: new_key_def no_child_def parents_def)

definition made :: "bool \<Rightarrow> oid set \<Rightarrow> obj multiset \<Rightarrow> kind \<Rightarrow> oid option \<Rightarrow> (string + oid) \<Rightarrow> 'o wayland \<Rightarrow> bool" where
  "made Q U E k p res d \<longleftrightarrow>
     (case res of
        Inl e \<Rightarrow> tracks Q U E d
      | Inr i \<Rightarrow> tracks (Q \<and> new_key U i E) U (add_mset (i, k, p, False) E) d)"

lemma tracks_new:
  assumes "wl_new co r d = (res, d')" "tracks Q U E d"
    and "\<And>i. Q \<Longrightarrow> ready U (r i) E" "\<And>i. makes (r i) = Some (i, k, p)"
    and "\<And>i. makes_other (r i) = None" "\<And>i. ends (r i) = None" "\<And>i. acknowledged (r i) = None"
    and "Q \<Longrightarrow> set_option p \<subseteq> key_set E"
  shows "made Q U E k p res d'"
proof -
  obtain m where m: "watch_all (l_log d) new_monitor = Some m" "m_closed m \<or> Q \<and> agrees U E m (l_ids d)"
    using assms(2) by (auto simp: tracks_def)
  have open_case: "r i \<noteq> Connection CloseContext" for i using assms(4) [of i] by auto
  show ?thesis
  proof (cases "l_ids d")
    case Nil
    then show ?thesis using assms(1,2) by (auto simp: wl_new_def made_def)
  next
    case (Cons i ids)
    obtain e where e: "wc_fails co (l_log d) (r i) = e" by simp
    have d': "l_log d' = l_log d @ [if e = None then Wrote (r i) else Failed (r i)]" "l_ids d' = ids"
      "res = (case e of None \<Rightarrow> Inr i | Some x \<Rightarrow> Inl x)"
      using assms(1) Cons e by (auto simp: wl_new_def wl_write_def split: option.splits)
    show ?thesis
    proof (cases "m_closed m")
      case True
      then show ?thesis using m d' by (auto simp: tracks_def made_def watch_all_append split: option.split)
    next
      case False
      then have ok: "Q" "agrees U E m (l_ids d)" using m by simp_all
      have new: "i \<notin> set (m_seen m)" "i \<in> U" using ok(2) Cons by (auto simp: agrees_def)
      then have allowed: "allowed (r i) m"
        using ready_allowed [OF assms(3) [OF ok(1)] ok(2)] assms(4,5) by simp
      have fresh: "new_key U i E" using new ok(2) by (auto simp: new_key_def agrees_def)
      have "agrees U E (not_written (r i) m) ids"
        using ok(2) Cons assms(6) by (auto simp: agrees_def not_written_def drop_ended_def)
      moreover have "agrees U (add_mset (i, k, p, False) E) (written (r i) m) ids"
        using ok(2) Cons assms(4-7) assms(8) [OF ok(1)] new
        by (auto simp: agrees_def written_def drop_ended_def Let_def)
      ultimately show ?thesis
        using m(1) d' False allowed fresh ok(1) open_case [of i]
        by (cases e) (auto simp: tracks_def made_def watch_all_append written_def not_written_def Let_def)
    qed
  qed
qed

text \<open>An object of the connection, which is not followed.\<close>

lemma tracks_new_other:
  assumes "wl_new co r d = (res, d')" "tracks Q U E d"
    and "\<And>i. makes_other (r i) = Some i" "\<And>i. makes (r i) = None" "\<And>i. ends (r i) = None"
      "\<And>i. acknowledged (r i) = None" "\<And>i. uses (r i) = []" "\<And>i. lonely (r i) = None"
      "\<And>i. r i \<noteq> Connection CloseContext"
  shows "tracks Q U E d'"
proof -
  obtain m where m: "watch_all (l_log d) new_monitor = Some m" "m_closed m \<or> Q \<and> agrees U E m (l_ids d)"
    using assms(2) by (auto simp: tracks_def)
  show ?thesis
  proof (cases "l_ids d")
    case Nil
    then show ?thesis using assms(1,2) by (auto simp: wl_new_def)
  next
    case (Cons i ids)
    obtain e where e: "wc_fails co (l_log d) (r i) = e" by simp
    have d': "l_log d' = l_log d @ [if e = None then Wrote (r i) else Failed (r i)]" "l_ids d' = ids"
      using assms(1) Cons e by (auto simp: wl_new_def wl_write_def split: option.splits)
    show ?thesis
    proof (cases "m_closed m")
      case True
      then show ?thesis using m d' by (auto simp: tracks_def watch_all_append split: option.split)
    next
      case False
      then have ok: "Q" "agrees U E m (l_ids d)" using m by simp_all
      have "attach_ok (r i) m" using assms(7) [of i] by (cases "r i") auto
      then have allowed: "allowed (r i) m"
        using ok(2) Cons assms(3) [of i] assms(4) [of i] assms(7) [of i] assms(8) [of i]
        by (auto simp: allowed_def agrees_def)
      have "agrees U E (not_written (r i) m) ids"
        using ok(2) Cons assms(5) by (auto simp: agrees_def not_written_def drop_ended_def)
      moreover have "agrees U E (written (r i) m) ids"
        using ok(2) Cons assms(3-6) by (auto simp: agrees_def written_def drop_ended_def Let_def)
      ultimately show ?thesis
        using m(1) d' False allowed ok(1) assms(9) [of i]
        by (cases e) (auto simp: tracks_def watch_all_append)
    qed
  qed
qed

end
