(* ===== verification/Wayland_Client.thy ===== *)
theory Wayland_Client
  imports Wayland_Display Client_Registry
begin

text \<open>
  The client on the Wayland backend.  \<open>wayland_env\<close> puts the operations of the backend where the
  client expects those of a display, over an environment \<open>base\<close> for the rest, whose state is
  \<open>l_others\<close>.  There are no window manager states and no bell.  Every operation changes the
  log and the fields of its own; only two open and close windows.
\<close>

definition on_wl_others :: "('o \<Rightarrow> 'r \<times> 'o) \<Rightarrow> 'o wayland \<Rightarrow> 'r \<times> 'o wayland" where
  "on_wl_others f d = (case f (l_others d) of (r, rest) \<Rightarrow> (r, d\<lparr>l_others := rest\<rparr>))"

definition wl_Bell :: "'o wayland \<Rightarrow> 'o wayland" where
  "wl_Bell d = d"

definition wayland_env :: "compositor \<Rightarrow> 'o env \<Rightarrow> 'o wayland env" where
  "wayland_env co base =
     \<lparr>BackwardsCompatible = BackwardsCompatible base,
      NewWindow = wl_NewWindow co,
      win_Geometry = wl_Geometry,
      win_SetTitle = wl_SetTitle co,
      win_SetIcon = wl_SetIcon co,
      win_Map = wl_Map co,
      win_Raise = wl_Raise,
      win_Minimize = wl_Minimize co,
      win_Destroy = wl_Destroy co,
      win_MoveResize = wl_MoveResize co,
      win_Resized = wl_Resized co,
      win_Paint = wl_Paint co,
      win_SetState = None,
      disp_Bell = (\<lambda>percent pitch duration name. wl_Bell),
      disp_SetCursor = wl_SetCursor co,
      clip_SetText = wl_SetText co,
      WindowStates = (\<lambda>d. None),
      DesktopSize = (\<lambda>d. Some (wl_DesktopSize d)),
      Monitors = (\<lambda>d. Some (wl_Monitors d)),
      decode_config = decode_config base,
      decode_pixels = decode_pixels base,
      paint_time = (\<lambda>d. paint_time base (l_others d)),
      Getenv = Getenv base,
      Hostname = Hostname base,
      ReadFile = ReadFile base,
      os_Remove = os_Remove base,
      rand_Read = (\<lambda>n. on_wl_others (rand_Read base n)),
      hmac_sha256 = hmac_sha256 base,
      sha256 = sha256 base,
      ask_password = (\<lambda>s. on_wl_others (ask_password base s))\<rparr>"

section \<open>What an operation changes\<close>

text \<open>Requests are written and identifiers taken; or the process has panicked.\<close>

definition kept :: "'o wayland \<Rightarrow> 'o wayland" where
  "kept d = d\<lparr>l_log := [], l_ids := [], l_panicked := False\<rparr>"

definition log_only :: "'o wayland \<Rightarrow> 'o wayland \<Rightarrow> bool" where
  "log_only d d' \<longleftrightarrow> kept d' = kept d \<and> (\<exists>n. l_ids d' = drop n (l_ids d))"

lemma kept_simps [simp]:
  "kept (d\<lparr>l_log := log\<rparr>) = kept d" "kept (d\<lparr>l_ids := ids\<rparr>) = kept d" "kept (d\<lparr>l_panicked := p\<rparr>) = kept d"
  by (simp_all add: kept_def)

lemma log_only_refl [simp]: "log_only d d"
  by (auto simp: log_only_def intro: exI [of _ 0])

lemma log_only_trans: "log_only d d' \<Longrightarrow> log_only d' d'' \<Longrightarrow> log_only d d''"
  by (auto simp: log_only_def)

lemma log_only_same: "kept d' = kept d \<Longrightarrow> l_ids d' = l_ids d \<Longrightarrow> log_only d d'"
  by (auto simp: log_only_def intro: exI [of _ 0])

lemma log_only_write: "wl_write co r d1 = (e, d2) \<Longrightarrow> log_only d d1 \<Longrightarrow> log_only d d2"
  by (erule log_only_trans) (auto simp: wl_write_def intro: log_only_same split: option.splits)

lemma log_only_new: "wl_new co r d1 = (res, d2) \<Longrightarrow> log_only d d1 \<Longrightarrow> log_only d d2"
proof (erule log_only_trans)
  have "log_only d1 (d1\<lparr>l_ids := ids\<rparr>)" if "l_ids d1 = i # ids" for i ids
    using that by (auto simp: log_only_def intro: exI [of _ 1])
  then show "wl_new co r d1 = (res, d2) \<Longrightarrow> log_only d1 d2"
    by (auto simp: wl_new_def split: list.splits prod.splits option.splits dest!: log_only_write)
qed

lemma log_only_send [simp]: "log_only d d1 \<Longrightarrow> log_only d (wl_send co r d1)"
  unfolding wl_send_def by (rule log_only_write [OF prod.collapse [symmetric]])

lemma log_only_send_if [simp]: "log_only d d1 \<Longrightarrow> log_only d (send_if co r i d1)"
  by (simp add: send_if_def split: option.split)

lemma log_only_panicked [simp]: "log_only d d1 \<Longrightarrow> log_only d (d1\<lparr>l_panicked := True\<rparr>)"
  by (erule log_only_trans) (rule log_only_same, simp_all)

lemma log_only_all_steps:
  "(\<And>f d1. f \<in> set fs \<Longrightarrow> log_only d d1 \<Longrightarrow> log_only d (snd (f d1))) \<Longrightarrow> log_only d d1 \<Longrightarrow>
   all_steps fs d1 = (e, d2) \<Longrightarrow> log_only d d2"
  by (induction fs arbitrary: d1 e d2) (auto split: prod.splits option.splits, (metis snd_conv)+)

lemma log_only_steps:
  "(\<And>f d1. f \<in> set fs \<Longrightarrow> log_only d d1 \<Longrightarrow> log_only d (snd (f d1))) \<Longrightarrow> log_only d d1 \<Longrightarrow>
   steps fs d1 = (e, d2) \<Longrightarrow> log_only d d2"
  by (induction fs arbitrary: d1 e d2) (auto split: prod.splits option.splits, (metis snd_conv)+)

lemma log_only_snd_write [simp]: "log_only d d1 \<Longrightarrow> log_only d (snd (wl_write co r d1))"
  by (rule log_only_write [OF prod.collapse [symmetric]])

lemma log_only_fields:
  assumes "log_only d d'"
  shows "l_windows d' = l_windows d" "l_lastToplevel d' = l_lastToplevel d" "l_pointerOver d' = l_pointerOver d"
    "l_keyboardFocus d' = l_keyboardFocus d" "l_pointer d' = l_pointer d" "l_keyboard d' = l_keyboard d"
    "l_cursorSurface d' = l_cursorSurface d" "l_shown d' = l_shown d" "l_ownedCursor d' = l_ownedCursor d"
    "l_theme d' = l_theme d" "l_clipboard d' = l_clipboard d" "l_done d' = l_done d"
proof -
  have k: "kept d' = kept d" using assms by (simp add: log_only_def)
  show "l_windows d' = l_windows d" using arg_cong [OF k, of l_windows] by (simp add: kept_def)
  show "l_lastToplevel d' = l_lastToplevel d" using arg_cong [OF k, of l_lastToplevel] by (simp add: kept_def)
  show "l_pointerOver d' = l_pointerOver d" using arg_cong [OF k, of l_pointerOver] by (simp add: kept_def)
  show "l_keyboardFocus d' = l_keyboardFocus d" using arg_cong [OF k, of l_keyboardFocus] by (simp add: kept_def)
  show "l_pointer d' = l_pointer d" using arg_cong [OF k, of l_pointer] by (simp add: kept_def)
  show "l_keyboard d' = l_keyboard d" using arg_cong [OF k, of l_keyboard] by (simp add: kept_def)
  show "l_cursorSurface d' = l_cursorSurface d" using arg_cong [OF k, of l_cursorSurface] by (simp add: kept_def)
  show "l_shown d' = l_shown d" using arg_cong [OF k, of l_shown] by (simp add: kept_def)
  show "l_ownedCursor d' = l_ownedCursor d" using arg_cong [OF k, of l_ownedCursor] by (simp add: kept_def)
  show "l_theme d' = l_theme d" using arg_cong [OF k, of l_theme] by (simp add: kept_def)
  show "l_clipboard d' = l_clipboard d" using arg_cong [OF k, of l_clipboard] by (simp add: kept_def)
  show "l_done d' = l_done d" using arg_cong [OF k, of l_done] by (simp add: kept_def)
qed

section \<open>Windows\<close>

lemma damage_log: "log_only d d1 \<Longrightarrow> log_only d (damage co x y width height w d1)"
proof -
  assume l: "log_only d d1"
  have "log_only d (snd (all_steps (map (wl_write co) rs) d1))" for rs
    by (rule log_only_all_steps [OF _ l prod.collapse [symmetric]]) auto
  from this [of "[Surface s (Attach b), Surface s (DamageBuffer dx dy dw dh), Surface s Commit]" for s b dx dy dw dh]
  show ?thesis using l by (simp add: damage_def split: option.split)
qed

lemma present_log [simp]: "log_only d d1 \<Longrightarrow> log_only d (present co w d1)"
  by (simp add: present_def damage_log)

lemma setGeometry_log [simp]: "log_only d d1 \<Longrightarrow> log_only d (setGeometry co w d1)"
  by (simp add: setGeometry_def split: option.split)

lemma releaseBuffer_log: "releaseBuffer co (w, d1) = (w', d2) \<Longrightarrow> log_only d d1 \<Longrightarrow> log_only d d2"
  by (auto simp: releaseBuffer_def)

lemma newBuffer_log: "newBuffer co width height (w, d1) = (e, w', d2) \<Longrightarrow> log_only d d1 \<Longrightarrow> log_only d d2"
  by (auto simp: newBuffer_def Let_def split: sum.splits prod.splits
      dest!: log_only_new [where d = d] releaseBuffer_log [where d = d])

lemma requestDecoration_log: "requestDecoration co t (w, d1) = (w', d2) \<Longrightarrow> log_only d d1 \<Longrightarrow> log_only d d2"
  by (auto simp: requestDecoration_def split: if_splits sum.splits prod.splits dest!: log_only_new [where d = d])

lemma createToplevel_log: "createToplevel co xdg (w, d1) = (e, w', d2) \<Longrightarrow> log_only d d1 \<Longrightarrow> log_only d d2"
  by (auto simp: createToplevel_def w_new_def w_write_def context_error_def
      split: option.splits sum.splits prod.splits
      dest!: log_only_new [where d = d] log_only_write [where d = d] requestDecoration_log [where d = d])

lemma placing_log:
  "all_steps [wl_write co r1, wl_write co r2, wl_write co r3, wl_write co r4, wl_write co r5] d1 = (e, d2) \<Longrightarrow>
   log_only d d1 \<Longrightarrow> log_only d d2"
  by (erule log_only_all_steps [rotated 2]) (auto simp del: all_steps.simps)

lemma createPopup_log: "createPopup co xdg (w, d1) = (e, w', d2) \<Longrightarrow> log_only d d1 \<Longrightarrow> log_only d d2"
  by (auto simp: createPopup_def simp del: all_steps.simps split: option.splits sum.splits prod.splits
      dest!: log_only_new [where d = d] placing_log [where d = d] dest: createToplevel_log)

lemma create_window_log:
  assumes "create_window co (w, d1) = (e, w', d2)" "log_only d d1"
  shows "log_only d d2"
  using assms
  by (auto simp: create_window_def w_new_def w_write_def context_error_def
      split: option.splits sum.splits prod.splits if_splits
      dest!: log_only_new [where d = d] log_only_write [where d = d] newBuffer_log [where d = d]
        createToplevel_log [where d = d] createPopup_log [where d = d])

lemma destroy_window_log: "log_only d d1 \<Longrightarrow> log_only d (snd (destroy_window co (w, d1)))"
  by (simp add: destroy_window_def releaseBuffer_def)

lemma take_geometry_log:
  "take_geometry co x y width height shows (w, d1) = (e, w', d2) \<Longrightarrow> log_only d d1 \<Longrightarrow> log_only d d2"
  by (auto simp: take_geometry_def Let_def split: prod.splits option.splits if_splits dest!: newBuffer_log [where d = d])

lemma set_icon_log: "set_icon co t s owned d1 = (e, d2) \<Longrightarrow> log_only d d1 \<Longrightarrow> log_only d d2"
  by (auto simp: set_icon_def context_error_def split: prod.splits option.splits sum.splits
      dest!: log_only_new [where d = d] log_only_write [where d = d])

lemma release_pixels_log [simp]: "log_only d d1 \<Longrightarrow> log_only d (release_pixels co p d1)"
  by (simp add: release_pixels_def)

lemma new_pixels_log: "new_pixels co memory n width height a b d1 = (r, d2) \<Longrightarrow> log_only d d1 \<Longrightarrow> log_only d d2"
  by (auto simp: new_pixels_def split: prod.splits sum.splits dest!: log_only_new [where d = d])

lemma icon_buffer_log: "newWindowIconBuffer co img d1 = (r, d2) \<Longrightarrow> log_only d d1 \<Longrightarrow> log_only d d2"
  by (auto simp: newWindowIconBuffer_def Let_def split: sum.splits dest!: new_pixels_log [where d = d])

lemma newBuffer_surface: "newBuffer co width height (w, d) = (e, w', d') \<Longrightarrow> ww_surface w' = ww_surface w"
  by (auto simp: newBuffer_def releaseBuffer_def Let_def split: sum.splits prod.splits)

lemma requestDecoration_surface: "requestDecoration co t (w, d) = (w', d') \<Longrightarrow> ww_surface w' = ww_surface w"
  by (auto simp: requestDecoration_def split: if_splits sum.splits prod.splits)

lemma createToplevel_surface: "createToplevel co xdg (w, d) = (e, w', d') \<Longrightarrow> ww_surface w' = ww_surface w"
  by (auto simp: createToplevel_def w_new_def w_write_def context_error_def
      split: option.splits sum.splits prod.splits dest!: requestDecoration_surface)

lemma created_surface:
  "(if popup then createPopup co xdg else createToplevel co xdg) (w, d) = (e, w', d') \<Longrightarrow>
   ww_surface w' = ww_surface w"
  by (auto simp: createPopup_def split: option.splits sum.splits prod.splits if_splits dest: createToplevel_surface)

lemma create_window_rest:
  assumes "create_window co (w, d) = (e, w', d')" "wl_new co CreateSurface d = (Inr s, d1)"
  shows "log_only d0 d1 \<Longrightarrow> log_only d0 d'" and "ww_surface w' = Some s"
proof -
  show "log_only d0 d1 \<Longrightarrow> log_only d0 d'"
    using assms
    by (auto simp: create_window_def w_new_def w_write_def context_error_def
        split: option.splits sum.splits prod.splits if_splits
        dest!: log_only_new [where d = d0] log_only_write [where d = d0] newBuffer_log [where d = d0]
          createToplevel_log [where d = d0] createPopup_log [where d = d0])
  show "ww_surface w' = Some s"
    using assms
    by (auto simp: create_window_def w_new_def w_write_def context_error_def
        split: option.splits sum.splits prod.splits if_splits
        dest!: newBuffer_surface created_surface [where popup = True, simplified] createToplevel_surface)
qed

lemma create_window_shape:
  assumes "create_window co (w, d) = (e, w', d')" "ww_surface w = None"
  shows "ww_surface w' = None \<and> e \<noteq> None \<or>
    (\<exists>s ids d1. ww_surface w' = Some s \<and> l_ids d = s # ids \<and> l_ids d1 = ids \<and> kept d1 = kept d \<and> log_only d1 d')"
proof -
  obtain res d1 where n1: "wl_new co CreateSurface d = (res, d1)" by fastforce
  show ?thesis
  proof (cases res)
    case (Inl x)
    then show ?thesis using assms n1 by (auto simp: create_window_def w_new_def context_error_def)
  next
    case (Inr s)
    have ids: "l_ids d = s # l_ids d1" "kept d1 = kept d"
      using n1 Inr by (auto simp: wl_new_def wl_write_def split: list.splits option.splits)
    have "log_only d1 d'" "ww_surface w' = Some s"
      using create_window_rest [OF assms(1)] n1 Inr by simp_all
    then show ?thesis using ids by blast
  qed
qed

section \<open>Live windows\<close>

definition wl_live :: "'o wayland \<Rightarrow> window_id set" where
  "wl_live d = ID ` dom (map_of (l_windows d))"

definition wl_fresh :: "'o wayland \<Rightarrow> bool" where
  "wl_fresh d \<longleftrightarrow> distinct (l_ids d) \<and> set (l_ids d) \<inter> dom (map_of (l_windows d)) = {}"

text \<open>The state of the display changes between the client's operations by handling a message.\<close>

definition wl_moves :: "compositor \<Rightarrow> 'o wayland \<Rightarrow> 'o wayland \<Rightarrow> bool" where
  "wl_moves co d d' \<longleftrightarrow> (\<exists>e. d' = snd (dispatch co e d))"

definition wl_calm :: "'o wayland \<Rightarrow> 'o wayland \<Rightarrow> bool" where
  "wl_calm d d' \<longleftrightarrow>
     (\<exists>n. l_ids d' = drop n (l_ids d)) \<and> dom (map_of (l_windows d')) = dom (map_of (l_windows d))"

lemma wl_calm_trans: "wl_calm d d' \<Longrightarrow> wl_calm d' d'' \<Longrightarrow> wl_calm d d''"
  by (auto simp: wl_calm_def)

lemma wl_calm_same: "l_ids d' = l_ids d \<Longrightarrow> l_windows d' = l_windows d \<Longrightarrow> wl_calm d d'"
  by (auto simp: wl_calm_def intro: exI [of _ 0])

lemma wl_calm_refl [simp]: "wl_calm d d"
  by (rule wl_calm_same) simp_all

lemma log_only_calm: "log_only d d' \<Longrightarrow> wl_calm d d'"
  using log_only_fields(1) [of d d'] by (simp add: wl_calm_def) (simp add: log_only_def)

lemma wl_calm_fresh: "wl_calm d d' \<Longrightarrow> wl_fresh d \<Longrightarrow> wl_fresh d' \<and> wl_live d' = wl_live d"
  using set_drop_subset by (fastforce simp: wl_calm_def wl_fresh_def wl_live_def)

lemma wl_calm_keeps: "(\<And>d. wl_calm d (f d)) \<Longrightarrow> keeps_windows wl_fresh wl_live f"
  unfolding keeps_windows_def using wl_calm_fresh by blast

lemma put_window_calm: "map_of (l_windows d) s \<noteq> None \<Longrightarrow> wl_calm d (put_window s w d)"
  by (auto simp: wl_calm_def put_window_def update_conv' intro: exI [of _ 0])

lemma put_window_after:
  "wl_calm d d' \<Longrightarrow> map_of (l_windows d) s \<noteq> None \<Longrightarrow> wl_calm d (put_window s w d')"
  using put_window_calm [of d' s w] by (auto simp: wl_calm_def put_window_def update_conv' domIff)

lemma live_window_Some: "live_window i d = Some w \<longleftrightarrow> ID (xid_of i) = i \<and> map_of (l_windows d) (xid_of i) = Some w"
  by (simp add: live_window_def)

lemma on_wl_window_calm:
  assumes "\<And>w e w' d'. f (xid_of i) (w, d) = (e, w', d') \<Longrightarrow> log_only d d'"
  shows "wl_calm d (snd (on_wl_window i f d))"
  using assms
  by (auto simp: on_wl_window_def live_window_Some split: option.split prod.split
      intro!: put_window_after dest!: log_only_calm)

lemma wl_SetIcon_log: "wl_SetIcon co i img d = (e, d') \<Longrightarrow> log_only d d'"
  by (auto simp: wl_SetIcon_def context_error_def split: option.splits prod.splits sum.splits if_splits
      dest!: icon_buffer_log [where d = d] set_icon_log [where d = d] log_only_write [where d = d])

lemma window_ops_wl_calm:
  "wl_calm d (wl_SetTitle co i title d)"
  "wl_calm d (snd (wl_SetIcon co i icon d))"
  "wl_calm d (wl_Map co i d)"
  "wl_calm d (wl_Raise i d)"
  "wl_calm d (wl_Minimize co i b d)"
  "wl_calm d (snd (wl_MoveResize co i x y width height d))"
  "wl_calm d (snd (wl_Resized co i x y width height d))"
  "wl_calm d (snd (wl_Paint co i x y width height px stride fmt d))"
proof -
  show "wl_calm d (wl_SetTitle co i title d)" "wl_calm d (wl_Minimize co i b d)"
    by (auto simp: wl_SetTitle_def wl_Minimize_def intro!: log_only_calm split: option.split)
  show "wl_calm d (snd (wl_SetIcon co i icon d))"
    using wl_SetIcon_log log_only_calm by (metis prod.collapse)
  show "wl_calm d (wl_Raise i d)" by (simp add: wl_Raise_def)
  show "wl_calm d (wl_Map co i d)"
  proof (cases "live_window i d")
    case (Some w)
    have "wl_calm d1 (present co w1 d1)" for w1 and d1 :: "'a wayland"
      by (rule log_only_calm) simp
    moreover have "wl_calm d (put_window (xid_of i) w1 d)" for w1
      using Some by (intro put_window_calm) (simp add: live_window_Some)
    moreover have "wl_calm d1 (d1\<lparr>l_lastToplevel := p\<rparr>)" for p and d1 :: "'a wayland"
      by (rule wl_calm_same) simp_all
    ultimately show ?thesis
      using Some by (simp add: wl_Map_def Let_def) (meson wl_calm_trans)
  qed (simp add: wl_Map_def)
  show "wl_calm d (snd (wl_MoveResize co i x y width height d))"
    "wl_calm d (snd (wl_Resized co i x y width height d))"
    unfolding wl_MoveResize_def wl_Resized_def
    by (rule on_wl_window_calm, erule take_geometry_log, simp)+
  show "wl_calm d (snd (wl_Paint co i x y width height px stride fmt d))"
    unfolding wl_Paint_def
    by (rule on_wl_window_calm)
      (auto simp: Let_def damage_log split: option.splits prod.splits if_splits converted.splits)
qed

section \<open>Opening and closing windows\<close>

lemma destroy_snd_log: "log_only d1 (snd (destroy_window co (w, d1)))"
  by (rule destroy_window_log) simp

lemma wl_NewWindow_shape:
  assumes "wl_NewWindow co x y width height ovr d = (r, d')"
  shows "r = None \<and> wl_calm d d' \<or>
    (\<exists>s ids w d1. l_ids d = s # ids \<and> r = Some (ID s) \<and> wl_calm (d\<lparr>l_ids := ids\<rparr>) d1 \<and> d' = put_window s w d1)"
proof -
  let ?cl = "ClampSize width height"
  let ?w = "new_wl_window x y (fst ?cl) (snd ?cl) ovr"
  obtain e w d1 where c: "create_window co (?w, d) = (e, w, d1)" by (cases "create_window co (?w, d)") auto
  have shape: "ww_surface w = None \<and> e \<noteq> None \<or>
    (\<exists>s ids d2. ww_surface w = Some s \<and> l_ids d = s # ids \<and> l_ids d2 = ids \<and> kept d2 = kept d \<and> log_only d2 d1)"
    by (rule create_window_shape [OF c]) (simp add: new_wl_window_def)
  have log: "log_only d d1" by (rule create_window_log [OF c]) simp
  show ?thesis
  proof (cases e)
    case (Some x)
    then have "r = None" "d' = snd (destroy_window co (w, d1))"
      using assms c by (auto simp: wl_NewWindow_def split: prod.splits)
    then show ?thesis using log_only_calm [OF log_only_trans [OF log destroy_snd_log]] by blast
  next
    case None
    then obtain s ids d2 where s: "ww_surface w = Some s" "l_ids d = s # ids" "l_ids d2 = ids"
      "kept d2 = kept d" "log_only d2 d1" using shape by auto
    have "r = Some (ID s)" "d' = put_window s w d1"
      using assms c None s by (auto simp: wl_NewWindow_def split: prod.splits)
    moreover have "log_only (d\<lparr>l_ids := ids\<rparr>) d2" using s by (intro log_only_same) simp_all
    then have "wl_calm (d\<lparr>l_ids := ids\<rparr>) d1" using log_only_trans s(5) log_only_calm by blast
    ultimately show ?thesis using s(2) by blast
  qed
qed

lemma wl_NewWindow_fresh:
  assumes "wl_fresh d" "wl_NewWindow co x y width height ovr d = (Some i, d')"
  shows "wl_fresh d' \<and> i \<notin> wl_live d \<and> wl_live d' = insert i (wl_live d)"
proof -
  obtain s ids w d1 where *: "l_ids d = s # ids" "i = ID s" "wl_calm (d\<lparr>l_ids := ids\<rparr>) d1" "d' = put_window s w d1"
    using wl_NewWindow_shape [OF assms(2)] by auto
  obtain n where ids: "l_ids d1 = drop n ids" and dom: "dom (map_of (l_windows d1)) = dom (map_of (l_windows d))"
    using *(3) by (auto simp: wl_calm_def)
  have new: "s \<notin> dom (map_of (l_windows d))" "distinct (drop n ids)" "s \<notin> set (drop n ids)"
    "set (drop n ids) \<inter> dom (map_of (l_windows d)) = {}"
    using assms(1) *(1) set_drop_subset [of n ids] by (auto simp: wl_fresh_def)
  have dom': "dom (map_of (l_windows d')) = insert s (dom (map_of (l_windows d)))"
    using dom by (simp add: *(4) put_window_def update_conv')
  then show ?thesis using new ids *(2) unfolding wl_fresh_def wl_live_def dom'
    by (auto simp: *(4) put_window_def)
qed

lemma wl_NewWindow_refused:
  "wl_fresh d \<Longrightarrow> wl_NewWindow co x y width height ovr d = (None, d') \<Longrightarrow> wl_fresh d' \<and> wl_live d' = wl_live d"
  using wl_NewWindow_shape [of co x y width height ovr d None d'] wl_calm_fresh by auto

lemma wl_Destroy_live:
  assumes "wl_fresh d"
  shows "wl_fresh (wl_Destroy co i d) \<and> wl_live (wl_Destroy co i d) = wl_live d - {i}"
proof (cases "live_window i d")
  case None
  then have "i \<notin> wl_live d" by (auto simp: wl_live_def live_window_def)
  then show ?thesis using assms None by (simp add: wl_Destroy_def)
next
  case (Some w)
  then have i: "i = ID (xid_of i)" by (simp add: live_window_Some)
  let ?d = "d\<lparr>l_windows := AList.delete (xid_of i) (l_windows d),
            l_lastToplevel := unpoint (xid_of i) (l_lastToplevel d),
            l_pointerOver := unpoint (xid_of i) (l_pointerOver d),
            l_keyboardFocus := unpoint (xid_of i) (l_keyboardFocus d)\<rparr>"
  have calm: "wl_calm ?d (wl_Destroy co i d)"
    using Some log_only_calm [OF destroy_snd_log] by (simp add: wl_Destroy_def)
  have "dom (map_of (l_windows ?d)) = dom (map_of (l_windows d)) - {xid_of i}"
    by (simp add: delete_conv')
  then have "wl_fresh ?d" "wl_live ?d = wl_live d - {i}"
    using assms i by (auto simp: wl_fresh_def wl_live_def)
  then show ?thesis using wl_calm_fresh [OF calm] by simp
qed

section \<open>The seat\<close>

lemma calm_fields [simp]:
  "wl_calm d (d1\<lparr>l_shown := a\<rparr>) = wl_calm d d1" "wl_calm d (d1\<lparr>l_cursorSurface := a1\<rparr>) = wl_calm d d1"
  "wl_calm d (d1\<lparr>l_theme := a2\<rparr>) = wl_calm d d1" "wl_calm d (d1\<lparr>l_themeMissing := a3\<rparr>) = wl_calm d d1"
  "wl_calm d (d1\<lparr>l_ownedCursor := a4\<rparr>) = wl_calm d d1" "wl_calm d (d1\<lparr>l_clipboard := a5\<rparr>) = wl_calm d d1"
  "wl_calm d (d1\<lparr>l_inputSerial := a6\<rparr>) = wl_calm d d1" "wl_calm d (d1\<lparr>l_done := a7\<rparr>) = wl_calm d d1"
  "wl_calm d (d1\<lparr>l_pointer := a8\<rparr>) = wl_calm d d1" "wl_calm d (d1\<lparr>l_keyboard := a9\<rparr>) = wl_calm d d1"
  by (simp_all add: wl_calm_def)

lemma put_clipboard_calm [simp]: "wl_calm d (put_clipboard c d1) = wl_calm d d1"
  by (simp add: put_clipboard_def)

lemma calm_log: "log_only d1 d2 \<Longrightarrow> wl_calm d d1 \<Longrightarrow> wl_calm d d2"
  using log_only_calm wl_calm_trans by blast

lemma calm_send [simp]: "wl_calm d d1 \<Longrightarrow> wl_calm d (wl_send co r d1)"
  by (rule calm_log [of d1]) simp_all

lemma calm_send_if [simp]: "wl_calm d d1 \<Longrightarrow> wl_calm d (send_if co r i d1)"
  by (rule calm_log [of d1]) simp_all

lemma calm_new: "wl_new co r d1 = (res, d2) \<Longrightarrow> wl_calm d d1 \<Longrightarrow> wl_calm d d2"
  using log_only_new [of co r d1 res d2 d1] calm_log by auto

lemma calm_write: "wl_write co r d1 = (e, d2) \<Longrightarrow> wl_calm d d1 \<Longrightarrow> wl_calm d d2"
  using log_only_write [of co r d1 e d2 d1] calm_log by auto

lemma calm_release_pixels [simp]: "wl_calm d d1 \<Longrightarrow> wl_calm d (release_pixels co p d1)"
  by (rule calm_log [of d1]) simp_all

lemma calm_release_owned [simp]: "wl_calm d d1 \<Longrightarrow> wl_calm d (release_owned co p d1)"
  by (simp add: release_owned_def split: option.split)

lemma writes_log:
  "all_steps (map (wl_write co) rs) d1 = (e, d2) \<Longrightarrow> log_only d1 d2"
  by (erule log_only_all_steps [rotated 2]) auto

lemma show_pixels_calm: "show_pixels co surface c d1 = (e, d2) \<Longrightarrow> wl_calm d d1 \<Longrightarrow> wl_calm d d2"
proof (cases "l_pointer d1")
  case (Some pointer)
  assume r: "show_pixels co surface c d1 = (e, d2)" and d1: "wl_calm d d1"
  let ?rs = "[Surface surface (Attach (sc_buffer c)),
     Surface surface (DamageBuffer 0 0 (ucast (sc_width c)) (ucast (sc_height c))), Surface surface Commit,
     Seat (SetPointerCursor pointer (l_enterSerial d1) surface (ucast (sc_hotspotX c)) (ucast (sc_hotspotY c)))]"
  obtain e' d' where st: "all_steps (map (wl_write co) ?rs) d1 = (e', d')" by fastforce
  have "wl_calm d d'" using calm_log [OF writes_log [OF st] d1] .
  moreover have "d2 = d' \<or> d2 = d'\<lparr>l_shown := Some c\<rparr>"
    using r st Some by (cases e') (auto simp: show_pixels_def context_error_def simp del: all_steps.simps)
  ultimately show ?thesis by auto
qed (simp add: show_pixels_def)

lemma showCursor_calm: "showCursor co c d1 = (e, d2) \<Longrightarrow> wl_calm d d1 \<Longrightarrow> wl_calm d d2"
  by (auto simp: showCursor_def split: option.splits prod.splits sum.splits
      dest!: calm_new [where d = d] show_pixels_calm [where d = d])

lemma themeCursor_calm: "themeCursor co d1 = (img, d2) \<Longrightarrow> wl_calm d d1 \<Longrightarrow> wl_calm d d2"
  by (auto simp: themeCursor_def split: option.splits if_splits sum.splits)

lemma showThemeCursor_calm: "showThemeCursor co d1 = (e, d2) \<Longrightarrow> wl_calm d d1 \<Longrightarrow> wl_calm d d2"
  by (auto simp: showThemeCursor_def split: option.splits if_splits sum.splits prod.splits
      dest!: themeCursor_calm [where d = d] showCursor_calm [where d = d])

lemma newCursorBuffer_log: "newCursorBuffer co img d1 = (r, d2) \<Longrightarrow> log_only d d1 \<Longrightarrow> log_only d d2"
  by (auto simp: newCursorBuffer_def Let_def split: sum.splits dest!: new_pixels_log [where d = d])

lemma newCursorBuffer_calm: "newCursorBuffer co img d1 = (r, d2) \<Longrightarrow> wl_calm d d1 \<Longrightarrow> wl_calm d d2"
  using newCursorBuffer_log [of co img d1 r d2 d1] calm_log by auto

lemma wl_SetCursor_calm: "wl_SetCursor co img d = (e, d') \<Longrightarrow> wl_calm d d'"
  using wl_calm_refl [of d]
  by (auto simp: wl_SetCursor_def simp del: wl_calm_refl split: option.splits if_splits sum.splits prod.splits
      dest!: showThemeCursor_calm [where d = d] newCursorBuffer_calm [where d = d] showCursor_calm [where d = d])

lemma publish_calm: "publish co c txt d1 = (e, d2) \<Longrightarrow> wl_calm d d1 \<Longrightarrow> wl_calm d d2"
  by (auto simp: publish_def waylandTextMIMEs_def split: option.splits sum.splits prod.splits
      dest!: calm_new [where d = d] calm_write [where d = d])

lemma wl_SetText_calm: "wl_SetText co txt d = (e, d') \<Longrightarrow> wl_calm d d'"
  using wl_calm_refl [of d]
  by (auto simp: wl_SetText_def simp del: wl_calm_refl split: option.splits if_splits dest!: publish_calm [where d = d])

lemma setInputSerial_calm: "wl_calm d d1 \<Longrightarrow> wl_calm d (setInputSerial co serial d1)"
  by (auto simp: setInputSerial_def Let_def split: option.split
      intro!: publish_calm [OF prod.collapse [symmetric]])

lemma restoreCursor_calm: "wl_calm d d1 \<Longrightarrow> wl_calm d (restoreCursor co d1)"
  by (auto simp: restoreCursor_def split: option.split intro!: showCursor_calm [OF prod.collapse [symmetric]])

section \<open>Messages\<close>

lemma ask_offer_log: "ask_offer co offer c d1 = (c', d2) \<Longrightarrow> log_only d d1 \<Longrightarrow> log_only d d2"
  by (auto simp: ask_offer_def Let_def split: if_splits prod.splits option.splits dest!: log_only_write [where d = d])

text \<open>The part of a change of selection that gives up the offer before.\<close>

lemma selection_changed_log:
  assumes "selection_changed co offer c d = (evs, d')"
  shows "d' = d \<or> (\<exists>c' d1. d' = put_clipboard c' d1 \<and> log_only d d1)"
proof (cases "offer = None \<and> lc_source c \<noteq> None")
  case False
  define r where "r = (case lc_offer c of
     Some old \<Rightarrow> if Some old \<noteq> offer then destroy_offer co old c d else (c, d) | None \<Rightarrow> (c, d))"
  have r: "log_only d (snd r)" by (simp add: r_def destroy_offer_def split: option.split)
  have "(evs, d') = (case offer of
       None \<Rightarrow> ([ClipboardChange []], put_clipboard ((fst r)\<lparr>lc_offer := offer\<rparr>) (snd r))
     | Some i \<Rightarrow> (case ask_offer co i ((fst r)\<lparr>lc_offer := offer\<rparr>) (snd r) of (c3, d2) \<Rightarrow> ([], put_clipboard c3 d2)))"
    using assms [symmetric]
    unfolding selection_changed_def if_not_P [OF False] r_def [symmetric] Let_def case_prod_beta .
  then show ?thesis
    using r by (cases offer) (auto split: prod.splits dest: ask_offer_log [OF _ r])
qed (use assms in \<open>simp add: selection_changed_def\<close>)

lemma selection_changed_calm: "wl_calm d (snd (selection_changed co offer c d))"
  using selection_changed_log [OF prod.collapse [symmetric], of co offer c d] log_only_calm by auto

lemma data_handler_calm: "wl_calm d (snd (data_handler co e c d))"
  by (cases "(co, e, c, d)" rule: data_handler.cases)
    (auto simp: selection_changed_calm source_cancelled_def readOffer_def Let_def split: option.split)

lemma calm_if: "wl_calm d d1 \<Longrightarrow> wl_calm d d2 \<Longrightarrow> wl_calm d (if b then d1 else d2)"
  by simp

lemma global_calm: "wl_calm d (global_announced co name iface version d)"
proof -
  have bind: "wl_calm d (bind_global co name iface version ours d1)" if "wl_calm d d1" for ours d1
    using that unfolding bind_global_def by (rule calm_new [OF prod.collapse [symmetric]])
  have same: "wl_calm d (d\<lparr>l_compositor := b\<rparr>)" "wl_calm d (d\<lparr>l_shm := b\<rparr>)" "wl_calm d (d\<lparr>l_wmBase := b\<rparr>)"
    "wl_calm d (d\<lparr>l_decoration := b\<rparr>)" "wl_calm d (d\<lparr>l_iconManager := b\<rparr>)" "wl_calm d (d\<lparr>l_dataManager := b\<rparr>)"
    "wl_calm d (d\<lparr>l_seat := b, l_seatBound := v\<rparr>)" "wl_calm d (d\<lparr>l_outputs := os\<rparr>)" for b v os
    by (simp_all add: wl_calm_same)
  show ?thesis
    unfolding global_announced_def Let_def by (intro calm_if bind same wl_calm_refl)
qed

lemma seatCapabilities_calm: "wl_calm d (seatCapabilities co caps d)"
  by (auto simp: seatCapabilities_def Let_def split: sum.split prod.split
      dest!: calm_new [where d = d])

lemma shutdown_calm: "wl_calm d (wl_shutdown co d)"
  by (auto simp: wl_shutdown_def releaseCursor_def releaseClipboard_def Let_def split: option.split)

lemma pointer_handler_calm: "wl_calm d (snd (pointer_handler co e d))"
proof -
  have at: "wl_calm d (d1\<lparr>l_pointerOver := p, l_pointerX := x, l_pointerY := y, l_enterSerial := n\<rparr>)"
    "wl_calm d (d1\<lparr>l_pointerX := x, l_pointerY := y\<rparr>)" "wl_calm d (d1\<lparr>l_pointerOver := p\<rparr>)"
    if "wl_calm d d1" for d1 p x y n
    using that by (simp_all add: wl_calm_def)
  show ?thesis
    by (cases "(co, e, d)" rule: pointer_handler.cases)
      (auto simp: pointerEnter_def pointerLeave_def pointerMotion_def pointerButton_def Let_def setInputSerial_calm
        intro!: restoreCursor_calm at split: option.split)
qed

lemma keyboard_handler_calm: "wl_calm d (snd (keyboard_handler co e d))"
proof -
  have at: "wl_calm d (d1\<lparr>l_keyboardFocus := p, l_lastToplevel := q\<rparr>)" "wl_calm d (d1\<lparr>l_keyboardFocus := p\<rparr>)"
    "wl_calm d (d1\<lparr>l_keys := k\<rparr>)" "wl_calm d (d1\<lparr>l_mods := m\<rparr>)"
    if "wl_calm d d1" for d1 p q k m
    using that by (simp_all add: wl_calm_def)
  show ?thesis
    by (cases "(co, e, d)" rule: keyboard_handler.cases)
      (auto simp: keyboardKeymap_def keyboardEnter_def keyboardLeave_def keyboardKey_def keyboardModifiers_def Let_def
        setInputSerial_calm intro!: at split: option.split sum.split)
qed

lemma configure_calm: "wl_calm d (configure_window co s serial d)"
proof -
  have "wl_calm d (present co w1 (put_window s w1 d1))"
    if "wl_write co r d = (e, d1)" "map_of (l_windows d) s = Some w" for r e d1 w w1
    by (rule calm_log [of "put_window s w1 d1"], simp)
      (rule put_window_after [OF calm_write [OF that(1)]], simp_all add: that(2))
  then show ?thesis
    by (auto simp: configure_window_def Let_def split: option.split prod.split dest: calm_write [where d = d])
qed

lemma dispatch_calm: "wl_calm d (snd (dispatch co e d))"
proof -
  have at: "wl_calm d (d\<lparr>l_outputs := os\<rparr>)" for os by (simp add: wl_calm_def exI [of _ 0])
  then have "wl_calm d (on_output name f d)" for name f
    by (simp add: on_output_def split: option.split)
  then show ?thesis
    by (cases e) (auto simp: dispatch_def at global_calm seatCapabilities_calm shutdown_calm pointer_handler_calm
        keyboard_handler_calm data_handler_calm configure_calm split: option.split)
qed

section \<open>The rest of the environment\<close>

lemma on_wl_others_calm: "wl_calm d (snd (on_wl_others f d))"
  by (auto simp: on_wl_others_def split: prod.split intro!: wl_calm_same)

lemma wl_SetCursor_snd: "wl_calm d (snd (wl_SetCursor co img d))"
  by (rule wl_SetCursor_calm [OF prod.collapse [symmetric]])

lemma wl_SetText_snd: "wl_calm d (snd (wl_SetText co str d))"
  by (rule wl_SetText_calm [OF prod.collapse [symmetric]])

section \<open>The start\<close>

lemma dispatch_all_calm: "wl_calm d (snd (dispatch_all co es d))"
proof (induction es arbitrary: d)
  case (Cons e es)
  show ?case
    using wl_calm_trans [OF dispatch_calm [of d co e] Cons.IH] by (simp add: case_prod_beta)
qed simp

lemma roundtrip_calm: "roundtrip co r d1 = (e, d2) \<Longrightarrow> wl_calm d d1 \<Longrightarrow> wl_calm d d2"
  by (auto simp: roundtrip_def split: prod.splits sum.splits dest!: calm_new [where d = d]
      intro: wl_calm_trans dispatch_all_calm)

lemma new_wl_clipboard_calm: "wl_calm d d1 \<Longrightarrow> wl_calm d (new_wl_clipboard co d1)"
  by (auto simp: new_wl_clipboard_def split: prod.split sum.split dest!: calm_new [where d = d])

lemma wl_Open_fresh:
  assumes "wl_Open co connecting ids others globals properties = Inr d" "distinct ids"
  shows "wl_fresh d \<and> wl_live d = {}"
proof -
  let ?d0 = "closed_wayland ids others"
  have "wl_calm ?d0 d"
    using assms(1) wl_calm_refl [of ?d0]
    by (auto simp: wl_Open_def simp del: wl_calm_refl intro!: new_wl_clipboard_calm
        split: option.splits prod.splits sum.splits if_splits
        dest!: calm_new [where d = ?d0] roundtrip_calm [where d = ?d0])
  moreover have "wl_fresh ?d0" "wl_live ?d0 = {}"
    using assms(2) by (simp_all add: wl_fresh_def wl_live_def closed_wayland_def)
  ultimately show ?thesis using wl_calm_fresh by blast
qed

end
