(* ===== verification/Wayland_Window_Safe.thy ===== *)
theory Wayland_Window_Safe
  imports Wayland_Protocol Wayland_Client
begin

text \<open>
  Windows keep the rules of the protocol: a window holds its parts, and every operation leaves
  it holding exactly those that exist.
\<close>

section \<open>Parts\<close>

lemma no_xdg_child [simp]: "no_child s [XdgK] E \<Longrightarrow> (j, XdgK, Some s, a) \<notin># E"
  by (auto simp: no_child_def)

lemma part_views [simp]:
  "has (i, k) (part k' p a x) \<longleftrightarrow> x = Some i \<and> k = k'"
  "no_child i ks (part k p a x) \<longleftrightarrow> x = None \<or> p \<noteq> Some i \<or> k \<notin> set ks"
  "key_set (part k p a x) = set_option x"
  "(j, k', q, b) \<in># part k p a x \<longleftrightarrow> x = Some j \<and> k' = k \<and> q = p \<and> b = a"
  by (auto simp: part_def split: option.split)

definition shell_parts :: "wl_window \<Rightarrow> obj multiset" where
  "shell_parts w =
     part DecorationK (ww_toplevel w) False (ww_decoration w) + (part ToplevelK (ww_xdg w) False (ww_toplevel w) +
     (part PopupK (ww_xdg w) False (ww_popup w) + (part XdgK (ww_surface w) (ww_configured w) (ww_xdg w) +
     part SurfaceK None False (ww_surface w))))"

definition buffer_parts :: "wl_window \<Rightarrow> obj multiset" where
  "buffer_parts w = part BufferK None False (ww_buffer w) + part PoolK None False (ww_pool w)"

definition parts :: "wl_window \<Rightarrow> obj multiset" where
  "parts w = shell_parts w + buffer_parts w"

definition sound_window :: "wl_window \<Rightarrow> bool" where
  "sound_window w \<longleftrightarrow> (ww_surface w = None \<longrightarrow> ww_xdg w = None) \<and>
     (ww_xdg w = None \<longrightarrow> ww_toplevel w = None \<and> ww_popup w = None \<and> \<not> ww_configured w) \<and>
     (ww_toplevel w = None \<longrightarrow> ww_decoration w = None)"

text \<open>Nothing outside the window hangs on its parts.\<close>

definition apart :: "wl_window \<Rightarrow> obj multiset \<Rightarrow> bool" where
  "apart w F \<longleftrightarrow> (\<forall>s. ww_surface w = Some s \<longrightarrow> no_child s [XdgK] F) \<and>
     (\<forall>x. ww_xdg w = Some x \<longrightarrow> no_child x [ToplevelK, PopupK] F) \<and>
     (\<forall>t. ww_toplevel w = Some t \<longrightarrow> no_child t [DecorationK] F)"

definition holds :: "bool \<Rightarrow> oid set \<Rightarrow> obj multiset \<Rightarrow> wl_window \<times> 'o wayland \<Rightarrow> bool" where
  "holds P U F = (\<lambda>(w, d). sound_window w \<and> tracks (P \<and> apart w F) U (parts w + F) d)"

lemma holdsI: "sound_window w \<Longrightarrow> tracks (P \<and> apart w F) U (parts w + F) d \<Longrightarrow> holds P U F (w, d)"
  by (simp add: holds_def)

lemma holdsD: "holds P U F (w, d) \<Longrightarrow> sound_window w \<and> tracks (P \<and> apart w F) U (parts w + F) d"
  by (simp add: holds_def)

lemma holds_weaken: "holds P U F s \<Longrightarrow> (P \<Longrightarrow> P') \<Longrightarrow> holds P' U F s"
  by (cases s) (auto simp: holds_def elim!: tracks_weaken)

lemma holds_cong:
  "l_log d' = l_log d \<Longrightarrow> l_ids d' = l_ids d \<Longrightarrow> holds P U F (w, d') = holds P U F (w, d)"
  by (simp add: holds_def tracks_cong [of d' d])

lemma all_steps_inv: "(\<And>f s. f \<in> set fs \<Longrightarrow> I s \<Longrightarrow> I (snd (f s))) \<Longrightarrow> I s \<Longrightarrow> I (snd (all_steps fs s))"
  by (induction fs arbitrary: s) (auto split: prod.splits option.splits, metis snd_conv)

lemma steps_inv: "(\<And>f s. f \<in> set fs \<Longrightarrow> I s \<Longrightarrow> I (snd (f s))) \<Longrightarrow> I s \<Longrightarrow> I (snd (steps fs s))"
  by (induction fs arbitrary: s) (auto split: prod.splits option.splits, (metis snd_conv)+)

lemma context_error_snd [simp]: "snd (context_error what f s) = snd (f s)"
  by (simp add: context_error_def split: prod.split)

lemma w_write_snd [simp]: "snd (w_write co r (w, d)) = (w, wl_send co r d)"
  by (simp add: w_write_def wl_send_def split: prod.split)

lemma snd_wl_write: "snd (wl_write co r d) = wl_send co r d"
  by (simp add: wl_send_def)

text \<open>A request about a part of the window.\<close>

lemma holds_send:
  assumes "holds P U F (w, d)" "P \<Longrightarrow> apart w F \<Longrightarrow> ready U r (parts w + F)" "plain r"
  shows "holds P U F (w, wl_send co r d)"
  using assms by (auto simp: holds_def intro: tracks_send)

lemmas parts_simps = parts_def shell_parts_def buffer_parts_def

lemma damage_holds: "holds P U F (w, d) \<Longrightarrow> holds P U F (w, damage co x y width height w d)"
proof -
  assume h: "holds P U F (w, d)"
  show ?thesis
  proof (cases "ww_buffer w \<noteq> None \<and> ww_surface w \<noteq> None \<and> ww_mapped w \<and> ww_configured w")
    case True
    then obtain b s where *: "ww_buffer w = Some b" "ww_surface w = Some s" by auto
    have "holds P U F (w, snd (all_steps [wl_write co (Surface s (Attach b)),
        wl_write co (Surface s (DamageBuffer (ucast x) (ucast y) (ucast width) (ucast height))),
        wl_write co (Surface s Commit)] d))"
      by (rule all_steps_inv [where I = "\<lambda>d. holds P U F (w, d)"])
        (use h * True in \<open>auto simp: snd_wl_write ready_def plain_def parts_simps apart_def
          intro!: holds_send\<close>)
    then show ?thesis using * True by (simp add: damage_def)
  qed (use h in \<open>auto simp: damage_def split: option.split\<close>)
qed

lemma present_holds: "holds P U F (w, d) \<Longrightarrow> holds P U F (w, present co w d)"
  by (simp add: present_def damage_holds)

lemma setGeometry_holds: "holds P U F (w, d) \<Longrightarrow> holds P U F (w, setGeometry co w d)"
  by (auto simp: setGeometry_def ready_def plain_def parts_simps intro!: holds_send split: option.split)

section \<open>Buffers\<close>

lemma releaseBuffer_holds:
  assumes "holds P U F (w, d)" "releaseBuffer co (w, d) = (w', d')"
  shows "holds P U F (w', d')"
proof -
  let ?Q = "P \<and> apart w F"
  have "tracks ?Q U (part BufferK None False (ww_buffer w) + (part PoolK None False (ww_pool w) + (shell_parts w + F))) d"
    using assms(1) by (simp add: holds_def parts_def buffer_parts_def ac_simps)
  then have "tracks ?Q U (part PoolK None False (ww_pool w) + (shell_parts w + F))
      (send_if co (\<lambda>b. Shm (DestroyBuffer b)) (ww_buffer w) d)"
    by (rule tracks_end_if) (simp_all add: ready_def)
  then have "tracks ?Q U (shell_parts w + F)
      (send_if co (\<lambda>p. Shm (DestroyPool p)) (ww_pool w) (send_if co (\<lambda>b. Shm (DestroyBuffer b)) (ww_buffer w) d))"
    by (rule tracks_end_if) (simp_all add: ready_def)
  moreover have "sound_window w'" "parts w' = shell_parts w" "apart w' F = apart w F"
    using assms by (auto simp: releaseBuffer_def holds_def sound_window_def parts_simps apart_def)
  ultimately show ?thesis using assms(2) by (auto simp: releaseBuffer_def holds_def)
qed

lemma releaseBuffer_shape:
  "releaseBuffer co (w, d) = (w', d') \<Longrightarrow>
   w' = w\<lparr>ww_buffer := None, ww_pool := None, ww_memory := None, ww_bufWidth := 0, ww_bufHeight := 0\<rparr>"
  by (simp add: releaseBuffer_def)

lemma newBuffer_holds:
  assumes h: "holds P U F (w, d)" and r: "newBuffer co width height (w, d) = (e, w', d')"
  shows "holds P U F (w', d')"
proof -
  let ?Q = "P \<and> apart w F" and ?E = "parts w + F"
  define stride where "stride = width * BytesPerPixel"
  have tr: "tracks ?Q U ?E d" and sw: "sound_window w" using h by (simp_all add: holds_def)
  show ?thesis
  proof (cases "newSharedMemory co (l_log d) (stride * height)")
    case (Inl x)
    then show ?thesis using h r by (auto simp: newBuffer_def stride_def Let_def)
  next
    case (Inr memory)
    obtain res d1 where n1: "wl_new co (\<lambda>p. Shm (CreatePool p (ucast (stride * height)))) d = (res, d1)" by fastforce
    have m1: "made ?Q U ?E PoolK None res d1"
      by (rule tracks_new [OF n1 tr]) (simp_all add: ready_def)
    show ?thesis
    proof (cases res)
      case (Inl x)
      then show ?thesis using r Inr n1 m1 sw by (auto simp: newBuffer_def stride_def made_def holds_def Let_def)
    next
      case pool: (Inr pool)
      let ?Q1 = "?Q \<and> new_key U pool ?E" and ?E1 = "add_mset (pool, PoolK, None, False) ?E"
      have tr1: "tracks ?Q1 U ?E1 d1" using m1 pool by (simp add: made_def)
      obtain res2 d2 where n2: "wl_new co (\<lambda>b. Shm (CreateBuffer b pool (ucast width) (ucast height) (ucast stride)
                       ShmFormatXrgb8888)) d1 = (res2, d2)" by fastforce
      have m2: "made ?Q1 U ?E1 BufferK None res2 d2"
        by (rule tracks_new [OF n2 tr1]) (simp_all add: ready_def)
      show ?thesis
      proof (cases res2)
        case (Inl x)
        have "tracks ?Q1 U ?E1 d2" using m2 Inl by (simp add: made_def)
        then have "tracks ?Q1 U ?E (wl_send co (Shm (DestroyPool pool)) d2)"
          by (rule tracks_end) (simp_all add: ready_def)
        then have "tracks ?Q U ?E (wl_send co (Shm (DestroyPool pool)) d2)" by (rule tracks_weaken) simp
        then show ?thesis using r Inr n1 pool n2 Inl sw by (auto simp: newBuffer_def stride_def holds_def Let_def)
      next
        case buffer: (Inr buffer)
        let ?F = "F + {#(pool, PoolK, None, False), (buffer, BufferK, None, False)#}"
        have apart: "apart w ?F = apart w F" by (auto simp: apart_def no_child_def)
        obtain w1 d3 where rb: "releaseBuffer co (w, d2) = (w1, d3)" by fastforce
        have "holds P U ?F (w, d2)"
          using m2 buffer sw apart by (auto simp: holds_def made_def ac_simps elim!: tracks_weaken)
        then have "holds P U ?F (w1, d3)" using releaseBuffer_holds rb by blast
        moreover have "w' = w1\<lparr>ww_memory := Some memory, ww_pool := Some pool, ww_buffer := Some buffer,
            ww_bufWidth := width, ww_bufHeight := height\<rparr>" "d' = d3"
          using r Inr n1 pool n2 buffer rb by (simp_all add: newBuffer_def stride_def Let_def)
        moreover have "ww_pool w1 = None" "ww_buffer w1 = None" using releaseBuffer_shape [OF rb] by simp_all
        ultimately show ?thesis
          by (auto simp: holds_def sound_window_def parts_simps apart_def ac_simps elim!: tracks_weaken)
      qed
    qed
  qed
qed

section \<open>Creation\<close>

text \<open>A new part: the window takes it, or is as before.\<close>

lemma holds_new:
  assumes "wl_new co r d = (res, d')" "holds P U F (w, d)"
    and "\<And>i. P \<Longrightarrow> apart w F \<Longrightarrow> ready U (r i) (parts w + F)" "\<And>i. makes (r i) = Some (i, k, p)"
    and "\<And>i. makes_other (r i) = None" "\<And>i. ends (r i) = None" "\<And>i. acknowledged (r i) = None"
    and "set_option p \<subseteq> key_set (parts w)"
    and "\<And>i. sound_window (f i w)" "\<And>i. parts (f i w) = add_mset (i, k, p, False) (parts w)"
    and "\<And>i. apart w F \<Longrightarrow> (\<And>ks. no_child i ks F) \<Longrightarrow> apart (f i w) F"
  shows "case res of Inl e \<Rightarrow> holds P U F (w, d') | Inr i \<Rightarrow> holds P U F (f i w, d')"
proof -
  have tr: "tracks (P \<and> apart w F) U (parts w + F) d" "sound_window w" using assms(2) by (simp_all add: holds_def)
  have "made (P \<and> apart w F) U (parts w + F) k p res d'"
    by (rule tracks_new [OF assms(1) tr(1)]) (use assms(3-8) in auto)
  moreover have "no_child i ks F" if "new_key U i (parts w + F)" for i ks
    using new_key_no_child [OF that, of ks] by simp
  ultimately show ?thesis
    using assms(9-11) tr(2) by (cases res) (auto simp: made_def holds_def elim!: tracks_weaken)
qed

lemma requestDecoration_holds:
  assumes "holds P U F (w, d)" "ww_toplevel w = Some t" "ww_decoration w = None"
    and "requestDecoration co t (w, d) = (w', d')"
  shows "holds P U F (w', d')"
proof (cases "l_decoration d")
  case True
  obtain res d1 where n: "wl_new co (\<lambda>i. GetDecoration i t) d = (res, d1)" by fastforce
  have new: "case res of Inl e \<Rightarrow> holds P U F (w, d1) | Inr i \<Rightarrow> holds P U F (w\<lparr>ww_decoration := Some i\<rparr>, d1)"
    by (rule holds_new [OF n assms(1), where k = DecorationK and p = "Some t" and f = "\<lambda>i. ww_decoration_update (\<lambda>_. Some i)"])
      (use assms(2,3) holdsD [OF assms(1)] in \<open>auto simp: ready_def parts_simps apart_def sound_window_def\<close>)
  show ?thesis
  proof (cases res)
    case (Inr i)
    then have "holds P U F (w\<lparr>ww_decoration := Some i\<rparr>, wl_send co (SetDecorationMode i DecorationServerSide) d1)"
      using new by (auto simp: ready_def plain_def parts_simps intro!: holds_send)
    then show ?thesis using assms(4) True n Inr by (auto simp: requestDecoration_def)
  qed (use new assms(4) True n in \<open>auto simp: requestDecoration_def\<close>)
qed (use assms in \<open>simp add: requestDecoration_def\<close>)

lemma createToplevel_holds:
  assumes h: "holds P U F (w, d)" and w: "ww_xdg w = Some xdg" "ww_toplevel w = None" "ww_popup w = None"
  shows "holds P U F (snd (createToplevel co xdg (w, d)))"
proof -
  have s: "sound_window w" "ww_decoration w = None" using holdsD [OF h] w by (auto simp: sound_window_def)
  obtain res d1 where n: "wl_new co (\<lambda>i. Xdg xdg (GetToplevel i)) d = (res, d1)" by fastforce
  have new: "case res of Inl e \<Rightarrow> holds P U F (w, d1) | Inr i \<Rightarrow> holds P U F (w\<lparr>ww_toplevel := Some i\<rparr>, d1)"
    by (rule holds_new [OF n h, where k = ToplevelK and p = "Some xdg" and f = "\<lambda>i. ww_toplevel_update (\<lambda>_. Some i)"])
      (use w s in \<open>auto simp: ready_def parts_simps apart_def sound_window_def\<close>)
  show ?thesis
  proof (cases res)
    case (Inl e)
    then show ?thesis using new n by (simp add: createToplevel_def w_new_def context_error_def)
  next
    case (Inr t)
    let ?w = "w\<lparr>ww_toplevel := Some t\<rparr>"
    obtain e d2 where set: "wl_write co (Toplevel t (SetAppID appID)) d1 = (e, d2)" by fastforce
    have "holds P U F (?w, d2)"
      using holds_send [of P U F ?w d1 "Toplevel t (SetAppID appID)" co] new Inr set
      by (auto simp: ready_def plain_def parts_simps wl_send_def)
    then show ?thesis
      using n Inr set s(2) requestDecoration_holds [of P U F ?w d2 t co]
      by (cases e; cases "requestDecoration co t (?w, d2)")
        (auto simp: createToplevel_def w_new_def w_write_def context_error_def)
  qed
qed

lemma createPopup_holds:
  fixes d :: "'o wayland"
  assumes h: "holds P U F (w, d)" and w: "ww_xdg w = Some xdg" "ww_toplevel w = None" "ww_popup w = None"
    and parent: "\<And>px parent. popup_parent d = Some (px, parent) \<Longrightarrow> P \<Longrightarrow> has (px, XdgK) F"
  shows "holds P U F (snd (createPopup co xdg (w, d)))"
proof (cases "popup_parent d")
  case None
  then show ?thesis using createToplevel_holds [OF assms(1-4)] by (simp add: createPopup_def)
next
  case (Some pp)
  then obtain px parent where pp: "popup_parent d = Some (px, parent)" by (cases pp) auto
  have s: "sound_window w" "ww_decoration w = None" using holdsD [OF h] w by (auto simp: sound_window_def)
  obtain res d1 where n1: "wl_new co CreatePositioner d = (res, d1)" by fastforce
  have tr: "tracks (P \<and> apart w F) U (parts w + F) d" using h by (simp add: holds_def)
  have made1: "made (P \<and> apart w F) U (parts w + F) PositionerK None res d1"
    by (rule tracks_new [OF n1 tr]) (auto simp: ready_def)
  show ?thesis
  proof (cases res)
    case (Inl e)
    then show ?thesis using made1 s pp n1 by (simp add: createPopup_def made_def holds_def)
  next
    case (Inr q)
    let ?ob = "(q, PositionerK, None, False)"
    let ?F = "add_mset ?ob F"
    have apart: "apart w' ?F = apart w' F" for w' by (auto simp: apart_def no_child_def)
    have h1: "holds P U ?F (w, d1)"
      using made1 Inr s apart by (auto simp: made_def holds_def elim!: tracks_weaken)
    define place :: "('o wayland \<Rightarrow> string option \<times> 'o wayland) list" where "place = [
       wl_write co (Positioner q (SetSize (ucast (ww_width w)) (ucast (ww_height w)))),
       wl_write co (Positioner q (SetAnchorRect (ucast (ww_x w - ww_x parent)) (ucast (ww_y w - ww_y parent)) 1 1)),
       wl_write co (Positioner q (SetAnchor AnchorTopLeft)),
       wl_write co (Positioner q (SetGravity GravityBottomRight)),
       wl_write co (Positioner q (SetConstraintAdjustment SlideXY))]"
    obtain e d2 where st: "all_steps place d1 = (e, d2)" by fastforce
    have "holds P U ?F (w, snd (all_steps place d1))"
      by (rule all_steps_inv [where I = "\<lambda>d. holds P U ?F (w, d)"])
        (use h1 in \<open>auto simp: place_def snd_wl_write ready_def plain_def intro!: holds_send\<close>)
    then have h2: "holds P U ?F (w, d2)" by (simp add: st)
    have drop: "holds P U F (w', wl_send co (Positioner q DestroyPositioner) d')"
      if "holds P U ?F (w', d')" for w' d'
    proof -
      have "tracks (P \<and> apart w' F) U (add_mset ?ob (parts w' + F)) d'"
        using that apart by (simp add: holds_def)
      then have "tracks (P \<and> apart w' F) U (parts w' + F) (wl_send co (Positioner q DestroyPositioner) d')"
        by (rule tracks_end) (simp_all add: ready_def)
      then show ?thesis using that by (simp add: holds_def)
    qed
    show ?thesis
    proof (cases e)
      case (Some x)
      then show ?thesis using drop [OF h2] pp n1 Inr st by (simp add: createPopup_def place_def)
    next
      case None
      obtain res2 d3 where n2: "wl_new co (\<lambda>i. Xdg xdg (GetPopup i px q)) d2 = (res2, d3)" by fastforce
      have "case res2 of Inl e \<Rightarrow> holds P U ?F (w, d3) | Inr i \<Rightarrow> holds P U ?F (w\<lparr>ww_popup := Some i\<rparr>, d3)"
        by (rule holds_new [OF n2 h2, where k = PopupK and p = "Some xdg" and f = "\<lambda>i. ww_popup_update (\<lambda>_. Some i)"])
          (use w s parent [OF pp] in \<open>auto simp: ready_def parts_simps apart_def sound_window_def\<close>)
      then show ?thesis
        using drop pp n1 Inr st None n2 by (cases res2) (auto simp: createPopup_def place_def)
    qed
  qed
qed

text \<open>
  Creation as a whole: a new window holds what it got of its parts, also when it fails.  The
  parent of a popup is among the objects of the other windows.
\<close>

definition parents_known :: "bool \<Rightarrow> obj multiset \<Rightarrow> 'o wayland \<Rightarrow> bool" where
  "parents_known P F d \<longleftrightarrow> (\<forall>px parent. popup_parent d = Some (px, parent) \<longrightarrow> P \<longrightarrow> has (px, XdgK) F)"

definition same_windows :: "'o wayland \<Rightarrow> 'o wayland \<Rightarrow> bool" where
  "same_windows d d' \<longleftrightarrow> l_windows d' = l_windows d \<and> l_lastToplevel d' = l_lastToplevel d"

lemma wl_write_windows: "wl_write co r d = (e, d') \<Longrightarrow> same_windows d d'"
  by (auto simp: wl_write_def same_windows_def split: option.splits)

lemma wl_new_windows: "wl_new co r d = (res, d') \<Longrightarrow> same_windows d d'"
  by (auto simp: wl_new_def same_windows_def split: list.splits prod.splits option.splits dest!: wl_write_windows)

lemma popup_parent_same: "same_windows d d' \<Longrightarrow> popup_parent d' = popup_parent d"
  by (auto simp: popup_parent_def same_windows_def split: option.split)

lemma parents_known_same: "same_windows d d' \<Longrightarrow> parents_known P F d = parents_known P F d'"
  by (simp add: parents_known_def popup_parent_same)

lemma create_window_holds:
  fixes d :: "'o wayland"
  assumes "holds P U F (w, d)" "parts w = {#}" "ww_decoration w = None" "\<not> ww_configured w"
      "ww_surface w = None" "ww_xdg w = None" "ww_toplevel w = None" "ww_popup w = None"
    and "parents_known P F d"
  shows "holds P U F (snd (create_window co (w, d)))"
proof -
  obtain res d1 where n1: "wl_new co CreateSurface d = (res, d1)" by fastforce
  have h1: "case res of Inl e \<Rightarrow> holds P U F (w, d1) | Inr i \<Rightarrow> holds P U F (w\<lparr>ww_surface := Some i\<rparr>, d1)"
    by (rule holds_new [OF n1 assms(1), where k = SurfaceK and p = None and f = "\<lambda>i. ww_surface_update (\<lambda>_. Some i)"])
      (use assms in \<open>auto simp: ready_def parts_simps apart_def sound_window_def\<close>)
  show ?thesis
  proof (cases res)
    case (Inl e)
    then show ?thesis using h1 n1 by (simp add: create_window_def w_new_def context_error_def)
  next
    case (Inr s)
    let ?w1 = "w\<lparr>ww_surface := Some s\<rparr>"
    have h1: "holds P U F (?w1, d1)" using h1 Inr by simp
    obtain res2 d2 where n2: "wl_new co (\<lambda>i. GetXdgSurface i s) d1 = (res2, d2)" by fastforce
    have h2: "case res2 of Inl e \<Rightarrow> holds P U F (?w1, d2) | Inr i \<Rightarrow> holds P U F (?w1\<lparr>ww_xdg := Some i\<rparr>, d2)"
      by (rule holds_new [OF n2 h1, where k = XdgK and p = "Some s" and f = "\<lambda>i. ww_xdg_update (\<lambda>_. Some i)"])
        (use assms in \<open>auto simp: ready_def parts_simps apart_def sound_window_def\<close>)
    show ?thesis
    proof (cases res2)
      case (Inl e)
      then show ?thesis using h2 n1 n2 Inr by (simp add: create_window_def w_new_def context_error_def)
    next
      case xdg: (Inr x)
      let ?w2 = "?w1\<lparr>ww_xdg := Some x\<rparr>"
      have h2: "holds P U F (?w2, d2)" using h2 xdg by simp
      have known: "parents_known P F d2"
        using assms(9) parents_known_same wl_new_windows n1 n2 by metis
      define f1 :: "'o window_op" where "f1 = (if ww_override w then createPopup co x else createToplevel co x)"
      obtain e1 w3 d3 where f1: "f1 (?w2, d2) = (e1, w3, d3)" by (cases "f1 (?w2, d2)") auto
      have "holds P U F (snd (createPopup co x (?w2, d2)))" "holds P U F (snd (createToplevel co x (?w2, d2)))"
        using createPopup_holds [OF h2] createToplevel_holds [OF h2] known assms
        by (auto simp: parents_known_def)
      then have h3: "holds P U F (w3, d3)" using f1 by (auto simp: f1_def split: if_splits)
      have surface: "ww_surface w3 = Some s" using created_surface [OF f1 [unfolded f1_def]] by simp
      have "holds P U F (snd (steps [f1, newBuffer co (ww_width w) (ww_height w),
          context_error ''committing a new surface'' (w_write co (Surface s Commit))] (?w2, d2)))"
      proof (cases e1)
        case None
        obtain e4 w4 d4 where nb: "newBuffer co (ww_width w) (ww_height w) (w3, d3) = (e4, w4, d4)"
          by (cases "newBuffer co (ww_width w) (ww_height w) (w3, d3)") auto
        have h4: "holds P U F (w4, d4)" by (rule newBuffer_holds [OF h3 nb])
        have "ww_surface w4 = Some s" using surface newBuffer_surface [OF nb] by simp
        then have "holds P U F (w4, wl_send co (Surface s Commit) d4)"
          using h4 by (auto simp: ready_def plain_def parts_simps intro!: holds_send)
        then show ?thesis
          using h4 f1 None nb by (cases e4) (auto simp: context_error_def w_write_def wl_send_def split: prod.split option.split)
      qed (use h3 f1 in simp)
      then show ?thesis
        using n1 n2 Inr xdg by (simp add: create_window_def w_new_def context_error_def f1_def)
    qed
  qed
qed

section \<open>Destruction\<close>

text \<open>Everything the window holds goes, whatever it has and whether the writes succeed.\<close>

lemma destroy_window_tracks:
  assumes "holds P U F (w, d)"
  shows "tracks (P \<and> apart w F) U F (snd (destroy_window co (w, d)))"
proof -
  let ?Q = "P \<and> apart w F"
  let ?B = "buffer_parts w + F"
  define d1 where "d1 = send_if co DestroyDecoration (ww_decoration w) d"
  define d2 where "d2 = send_if co (\<lambda>t. Toplevel t DestroyToplevel) (ww_toplevel w) d1"
  define d3 where "d3 = send_if co DestroyPopup (ww_popup w) d2"
  define d4 where "d4 = send_if co (\<lambda>x. Xdg x DestroyXdgSurface) (ww_xdg w) d3"
  define d5 where "d5 = send_if co (\<lambda>s. Surface s DestroySurface) (ww_surface w) d4"
  define d6 where "d6 = send_if co (\<lambda>b. Shm (DestroyBuffer b)) (ww_buffer w) d5"
  have buffers: "no_child i ks (buffer_parts w)" for i ks by (simp add: buffer_parts_def)
  have "tracks ?Q U (part DecorationK (ww_toplevel w) False (ww_decoration w) + (part ToplevelK (ww_xdg w) False (ww_toplevel w) +
     (part PopupK (ww_xdg w) False (ww_popup w) + (part XdgK (ww_surface w) (ww_configured w) (ww_xdg w) +
     (part SurfaceK None False (ww_surface w) + ?B))))) d"
    using assms by (simp add: holds_def parts_def shell_parts_def add.assoc)
  then have "tracks ?Q U (part ToplevelK (ww_xdg w) False (ww_toplevel w) +
     (part PopupK (ww_xdg w) False (ww_popup w) + (part XdgK (ww_surface w) (ww_configured w) (ww_xdg w) +
     (part SurfaceK None False (ww_surface w) + ?B)))) d1"
    unfolding d1_def by (rule tracks_end_if) (simp_all add: ready_def)
  then have "tracks ?Q U (part PopupK (ww_xdg w) False (ww_popup w) + (part XdgK (ww_surface w) (ww_configured w) (ww_xdg w) +
     (part SurfaceK None False (ww_surface w) + ?B))) d2"
    unfolding d2_def send_if_def
    by (auto simp: ready_def apart_def buffers intro!: tracks_end split: option.split)
  then have "tracks ?Q U (part XdgK (ww_surface w) (ww_configured w) (ww_xdg w) +
     (part SurfaceK None False (ww_surface w) + ?B)) d3"
    unfolding d3_def by (rule tracks_end_if) (simp_all add: ready_def)
  then have "tracks ?Q U (part SurfaceK None False (ww_surface w) + ?B) d4"
    unfolding d4_def send_if_def
    by (auto simp: ready_def apart_def buffers intro!: tracks_end split: option.split)
  then have "tracks ?Q U ?B d5"
    unfolding d5_def send_if_def
    by (auto simp: ready_def apart_def buffers intro!: tracks_end split: option.split)
  then have "tracks ?Q U (part BufferK None False (ww_buffer w) + (part PoolK None False (ww_pool w) + F)) d5"
    by (simp add: buffer_parts_def add.assoc)
  then have "tracks ?Q U (part PoolK None False (ww_pool w) + F) d6"
    unfolding d6_def by (rule tracks_end_if) (simp_all add: ready_def)
  then have "tracks ?Q U F (send_if co (\<lambda>p. Shm (DestroyPool p)) (ww_pool w) d6)"
    by (rule tracks_end_if) (simp_all add: ready_def)
  then show ?thesis
    by (simp add: destroy_window_def releaseBuffer_def d6_def d5_def d4_def d3_def d2_def d1_def)
qed

end
