(* ===== verification/Wayland_Safe.thy ===== *)
theory Wayland_Safe
  imports Wayland_Window_Safe
begin

text \<open>
  The whole display keeps the rules of the protocol: what it holds, over all its windows, the
  pointer image, the seat and the clipboard, is exactly what exists at the compositor.  Every
  operation and every message keeps that.
\<close>

section \<open>What the display holds\<close>

primrec window_parts :: "(oid \<times> wl_window) list \<Rightarrow> obj multiset" where
  "window_parts [] = {#}"
| "window_parts (p # ps) = parts (snd p) + window_parts ps"

definition pixel_parts :: "owned_pixels \<Rightarrow> obj multiset" where
  "pixel_parts p = part BufferK None False (op_buffer p) + part PoolK None False (op_pool p)"

definition cursor_parts :: "'o wayland \<Rightarrow> obj multiset" where
  "cursor_parts d = part SurfaceK None False (l_cursorSurface d) +
     (case l_ownedCursor d of None \<Rightarrow> {#} | Some p \<Rightarrow> pixel_parts p)"

definition seat_parts :: "'o wayland \<Rightarrow> obj multiset" where
  "seat_parts d = part PointerK None False (l_pointer d) + part KeyboardK None False (l_keyboard d)"

definition source_parts :: "(oid \<times> bytes) list \<Rightarrow> obj multiset" where
  "source_parts sources = mset (map (\<lambda>p. (fst p, SourceK, None, False)) sources)"

definition clip_parts :: "'o wayland \<Rightarrow> obj multiset" where
  "clip_parts d = (case l_clipboard d of None \<Rightarrow> {#}
     | Some c \<Rightarrow> add_mset (lc_device c, DeviceK, None, False) (source_parts (lc_sources c)))"

definition other_parts :: "'o wayland \<Rightarrow> obj multiset" where
  "other_parts d = cursor_parts d + (seat_parts d + clip_parts d)"

definition owned :: "'o wayland \<Rightarrow> obj multiset" where
  "owned d = window_parts (l_windows d) + other_parts d"

text \<open>What the fields of the display agree on, apart from the log.\<close>

definition known_window :: "'o wayland \<Rightarrow> oid option \<Rightarrow> bool" where
  "known_window d p \<longleftrightarrow> (\<forall>s. p = Some s \<longrightarrow> s \<in> fst ` set (l_windows d))"

definition cursor_ok :: "oid set \<Rightarrow> 'o wayland \<Rightarrow> bool" where
  "cursor_ok U d \<longleftrightarrow>
     (\<forall>c. l_shown d = Some c \<longrightarrow> sc_buffer c \<notin> U \<or>
        (\<exists>p. l_ownedCursor d = Some p \<and> op_buffer p = Some (sc_buffer c))) \<and>
     (\<forall>img b. l_theme d = Some (Some img) \<longrightarrow> ti_buffer img = Inr b \<longrightarrow> b \<notin> U)"

definition windows_ok :: "(oid \<times> wl_window) list \<Rightarrow> bool" where
  "windows_ok ws \<longleftrightarrow> distinct (map fst ws) \<and> list_all (\<lambda>p. sound_window (snd p) \<and> ww_surface (snd p) = Some (fst p)) ws"

definition pointers_ok :: "'o wayland \<Rightarrow> bool" where
  "pointers_ok d \<longleftrightarrow>
     known_window d (l_lastToplevel d) \<and> known_window d (l_pointerOver d) \<and> known_window d (l_keyboardFocus d)"

definition clip_ok :: "'o wayland \<Rightarrow> bool" where
  "clip_ok d \<longleftrightarrow> (\<forall>c i. l_clipboard d = Some c \<longrightarrow> lc_source c = Some i \<longrightarrow> i \<in> fst ` set (lc_sources c))"

definition display_ok :: "oid set \<Rightarrow> 'o wayland \<Rightarrow> bool" where
  "display_ok U d \<longleftrightarrow> windows_ok (l_windows d) \<and> pointers_ok d \<and> cursor_ok U d \<and> clip_ok d"

definition safe_with :: "oid set \<Rightarrow> obj multiset \<Rightarrow> 'o wayland \<Rightarrow> bool" where
  "safe_with U X d \<longleftrightarrow> display_ok U d \<and> tracks True U (X + owned d) d"

definition wl_safe :: "oid set \<Rightarrow> 'o wayland \<Rightarrow> bool" where
  "wl_safe U d \<longleftrightarrow> safe_with U {#} d"

text \<open>The buffers of the cursor theme are not among the objects this program makes.\<close>

definition theme_foreign :: "compositor \<Rightarrow> oid set \<Rightarrow> bool" where
  "theme_foreign co U \<longleftrightarrow>
     (\<forall>name n img b. wc_theme co name n = Inr (Some img) \<longrightarrow> ti_buffer img = Inr b \<longrightarrow> b \<notin> U)"

section \<open>Windows of the table\<close>

lemma delete_absent: "s \<notin> fst ` set ws \<Longrightarrow> AList.delete s ws = ws"
  by (induction ws) auto

lemma list_all_delete: "list_all Q ws \<Longrightarrow> list_all Q (AList.delete s ws)"
  by (induction ws) auto

lemma list_all_update: "list_all Q ws \<Longrightarrow> Q (s, w) \<Longrightarrow> list_all Q (AList.update s w ws)"
  by (induction ws) auto

lemma window_parts_delete:
  "distinct (map fst ws) \<Longrightarrow> map_of ws s = Some w \<Longrightarrow> window_parts ws = parts w + window_parts (AList.delete s ws)"
  by (induction ws) (auto simp: delete_absent ac_simps split: if_splits)

lemma window_parts_update:
  "distinct (map fst ws) \<Longrightarrow> window_parts (AList.update s w ws) = parts w + window_parts (AList.delete s ws)"
  by (induction ws) (auto simp: delete_absent ac_simps)

lemma parent_in_window: "sound_window w \<Longrightarrow> parents (parts w) \<subseteq> key_set (parts w)"
  by (auto simp: parts_simps sound_window_def part_def split: option.splits)

lemma parents_in_windows:
  "list_all (\<lambda>p. sound_window (snd p)) ws \<Longrightarrow> parents (window_parts ws) \<subseteq> key_set (window_parts ws)"
  using parent_in_window by (induction ws) fastforce+

lemma parents_others [simp]: "parents (other_parts d) = {}"
proof -
  have "parents (part k None a i) = {}" for k a i by (simp add: part_def split: option.split)
  moreover have "parents (source_parts ss) = {}" for ss by (induction ss) (simp_all add: source_parts_def)
  ultimately show ?thesis
    by (simp add: other_parts_def cursor_parts_def seat_parts_def clip_parts_def pixel_parts_def split: option.split)
qed

lemma no_child_parents: "i \<notin> parents E \<Longrightarrow> no_child i ks E"
  by (auto simp: no_child_def parents_def)

definition rest :: "oid \<Rightarrow> 'o wayland \<Rightarrow> obj multiset" where
  "rest s d = window_parts (AList.delete s (l_windows d)) + other_parts d"

lemma windows_ok_window: "windows_ok ws \<Longrightarrow> map_of ws s = Some w \<Longrightarrow> sound_window w \<and> ww_surface w = Some s"
  by (auto simp: windows_ok_def list_all_iff dest!: map_of_SomeD)

lemma windows_ok_delete: "windows_ok ws \<Longrightarrow> windows_ok (AList.delete s ws)"
  by (simp add: windows_ok_def list_all_delete distinct_delete)

lemma windows_ok_update:
  "windows_ok ws \<Longrightarrow> sound_window w \<Longrightarrow> ww_surface w = Some s \<Longrightarrow> windows_ok (AList.update s w ws)"
  by (simp add: windows_ok_def list_all_update distinct_update)

lemma windows_ok_parents: "windows_ok ws \<Longrightarrow> parents (window_parts ws) \<subseteq> key_set (window_parts ws)"
  by (rule parents_in_windows) (auto simp: windows_ok_def list_all_iff)

lemma apart_rest:
  assumes "windows_ok (l_windows d)" "map_of (l_windows d) s = Some w" "unique_keys (parts w + (X + rest s d))"
    "parents X = {}"
  shows "apart w (X + rest s d)"
proof -
  have "parents (X + rest s d) \<subseteq> key_set (X + rest s d)"
    using windows_ok_parents [OF windows_ok_delete [OF assms(1)]] assms(4) by (fastforce simp: rest_def)
  moreover have "key_set (parts w) \<inter> key_set (X + rest s d) = {}"
    using assms(3) unique_keys_union by blast
  ultimately have *: "no_child i ks (X + rest s d)" if "i \<in> key_set (parts w)" for i ks
    using that by (intro no_child_parents) blast
  show ?thesis
    unfolding apart_def by (intro conjI allI impI *) (simp_all add: parts_simps)
qed

lemma window_out:
  assumes "safe_with U X d" "map_of (l_windows d) s = Some w" "parents X = {}"
  shows "holds True U (X + rest s d) (w, d)"
proof -
  have ok: "windows_ok (l_windows d)" and tr: "tracks True U (X + owned d) d"
    using assms(1) by (simp_all add: safe_with_def display_ok_def)
  have eq: "X + owned d = parts w + (X + rest s d)"
    using window_parts_delete [OF _ assms(2)] ok by (simp add: windows_ok_def owned_def rest_def ac_simps)
  have "tracks (True \<and> apart w (X + rest s d)) U (parts w + (X + rest s d)) d"
    using tracks_keys [OF tr] unfolding eq
    by (rule tracks_weaken) (use apart_rest [OF ok assms(2) _ assms(3)] in simp)
  then show ?thesis using windows_ok_window [OF ok assms(2)] by (simp add: holds_def)
qed

lemma log_only_other_parts: "log_only d d' \<Longrightarrow> other_parts d' = other_parts d"
  using log_only_fields [of d d']
  by (simp add: other_parts_def cursor_parts_def seat_parts_def clip_parts_def)

lemma log_only_ok: "log_only d d' \<Longrightarrow> display_ok U d' = display_ok U d"
  using log_only_fields [of d d']
  by (simp add: display_ok_def pointers_ok_def known_window_def cursor_ok_def clip_ok_def)

lemma log_only_owned: "log_only d d' \<Longrightarrow> owned d' = owned d"
  using log_only_fields(1) [of d d'] by (simp add: owned_def log_only_other_parts)

lemma update_keys_same: "s \<in> fst ` set ws \<Longrightarrow> fst ` set (AList.update s w ws) = fst ` set ws"
  by (auto simp: dom_map_of_conv_image_fst [symmetric] update_conv')

lemma put_window_other [simp]: "other_parts (put_window s w d) = other_parts d"
  by (simp add: put_window_def other_parts_def cursor_parts_def seat_parts_def clip_parts_def)

lemma put_window_ok:
  assumes "display_ok U d" "sound_window w" "ww_surface w = Some s" "s \<in> fst ` set (l_windows d)"
  shows "display_ok U (put_window s w d)"
  using assms windows_ok_update [of "l_windows d" w s] update_keys_same [OF assms(4), of w]
  by (simp add: display_ok_def put_window_def pointers_ok_def known_window_def cursor_ok_def clip_ok_def)

lemma window_in:
  assumes "display_ok U d" "log_only d d1" "holds True U (X + rest s d) (w1, d1)" "ww_surface w1 = Some s"
    "map_of (l_windows d) s = Some w"
  shows "safe_with U X (put_window s w1 d1)"
proof -
  have d1: "display_ok U d1" "l_windows d1 = l_windows d" "other_parts d1 = other_parts d"
    using assms(1,2) log_only_ok log_only_fields(1) log_only_other_parts by metis+
  have "s \<in> fst ` set (l_windows d)" using map_of_SomeD [OF assms(5)] by force
  then have "display_ok U (put_window s w1 d1)"
    using put_window_ok [OF d1(1)] d1(2) holdsD [OF assms(3)] assms(4) by simp
  moreover have "X + owned (put_window s w1 d1) = parts w1 + (X + rest s d)"
    using d1 by (simp add: owned_def put_window_def [THEN arg_cong [of _ _ l_windows]] rest_def
        window_parts_update display_ok_def windows_ok_def ac_simps)
  moreover have "tracks True U (parts w1 + (X + rest s d)) (put_window s w1 d1)"
    using holdsD [OF assms(3)] unfolding put_window_def
    by (subst tracks_cong [where d = d1]) (auto elim: tracks_weaken)
  ultimately show ?thesis by (simp add: safe_with_def add.left_commute)
qed

section \<open>Operations of a window\<close>

lemma wl_safeD: "wl_safe U d \<Longrightarrow> display_ok U d \<and> tracks True U (owned d) d"
  by (simp add: wl_safe_def safe_with_def)

lemma wl_safeI: "display_ok U d \<Longrightarrow> tracks True U (owned d) d \<Longrightarrow> wl_safe U d"
  by (simp add: wl_safe_def safe_with_def)

lemma safe_out: "wl_safe U d \<Longrightarrow> map_of (l_windows d) s = Some w \<Longrightarrow> holds True U (rest s d) (w, d)"
  using window_out [of U "{#}" d s w] by (simp add: wl_safe_def)

lemma safe_in:
  assumes "wl_safe U d" "map_of (l_windows d) s = Some w" "log_only d d1" "holds True U (rest s d) (w1, d1)"
    "ww_surface w1 = ww_surface w"
  shows "wl_safe U (put_window s w1 d1)"
  using window_in [of U d d1 "{#}" s w1 w] assms windows_ok_window [OF _ assms(2)]
  by (simp add: wl_safe_def safe_with_def display_ok_def)

text \<open>Requests that leave the window as it is.\<close>

lemma safe_log:
  assumes "wl_safe U d" "map_of (l_windows d) s = Some w" "log_only d d1" "holds True U (rest s d) (w, d1)"
  shows "wl_safe U d1"
proof -
  have "distinct (map fst (l_windows d))" using wl_safeD [OF assms(1)] by (simp add: display_ok_def windows_ok_def)
  then have "owned d = parts w + rest s d"
    using window_parts_delete [OF _ assms(2)] by (simp add: owned_def rest_def add.assoc)
  then show ?thesis
    using wl_safeD [OF assms(1)] holdsD [OF assms(4)] log_only_ok [OF assms(3)] log_only_owned [OF assms(3)]
    by (auto intro!: wl_safeI elim: tracks_weaken)
qed

lemma on_wl_window_safe:
  assumes "wl_safe U d"
    and "\<And>w F e w' d'. f (xid_of i) (w, d) = (e, w', d') \<Longrightarrow> holds True U F (w, d) \<Longrightarrow>
      holds True U F (w', d') \<and> log_only d d' \<and> ww_surface w' = ww_surface w"
  shows "wl_safe U (snd (on_wl_window i f d))"
proof (cases "live_window i d")
  case (Some w)
  then have w: "map_of (l_windows d) (xid_of i) = Some w" by (simp add: live_window_Some)
  obtain e w' d' where f: "f (xid_of i) (w, d) = (e, w', d')" by (cases "f (xid_of i) (w, d)") auto
  show ?thesis
    using assms(2) [OF f safe_out [OF assms(1) w]] safe_in [OF assms(1) w, of d' w'] Some f
    by (simp add: on_wl_window_def)
qed (use assms(1) in \<open>simp add: on_wl_window_def\<close>)

lemma holds_geometry: "holds P U F (w\<lparr>ww_x := x, ww_y := y\<rparr>, d) = holds P U F (w, d)"
    "holds P U F (w\<lparr>ww_width := width, ww_height := height\<rparr>, d) = holds P U F (w, d)"
    "holds P U F (w\<lparr>ww_memory := m\<rparr>, d) = holds P U F (w, d)"
    "holds P U F (w\<lparr>ww_mapped := b\<rparr>, d) = holds P U F (w, d)"
  by (simp_all add: holds_def sound_window_def apart_def parts_simps)

lemma take_geometry_holds:
  assumes "take_geometry co x y width0 height0 shows (w, d) = (e, w', d')" "holds P U F (w, d)"
  shows "holds P U F (w', d') \<and> ww_surface w' = ww_surface w"
proof -
  obtain width height where cl: "ClampSize width0 height0 = (width, height)" by fastforce
  let ?w1 = "w\<lparr>ww_x := x, ww_y := y\<rparr>" and ?w2 = "w\<lparr>ww_x := x, ww_y := y, ww_width := width, ww_height := height\<rparr>"
  obtain e1 w3 d3 where nb: "newBuffer co width height (?w2, d) = (e1, w3, d3)"
    by (cases "newBuffer co width height (?w2, d)") auto
  have "holds P U F (?w1, d)" "holds P U F (?w2, d)" using assms(2) by (simp_all add: holds_geometry)
  moreover from this(2) have "holds P U F (w3, d3)" using newBuffer_holds nb by blast
  moreover have "ww_surface w3 = ww_surface w" using newBuffer_surface [OF nb] by simp
  ultimately show ?thesis
    using assms(1) cl nb
    by (cases e1) (auto simp: take_geometry_def Let_def present_holds setGeometry_holds split: if_splits)
qed

lemma paint_holds:
  assumes "holds P U F (w, d)"
  shows "holds P U F (w\<lparr>ww_memory := m\<rparr>, damage co x y width height (w\<lparr>ww_memory := m\<rparr>) d)"
  using assms by (intro damage_holds) (simp add: holds_geometry)

definition painted_window :: "wl_window \<Rightarrow> 'o wayland \<Rightarrow> wl_window \<times> 'o wayland \<Rightarrow> bool" where
  "painted_window w d s \<longleftrightarrow> (\<forall>P U F. holds P U F (w, d) \<longrightarrow> holds P U F s) \<and> log_only d (snd s) \<and>
     ww_surface (fst s) = ww_surface w"

lemma painted_cases:
  "painted_window w d (w, d)" "painted_window w d (w, d\<lparr>l_panicked := True\<rparr>)"
  "painted_window w d (w\<lparr>ww_memory := m\<rparr>, damage co x y width height (w\<lparr>ww_memory := m\<rparr>) d)"
  by (auto simp: painted_window_def paint_holds damage_log holds_cong [of "d\<lparr>l_panicked := True\<rparr>" d])

lemma on_wl_window_painted:
  "wl_safe U d \<Longrightarrow> (\<And>w. painted_window w d (snd (f (xid_of i) (w, d)))) \<Longrightarrow> wl_safe U (snd (on_wl_window i f d))"
  by (rule on_wl_window_safe) (auto simp: painted_window_def, (metis fst_conv snd_conv)+)

lemma safe_sent:
  assumes "wl_safe U d" "map_of (l_windows d) s = Some w" "plain r" "\<And>F. ready U r (parts w + F)"
  shows "wl_safe U (wl_send co r d)"
  by (rule safe_log [OF assms(1,2)]) (use assms in \<open>auto intro: holds_send safe_out\<close>)

lemma window_ops_safe:
  assumes "wl_safe U d"
  shows "wl_safe U (wl_SetTitle co i title d)"
    "wl_safe U (wl_Map co i d)"
    "wl_safe U (wl_Minimize co i b d)"
    "wl_safe U (snd (wl_MoveResize co i x y width height d))"
    "wl_safe U (snd (wl_Resized co i x y width height d))"
    "wl_safe U (snd (wl_Paint co i x y width height px stride fmt d))"
proof -
  have resized: "holds True U F (w', d') \<and> log_only d d' \<and> ww_surface w' = ww_surface w"
    if "take_geometry co x y width height visible (w, d) = (e, w', d')" "holds True U F (w, d)" for visible w F e w' d'
    using take_geometry_holds [OF that] take_geometry_log [OF that(1) log_only_refl] by simp
  show "wl_safe U (wl_SetTitle co i title d)" "wl_safe U (wl_Minimize co i b d)"
    using assms
    by (auto simp: wl_SetTitle_def wl_Minimize_def send_if_def live_window_Some ready_def plain_def parts_simps
        intro!: safe_sent split: option.split)
  show "wl_safe U (snd (wl_MoveResize co i x y width height d))"
    unfolding wl_MoveResize_def by (rule on_wl_window_safe [OF assms], erule (1) resized)
  show "wl_safe U (snd (wl_Resized co i x y width height d))"
    unfolding wl_Resized_def by (rule on_wl_window_safe [OF assms], erule (1) resized)
  show "wl_safe U (snd (wl_Paint co i x y width height px stride fmt d))"
    unfolding wl_Paint_def
    by (rule on_wl_window_painted [OF assms])
      (simp add: Let_def painted_cases split: option.split prod.split converted.split)
  show "wl_safe U (wl_Map co i d)"
  proof (cases "live_window i d")
    case (Some w)
    let ?s = "xid_of i" and ?w = "w\<lparr>ww_mapped := True\<rparr>"
    have w: "map_of (l_windows d) ?s = Some w" using Some by (simp add: live_window_Some)
    have put: "wl_safe U (put_window ?s ?w d)"
      by (rule safe_in [OF assms w]) (use safe_out [OF assms w] in \<open>simp_all add: holds_geometry\<close>)
    define p where "p = (if ww_toplevel w \<noteq> None then Some ?s else l_lastToplevel d)"
    let ?d = "(put_window ?s ?w d)\<lparr>l_lastToplevel := p\<rparr>"
    have "?s \<in> fst ` set (AList.update ?s ?w (l_windows d))"
      using map_of_SomeD [OF w] update_keys_same [of ?s "l_windows d" ?w] by force
    then have "display_ok U ?d"
      using wl_safeD [OF put]
      by (auto simp: display_ok_def pointers_ok_def known_window_def cursor_ok_def clip_ok_def p_def put_window_def)
    moreover have "owned ?d = owned (put_window ?s ?w d)"
      by (simp add: owned_def other_parts_def cursor_parts_def seat_parts_def clip_parts_def)
    moreover have "tracks True U (owned (put_window ?s ?w d)) ?d"
      using wl_safeD [OF put] by (subst tracks_cong [where d = "put_window ?s ?w d"]) simp_all
    ultimately have d: "wl_safe U ?d" by (simp add: wl_safeI)
    have w': "map_of (l_windows ?d) ?s = Some ?w" by (simp add: put_window_def update_conv')
    have "wl_safe U (present co ?w ?d)"
      by (rule safe_log [OF d w']) (simp_all add: present_holds safe_out [OF d w'])
    moreover have "wl_Map co i d = present co ?w ?d"
      using Some by (simp add: wl_Map_def Let_def p_def put_window_def)
    ultimately show ?thesis by simp
  qed (use assms in \<open>simp add: wl_Map_def\<close>)
qed

section \<open>Opening and closing windows\<close>

lemma windows_have: "map_of ws s = Some w \<Longrightarrow> has (i, k) (parts w) \<Longrightarrow> has (i, k) (window_parts ws)"
  by (induction ws) (auto split: if_splits)

lemma owned_has: "map_of (l_windows d) s = Some w \<Longrightarrow> has (i, k) (parts w) \<Longrightarrow> has (i, k) (owned d)"
  using windows_have by (simp add: owned_def)

lemma window_keys: "windows_ok ws \<Longrightarrow> fst ` set ws \<subseteq> key_set (window_parts ws)"
  by (induction ws) (auto simp: windows_ok_def parts_simps)

lemma parents_known_owned: "parents_known True (owned d) d"
  by (auto simp: parents_known_def popup_parent_def parts_simps split: option.splits if_splits intro!: owned_has)

lemma update_absent: "s \<notin> fst ` set ws \<Longrightarrow> AList.update s w ws = ws @ [(s, w)]"
  by (induction ws) auto

lemma update_keys_superset: "fst ` set ws \<subseteq> fst ` set (AList.update s w ws)"
  by (induction ws) auto

lemma window_added:
  assumes "display_ok U d" "sound_window w" "ww_surface w = Some s"
    and "tracks True U (parts w + owned d) d"
  shows "wl_safe U (put_window s w d)"
proof (rule wl_safeI)
  have known: "known_window (put_window s w d) p" if "known_window d p" for p
    using that update_keys_superset [of "l_windows d" s w] by (auto simp: known_window_def put_window_def)
  show "display_ok U (put_window s w d)"
    using assms(1) known windows_ok_update [OF _ assms(2,3), of "l_windows d"]
    by (auto simp: display_ok_def pointers_ok_def cursor_ok_def clip_ok_def) (simp_all add: put_window_def)
  have s: "s \<in> key_set (parts w)" using assms(3) by (simp add: parts_simps)
  have ws: "windows_ok (l_windows d)" using assms(1) by (simp add: display_ok_def)
  have "owned (put_window s w d) = parts w + owned d" if unique: "unique_keys (parts w + owned d)"
  proof -
    have "s \<notin> key_set (owned d)" using unique s unique_keys_union by blast
    then have "s \<notin> fst ` set (l_windows d)" using window_keys [OF ws] by (auto simp: owned_def)
    moreover have "l_windows (put_window s w d) = AList.update s w (l_windows d)" by (simp add: put_window_def)
    ultimately show ?thesis
      using window_parts_update [of "l_windows d" s w] ws
      by (simp add: owned_def windows_ok_def delete_absent add.assoc)
  qed
  then have "tracks True U (owned (put_window s w d)) d"
    using tracks_keys [OF assms(4)] by (auto elim: tracks_weaken)
  then show "tracks True U (owned (put_window s w d)) (put_window s w d)"
    by (subst tracks_cong [where d = d]) (simp_all add: put_window_def)
qed

lemma NewWindow_safe:
  assumes "wl_safe U d" "wl_NewWindow co x y width height ovr d = (r, d')"
  shows "wl_safe U d'"
proof -
  let ?cl = "ClampSize width height"
  let ?w = "new_wl_window x y (fst ?cl) (snd ?cl) ovr"
  obtain e w d1 where c: "create_window co (?w, d) = (e, w, d1)" by (cases "create_window co (?w, d)") auto
  have "holds True U (owned d) (?w, d)"
    using wl_safeD [OF assms(1)]
    by (auto simp: holds_def new_wl_window_def sound_window_def apart_def parts_simps)
  then have "holds True U (owned d) (snd (create_window co (?w, d)))"
    by (rule create_window_holds) (simp_all add: new_wl_window_def parts_simps parents_known_owned)
  then have h: "holds True U (owned d) (w, d1)" by (simp add: c)
  have log: "log_only d d1" by (rule create_window_log [OF c]) simp
  have ok: "display_ok U d1" "owned d1 = owned d"
    using log_only_ok [OF log] log_only_owned [OF log] wl_safeD [OF assms(1)] by simp_all
  show ?thesis
  proof (cases e)
    case (Some x)
    have d': "d' = snd (destroy_window co (w, d1))"
      using assms(2) c Some by (auto simp: wl_NewWindow_def split: prod.splits)
    have log': "log_only d1 d'" unfolding d' by (rule destroy_snd_log)
    have "tracks True U (owned d) d'"
      using destroy_window_tracks [OF h] unfolding d' by (rule tracks_weaken) simp
    then show ?thesis
      using ok log_only_ok [OF log'] log_only_owned [OF log'] by (simp add: wl_safeI)
  next
    case None
    have h': "sound_window w" "tracks True U (parts w + owned d1) d1"
      using holdsD [OF h] ok(2) by (auto elim: tracks_weaken)
    show ?thesis
    proof (cases "ww_surface w")
      case (Some s)
      have "d' = put_window s w d1"
        using assms(2) c None Some by (auto simp: wl_NewWindow_def split: prod.splits)
      then show ?thesis using window_added [OF ok(1) h'(1) Some h'(2)] by simp
    next
      case surf: None
      then show ?thesis
        using create_window_shape [OF c] None by (auto simp: new_wl_window_def)
    qed
  qed
qed

lemma Destroy_safe:
  assumes "wl_safe U d"
  shows "wl_safe U (wl_Destroy co i d)"
proof (cases "live_window i d")
  case (Some w)
  let ?s = "xid_of i"
  have w: "map_of (l_windows d) ?s = Some w" using Some by (simp add: live_window_Some)
  let ?d = "d\<lparr>l_windows := AList.delete ?s (l_windows d), l_lastToplevel := unpoint ?s (l_lastToplevel d),
            l_pointerOver := unpoint ?s (l_pointerOver d), l_keyboardFocus := unpoint ?s (l_keyboardFocus d)\<rparr>"
  let ?d' = "snd (destroy_window co (w, ?d))"
  have keys: "q \<in> fst ` set (AList.delete ?s (l_windows d))" if "q \<noteq> ?s" "q \<in> fst ` set (l_windows d)" for q
    using that by (auto simp: dom_map_of_conv_image_fst [symmetric] delete_conv')
  have "display_ok U ?d"
    using wl_safeD [OF assms] windows_ok_delete [of "l_windows d" ?s] keys
    by (auto simp: display_ok_def pointers_ok_def known_window_def cursor_ok_def clip_ok_def unpoint_def split: if_splits)
  moreover have log: "log_only ?d ?d'" by (rule destroy_snd_log)
  moreover have "owned ?d = rest ?s d"
    by (simp add: owned_def rest_def other_parts_def cursor_parts_def seat_parts_def clip_parts_def)
  moreover have "holds True U (rest ?s d) (w, ?d)"
    using safe_out [OF assms w] by (subst holds_cong [where d = d]) simp_all
  then have "tracks True U (rest ?s d) ?d'"
    using destroy_window_tracks tracks_weaken by blast
  ultimately have "wl_safe U ?d'"
    using log_only_ok [OF log] log_only_owned [OF log] by (simp add: wl_safeI)
  then show ?thesis using Some by (simp add: wl_Destroy_def)
qed (use assms in \<open>simp add: wl_Destroy_def\<close>)

end
