(* ===== verification/Wayland_Seat_Safe.thy ===== *)
theory Wayland_Seat_Safe
  imports Wayland_Safe
begin

text \<open>
  Icons, the pointer image, the clipboard and every message keep the rules of the protocol, and
  so does a client on this display as a whole.
\<close>

section \<open>Pixels given away\<close>

lemma release_pixels_tracks: "tracks Q U (pixel_parts p + E) d \<Longrightarrow> tracks Q U E (release_pixels co p d)"
proof -
  assume "tracks Q U (pixel_parts p + E) d"
  then have "tracks Q U (part BufferK None False (op_buffer p) + (part PoolK None False (op_pool p) + E)) d"
    by (simp add: pixel_parts_def add.assoc)
  then have "tracks Q U (part PoolK None False (op_pool p) + E)
      (send_if co (\<lambda>b. Shm (DestroyBuffer b)) (op_buffer p) d)"
    by (rule tracks_end_if) (simp_all add: ready_def)
  then have "tracks Q U E (send_if co (\<lambda>p. Shm (DestroyPool p)) (op_pool p)
      (send_if co (\<lambda>b. Shm (DestroyBuffer b)) (op_buffer p) d))"
    by (rule tracks_end_if) (simp_all add: ready_def)
  then show ?thesis by (simp add: release_pixels_def)
qed

lemma new_pixels_tracks:
  assumes "new_pixels co memory n width height a b d = (r, d')" "tracks Q U E d"
  shows "case r of Inl e \<Rightarrow> tracks Q U E d'
    | Inr p \<Rightarrow> tracks Q U (pixel_parts p + E) d' \<and> (\<exists>i. op_buffer p = Some i)"
proof -
  obtain res d1 where n1: "wl_new co (\<lambda>p. Shm (CreatePool p (ucast n))) d = (res, d1)" by fastforce
  have m1: "made Q U E PoolK None res d1"
    by (rule tracks_new [OF n1 assms(2)]) (simp_all add: ready_def)
  show ?thesis
  proof (cases res)
    case (Inl e)
    then show ?thesis using assms(1) n1 m1 by (auto simp: new_pixels_def made_def)
  next
    case pool: (Inr pool)
    let ?Q = "Q \<and> new_key U pool E" and ?E = "add_mset (pool, PoolK, None, False) E"
    have t1: "tracks ?Q U ?E d1" using m1 pool by (simp add: made_def)
    obtain res2 d2 where n2: "wl_new co (\<lambda>b. Shm (CreateBuffer b pool (ucast width) (ucast height)
                   (ucast (width * BytesPerPixel)) ShmFormatArgb8888)) d1 = (res2, d2)" by fastforce
    have m2: "made ?Q U ?E BufferK None res2 d2"
      by (rule tracks_new [OF n2 t1]) (simp_all add: ready_def)
    show ?thesis
    proof (cases res2)
      case (Inl e)
      have "tracks ?Q U (pixel_parts \<lparr>op_memory = memory, op_pool = Some pool, op_buffer = None\<rparr> + E) d2"
        using m2 Inl by (simp add: made_def pixel_parts_def)
      then have "tracks ?Q U E (release_pixels co \<lparr>op_memory = memory, op_pool = Some pool, op_buffer = None\<rparr> d2)"
        by (rule release_pixels_tracks)
      then have "tracks Q U E (release_pixels co \<lparr>op_memory = memory, op_pool = Some pool, op_buffer = None\<rparr> d2)"
        by (rule tracks_weaken) simp
      then show ?thesis using assms(1) n1 pool n2 Inl by (auto simp: new_pixels_def)
    next
      case (Inr buffer)
      then show ?thesis
        using assms(1) n1 pool n2 m2
        by (auto simp: new_pixels_def made_def pixel_parts_def add_mset_commute elim: tracks_weaken)
    qed
  qed
qed

section \<open>Icons\<close>

lemma set_icon_tracks:
  assumes "set_icon co t s p d = (e, d')" "tracks Q U E d"
    and has: "has (t, ToplevelK) E" "has (s, SurfaceK) E" "\<And>b. op_buffer p = Some b \<Longrightarrow> has (b, BufferK) E"
  shows "tracks Q U E d'"
proof -
  obtain res d1 where n1: "wl_new co (\<lambda>i. Icon (CreateIcon i)) d = (res, d1)" by fastforce
  have m1: "made Q U E IconK None res d1"
    by (rule tracks_new [OF n1 assms(2)]) (simp_all add: ready_def)
  show ?thesis
  proof (cases res)
    case (Inl x)
    then show ?thesis using assms(1) n1 m1 by (auto simp: set_icon_def made_def)
  next
    case (Inr icon)
    let ?Q = "Q \<and> new_key U icon E" and ?E = "add_mset (icon, IconK, None, False) E"
    have t1: "tracks ?Q U ?E d1" using m1 Inr by (simp add: made_def)
    define fs :: "('a wayland \<Rightarrow> string option \<times> 'a wayland) list" where "fs = [
       context_error ''adding a toplevel icon buffer''
         (\<lambda>d. case op_buffer p of Some b \<Rightarrow> wl_write co (Icon (AddIconBuffer icon b 1)) d | None \<Rightarrow> (None, d)),
       context_error ''setting a toplevel icon'' (wl_write co (Icon (SetToplevelIcon t (Some icon)))),
       context_error ''committing a toplevel icon'' (wl_write co (Surface s Commit))]"
    obtain e2 d2 where st: "steps fs d1 = (e2, d2)" by fastforce
    have "tracks ?Q U ?E (snd (steps fs d1))"
      by (rule steps_inv [where I = "tracks ?Q U ?E"])
        (use t1 has in \<open>auto simp: fs_def snd_wl_write ready_def plain_def intro!: tracks_send split: option.split\<close>)
    then have "tracks ?Q U ?E d2" by (simp add: st)
    then have "tracks ?Q U E (wl_send co (Icon (DestroyIcon icon)) d2)"
      by (rule tracks_end) (simp_all add: ready_def)
    then have "tracks Q U E (wl_send co (Icon (DestroyIcon icon)) d2)" by (rule tracks_weaken) simp
    then show ?thesis using assms(1) n1 Inr st by (simp add: set_icon_def fs_def)
  qed
qed

lemma SetIcon_safe:
  assumes "wl_safe U d" "wl_SetIcon co i img d = (e, d')"
  shows "wl_safe U d'"
proof -
  have "wl_safe U d' \<longleftrightarrow> tracks True U (owned d) d'"
    using wl_SetIcon_log [OF assms(2)] wl_safeD [OF assms(1)] log_only_ok log_only_owned
    by (metis wl_safeD wl_safeI)
  moreover have "tracks True U (owned d) d'"
  proof (cases "live_window i d")
    case None
    then show ?thesis using assms wl_safeD by (auto simp: wl_SetIcon_def split: option.splits prod.splits)
  next
    case (Some w)
    then have w: "map_of (l_windows d) (xid_of i) = Some w" by (simp add: live_window_Some)
    have t: "tracks True U (owned d) d" using wl_safeD [OF assms(1)] by simp
    show ?thesis
    proof (cases "ww_toplevel w \<noteq> None \<and> ww_surface w \<noteq> None \<and> l_iconManager d")
      case False
      then show ?thesis using assms t Some by (auto simp: wl_SetIcon_def split: option.splits prod.splits if_splits)
    next
      case True
      then obtain t s where ts: "ww_toplevel w = Some t" "ww_surface w = Some s" by auto
      have has: "has (t, ToplevelK) (owned d)" "has (s, SurfaceK) (owned d)"
        using ts by (auto intro!: owned_has [OF w] simp: parts_simps)
      have reset: "tracks True U (owned d) (snd (steps [context_error what (wl_write co (Icon (SetToplevelIcon t None))),
          wl_write co (Surface s Commit)] d))" for what
        by (rule steps_inv [where I = "tracks True U (owned d)"])
          (use t has in \<open>auto simp: snd_wl_write ready_def plain_def intro!: tracks_send\<close>)
      have set: "tracks True U (owned d) (release_pixels co p d2)"
        if n: "newWindowIconBuffer co icon d = (Inr p, d1)" and st: "set_icon co t s p d1 = (e', d2)" for icon p d1 e' d2
      proof -
        have "tracks True U (pixel_parts p + owned d) d1"
          using n new_pixels_tracks [OF _ t]
          by (fastforce simp: newWindowIconBuffer_def Let_def split: sum.splits)
        then have "tracks True U (pixel_parts p + owned d) d2"
          by (rule set_icon_tracks [OF st]) (use has in \<open>simp_all add: pixel_parts_def\<close>)
        then show ?thesis by (rule release_pixels_tracks)
      qed
      have failed: "tracks True U (owned d) d1" if n: "newWindowIconBuffer co icon d = (Inl x, d1)" for icon x d1
        using n t new_pixels_tracks [OF _ t]
        by (fastforce simp: newWindowIconBuffer_def Let_def split: sum.splits)
      show ?thesis
      proof (cases img)
        case None
        then show ?thesis using assms(2) Some True ts reset by (auto simp: wl_SetIcon_def simp del: steps.simps) (metis snd_conv)
      next
        case icon: (Some icon)
        show ?thesis
        proof (cases "icon_Validate icon")
          case None
          then show ?thesis
            using assms(2) Some True ts icon set failed
            by (auto simp: wl_SetIcon_def split: prod.splits sum.splits)
        qed (use assms t icon in \<open>simp add: wl_SetIcon_def\<close>)
      qed
    qed
  qed
  ultimately show ?thesis by simp
qed

section \<open>The pointer image\<close>

text \<open>Showing an image changes what is shown and may make the surface of the pointer.\<close>

definition cursor_kept :: "'o wayland \<Rightarrow> 'o wayland" where
  "cursor_kept d = (kept d)\<lparr>l_shown := None, l_cursorSurface := None\<rparr>"

lemma cursor_kept_simps [simp]:
  "cursor_kept (d\<lparr>l_shown := x\<rparr>) = cursor_kept d" "cursor_kept (d\<lparr>l_cursorSurface := y\<rparr>) = cursor_kept d"
  by (simp_all add: cursor_kept_def kept_def)

lemma cursor_kept_log: "log_only d d' \<Longrightarrow> cursor_kept d' = cursor_kept d"
  by (simp add: cursor_kept_def log_only_def)

lemma cursor_kept_fields:
  assumes "cursor_kept d' = cursor_kept d"
  shows "l_windows d' = l_windows d" "l_ownedCursor d' = l_ownedCursor d" "l_theme d' = l_theme d"
    "l_pointer d' = l_pointer d" "seat_parts d' = seat_parts d" "clip_parts d' = clip_parts d"
    "pointers_ok d' = pointers_ok d" "clip_ok d' = clip_ok d"
proof -
  have f: "l_windows d' = l_windows d" "l_ownedCursor d' = l_ownedCursor d" "l_theme d' = l_theme d"
    "l_pointer d' = l_pointer d" "l_keyboard d' = l_keyboard d" "l_clipboard d' = l_clipboard d"
    "l_lastToplevel d' = l_lastToplevel d" "l_pointerOver d' = l_pointerOver d"
    "l_keyboardFocus d' = l_keyboardFocus d"
    using arg_cong [OF assms, of l_windows] arg_cong [OF assms, of l_ownedCursor] arg_cong [OF assms, of l_theme]
      arg_cong [OF assms, of l_pointer] arg_cong [OF assms, of l_keyboard] arg_cong [OF assms, of l_clipboard]
      arg_cong [OF assms, of l_lastToplevel] arg_cong [OF assms, of l_pointerOver]
      arg_cong [OF assms, of l_keyboardFocus]
    by (simp_all add: cursor_kept_def kept_def)
  then show "l_windows d' = l_windows d" "l_ownedCursor d' = l_ownedCursor d" "l_theme d' = l_theme d"
    "l_pointer d' = l_pointer d" "seat_parts d' = seat_parts d" "clip_parts d' = clip_parts d"
    "pointers_ok d' = pointers_ok d" "clip_ok d' = clip_ok d"
    by (simp_all add: seat_parts_def clip_parts_def pointers_ok_def known_window_def clip_ok_def)
qed

text \<open>What surrounds the surface of the pointer.\<close>

definition beside_cursor :: "'o wayland \<Rightarrow> obj multiset" where
  "beside_cursor d = window_parts (l_windows d) +
     ((case l_ownedCursor d of None \<Rightarrow> {#} | Some p \<Rightarrow> pixel_parts p) + (seat_parts d + clip_parts d))"

lemma owned_cursor: "owned d = part SurfaceK None False (l_cursorSurface d) + beside_cursor d"
  by (simp add: owned_def other_parts_def cursor_parts_def beside_cursor_def ac_simps)

lemma beside_cursor_kept: "cursor_kept d' = cursor_kept d \<Longrightarrow> beside_cursor d' = beside_cursor d"
  using cursor_kept_fields [of d' d] by (simp add: beside_cursor_def)

lemma parents_owned: "windows_ok (l_windows d) \<Longrightarrow> parents (owned d) \<subseteq> key_set (window_parts (l_windows d))"
  using windows_ok_parents by (simp add: owned_def)

lemma cursor_no_child:
  assumes "windows_ok (l_windows d)" "unique_keys (X + owned d)" "l_cursorSurface d = Some s" "parents X = {}"
  shows "s \<notin> parents (X + owned d)"
proof -
  have "unique_keys (owned d)" using assms(2) unique_keys_union by blast
  then have "key_set (window_parts (l_windows d)) \<inter> key_set (other_parts d) = {}"
    unfolding owned_def using unique_keys_union by blast
  moreover have "s \<in> key_set (other_parts d)" using assms(3) by (simp add: other_parts_def cursor_parts_def)
  ultimately show ?thesis using parents_owned [OF assms(1)] assms(4) by auto
qed

lemma not_parent: "s \<notin> parents E \<Longrightarrow> (j, k, Some s, a) \<notin># E"
  by (auto simp: parents_def)

lemma show_pixels_tracks:
  assumes "show_pixels co s c d = (e, d')" "tracks Q U (X + owned d) d" "l_cursorSurface d = Some s"
    and "windows_ok (l_windows d)" "parents X = {}"
    and "has (sc_buffer c, BufferK) (X + owned d) \<or> sc_buffer c \<notin> U"
  shows "tracks Q U (X + owned d) d' \<and> cursor_kept d' = cursor_kept d \<and> l_cursorSurface d' = Some s \<and>
    (e \<noteq> None \<or> l_pointer d = None \<longrightarrow> l_shown d' = l_shown d) \<and>
    (e = None \<and> l_pointer d \<noteq> None \<longrightarrow> l_shown d' = Some c)"
proof (cases "l_pointer d")
  case None
  then show ?thesis using assms by (simp add: show_pixels_def)
next
  case (Some pointer)
  let ?E = "X + owned d" and ?Q = "Q \<and> unique_keys (X + owned d) \<and> key_set (X + owned d) \<subseteq> U"
  define rs where "rs = [Surface s (Attach (sc_buffer c)),
     Surface s (DamageBuffer 0 0 (ucast (sc_width c)) (ucast (sc_height c))), Surface s Commit,
     Seat (SetPointerCursor pointer (l_enterSerial d) s (ucast (sc_hotspotX c)) (ucast (sc_hotspotY c)))]"
  obtain e1 d1 where st: "all_steps (map (wl_write co) rs) d = (e1, d1)" by fastforce
  have has: "has (s, SurfaceK) ?E" "has (pointer, PointerK) ?E"
    using assms(3) Some by (simp_all add: owned_cursor beside_cursor_def seat_parts_def)
  have ready: "ready U r ?E \<and> plain r" if "r \<in> set rs" "?Q" for r
    using that has assms(6) not_parent [OF cursor_no_child [OF assms(4) _ assms(3,5)]]
    by (auto simp: rs_def ready_def plain_def)
  have "plain r" if "r \<in> set rs" for r using that by (auto simp: rs_def plain_def)
  then have "tracks ?Q U ?E (snd (all_steps (map (wl_write co) rs) d))"
    by (intro all_steps_inv [where I = "tracks ?Q U ?E"] tracks_keys [OF assms(2)])
      (use ready in \<open>auto simp: snd_wl_write intro!: tracks_send\<close>)
  then have t: "tracks Q U ?E d1" by (auto simp: st elim: tracks_weaken)
  have log: "log_only d d1" by (rule writes_log [OF st])
  have "e \<noteq> None \<and> d' = d1 \<or> e = None \<and> d' = d1\<lparr>l_shown := Some c\<rparr>"
    using assms(1) Some st
    by (cases e1) (auto simp: show_pixels_def context_error_def rs_def simp del: all_steps.simps)
  then show ?thesis
    using t cursor_kept_log [OF log] log_only_fields(7,8) [OF log] assms(3) Some
    by (auto simp: tracks_cong [of "d1\<lparr>l_shown := Some c\<rparr>" d1])
qed

lemma showCursor_tracks:
  assumes "showCursor co c d = (e, d')" "tracks Q U (X + owned d) d"
    and "windows_ok (l_windows d)" "parents X = {}"
    and "has (sc_buffer c, BufferK) (X + owned d) \<or> sc_buffer c \<notin> U"
  shows "tracks Q U (X + owned d') d' \<and> cursor_kept d' = cursor_kept d \<and>
    (e \<noteq> None \<or> l_pointer d = None \<longrightarrow> l_shown d' = l_shown d) \<and>
    (e = None \<and> l_pointer d \<noteq> None \<longrightarrow> l_shown d' = Some c)"
proof (cases "l_cursorSurface d")
  case (Some s)
  then have "show_pixels co s c d = (e, d')" using assms(1) by (simp add: showCursor_def)
  from show_pixels_tracks [OF this assms(2) Some assms(3-5)] show ?thesis
    using beside_cursor_kept [of d' d] Some by (auto simp: owned_cursor)
next
  case None
  obtain res d1 where n: "wl_new co CreateSurface d = (res, d1)" by fastforce
  have m: "made Q U (X + owned d) SurfaceK None res d1"
    by (rule tracks_new [OF n assms(2)]) (simp_all add: ready_def)
  have log: "log_only d d1" by (rule log_only_new [OF n]) simp
  show ?thesis
  proof (cases res)
    case (Inl x)
    then show ?thesis
      using assms(1) None n m cursor_kept_log [OF log] log_only_owned [OF log] log_only_fields(8) [OF log]
      by (auto simp: showCursor_def made_def)
  next
    case (Inr s)
    let ?d = "d1\<lparr>l_cursorSurface := Some s\<rparr>"
    have k: "cursor_kept ?d = cursor_kept d" using cursor_kept_log [OF log] by simp
    have o: "X + owned ?d = add_mset (s, SurfaceK, None, False) (X + owned d)"
      using None beside_cursor_kept [OF k] by (simp add: owned_cursor)
    have "tracks Q U (X + owned ?d) d1"
      using m Inr unfolding o by (auto simp: made_def elim: tracks_weaken)
    then have t: "tracks Q U (X + owned ?d) ?d" by (subst tracks_cong [where d = d1]) simp_all
    have "show_pixels co s c ?d = (e, d')" using assms(1) None n Inr by (simp add: showCursor_def)
    from show_pixels_tracks [OF this t _ _ assms(4)]
    have "tracks Q U (X + owned ?d) d' \<and> cursor_kept d' = cursor_kept ?d \<and> l_cursorSurface d' = Some s \<and>
        (e \<noteq> None \<or> l_pointer ?d = None \<longrightarrow> l_shown d' = l_shown ?d) \<and>
        (e = None \<and> l_pointer ?d \<noteq> None \<longrightarrow> l_shown d' = Some c)"
      using assms(3,5) cursor_kept_fields(1) [OF k] o by auto
    then show ?thesis
      using k log_only_fields(5,8) [OF log] beside_cursor_kept [of d' ?d] by (simp add: owned_cursor)
  qed
qed

lemma display_ok_cursor:
  assumes "display_ok U d" "cursor_kept d' = cursor_kept d" "cursor_ok U d'"
  shows "display_ok U d'"
  using assms cursor_kept_fields [OF assms(2)] by (simp add: display_ok_def)

lemma release_owned_tracks:
  "tracks Q U ((case p of None \<Rightarrow> {#} | Some p \<Rightarrow> pixel_parts p) + E) d \<Longrightarrow> tracks Q U E (release_owned co p d)"
  by (auto simp: release_owned_def intro: release_pixels_tracks split: option.splits)

lemma release_owned_log: "log_only d (release_owned co p d)"
  by (simp add: release_owned_def split: option.split)

text \<open>A new image is up: the one before is released.\<close>

lemma replace_cursor:
  assumes "windows_ok (l_windows d)" "pointers_ok d" "clip_ok d"
    and theme: "\<And>img b. l_theme d = Some (Some img) \<Longrightarrow> ti_buffer img = Inr b \<Longrightarrow> b \<notin> U"
    and tr: "tracks True U (X + owned d) d" and c: "l_shown d = Some c"
    and p: "X = (case p of None \<Rightarrow> {#} | Some p \<Rightarrow> pixel_parts p)"
    and buffer: "sc_buffer c \<notin> U \<or> (\<exists>q. p = Some q \<and> op_buffer q = Some (sc_buffer c))"
  shows "wl_safe U (release_owned co (l_ownedCursor d) (d\<lparr>l_ownedCursor := p\<rparr>))" (is "wl_safe U ?d'")
proof -
  let ?d = "d\<lparr>l_ownedCursor := p\<rparr>"
  let ?old = "case l_ownedCursor d of None \<Rightarrow> {#} | Some p \<Rightarrow> pixel_parts p"
  have log: "log_only ?d ?d'" by (rule release_owned_log)
  have "display_ok U ?d"
    using assms(1-3) theme c buffer
    by (auto simp: display_ok_def cursor_ok_def pointers_ok_def known_window_def clip_ok_def)
  moreover have "X + owned d = ?old + owned ?d"
    by (simp add: p owned_cursor beside_cursor_def seat_parts_def clip_parts_def ac_simps)
  then have "tracks True U (?old + owned ?d) ?d"
    using tr by (subst tracks_cong [where d = d]) simp_all
  then have "tracks True U (owned ?d) ?d'" by (rule release_owned_tracks)
  ultimately show ?thesis
    using log_only_ok [OF log] log_only_owned [OF log] by (simp add: wl_safeI)
qed

lemma cursor_ok_same:
  "cursor_ok U d \<Longrightarrow> l_shown d' = l_shown d \<Longrightarrow> cursor_kept d' = cursor_kept d \<Longrightarrow> cursor_ok U d'"
  using cursor_kept_fields [of d' d] by (simp add: cursor_ok_def)

lemma display_ok_same:
  "display_ok U d \<Longrightarrow> cursor_kept d' = cursor_kept d \<Longrightarrow> l_shown d' = l_shown d \<Longrightarrow> display_ok U d'"
  using display_ok_cursor [of U d d'] cursor_ok_same [of U d d'] by (simp add: display_ok_def)

lemma pixel_parts_parents [simp]: "parents (pixel_parts p) = {}"
  by (simp add: pixel_parts_def part_def split: option.split)

lemma newCursorBuffer_tracks:
  assumes "newCursorBuffer co img d = (r, d')" "tracks Q U E d"
  shows "case r of Inl e \<Rightarrow> tracks Q U E d'
    | Inr p \<Rightarrow> tracks Q U (pixel_parts p + E) d' \<and> (\<exists>i. op_buffer p = Some i)"
  using assms
  by (auto simp: newCursorBuffer_def Let_def split: sum.splits dest!: new_pixels_tracks [OF _ assms(2)])

lemma SetCursor_image_safe:
  assumes "wl_safe U d" "newCursorBuffer co img d = (Inr p, d1)" "op_buffer p = Some b" "l_pointer d \<noteq> None"
    and "showCursor co c d1 = (e, d2)" "sc_buffer c = b"
  shows "case e of Some x \<Rightarrow> wl_safe U (release_pixels co p d2)
    | None \<Rightarrow> wl_safe U (release_owned co (l_ownedCursor d2) (d2\<lparr>l_ownedCursor := Some p\<rparr>))"
proof -
  have ok: "display_ok U d" "tracks True U (owned d) d" using wl_safeD [OF assms(1)] by simp_all
  have log: "log_only d d1" by (rule newCursorBuffer_log [OF assms(2)]) simp
  have ok1: "display_ok U d1" "tracks True U (pixel_parts p + owned d1) d1" "l_pointer d1 \<noteq> None"
    using newCursorBuffer_tracks [OF assms(2) ok(2)] log_only_ok [OF log] log_only_owned [OF log]
      log_only_fields(5) [OF log] ok(1) assms(4) by simp_all
  have "windows_ok (l_windows d1)" using ok1(1) by (simp add: display_ok_def)
  then have d2: "tracks True U (pixel_parts p + owned d2) d2" "cursor_kept d2 = cursor_kept d1"
    "e \<noteq> None \<longrightarrow> l_shown d2 = l_shown d1" "e = None \<longrightarrow> l_shown d2 = Some c"
    using showCursor_tracks [OF assms(5) ok1(2)] assms(3,6) ok1(3) by (simp_all add: pixel_parts_def part_def split: option.split)
  show ?thesis
  proof (cases e)
    case (Some x)
    have log2: "log_only d2 (release_pixels co p d2)" by simp
    have "display_ok U d2"
      using display_ok_same [OF ok1(1) d2(2)] d2(3) Some by simp
    then show ?thesis
      using release_pixels_tracks [OF d2(1)] log_only_ok [OF log2] log_only_owned [OF log2] Some
      by (simp add: wl_safeI)
  next
    case None
    have "wl_safe U (release_owned co (l_ownedCursor d2) (d2\<lparr>l_ownedCursor := Some p\<rparr>))"
      by (rule replace_cursor [where c = c and X = "pixel_parts p"])
        (use cursor_kept_fields [OF d2(2)] ok1(1) d2 None assms(3,6) in \<open>simp_all add: display_ok_def cursor_ok_def\<close>)
    then show ?thesis using None by simp
  qed
qed

lemma themeCursor_safe:
  assumes "wl_safe U d" "themeCursor co d = (img, d')" "theme_foreign co U"
  shows "wl_safe U d' \<and> l_pointer d' = l_pointer d \<and> (\<forall>i b. img = Some i \<longrightarrow> ti_buffer i = Inr b \<longrightarrow> b \<notin> U)"
proof -
  have ok: "display_ok U d" "tracks True U (owned d) d" using wl_safeD [OF assms(1)] by simp_all
  have theme: "wl_safe U (d\<lparr>l_theme := Some arrow\<rparr>)"
    if "\<And>i b. arrow = Some i \<Longrightarrow> ti_buffer i = Inr b \<Longrightarrow> b \<notin> U" for arrow
  proof (rule wl_safeI)
    show "display_ok U (d\<lparr>l_theme := Some arrow\<rparr>)"
      using ok(1) that by (auto simp: display_ok_def cursor_ok_def pointers_ok_def known_window_def clip_ok_def)
    show "tracks True U (owned (d\<lparr>l_theme := Some arrow\<rparr>)) (d\<lparr>l_theme := Some arrow\<rparr>)"
      using ok(2) by (subst tracks_cong [where d = d])
        (simp_all add: owned_def other_parts_def cursor_parts_def seat_parts_def clip_parts_def)
  qed
  have missing: "wl_safe U (d\<lparr>l_themeMissing := True\<rparr>)"
  proof (rule wl_safeI)
    show "display_ok U (d\<lparr>l_themeMissing := True\<rparr>)"
      using ok(1) by (auto simp: display_ok_def cursor_ok_def pointers_ok_def known_window_def clip_ok_def)
    show "tracks True U (owned (d\<lparr>l_themeMissing := True\<rparr>)) (d\<lparr>l_themeMissing := True\<rparr>)"
      using ok(2) by (subst tracks_cong [where d = d])
        (simp_all add: owned_def other_parts_def cursor_parts_def seat_parts_def clip_parts_def)
  qed
  show ?thesis
  proof (cases "l_theme d")
    case (Some arrow)
    then show ?thesis using assms ok(1) by (simp add: themeCursor_def display_ok_def cursor_ok_def)
  next
    case None
    have "wl_safe U (d\<lparr>l_theme := Some arrow\<rparr>) \<and> (\<forall>i b. arrow = Some i \<longrightarrow> ti_buffer i = Inr b \<longrightarrow> b \<notin> U)"
      if "wc_theme co name n = Inr arrow" for name n arrow
    proof -
      have "b \<notin> U" if "arrow = Some i" "ti_buffer i = Inr b" for i b
        using assms(3) that \<open>wc_theme co name n = Inr arrow\<close> unfolding theme_foreign_def by blast
      then show ?thesis using theme by blast
    qed
    then show ?thesis
      using assms(1,2) missing None by (auto simp: themeCursor_def split: if_splits sum.splits)
  qed
qed

lemma showThemeCursor_safe:
  assumes "wl_safe U d" "showThemeCursor co d = (e, d')" "theme_foreign co U" "l_pointer d \<noteq> None"
  shows "wl_safe U d'"
proof (cases "l_shown d")
  case None
  then show ?thesis using assms by (simp add: showThemeCursor_def)
next
  case (Some c0)
  obtain img d1 where th: "themeCursor co d = (img, d1)" by fastforce
  note d1 = themeCursor_safe [OF assms(1) th assms(3)]
  have ok1: "display_ok U d1" "tracks True U ({#} + owned d1) d1" using wl_safeD [of U d1] d1 by simp_all
  show ?thesis
  proof (cases img)
    case None
    then show ?thesis using assms(2) Some th d1 by (simp add: showThemeCursor_def)
  next
    case img: (Some i)
    show ?thesis
    proof (cases "ti_buffer i")
      case (Inl x)
      then show ?thesis using assms(2) Some th d1 img by (simp add: showThemeCursor_def)
    next
      case (Inr b)
      let ?c = "\<lparr>sc_buffer = b, sc_width = ucast (ti_width i), sc_height = ucast (ti_height i),
         sc_hotspotX = ucast (ti_hotspotX i), sc_hotspotY = ucast (ti_hotspotY i)\<rparr>"
      obtain e2 d2 where sh: "showCursor co ?c d1 = (e2, d2)" by fastforce
      have b: "b \<notin> U" using d1 img Inr by simp
      have "windows_ok (l_windows d1)" using ok1(1) by (simp add: display_ok_def)
      then have d2: "tracks True U ({#} + owned d2) d2" "cursor_kept d2 = cursor_kept d1"
        "e2 \<noteq> None \<longrightarrow> l_shown d2 = l_shown d1" "e2 = None \<longrightarrow> l_shown d2 = Some ?c"
        using showCursor_tracks [OF sh ok1(2)] b d1 assms(4) by simp_all
      show ?thesis
      proof (cases e2)
        case (Some x)
        have "display_ok U d2"
          using display_ok_same [OF ok1(1) d2(2)] d2(3) Some by simp
        then show ?thesis
          using assms(2) \<open>l_shown d = Some c0\<close> th img Inr sh Some d2(1) by (simp add: showThemeCursor_def wl_safeI)
      next
        case None
        have "wl_safe U (release_owned co (l_ownedCursor d2) (d2\<lparr>l_ownedCursor := None\<rparr>))"
          by (rule replace_cursor [where c = ?c and X = "{#}"])
            (use cursor_kept_fields [OF d2(2)] ok1(1) d2 None b in \<open>simp_all add: display_ok_def cursor_ok_def\<close>)
        then show ?thesis
          using assms(2) \<open>l_shown d = Some c0\<close> th img Inr sh None by (simp add: showThemeCursor_def)
      qed
    qed
  qed
qed

lemma SetCursor_safe:
  assumes "wl_safe U d" "wl_SetCursor co img d = (e, d')" "theme_foreign co U"
  shows "wl_safe U d'"
proof (cases "l_pointer d = None")
  case False
  have ok: "display_ok U d" "tracks True U (owned d) d" using wl_safeD [OF assms(1)] by simp_all
  show ?thesis
  proof (cases img)
    case None
    then show ?thesis using assms(2) False showThemeCursor_safe [OF assms(1) _ assms(3) False] by (simp add: wl_SetCursor_def)
  next
    case (Some c)
    obtain r d1 where n: "newCursorBuffer co c d = (r, d1)" by fastforce
    have log: "log_only d d1" by (rule newCursorBuffer_log [OF n]) simp
    note t = newCursorBuffer_tracks [OF n ok(2)]
    show ?thesis
    proof (cases r)
      case (Inl x)
      then have "wl_safe U d1"
        using t log_only_ok [OF log] log_only_owned [OF log] ok(1) by (simp add: wl_safeI)
      then show ?thesis
        using assms False Some n Inl by (auto simp: wl_SetCursor_def split: option.splits)
    next
      case (Inr p)
      then obtain b where b: "op_buffer p = Some b" using t by auto
      let ?c = "\<lparr>sc_buffer = b, sc_width = cursor_Width c, sc_height = cursor_Height c,
         sc_hotspotX = HotspotX c, sc_hotspotY = HotspotY c\<rparr>"
      obtain e2 d2 where sh: "showCursor co ?c d1 = (e2, d2)" by fastforce
      have "case e2 of Some x \<Rightarrow> wl_safe U (release_pixels co p d2)
        | None \<Rightarrow> wl_safe U (release_owned co (l_ownedCursor d2) (d2\<lparr>l_ownedCursor := Some p\<rparr>))"
        by (rule SetCursor_image_safe [OF assms(1) n [unfolded Inr] b False sh]) simp
      then show ?thesis
        using assms(1,2) False Some n Inr b sh
        by (cases e2) (auto simp: wl_SetCursor_def split: option.splits)
        qed
  qed
qed (use assms in \<open>simp add: wl_SetCursor_def\<close>)

lemma restoreCursor_safe:
  assumes "wl_safe U d"
  shows "wl_safe U (restoreCursor co d)"
proof (cases "l_shown d")
  case (Some c)
  have ok: "display_ok U d" "tracks True U ({#} + owned d) d" using wl_safeD [OF assms] by simp_all
  obtain e d' where sh: "showCursor co c d = (e, d')" by fastforce
  have "has (sc_buffer c, BufferK) ({#} + owned d) \<or> sc_buffer c \<notin> U"
    using ok(1) Some
    by (auto simp: display_ok_def cursor_ok_def owned_cursor beside_cursor_def pixel_parts_def)
  then have "tracks True U ({#} + owned d') d' \<and> cursor_kept d' = cursor_kept d \<and> l_shown d' = Some c"
    using showCursor_tracks [OF sh ok(2)] ok(1) Some by (auto simp: display_ok_def)
  then show ?thesis
    using display_ok_same [OF ok(1), of d'] Some sh by (simp add: restoreCursor_def wl_safeI)
qed (use assms in \<open>simp add: restoreCursor_def\<close>)

end
