(* ===== verification/Wayland_Session_Safe.thy ===== *)
theory Wayland_Session_Safe
  imports Wayland_Seat_Safe
begin

text \<open>
  The clipboard, every message of the compositor, opening and closing keep the rules of the
  protocol; so a client on this backend keeps them in every reachable state.
\<close>

section \<open>Fields that do not matter\<close>

lemma wl_safe_fields [simp]:
  "wl_safe U (d\<lparr>l_inputSerial := x1\<rparr>) = wl_safe U d"
  "wl_safe U (d\<lparr>l_pointerX := x2, l_pointerY := x3\<rparr>) = wl_safe U d"
  "wl_safe U (d\<lparr>l_keys := x5\<rparr>) = wl_safe U d"
  "wl_safe U (d\<lparr>l_mods := x6\<rparr>) = wl_safe U d"
  "wl_safe U (d\<lparr>l_outputs := x7\<rparr>) = wl_safe U d"
  "wl_safe U (d\<lparr>l_compositor := b1\<rparr>) = wl_safe U d"
  "wl_safe U (d\<lparr>l_shm := b2\<rparr>) = wl_safe U d"
  "wl_safe U (d\<lparr>l_wmBase := b3\<rparr>) = wl_safe U d"
  "wl_safe U (d\<lparr>l_decoration := b4\<rparr>) = wl_safe U d"
  "wl_safe U (d\<lparr>l_iconManager := b5\<rparr>) = wl_safe U d"
  "wl_safe U (d\<lparr>l_dataManager := b6\<rparr>) = wl_safe U d"
  "wl_safe U (d\<lparr>l_seat := b7, l_seatBound := x8\<rparr>) = wl_safe U d"
  "wl_safe U (d\<lparr>l_done := b8\<rparr>) = wl_safe U d"
  "wl_safe U (d\<lparr>l_others := x9\<rparr>) = wl_safe U d"
  by (simp_all add: wl_safe_def safe_with_def display_ok_def pointers_ok_def known_window_def cursor_ok_def clip_ok_def
      tracks_def owned_def other_parts_def cursor_parts_def seat_parts_def clip_parts_def)

lemma safe_write:
  assumes "wl_safe U d" "wl_write co r d = (e, d')" "unique_keys (owned d) \<Longrightarrow> ready U r (owned d)" "plain r"
  shows "wl_safe U d'"
proof -
  have log: "log_only d d'" by (rule log_only_write [OF assms(2)]) simp
  have "tracks (True \<and> unique_keys (owned d) \<and> key_set (owned d) \<subseteq> U) U (owned d) d'"
    by (rule tracks_use [OF assms(2) tracks_keys]) (use wl_safeD [OF assms(1)] assms(3,4) in auto)
  then have "tracks True U (owned d) d'" by (rule tracks_weaken) simp
  then show ?thesis
    using wl_safeD [OF assms(1)] log_only_ok [OF log] log_only_owned [OF log] by (simp add: wl_safeI)
qed

lemma safe_send:
  "wl_safe U d \<Longrightarrow> (unique_keys (owned d) \<Longrightarrow> ready U r (owned d)) \<Longrightarrow> plain r \<Longrightarrow> wl_safe U (wl_send co r d)"
  unfolding wl_send_def by (rule safe_write [OF _ prod.collapse [symmetric]])

text \<open>A request that needs no object.\<close>

definition harmless :: "wreq \<Rightarrow> bool" where
  "harmless r \<longleftrightarrow> plain r \<and> uses r = [] \<and> lonely r = None"

lemma harmless_ready: "harmless r \<Longrightarrow> ready U r E"
  by (cases r) (auto simp: harmless_def ready_def)

lemma harmless_offers [simp]: "harmless (wreq.Data (DestroyOffer i))" "harmless (wreq.Data (ReceiveOffer i mime))"
    "harmless (Connection (Pong serial))"
  by (simp_all add: harmless_def plain_def)

lemma safe_harmless: "wl_safe U d \<Longrightarrow> harmless r \<Longrightarrow> wl_safe U (wl_send co r d)"
  by (rule safe_send) (simp_all add: harmless_ready, simp add: harmless_def)

lemma safe_harmless_write: "wl_write co r d = (e, d') \<Longrightarrow> wl_safe U d \<Longrightarrow> harmless r \<Longrightarrow> wl_safe U d'"
  by (rule safe_write [of U d co r e d']) (simp_all add: harmless_ready, simp add: harmless_def)

section \<open>The clipboard\<close>

lemma put_clipboard_views [simp]:
  "l_clipboard (put_clipboard c d) = Some c" "l_windows (put_clipboard c d) = l_windows d"
  "cursor_parts (put_clipboard c d) = cursor_parts d" "seat_parts (put_clipboard c d) = seat_parts d"
  "pointers_ok (put_clipboard c d) = pointers_ok d" "cursor_ok U (put_clipboard c d) = cursor_ok U d"
  "tracks Q U E (put_clipboard c d) = tracks Q U E d"
  by (simp_all add: put_clipboard_def cursor_parts_def seat_parts_def pointers_ok_def known_window_def
      cursor_ok_def tracks_def)

text \<open>What is beside the sources.\<close>

definition beside_sources :: "'o wayland \<Rightarrow> obj multiset" where
  "beside_sources d = window_parts (l_windows d) + (cursor_parts d + seat_parts d)"

lemma owned_clipboard:
  "l_clipboard d = Some c \<Longrightarrow>
   owned d = source_parts (lc_sources c) + add_mset (lc_device c, DeviceK, None, False) (beside_sources d)"
  by (simp add: owned_def other_parts_def clip_parts_def beside_sources_def ac_simps)

lemma beside_sources_put [simp]: "beside_sources (put_clipboard c d) = beside_sources d"
  by (simp add: beside_sources_def)

lemma safe_put_clipboard:
  assumes "wl_safe U d" "l_clipboard d = Some c" "lc_device c' = lc_device c" "lc_sources c' = lc_sources c"
    "lc_source c' = lc_source c"
  shows "wl_safe U (put_clipboard c' d)"
proof (rule wl_safeI)
  show "display_ok U (put_clipboard c' d)"
    using wl_safeD [OF assms(1)] assms(2-5) by (simp add: display_ok_def clip_ok_def)
  have "owned (put_clipboard c' d) = owned d"
    using assms(2-5) by (simp add: owned_clipboard [of _ c'] owned_clipboard [of d c])
  then show "tracks True U (owned (put_clipboard c' d)) (put_clipboard c' d)"
    using wl_safeD [OF assms(1)] by simp
qed

lemma source_parts_update:
  "s \<notin> key_set (source_parts ss) \<Longrightarrow> source_parts (AList.update s t ss) = add_mset (s, SourceK, None, False) (source_parts ss)"
  by (subst update_absent) (auto simp: source_parts_def key_set_def image_image)

lemma source_keys: "key_set (source_parts ss) = fst ` set ss"
  by (auto simp: source_parts_def key_set_def image_image)

lemma source_parts_delete:
  "unique_keys (source_parts ss) \<Longrightarrow> s \<in> fst ` set ss \<Longrightarrow>
   source_parts ss = add_mset (s, SourceK, None, False) (source_parts (AList.delete s ss))"
proof (induction ss)
  case (Cons p ss)
  have tail: "source_parts (p # ss) = add_mset (fst p, SourceK, None, False) (source_parts ss)"
    by (simp add: source_parts_def)
  show ?case
  proof (cases "fst p = s")
    case True
    then have "s \<notin> fst ` set ss" using Cons.prems(1) tail source_keys [of ss] by simp
    then show ?thesis using True tail by (simp add: delete_absent)
  next
    case False
    then show ?thesis using Cons tail by (simp add: source_parts_def add_mset_commute)
  qed
qed simp

lemma publish_safe:
  fixes d :: "'o wayland"
  assumes "publish co c str d = (e, d')" "wl_safe U d" "l_clipboard d = Some c"
  shows "wl_safe U d'"
proof -
  have ok: "display_ok U d" "tracks True U (owned d) d" using wl_safeD [OF assms(2)] by simp_all
  obtain res d1 where n: "wl_new co (\<lambda>i. wreq.Data (CreateSource i)) d = (res, d1)" by fastforce
  have m: "made True U (owned d) SourceK None res d1"
    by (rule tracks_new [OF n ok(2)]) (simp_all add: ready_def)
  have log1: "log_only d d1" by (rule log_only_new [OF n]) simp
  show ?thesis
  proof (cases res)
    case (Inl x)
    then show ?thesis
      using assms(1) n m ok(1) log_only_ok [OF log1] log_only_owned [OF log1]
      by (simp add: publish_def made_def wl_safeI)
  next
    case (Inr i)
    let ?Q = "True \<and> new_key U i (owned d)" and ?E = "add_mset (i, SourceK, None, False) (owned d)"
    define fs :: "('o wayland \<Rightarrow> string option \<times> 'o wayland) list" where "fs = map (\<lambda>mime. wl_write co (wreq.Data (OfferMime i mime))) waylandTextMIMEs @
      [wl_write co (wreq.Data (SetSelection (lc_device c) i (l_inputSerial d)))]"
    obtain e2 d2 where st: "steps fs d1 = (e2, d2)" by fastforce
    have "has (lc_device c, DeviceK) (owned d)" by (simp add: owned_clipboard [OF assms(3)])
    then have "tracks ?Q U ?E (snd (steps fs d1))"
      by (intro steps_inv [where I = "tracks ?Q U ?E"])
        (use m Inr in \<open>auto simp: fs_def snd_wl_write ready_def plain_def made_def intro!: tracks_send\<close>)
    then have t2: "tracks ?Q U ?E d2" by (simp add: st)
    have "log_only d (snd (steps fs d1))"
      by (rule log_only_steps [OF _ log1 prod.collapse [symmetric]]) (auto simp: fs_def)
    then have log2: "log_only d d2" by (simp add: st)
    have k: "kept d1 = kept d" using log1 by (simp add: log_only_def)
    have serial: "l_inputSerial d1 = l_inputSerial d"
      using arg_cong [OF k, of l_inputSerial] by (simp add: kept_def)
    show ?thesis
    proof (cases e2)
      case (Some x)
      let ?d = "wl_send co (wreq.Data (DestroySource i)) d2"
      have "tracks ?Q U (owned d) ?d" by (rule tracks_end [OF t2]) (simp_all add: ready_def)
      then have "tracks True U (owned d) ?d" by (rule tracks_weaken) simp
      moreover have log: "log_only d ?d" using log2 by simp
      moreover have "d' = ?d" using assms(1) n Inr st Some serial by (simp add: publish_def fs_def)
      ultimately show ?thesis using ok(1) log_only_ok [OF log] log_only_owned [OF log] by (simp add: wl_safeI)
    next
      case None
      let ?c = "c\<lparr>lc_sources := AList.update i str (lc_sources c), lc_source := Some i, lc_pending := None\<rparr>"
      have d': "d' = put_clipboard ?c d2" using assms(1) n Inr st None serial by (simp add: publish_def fs_def)
      have f: "display_ok U d2" "owned d2 = owned d" "l_clipboard d2 = Some c"
        using ok(1) log_only_ok [OF log2] log_only_owned [OF log2] log_only_fields(11) [OF log2] assms(3) by simp_all
      have i: "i \<in> fst ` set (AList.update i str (lc_sources c))"
        by (simp add: dom_map_of_conv_image_fst [symmetric] update_conv')
      then have "display_ok U d'" using f(1) by (simp add: d' display_ok_def clip_ok_def)
      moreover have "owned d' = ?E" if "new_key U i (owned d)"
      proof -
        have "i \<notin> key_set (source_parts (lc_sources c))"
          using that by (simp add: new_key_def owned_clipboard [OF assms(3)])
        moreover have "owned d = source_parts (lc_sources c) + add_mset (lc_device c, DeviceK, None, False) (beside_sources d2)"
          using owned_clipboard [OF f(3)] f(2) by simp
        ultimately show ?thesis
          by (simp add: d' owned_clipboard [of "put_clipboard ?c d2" ?c] source_parts_update)
      qed
      then have "tracks True U (owned d') d'" using t2 by (auto simp: d' elim: tracks_weaken)
      ultimately show ?thesis by (rule wl_safeI)
    qed
  qed
qed

lemma SetText_safe: "wl_SetText co str d = (e, d') \<Longrightarrow> wl_safe U d \<Longrightarrow> wl_safe U d'"
  by (auto simp: wl_SetText_def split: option.splits if_splits intro: publish_safe safe_put_clipboard)

lemma setInputSerial_safe: "wl_safe U d \<Longrightarrow> wl_safe U (setInputSerial co serial d)"
  by (auto simp: setInputSerial_def Let_def split: option.split intro!: publish_safe [OF prod.collapse [symmetric]])

lemma source_cancelled_safe:
  assumes "wl_safe U d" "l_clipboard d = Some c"
  shows "wl_safe U (source_cancelled co i c d)"
proof (cases "i \<in> set (map fst (lc_sources c))")
  case True
  let ?c = "c\<lparr>lc_source := (if lc_source c = Some i then None else lc_source c), lc_sources := AList.delete i (lc_sources c)\<rparr>"
  let ?d = "put_clipboard ?c d"
  let ?d' = "wl_send co (wreq.Data (DestroySource i)) ?d"
  have ok: "display_ok U d" "tracks True U (owned d) d" using wl_safeD [OF assms(1)] by simp_all
  have log: "log_only ?d ?d'" by simp
  have "j \<in> fst ` set (AList.delete i (lc_sources c))" if "j \<noteq> i" "j \<in> fst ` set (lc_sources c)" for j
    using that by (auto simp: dom_map_of_conv_image_fst [symmetric] delete_conv')
  then have "display_ok U ?d" using ok(1) assms(2) by (auto simp: display_ok_def clip_ok_def)
  moreover have "tracks True U (owned ?d) ?d'"
  proof -
    have eq: "owned d = add_mset (i, SourceK, None, False) (owned ?d)" if "unique_keys (owned d)"
    proof -
      have "unique_keys (source_parts (lc_sources c))"
        using that unique_keys_union unfolding owned_clipboard [OF assms(2)] by blast
      from source_parts_delete [OF this, of i] True show ?thesis
        by (simp add: owned_clipboard [OF assms(2)] owned_clipboard [of ?d ?c])
    qed
    have "tracks True U (add_mset (i, SourceK, None, False) (owned ?d)) d"
      using tracks_keys [OF ok(2)] eq by (auto elim: tracks_weaken)
    then have "tracks True U (add_mset (i, SourceK, None, False) (owned ?d)) ?d" by simp
    then show ?thesis by (rule tracks_end) (simp_all add: ready_def)
  qed
  ultimately have "wl_safe U ?d'" using log_only_ok [OF log] log_only_owned [OF log] by (simp add: wl_safeI)
  then show ?thesis using True by (simp add: source_cancelled_def)
qed (use assms in \<open>simp add: source_cancelled_def\<close>)

text \<open>Offers are not made by this program; what is kept about them matters to no rule.\<close>

definition same_sources :: "wl_clipboard \<Rightarrow> wl_clipboard \<Rightarrow> bool" where
  "same_sources c c' \<longleftrightarrow> lc_device c' = lc_device c \<and> lc_sources c' = lc_sources c \<and> lc_source c' = lc_source c"

lemma safe_same_sources:
  "wl_safe U d \<Longrightarrow> l_clipboard d = Some c \<Longrightarrow> same_sources c c' \<Longrightarrow> wl_safe U (put_clipboard c' d)"
  unfolding same_sources_def by (rule safe_put_clipboard) auto

lemma ask_offer_safe:
  "ask_offer co i c d = (c', d') \<Longrightarrow> wl_safe U d \<Longrightarrow> wl_safe U d' \<and> same_sources c c'"
  by (auto simp: ask_offer_def same_sources_def Let_def split: if_splits prod.splits option.splits
      dest: safe_harmless_write)

lemma selection_changed_safe:
  assumes "wl_safe U d" "l_clipboard d = Some c"
  shows "wl_safe U (snd (selection_changed co offer c d))"
proof (cases "offer = None \<and> lc_source c \<noteq> None")
  case False
  define r where "r = (case lc_offer c of
     Some old \<Rightarrow> if Some old \<noteq> offer then destroy_offer co old c d else (c, d) | None \<Rightarrow> (c, d))"
  have r: "wl_safe U (snd r)" "same_sources c ((fst r)\<lparr>lc_offer := offer\<rparr>)" "log_only d (snd r)"
    using assms(1) by (auto simp: r_def destroy_offer_def same_sources_def safe_harmless split: option.split)
  have eq: "selection_changed co offer c d = (case offer of
       None \<Rightarrow> ([ClipboardChange []], put_clipboard ((fst r)\<lparr>lc_offer := offer\<rparr>) (snd r))
     | Some i \<Rightarrow> (case ask_offer co i ((fst r)\<lparr>lc_offer := offer\<rparr>) (snd r) of (c3, d2) \<Rightarrow> ([], put_clipboard c3 d2)))"
    unfolding selection_changed_def if_not_P [OF False] r_def [symmetric] Let_def case_prod_beta ..
  show ?thesis
  proof (cases offer)
    case None
    then show ?thesis
      unfolding eq using safe_same_sources [OF r(1) _ r(2)] log_only_fields(11) [OF r(3)] assms(2) by simp
  next
    case (Some i)
    obtain c3 d2 where a: "ask_offer co i ((fst r)\<lparr>lc_offer := offer\<rparr>) (snd r) = (c3, d2)" by fastforce
    have "wl_safe U d2" "same_sources c c3"
      using ask_offer_safe [OF a r(1)] r(2) by (simp_all add: same_sources_def)
    moreover have "l_clipboard d2 = Some c"
      using log_only_fields(11) [OF ask_offer_log [OF a r(3)]] assms(2) by simp
    moreover have "selection_changed co offer c d = ([], put_clipboard c3 d2)"
      unfolding eq using a Some by simp
    ultimately show ?thesis using safe_same_sources by auto
  qed
qed (use assms in \<open>simp add: selection_changed_def\<close>)

lemma data_handler_safe:
  assumes "wl_safe U d" "l_clipboard d = Some c"
  shows "wl_safe U (snd (data_handler co e c d))"
proof -
  have "same_sources c (c\<lparr>lc_offers := os\<rparr>)" "same_sources c (offer_type i mime c)"
    "same_sources c (c\<lparr>lc_reading := n\<rparr>)" for os i mime n
    by (simp_all add: same_sources_def offer_type_def split: option.split)
  then show ?thesis
    using assms
    by (cases e) (auto simp: readOffer_def Let_def selection_changed_safe source_cancelled_safe
        intro: safe_same_sources split: option.split)
qed

section \<open>The pointer and the keyboard\<close>

lemma safe_same:
  "wl_safe U d \<Longrightarrow> display_ok U d' \<Longrightarrow> owned d' = owned d \<Longrightarrow> l_log d' = l_log d \<Longrightarrow> l_ids d' = l_ids d \<Longrightarrow>
   wl_safe U d'"
  using tracks_cong [of d' d] by (auto simp: wl_safe_def safe_with_def)

lemma window_of_known: "window_of p d = Some (s, w) \<Longrightarrow> known_window d (Some s)"
  by (auto simp: window_of_def known_window_def split: option.splits dest: map_of_SomeD intro: rev_image_eqI)

lemma known_none [simp]: "known_window d None"
  by (simp add: known_window_def)

lemma safe_known: "wl_safe U d \<Longrightarrow> known_window d (l_lastToplevel d)"
  by (simp add: wl_safe_def safe_with_def display_ok_def pointers_ok_def)

lemmas pointed_simps = display_ok_def pointers_ok_def known_window_def cursor_ok_def clip_ok_def
  owned_def other_parts_def cursor_parts_def seat_parts_def clip_parts_def

lemma safe_pointed:
  "wl_safe U d \<Longrightarrow> known_window d p \<Longrightarrow> wl_safe U (d\<lparr>l_pointerOver := p\<rparr>)"
  "wl_safe U d \<Longrightarrow> known_window d p \<Longrightarrow>
     wl_safe U (d\<lparr>l_pointerOver := p, l_pointerX := x, l_pointerY := y, l_enterSerial := n\<rparr>)"
  "wl_safe U d \<Longrightarrow> known_window d p \<Longrightarrow> wl_safe U (d\<lparr>l_keyboardFocus := p\<rparr>)"
  "wl_safe U d \<Longrightarrow> known_window d p \<Longrightarrow> known_window d q \<Longrightarrow> wl_safe U (d\<lparr>l_keyboardFocus := p, l_lastToplevel := q\<rparr>)"
  by (rule safe_same [of U d], assumption, use wl_safeD [of U d] in \<open>simp_all add: pointed_simps\<close>)+

lemma pointer_handler_safe: "wl_safe U d \<Longrightarrow> wl_safe U (snd (pointer_handler co e d))"
  using window_of_known
  by (cases e) (auto simp: pointerEnter_def pointerLeave_def pointerMotion_def pointerButton_def Let_def
      intro!: restoreCursor_safe safe_pointed setInputSerial_safe split: option.split)

lemma keyboard_handler_safe: "wl_safe U d \<Longrightarrow> wl_safe U (snd (keyboard_handler co e d))"
  using window_of_known [of _ "setInputSerial co serial d" for serial] safe_known setInputSerial_safe [of U d co]
  by (cases e) (auto simp: keyboardKeymap_def keyboardEnter_def keyboardLeave_def keyboardKey_def keyboardModifiers_def
      Let_def intro!: safe_pointed split: option.split sum.split)

section \<open>Globals and the seat\<close>

lemma safe_log_only:
  assumes "wl_safe U d" "log_only d d'" "tracks True U (owned d) d'"
  shows "wl_safe U d'"
  using wl_safeD [OF assms(1)] assms log_only_ok [OF assms(2)] log_only_owned [OF assms(2)] by (simp add: wl_safeI)

lemma bind_global_safe: "wl_safe U d \<Longrightarrow> wl_safe U (bind_global co name iface theirs ours d)"
  unfolding bind_global_def
  by (rule safe_log_only, assumption, rule log_only_new [OF prod.collapse [symmetric]], simp,
      rule tracks_new_other [OF prod.collapse [symmetric]]) (simp_all add: wl_safeD)

lemma global_announced_safe: "wl_safe U d \<Longrightarrow> wl_safe U (global_announced co name iface version d)"
  by (simp add: global_announced_def Let_def bind_global_safe)

lemma seat_object_safe:
  assumes "wl_safe U d" "wl_new co (\<lambda>i. Seat (r i)) d = (res, d1)"
    and "\<And>i. makes (Seat (r i)) = Some (i, k, None)" "\<And>i. uses (Seat (r i)) = []"
    and mark: "\<And>i d. display_ok U (mark i d) = display_ok U d"
      "\<And>i d. l_log (mark i d) = l_log d \<and> l_ids (mark i d) = l_ids d"
      "\<And>i. owned (mark i d1) = add_mset (i, k, None, False) (owned d1)"
  shows "case res of Inl e \<Rightarrow> wl_safe U d1 | Inr i \<Rightarrow> wl_safe U (mark i d1)"
proof -
  have ok: "display_ok U d" "tracks True U (owned d) d" using wl_safeD [OF assms(1)] by simp_all
  have m: "made True U (owned d) k None res d1"
    by (rule tracks_new [OF assms(2) ok(2)]) (simp_all add: ready_def assms(3,4))
  have log: "log_only d d1" by (rule log_only_new [OF assms(2)]) simp
  have f: "display_ok U d1" "owned d1 = owned d" using log_only_ok [OF log] log_only_owned [OF log] ok by simp_all
  show ?thesis
  proof (cases res)
    case (Inl e)
    then show ?thesis using m f by (simp add: made_def wl_safeI)
  next
    case (Inr i)
    then have "tracks True U (owned (mark i d1)) d1" using m f mark(3) by (auto simp: made_def elim: tracks_weaken)
    then have "tracks True U (owned (mark i d1)) (mark i d1)"
      using mark(2) by (subst tracks_cong [where d = d1]) simp_all
    then show ?thesis using Inr f mark(1) by (simp add: wl_safeI)
  qed
qed

lemma seatCapabilities_safe:
  assumes "wl_safe U d"
  shows "wl_safe U (seatCapabilities co caps d)"
proof -
  have pointer: "case res of Inl e \<Rightarrow> wl_safe U d1 | Inr p \<Rightarrow> wl_safe U (d1\<lparr>l_pointer := Some p\<rparr>)"
    if "wl_new co (\<lambda>i. Seat (GetPointer i)) d = (res, d1)" "l_pointer d = None" for res d1
    by (rule seat_object_safe [OF assms that(1), where k = PointerK])
      (use that(2) log_only_fields(5) [OF log_only_new [OF that(1) log_only_refl]] in \<open>simp_all add: pointed_simps\<close>)
  have keyboard: "case res of Inl e \<Rightarrow> wl_safe U d2 | Inr k \<Rightarrow> wl_safe U (d2\<lparr>l_keyboard := Some k\<rparr>)"
    if "wl_safe U d1" "wl_new co (\<lambda>i. Seat (GetKeyboard i)) d1 = (res, d2)" "l_keyboard d1 = None" for res d1 d2
    by (rule seat_object_safe [OF that(1,2), where k = KeyboardK])
      (use that(3) log_only_fields(6) [OF log_only_new [OF that(2) log_only_refl]] in \<open>simp_all add: pointed_simps\<close>)
  define d1 where "d1 = (if caps AND 1 \<noteq> 0 \<and> l_pointer d = None
     then case wl_new co (\<lambda>i. Seat (GetPointer i)) d of
         (Inl e, d1) \<Rightarrow> d1 | (Inr p, d1) \<Rightarrow> d1\<lparr>l_pointer := Some p\<rparr>
     else d)"
  have "wl_safe U d1" using assms by (auto simp: d1_def dest!: pointer split: prod.split sum.split)
  then show ?thesis
    unfolding seatCapabilities_def d1_def [symmetric] Let_def
    by (auto dest!: keyboard split: prod.split sum.split)
qed

section \<open>A window configured\<close>

lemma set_flag_union [simp]: "set_flag x (E1 + E2) = set_flag x E1 + set_flag x E2"
  by (simp add: set_flag_def)

lemma set_flag_part [simp]: "set_flag x (part k p a i) = part k p (a \<or> i = Some x) i"
  by (auto simp: part_def split: option.split)

lemma configured_parts:
  assumes "unique_keys (parts w + F)" "ww_xdg w = Some x"
  shows "set_flag x (parts w + F) = parts (w\<lparr>ww_configured := True\<rparr>) + F"
proof -
  have "x \<notin> key_set F" "ww_surface w \<noteq> Some x" "ww_toplevel w \<noteq> Some x" "ww_popup w \<noteq> Some x"
    "ww_decoration w \<noteq> Some x" "ww_buffer w \<noteq> Some x" "ww_pool w \<noteq> Some x"
    using assms by (auto simp: unique_keys_union parts_simps)
  then show ?thesis using assms(2) by (auto simp: parts_simps ac_simps)
qed

lemma configure_window_safe:
  assumes "wl_safe U d"
  shows "wl_safe U (configure_window co s serial d)"
proof (cases "map_of (l_windows d) s")
  case (Some w)
  note out = safe_out [OF assms Some]
  show ?thesis
  proof (cases "ww_xdg w")
    case xdg: (Some x)
    obtain e d1 where wr: "wl_write co (Xdg x (AckConfigure serial)) d = (e, d1)" by fastforce
    have log: "log_only d d1" by (rule log_only_write [OF wr]) simp
    let ?Q = "(True \<and> apart w (rest s d)) \<and> unique_keys (parts w + rest s d) \<and> key_set (parts w + rest s d) \<subseteq> U"
    have "tracks ?Q U (after e (Xdg x (AckConfigure serial)) (parts w + rest s d)) d1"
      by (rule tracks_write [OF wr tracks_keys]) (use holdsD [OF out] xdg in \<open>simp_all add: ready_def parts_simps\<close>)
    then have t: "tracks ?Q U (if e = None then set_flag x (parts w + rest s d) else parts w + rest s d) d1"
      by (cases e) (simp_all add: after_def Let_def)
    show ?thesis
    proof (cases e)
      case (Some err)
      have "holds True U (rest s d) (w, d1)"
        using t Some holdsD [OF out] by (auto simp: holds_def elim: tracks_weaken)
      then have "wl_safe U d1" by (rule safe_log [OF assms \<open>map_of (l_windows d) s = Some w\<close> log])
      then show ?thesis using wr Some \<open>map_of (l_windows d) s = Some w\<close> xdg by (simp add: configure_window_def)
    next
      case None
      let ?w = "w\<lparr>ww_configured := True\<rparr>"
      have "sound_window ?w" "apart ?w F = apart w F" for F
        using holdsD [OF out] xdg by (auto simp: sound_window_def apart_def)
      then have h: "holds True U (rest s d) (?w, d1)"
        using t None configured_parts [OF _ xdg] by (auto simp: holds_def elim!: tracks_weaken)
      then have put: "wl_safe U (put_window s ?w d1)"
        by (rule safe_in [OF assms Some log]) simp
      have w': "map_of (l_windows (put_window s ?w d1)) s = Some ?w"
        by (simp add: put_window_def update_conv')
      have "wl_safe U (present co ?w (put_window s ?w d1))"
        by (rule safe_log [OF put w']) (simp_all add: present_holds safe_out [OF put w'])
      then show ?thesis using wr None Some xdg by (simp add: configure_window_def Let_def)
    qed
  qed (use assms Some in \<open>simp add: configure_window_def\<close>)
qed (use assms in \<open>simp add: configure_window_def\<close>)

section \<open>Closing\<close>

lemma tracks_close: "tracks Q U E d \<Longrightarrow> tracks Q' U E' (wl_send co (Connection CloseContext) d)"
  by (auto simp: tracks_def wl_send_def wl_write_def watch_all_append allowed_def written_def not_written_def Let_def
      split: option.split)

lemma releaseClipboard_tracks:
  assumes "wl_safe U d"
  shows "\<exists>S. parents S = {} \<and> tracks True U (S + beside_sources d) (releaseClipboard co d)"
proof (cases "l_clipboard d")
  case None
  then have "owned d = {#} + beside_sources d" by (simp add: owned_def other_parts_def clip_parts_def beside_sources_def)
  moreover have "parents {#} = {}" by simp
  ultimately show ?thesis using wl_safeD [OF assms] None unfolding releaseClipboard_def by (metis option.simps(4))
next
  case (Some c)
  let ?dev = "(lc_device c, DeviceK, None, False)"
  let ?d1 = "send_if co (\<lambda>i. wreq.Data (DestroyOffer i)) (lc_offer c) d"
  have no_parents: "parents (add_mset ?dev (source_parts ss)) = {}" for ss
    by (induction ss) (simp_all add: source_parts_def)
  have t: "tracks True U (source_parts (lc_sources c) + add_mset ?dev (beside_sources d)) ?d1"
    using wl_safeD [OF assms]
    by (auto simp: send_if_def owned_clipboard [OF Some] harmless_ready harmless_def plain_def intro!: tracks_send split: option.split)
  show ?thesis
  proof (cases "lc_source c")
    case None
    have "parents (add_mset ?dev (source_parts (lc_sources c))) = {} \<and>
        tracks True U (add_mset ?dev (source_parts (lc_sources c)) + beside_sources d) (releaseClipboard co d)"
      using t Some None no_parents by (simp add: releaseClipboard_def send_if_def [of co _ None])
    then show ?thesis by blast
  next
    case i: (Some i)
    let ?ss = "AList.delete i (lc_sources c)"
    have "i \<in> fst ` set (lc_sources c)"
      using wl_safeD [OF assms] Some i by (simp add: display_ok_def clip_ok_def)
    then have eq: "source_parts (lc_sources c) + add_mset ?dev (beside_sources d) =
        add_mset (i, SourceK, None, False) (add_mset ?dev (source_parts ?ss) + beside_sources d)"
      if "unique_keys (source_parts (lc_sources c) + add_mset ?dev (beside_sources d))"
      using source_parts_delete [of "lc_sources c" i] that unique_keys_union by force
    have "tracks True U (add_mset (i, SourceK, None, False) (add_mset ?dev (source_parts ?ss) + beside_sources d)) ?d1"
      using tracks_keys [OF t] eq by (auto elim: tracks_weaken)
    then have "tracks True U (add_mset ?dev (source_parts ?ss) + beside_sources d)
        (wl_send co (wreq.Data (DestroySource i)) ?d1)"
      by (rule tracks_end) (simp_all add: ready_def)
    then show ?thesis using no_parents [of ?ss] Some i
      by (intro exI [of _ "add_mset ?dev (source_parts ?ss)"]) (simp add: releaseClipboard_def send_if_def [of co _ "Some i"])
  qed
qed

lemma releaseClipboard_log: "log_only d (releaseClipboard co d)"
  by (simp add: releaseClipboard_def split: option.split)

lemma releaseCursor_tracks:
  assumes "tracks True U (S + beside_sources d) d" "parents S = {}" "windows_ok (l_windows d)"
  shows "\<exists>E. tracks True U E (releaseCursor co d)"
proof -
  let ?E = "S + (window_parts (l_windows d) + seat_parts d)"
  let ?P = "part SurfaceK None False (l_cursorSurface d)"
  let ?d1 = "release_owned co (l_ownedCursor d) d"
  let ?d2 = "?d1\<lparr>l_ownedCursor := None, l_shown := None, l_theme := None, l_cursorSurface := None\<rparr>"
  have surface: "l_cursorSurface ?d1 = l_cursorSurface d" by (rule log_only_fields(7) [OF release_owned_log])
  have "tracks True U ((case l_ownedCursor d of None \<Rightarrow> {#} | Some p \<Rightarrow> pixel_parts p) + (?P + ?E)) d"
    using assms(1) by (simp add: beside_sources_def cursor_parts_def ac_simps)
  then have "tracks True U (?P + ?E) ?d1" by (rule release_owned_tracks)
  then have t: "tracks True U (?P + ?E) ?d2" by (subst tracks_cong [where d = ?d1]) simp_all
  have lone: "no_child s [XdgK] ?E" if "unique_keys (?P + ?E)" "l_cursorSurface d = Some s" for s
  proof -
    have "s \<notin> key_set (window_parts (l_windows d))"
      using that by (simp add: unique_keys_union)
    moreover have "parents (seat_parts d) = {}"
      using parents_others [of d] by (simp add: other_parts_def)
    ultimately have "s \<notin> parents ?E"
      using windows_ok_parents [OF assms(3)] assms(2) by auto
    then show ?thesis by (rule no_child_parents)
  qed
  let ?Q = "True \<and> unique_keys (?P + ?E) \<and> key_set (?P + ?E) \<subseteq> U"
  have "tracks ?Q U ?E (send_if co (\<lambda>s. Surface s DestroySurface) (l_cursorSurface d) ?d2)"
  proof (cases "l_cursorSurface d")
    case None
    then show ?thesis using tracks_keys [OF t] by (simp add: send_if_def)
  next
    case (Some s)
    have "tracks ?Q U (add_mset (s, SurfaceK, None, False) ?E) ?d2" using tracks_keys [OF t] Some by simp
    then have "tracks ?Q U ?E (wl_send co (Surface s DestroySurface) ?d2)"
      by (rule tracks_end) (use lone [OF _ Some] in \<open>simp_all add: ready_def\<close>)
    then show ?thesis using Some by (simp add: send_if_def)
  qed
  then show ?thesis using tracks_weaken [of ?Q U ?E _ True ?E] surface
    by (auto simp: releaseCursor_def Let_def)
qed

lemma shutdown_safe:
  assumes "wl_safe U d"
  shows "wl_safe U (wl_shutdown co d)"
proof (cases "l_done d")
  case False
  define d1 where "d1 = releaseClipboard co (d\<lparr>l_done := True\<rparr>)"
  define d2 where "d2 = release_owned co (l_ownedCursor d1) d1"
  let ?d3 = "d2\<lparr>l_ownedCursor := None, l_shown := None, l_theme := None, l_cursorSurface := None\<rparr>"
  have safe: "wl_safe U (d\<lparr>l_done := True\<rparr>)" using assms by simp
  have log1: "log_only (d\<lparr>l_done := True\<rparr>) d1" unfolding d1_def by (rule releaseClipboard_log)
  have log2: "log_only d1 d2" unfolding d2_def by (rule release_owned_log)
  have ok: "display_ok U d1" "display_ok U d2"
    using log_only_ok [OF log1] log_only_ok [OF log2] wl_safeD [OF safe] by simp_all
  have log3: "log_only ?d3 (releaseCursor co d1)"
    by (simp add: releaseCursor_def Let_def d2_def)
  have "display_ok U ?d3" using ok(2) by (simp add: pointed_simps)
  then have shown: "display_ok U (wl_shutdown co d)"
    using False log_only_ok [OF log_only_send [OF log3]] by (simp add: wl_shutdown_def d1_def)
  obtain S where S: "parents S = {}" "tracks True U (S + beside_sources (d\<lparr>l_done := True\<rparr>)) d1"
    using releaseClipboard_tracks [OF safe] unfolding d1_def by blast
  moreover have "beside_sources (d\<lparr>l_done := True\<rparr>) = beside_sources d1"
    using log_only_fields [OF log1] by (simp add: beside_sources_def cursor_parts_def seat_parts_def)
  moreover have "windows_ok (l_windows d1)" using ok(1) by (simp add: display_ok_def)
  ultimately obtain E where "tracks True U E (releaseCursor co d1)"
    using releaseCursor_tracks [of U S d1] by auto
  then have "tracks True U E' (wl_shutdown co d)" for E'
    using False tracks_close by (auto simp: wl_shutdown_def d1_def)
  then show ?thesis using shown by (simp add: wl_safeI)
qed (use assms in \<open>simp add: wl_shutdown_def\<close>)

section \<open>Every message\<close>

lemma dispatch_safe: "wl_safe U d \<Longrightarrow> wl_safe U (snd (dispatch co e d))"
  by (cases e) (auto simp: dispatch_def global_announced_safe shutdown_safe safe_harmless seatCapabilities_safe
      configure_window_safe pointer_handler_safe keyboard_handler_safe on_output_def data_handler_safe split: option.split)

lemma dispatch_all_safe: "wl_safe U d \<Longrightarrow> wl_safe U (snd (dispatch_all co es d))"
proof (induction es arbitrary: d)
  case (Cons e es)
  then show ?case using dispatch_safe [OF Cons.prems, of co e] by (simp add: case_prod_beta)
qed simp

section \<open>Opening\<close>

lemma roundtrip_safe: "roundtrip co r d = (e, d') \<Longrightarrow> wl_safe U d \<Longrightarrow> wl_safe U d'"
proof -
  have sync: "wl_safe U d1" if "wl_new co (\<lambda>i. Connection (SyncRequest i)) d = (res, d1)" "wl_safe U d" for res d1
    using that wl_safeD [OF that(2)]
    by (auto intro!: safe_log_only [OF that(2)] log_only_new [OF that(1)] tracks_new_other [OF that(1)])
  assume "roundtrip co r d = (e, d')" "wl_safe U d"
  then show ?thesis
    by (auto simp: roundtrip_def split: prod.splits sum.splits dest!: sync intro: dispatch_all_safe)
qed

lemma closed_wayland_safe: "distinct ids \<Longrightarrow> set ids \<subseteq> U \<Longrightarrow> wl_safe U (closed_wayland ids others)"
  by (rule wl_safeI)
    (simp_all add: pointed_simps windows_ok_def closed_wayland_def tracks_def new_monitor_def agrees_def)

text \<open>There is no clipboard before the end of \<open>Open\<close>.\<close>

lemma setInputSerial_none: "l_clipboard d = None \<Longrightarrow> l_clipboard (setInputSerial co serial d) = None"
  by (simp add: setInputSerial_def)

lemma show_pixels_clipboard: "show_pixels co s c d = (e, d') \<Longrightarrow> l_clipboard d' = l_clipboard d"
proof (cases "l_pointer d")
  case (Some pointer)
  assume r: "show_pixels co s c d = (e, d')"
  let ?rs = "[Surface s (Attach (sc_buffer c)),
     Surface s (DamageBuffer 0 0 (ucast (sc_width c)) (ucast (sc_height c))), Surface s Commit,
     Seat (SetPointerCursor pointer (l_enterSerial d) s (ucast (sc_hotspotX c)) (ucast (sc_hotspotY c)))]"
  obtain e1 d1 where st: "all_steps (map (wl_write co) ?rs) d = (e1, d1)" by fastforce
  have "d' = d1 \<or> d' = d1\<lparr>l_shown := Some c\<rparr>"
    using r st Some by (cases e1) (auto simp: show_pixels_def context_error_def simp del: all_steps.simps)
  then show ?thesis using log_only_fields(11) [OF writes_log [OF st]] by auto
qed (simp add: show_pixels_def)

lemma restoreCursor_clipboard: "l_clipboard (restoreCursor co d) = l_clipboard d"
proof -
  have "l_clipboard d' = l_clipboard d" if "showCursor co c d = (e, d')" for c e d'
    using that
    by (auto simp: showCursor_def split: option.splits prod.splits sum.splits
        dest!: show_pixels_clipboard dest: log_only_fields(11) [OF log_only_new [OF _ log_only_refl]])
  from this [OF prod.collapse [symmetric]] show ?thesis by (simp add: restoreCursor_def split: option.split)
qed

lemma dispatch_none:
  assumes "l_clipboard d = None"
  shows "l_clipboard (snd (dispatch co e d)) = None"
proof -
  have bind: "l_clipboard (bind_global co name iface theirs ours d1) = l_clipboard d1" for name iface theirs ours d1
    unfolding bind_global_def by (rule log_only_fields(11) [OF log_only_new [OF prod.collapse [symmetric] log_only_refl]])
  have sent: "l_clipboard (wl_send co r d1) = l_clipboard d1" for r d1
    by (rule log_only_fields(11)) simp
  have new: "l_clipboard d2 = l_clipboard d1" if "wl_new co r d1 = (res, d2)" for r d1 res d2
    by (rule log_only_fields(11) [OF log_only_new [OF that log_only_refl]])
  have release: "l_clipboard (release_owned co p d1) = l_clipboard d1" for p d1
    by (rule log_only_fields(11) [OF release_owned_log])
  have "l_clipboard (wl_shutdown co d) = None"
    using assms
    by (auto simp: release wl_shutdown_def releaseCursor_def releaseClipboard_def Let_def send_if_def sent split: option.split)
  moreover have "l_clipboard (configure_window co s serial d) = None" for s serial
  proof -
    have shown: "l_clipboard (present co w d1) = l_clipboard d1" for w d1
      by (rule log_only_fields(11)) simp
    have "l_clipboard d1 = l_clipboard d" if "wl_write co r d = (e, d1)" for r e d1
      by (rule log_only_fields(11) [OF log_only_write [OF that log_only_refl]])
    then show ?thesis
      using assms by (auto simp: shown configure_window_def Let_def put_window_def split: option.split prod.split)
  qed
  moreover have "l_clipboard (seatCapabilities co caps d) = None" for caps
    using assms by (auto simp: seatCapabilities_def Let_def split: prod.split sum.split dest!: new)
  moreover have "l_clipboard (snd (pointer_handler co ev d)) = None" for ev
    using assms by (cases ev) (auto simp: pointerEnter_def pointerLeave_def pointerMotion_def pointerButton_def Let_def
      setInputSerial_none restoreCursor_clipboard split: option.split)
  moreover have "l_clipboard (snd (keyboard_handler co ev d)) = None" for ev
    using assms by (cases ev) (auto simp: keyboardKeymap_def keyboardEnter_def keyboardLeave_def keyboardKey_def
      keyboardModifiers_def Let_def setInputSerial_none split: option.split sum.split)
  ultimately show ?thesis
    using assms by (cases e) (auto simp: dispatch_def global_announced_def Let_def bind sent on_output_def split: option.split)
qed

lemma dispatch_all_none: "l_clipboard d = None \<Longrightarrow> l_clipboard (snd (dispatch_all co es d)) = None"
proof (induction es arbitrary: d)
  case (Cons e es)
  then show ?case using dispatch_none [OF Cons.prems, of co e] by (simp add: case_prod_beta)
qed simp

lemma roundtrip_none:
  assumes "roundtrip co r d = (e, d')" "l_clipboard d = None"
  shows "l_clipboard d' = None"
proof -
  obtain es failure where r: "r = (es, failure)" by fastforce
  obtain res d1 where n: "wl_new co (\<lambda>i. Connection (SyncRequest i)) d = (res, d1)" by fastforce
  have "l_clipboard d1 = None"
    using log_only_fields(11) [OF log_only_new [OF n log_only_refl]] assms(2) by simp
  then show ?thesis
    using assms(1) n dispatch_all_none [of d1 co es] by (cases res) (auto simp: roundtrip_def r)
qed

lemma new_wl_clipboard_safe:
  assumes "wl_safe U d" "l_clipboard d = None"
  shows "wl_safe U (new_wl_clipboard co d)"
proof (cases "l_dataManager d \<and> l_seat d")
  case True
  obtain res d1 where n: "wl_new co (\<lambda>i. wreq.Data (GetDataDevice i)) d = (res, d1)" by fastforce
  have ok: "display_ok U d" "tracks True U (owned d) d" using wl_safeD [OF assms(1)] by simp_all
  have m: "made True U (owned d) DeviceK None res d1"
    by (rule tracks_new [OF n ok(2)]) (simp_all add: ready_def)
  have log: "log_only d d1" by (rule log_only_new [OF n]) simp
  have f: "display_ok U d1" "owned d1 = owned d" "l_clipboard d1 = None"
    using log_only_ok [OF log] log_only_owned [OF log] log_only_fields(11) [OF log] ok assms(2) by simp_all
  show ?thesis
  proof (cases res)
    case (Inl e)
    then show ?thesis using m f n True by (simp add: new_wl_clipboard_def made_def wl_safeI)
  next
    case (Inr i)
    let ?c = "\<lparr>lc_device = i, lc_offers = [], lc_offer = None, lc_sources = [], lc_source = None,
      lc_pending = None, lc_reading = 0\<rparr>"
    have "owned (put_clipboard ?c d1) = add_mset (i, DeviceK, None, False) (owned d)"
      using f(2,3) by (simp add: owned_clipboard [of _ ?c] owned_def [of d1, symmetric])
        (simp add: source_parts_def owned_def other_parts_def clip_parts_def beside_sources_def)
    then have "tracks True U (owned (put_clipboard ?c d1)) (put_clipboard ?c d1)"
      using m Inr by (auto simp: made_def elim: tracks_weaken)
    moreover have "display_ok U (put_clipboard ?c d1)" using f(1) by (simp add: display_ok_def clip_ok_def)
    ultimately show ?thesis using n Inr True by (simp add: new_wl_clipboard_def wl_safeI)
  qed
qed (use assms in \<open>auto simp: new_wl_clipboard_def\<close>)

lemma wl_Open_safe:
  assumes "wl_Open co connecting ids others globals properties = Inr d" "distinct ids" "set ids \<subseteq> U"
  shows "wl_safe U d"
proof -
  define ok where "ok d \<longleftrightarrow> wl_safe U d \<and> l_clipboard d = None" for d :: "'a wayland"
  have start: "ok (closed_wayland ids others)"
    using closed_wayland_safe [OF assms(2,3)] by (simp add: ok_def closed_wayland_def)
  have registry: "ok d1" if "wl_new co (\<lambda>i. Connection (GetRegistry i)) d0 = (res, d1)" "ok d0" for d0 res d1
    using that log_only_fields(11) [OF log_only_new [OF that(1) log_only_refl]] wl_safeD [of U d0]
    by (auto simp: ok_def intro!: safe_log_only [of U d0] log_only_new [OF that(1)] tracks_new_other [OF that(1)])
  have trip: "ok d1" if "roundtrip co r d0 = (e, d1)" "ok d0" for r d0 e d1
    using roundtrip_safe [OF that(1)] roundtrip_none [OF that(1)] that(2) by (simp add: ok_def)
  have finish: "wl_safe U (new_wl_clipboard co d1)" if "ok d1" for d1
    using that by (simp add: ok_def new_wl_clipboard_safe)
  show ?thesis
    using assms(1) start
    by (auto simp: wl_Open_def finish split: option.splits prod.splits sum.splits if_splits
        dest!: registry trip)
qed

end
