(* ===== verification/Wayland_Contract.thy ===== *)
theory Wayland_Contract
  imports Wayland_Session_Safe
begin

text \<open>
  The contract of the backend with the client: windows are opened and closed as the client's
  tables need it, and the requests behind every operation and every message keep the rules of
  the protocol.
\<close>

lemma moves_calm: "wl_moves co d d' \<Longrightarrow> wl_calm d d'"
  using dispatch_calm unfolding wl_moves_def by blast

text \<open>Every operation of the environment but opening and closing windows.\<close>

lemma env_ops_calm:
  "wl_calm d (win_SetTitle (wayland_env co base) i title d)"
  "wl_calm d (snd (win_SetIcon (wayland_env co base) i icon d))"
  "wl_calm d (win_Map (wayland_env co base) i d)"
  "wl_calm d (win_Raise (wayland_env co base) i d)"
  "wl_calm d (win_Minimize (wayland_env co base) i b d)"
  "wl_calm d (snd (win_MoveResize (wayland_env co base) i x y width height d))"
  "wl_calm d (snd (win_Resized (wayland_env co base) i x y width height d))"
  "wl_calm d (snd (win_Paint (wayland_env co base) i x y width height px stride fmt d))"
  "wl_calm d (disp_Bell (wayland_env co base) percent pitch duration name d)"
  "wl_calm d (snd (disp_SetCursor (wayland_env co base) cur d))"
  "wl_calm d (snd (clip_SetText (wayland_env co base) str d))"
  "wl_calm d (snd (rand_Read (wayland_env co base) n d))"
  "wl_calm d (snd (ask_password (wayland_env co base) descr d))"
  by (simp_all add: wayland_env_def window_ops_wl_calm wl_Bell_def wl_SetCursor_snd wl_SetText_snd on_wl_others_calm)

definition wl_sound :: "compositor \<Rightarrow> oid set \<Rightarrow> 'o wayland \<Rightarrow> bool" where
  "wl_sound co U d \<longleftrightarrow> wl_fresh d \<and> (theme_foreign co U \<longrightarrow> wl_safe U d)"

lemma wl_sound_calm:
  "wl_calm d d' \<Longrightarrow> (theme_foreign co U \<Longrightarrow> wl_safe U d \<Longrightarrow> wl_safe U d') \<Longrightarrow> wl_sound co U d \<Longrightarrow>
   wl_sound co U d' \<and> wl_live d' = wl_live d"
  using wl_calm_fresh [of d d'] by (simp add: wl_sound_def)

lemma env_ops_safe:
  assumes "theme_foreign co U" "wl_safe U d"
  shows
  "wl_safe U (win_SetTitle (wayland_env co base) i title d)"
  "wl_safe U (snd (win_SetIcon (wayland_env co base) i icon d))"
  "wl_safe U (win_Map (wayland_env co base) i d)"
  "wl_safe U (win_Raise (wayland_env co base) i d)"
  "wl_safe U (win_Minimize (wayland_env co base) i b d)"
  "wl_safe U (snd (win_MoveResize (wayland_env co base) i x y width height d))"
  "wl_safe U (snd (win_Resized (wayland_env co base) i x y width height d))"
  "wl_safe U (snd (win_Paint (wayland_env co base) i x y width height px stride fmt d))"
  "wl_safe U (disp_Bell (wayland_env co base) percent pitch duration name d)"
  "wl_safe U (snd (disp_SetCursor (wayland_env co base) cur d))"
  "wl_safe U (snd (clip_SetText (wayland_env co base) str d))"
  "wl_safe U (snd (rand_Read (wayland_env co base) n d))"
  "wl_safe U (snd (ask_password (wayland_env co base) descr d))"
proof -
  have others: "wl_safe U (snd (on_wl_others f d))" for f
    using assms(2) by (auto simp: on_wl_others_def split: prod.split
        intro!: safe_same [of U d] dest!: wl_safeD simp: pointed_simps)
  then show "wl_safe U (snd (rand_Read (wayland_env co base) n d))"
    "wl_safe U (snd (ask_password (wayland_env co base) descr d))"
    by (simp_all add: wayland_env_def)
  show "wl_safe U (win_SetTitle (wayland_env co base) i title d)"
    "wl_safe U (win_Map (wayland_env co base) i d)"
    "wl_safe U (win_Raise (wayland_env co base) i d)"
    "wl_safe U (win_Minimize (wayland_env co base) i b d)"
    "wl_safe U (snd (win_MoveResize (wayland_env co base) i x y width height d))"
    "wl_safe U (snd (win_Resized (wayland_env co base) i x y width height d))"
    "wl_safe U (snd (win_Paint (wayland_env co base) i x y width height px stride fmt d))"
    "wl_safe U (disp_Bell (wayland_env co base) percent pitch duration name d)"
    using assms(2) by (simp_all add: wayland_env_def window_ops_safe wl_Raise_def wl_Bell_def)
  show "wl_safe U (snd (win_SetIcon (wayland_env co base) i icon d))"
    using SetIcon_safe [OF assms(2) prod.collapse [symmetric]] by (simp add: wayland_env_def)
  show "wl_safe U (snd (disp_SetCursor (wayland_env co base) cur d))"
    using SetCursor_safe [OF assms(2) prod.collapse [symmetric] assms(1)] by (simp add: wayland_env_def)
  show "wl_safe U (snd (clip_SetText (wayland_env co base) str d))"
    using SetText_safe [OF prod.collapse [symmetric] assms(2)] by (simp add: wayland_env_def)
qed

lemma wl_keeps:
  "(\<And>d. wl_calm d (f d)) \<Longrightarrow> (\<And>d. theme_foreign co U \<Longrightarrow> wl_safe U d \<Longrightarrow> wl_safe U (f d)) \<Longrightarrow>
   keeps_windows (wl_sound co U) wl_live f"
  unfolding keeps_windows_def using wl_sound_calm by blast

interpretation wayland: display_contract "wayland_env co base" "wl_moves co" "wl_sound co U" wl_live
proof unfold_locales
  fix d d' :: "'a wayland"
  assume "wl_moves co d d'" "wl_sound co U d"
  then show "wl_sound co U d' \<and> wl_live d' = wl_live d"
    by (intro wl_sound_calm [of d d'] moves_calm) (auto simp: wl_moves_def dispatch_safe)
next
  fix d d' :: "'a wayland" and x y width height ovr i
  assume "wl_sound co U d" "NewWindow (wayland_env co base) x y width height ovr d = (Some i, d')"
  then show "wl_sound co U d' \<and> i \<notin> wl_live d \<and> wl_live d' = insert i (wl_live d)"
    using wl_NewWindow_fresh NewWindow_safe by (fastforce simp: wl_sound_def wayland_env_def)
next
  fix d d' :: "'a wayland" and x y width height ovr
  assume "wl_sound co U d" "NewWindow (wayland_env co base) x y width height ovr d = (None, d')"
  then show "wl_sound co U d' \<and> wl_live d' = wl_live d"
    using wl_NewWindow_refused NewWindow_safe by (fastforce simp: wl_sound_def wayland_env_def)
next
  fix d :: "'a wayland" and i
  assume "wl_sound co U d"
  then show "wl_sound co U (win_Destroy (wayland_env co base) i d) \<and>
      wl_live (win_Destroy (wayland_env co base) i d) = wl_live d - {i}"
    using wl_Destroy_live [of d] Destroy_safe [of U d] by (auto simp: wl_sound_def wayland_env_def)
qed (auto intro: wl_keeps env_ops_calm env_ops_safe simp: wayland_env_def [THEN arg_cong [of _ _ win_SetState]])

text \<open>A session starts sound, with the identifiers \<open>ids\<close>, and so does everything it reaches.\<close>

lemma wl_Open_sound:
  assumes "wl_Open co connecting ids others globals properties = Inr d" "distinct ids"
  shows "wl_sound co (set ids) d \<and> wl_live d = {}"
  using wl_Open_fresh [OF assms] wl_Open_safe [OF assms subset_refl] by (simp add: wl_sound_def)

lemma wl_sound_kept: "theme_foreign co U \<Longrightarrow> wl_sound co U d \<Longrightarrow> protocol_kept (l_log d)"
  using wl_safeD tracks_kept by (fastforce simp: wl_sound_def)

end
