(* ===== verification/Properties_Wayland.thy ===== *)
theory Properties_Wayland
  imports Wayland_Keymap_Roundtrip Wayland_Wire Wayland_Contract Properties_Client
begin

text \<open>
  The Wayland backend: the requests of a whole session keep the rules of the protocol, the keymap
  the compositor hands over is read, and the requests the backend frames itself are read back.
  The example runs the client on a compositor that refuses nothing.
\<close>

section \<open>A session\<close>

definition example_compositor :: compositor where
  "example_compositor =
     \<lparr>wc_fails = (\<lambda>log r. None), wc_runtime_dir = ''/run'', wc_create_temp = (\<lambda>log. None),
      wc_unlink = (\<lambda>log. None), wc_truncate = (\<lambda>log n. None), wc_mmap = (\<lambda>log n. None),
      wc_theme = (\<lambda>name n. Inr (Some \<lparr>ti_buffer = Inr 900, ti_width = 24, ti_height = 24, ti_hotspotX = 0,
        ti_hotspotY = 0\<rparr>)),
      wc_getenv = (\<lambda>name. []), wc_pipe = (\<lambda>log. None), wc_keysym_table = (\<lambda>k. [])\<rparr>"






definition example_wl_env :: "unit wayland env" where
  "example_wl_env = wayland_env example_compositor example_base"





definition wl_create :: packet where
  "wl_create = [GString ''window-create'', GInt64 7, GInt64 10, GInt64 20, GInt64 3, GInt64 2, GMap []]"

lemma wl_create_facts [simp]:
  "BackwardsCompatible example_wl_env = False" "pkt_Type wl_create = ''window-create''"
  "pkt_Int wl_create (Suc 0) = 7"
  by (simp_all add: example_wl_env_def wayland_env_def example_base_def wl_create_def
      pkt_Type_def pkt_Str_def pkt_Int_def pkt_at_def any_str_def any_int_def)





section \<open>The keymap\<close>




section \<open>Requests\<close>




text \<open>A longer one has a wrong size in its header, and the compositor cannot read it as a request.\<close>

theorem long_string_request_unreadable:
  assumes "good_codec k" "65536 \<le> 8 + stringSize k s"
  shows "read_request k ks (stringRequest k i opcode s) = None"
proof -
  have "unat (drop_bit 16 w) < 8 + stringSize k s" for w :: "32 word"
  proof -
    have "unat w < 4294967296" using unsigned_less [of w] by simp
    moreover have "unat (drop_bit 16 w) = unat w mod 4294967296 div 65536"
      unfolding unsigned_drop_bit_eq unfolding drop_bit_eq_div take_bit_eq_mod by simp
    ultimately show ?thesis using assms(2) by simp
  qed
  moreover have "length (stringRequest k i opcode s) = 8 + stringSize k s"
    using assms(1) by (simp add: stringRequest_eq wire_text_length)
  ultimately show ?thesis
    by (simp add: read_request_def Let_def) (metis less_irrefl)
qed

end
