(* ===== verification/Cmd_Url.thy ===== *)
theory Cmd_Url
  imports Go_Url
begin

text \<open>
  Connection URLs, \<open>parseConnectionURL\<close> and its helpers in \<open>cmd/go-xpra/main.go\<close>, the URL of a
  WebSocket handshake, and the TLS configuration of a connection.
\<close>

section \<open>Transports and targets\<close>

type_synonym connectionTransport = string

definition transportTCP :: connectionTransport where "transportTCP = ''tcp''"
definition transportSSL :: connectionTransport where "transportSSL = ''ssl''"
definition transportSSH :: connectionTransport where "transportSSH = ''ssh''"
definition transportWS :: connectionTransport where "transportWS = ''ws''"
definition transportWSS :: connectionTransport where "transportWSS = ''wss''"
definition transportSocket :: connectionTransport where "transportSocket = ''socket''"

lemmas transports = transportTCP_def transportSSL_def transportSSH_def transportWS_def transportWSS_def
  transportSocket_def

definition defaultTCPPort :: string where "defaultTCPPort = ''14500''"
definition defaultSSHPort :: string where "defaultSSHPort = ''22''"
definition defaultWSPort :: string where "defaultWSPort = ''80''"
definition defaultWSSPort :: string where "defaultWSSPort = ''443''"

lemmas default_ports = defaultTCPPort_def defaultSSHPort_def defaultWSPort_def defaultWSSPort_def

record connectionURL =
  cu_transport :: connectionTransport
  cu_address :: string
  cu_serverName :: string
  cu_port :: string
  cu_display :: string
  cu_path :: string
  cu_rawPath :: string
  cu_rawQuery :: string
  cu_username :: string
  cu_password :: string

definition no_target :: connectionURL where
  "no_target = \<lparr>cu_transport = [], cu_address = [], cu_serverName = [], cu_port = [], cu_display = [],
     cu_path = [], cu_rawPath = [], cu_rawQuery = [], cu_username = [], cu_password = []\<rparr>"

section \<open>Parsing\<close>

datatype socket_path_error = PathRequired | PathRelative | PathNUL

definition validateSocketPath :: "string \<Rightarrow> socket_path_error option" where
  "validateSocketPath path =
     (if path = [] \<or> path = ''/'' then Some PathRequired
      else if \<not> has_prefix ''/'' path then Some PathRelative
      else if CHR 0x00 \<in> set path then Some PathNUL
      else None)"

text \<open>The errors name the protocol in capitals where the code's message does.\<close>

datatype connection_error =
    InvalidURL url_error
  | SchemeRequired
  | UnsupportedProtocol string
  | SocketForm
  | SocketHostPort
  | SocketQuery
  | SocketPath socket_path_error
  | HostRequired string
  | PathNotEmpty string
  | QueryNotSupported string
  | HostDash
  | PortEmpty string
  | PortRange string
  | DisplaySegment

definition known_transport :: "connectionTransport \<Rightarrow> bool" where
  "known_transport t \<longleftrightarrow> t = transportTCP \<or> t = transportSSL \<or> t = transportSSH \<or> t = transportWS \<or>
     t = transportWSS \<or> t = transportSocket"

definition web_socket :: "connectionTransport \<Rightarrow> bool" where
  "web_socket t \<longleftrightarrow> t = transportWS \<or> t = transportWSS"

definition default_port :: "connectionTransport \<Rightarrow> string" where
  "default_port t =
     (if t = transportSSH then defaultSSHPort else if t = transportWS then defaultWSPort
      else if t = transportWSS then defaultWSSPort else defaultTCPPort)"

text \<open>\<open>strconv.ParseUint(port, 10, 16)\<close> of a port that is not zero, and its canonical text.\<close>

definition canonical_port :: "string \<Rightarrow> string option" where
  "canonical_port port =
     (case parse_unsigned port of
        Some n \<Rightarrow> if int n < 65536 \<and> n \<noteq> 0 then Some (nat_digits n) else None
      | None \<Rightarrow> None)"

definition url_username :: "url \<Rightarrow> string" where
  "url_username u = (case u_User u of None \<Rightarrow> [] | Some (name, _) \<Rightarrow> name)"

definition url_password :: "url \<Rightarrow> string" where
  "url_password u = (case u_User u of Some (_, Some pw) \<Rightarrow> pw | _ \<Rightarrow> [])"

definition has_control :: "string \<Rightarrow> bool" where
  "has_control s \<longleftrightarrow> (\<exists>r\<in>set (runes (string_bytes s)). IsControl r)"

definition socket_target :: "string \<Rightarrow> string \<Rightarrow> url \<Rightarrow> connection_error + connectionURL" where
  "socket_target raw scheme u =
     (if u_Opaque u \<noteq> [] \<or> \<not> has_prefix (scheme @ ''://'') (ToLower raw) then Inl SocketForm
      else if u_Host u \<noteq> [] then Inl SocketHostPort
      else if u_RawQuery u \<noteq> [] \<or> u_Fragment u \<noteq> [] then Inl SocketQuery
      else case validateSocketPath (u_Path u) of
          Some e \<Rightarrow> Inl (SocketPath e)
        | None \<Rightarrow>
            Inr (no_target\<lparr>cu_transport := transportSocket, cu_address := u_Path u,
                           cu_username := url_username u, cu_password := url_password u\<rparr>))"

definition target_port :: "connectionTransport \<Rightarrow> string \<Rightarrow> url \<Rightarrow> connection_error + string" where
  "target_port t upper u =
     (let port = snd (splitHostPort (u_Host u)) in
      if port = [] then
        (if has_suffix '':'' (u_Host u) then Inl (PortEmpty upper) else Inr (default_port t))
      else case canonical_port port of None \<Rightarrow> Inl (PortRange upper) | Some p \<Rightarrow> Inr p)"

definition target_display :: "connectionTransport \<Rightarrow> url \<Rightarrow> connection_error + string" where
  "target_display t u =
     (if t = transportSSH \<and> u_Path u \<noteq> [] \<and> u_Path u \<noteq> ''/'' then
        (let display = trim_prefix ''/'' (u_Path u) in
         if display = [] \<or> CHR ''/'' \<in> set display \<or> has_control display then Inl DisplaySegment
         else Inr display)
      else Inr [])"

definition network_target :: "connectionTransport \<Rightarrow> string \<Rightarrow> url \<Rightarrow> connection_error + connectionURL" where
  "network_target t upper u =
     (if u_Opaque u \<noteq> [] \<or> u_Host u = [] then Inl (HostRequired upper)
      else if t \<noteq> transportSSH \<and> \<not> web_socket t \<and> u_Path u \<noteq> [] \<and> u_Path u \<noteq> ''/'' then Inl (PathNotEmpty upper)
      else if \<not> web_socket t \<and> u_RawQuery u \<noteq> [] \<or> u_Fragment u \<noteq> [] then Inl (QueryNotSupported upper)
      else
        let host = fst (splitHostPort (u_Host u)) in
        if host = [] then Inl (HostRequired upper)
        else if t = transportSSH \<and> has_prefix ''-'' host then Inl HostDash
        else
          bind_res (target_port t upper u) (\<lambda>port.
          bind_res (target_display t u) (\<lambda>display.
            Inr \<lparr>cu_transport = t, cu_address = JoinHostPort host port, cu_serverName = host,
                 cu_port = port, cu_display = display,
                 cu_path = (if web_socket t then if u_Path u = [] then ''/'' else u_Path u else []),
                 cu_rawPath = (if web_socket t then u_RawPath u else []),
                 cu_rawQuery = (if web_socket t then u_RawQuery u else []),
                 cu_username = url_username u, cu_password = url_password u\<rparr>)))"

definition parseConnectionURL :: "string \<Rightarrow> connection_error + connectionURL" where
  "parseConnectionURL raw =
     (case url_Parse raw of
        Inl e \<Rightarrow> Inl (InvalidURL e)
      | Inr u \<Rightarrow>
          let scheme = ToLower (u_Scheme u);
              t = (if scheme = ''unix'' then transportSocket else scheme) in
          if \<not> known_transport t then
            Inl (if u_Scheme u = [] then SchemeRequired else UnsupportedProtocol (u_Scheme u))
          else if t = transportSocket then socket_target raw scheme u
          else network_target t (ToUpper scheme) u)"

section \<open>The handshake URL\<close>

definition webSocketURL :: "connectionURL \<Rightarrow> string" where
  "webSocketURL target =
     url_String (no_url\<lparr>u_Scheme := cu_transport target, u_Host := cu_address target,
       u_Path := cu_path target, u_RawPath := cu_rawPath target, u_RawQuery := cu_rawQuery target\<rparr>)"

definition connectionLabel :: "connectionURL \<Rightarrow> string" where
  "connectionLabel target = ''xpra @ '' @ cu_address target"

section \<open>TLS\<close>

record sslOptions =
  ssl_caCert :: string
  ssl_insecure :: bool

text \<open>Certificate pools are those of \<open>crypto/x509\<close>: how they are made and extended is given.\<close>

record 'pool tls_config =
  tls_ServerName :: string
  tls_InsecureSkipVerify :: bool
  tls_RootCAs :: "'pool option"

datatype tls_error = SSLNotUsed | SSLConflict | SystemPool | CAUnreadable string | CAEmpty string

definition makeTLSConfig ::
    "'pool option option \<Rightarrow> 'pool \<Rightarrow> (string \<Rightarrow> bytes option) \<Rightarrow> (bytes \<Rightarrow> 'pool \<Rightarrow> 'pool option) \<Rightarrow>
     connectionURL \<Rightarrow> sslOptions \<Rightarrow> tls_error + 'pool tls_config option" where
  "makeTLSConfig SystemCertPool empty_pool read_file AppendCertsFromPEM target options =
     (let secure = (cu_transport target = transportSSL \<or> cu_transport target = transportWSS) in
      if \<not> secure then
        (if ssl_caCert options \<noteq> [] \<or> ssl_insecure options then Inl SSLNotUsed else Inr None)
      else if ssl_caCert options \<noteq> [] \<and> ssl_insecure options then Inl SSLConflict
      else
        let config = \<lparr>tls_ServerName = cu_serverName target, tls_InsecureSkipVerify = ssl_insecure options,
                      tls_RootCAs = None\<rparr> in
        if ssl_caCert options = [] then Inr (Some config)
        else
          case SystemCertPool of
            None \<Rightarrow> Inl SystemPool
          | Some pool \<Rightarrow>
              (case read_file (ssl_caCert options) of
                 None \<Rightarrow> Inl (CAUnreadable (ssl_caCert options))
               | Some pem \<Rightarrow>
                   (case AppendCertsFromPEM pem (case pool of Some p \<Rightarrow> p | None \<Rightarrow> empty_pool) of
                      None \<Rightarrow> Inl (CAEmpty (ssl_caCert options))
                    | Some roots \<Rightarrow> Inr (Some (config\<lparr>tls_RootCAs := Some roots\<rparr>)))))"

end
