(* ===== verification/Cmd_Targets.thy ===== *)
theory Cmd_Targets
  imports Cmd_Url
begin

text \<open>
  What a connection target is, and that the URL of a WebSocket handshake names the target it is
  made from.
\<close>

section \<open>Valid targets\<close>

definition valid_port :: "string \<Rightarrow> bool" where
  "valid_port p \<longleftrightarrow> (\<exists>n. 1 \<le> n \<and> n \<le> 65535 \<and> p = nat_digits n)"

definition printable :: "string \<Rightarrow> bool" where
  "printable s \<longleftrightarrow> (\<forall>c\<in>set s. \<not> is_ctl c \<and> c \<noteq> CHR ''#'')"

definition valid_network :: "connectionURL \<Rightarrow> bool" where
  "valid_network t \<longleftrightarrow>
     cu_transport t \<in> {transportTCP, transportSSL, transportSSH, transportWS, transportWSS} \<and>
     valid_port (cu_port t) \<and> cu_address t = JoinHostPort (cu_serverName t) (cu_port t) \<and>
     (if cu_transport t = transportSSH
      then \<not> has_prefix ''-'' (cu_serverName t) \<and> CHR ''/'' \<notin> set (cu_display t) \<and> \<not> has_control (cu_display t)
      else cu_display t = []) \<and>
     (if web_socket (cu_transport t)
      then has_prefix ''/'' (cu_path t) \<and> (cu_rawPath t = [] \<or> has_prefix ''/'' (cu_rawPath t)) \<and>
        printable (cu_rawQuery t)
      else cu_path t = [] \<and> cu_rawPath t = [] \<and> cu_rawQuery t = [])"

definition valid_socket :: "connectionURL \<Rightarrow> bool" where
  "valid_socket t \<longleftrightarrow>
     cu_transport t = transportSocket \<and> has_prefix ''/'' (cu_address t) \<and> cu_address t \<noteq> ''/'' \<and>
     CHR 0x00 \<notin> set (cu_address t) \<and>
     cu_serverName t = [] \<and> cu_port t = [] \<and> cu_display t = [] \<and> cu_path t = [] \<and> cu_rawPath t = [] \<and>
     cu_rawQuery t = []"

lemma has_prefix_Cons [simp]: "has_prefix [c] (d # s) \<longleftrightarrow> c = d"
  by (auto simp: has_prefix_def)

lemma has_prefix_Nil [simp]: "\<not> has_prefix (c # p) []"
  by (simp add: has_prefix_def)

lemma has_prefix_single: "has_prefix [c] s \<longleftrightarrow> (\<exists>r. s = c # r)"
  by (cases s) auto

lemma valid_canonical_port:
  assumes "canonical_port p = Some q"
  shows "valid_port q"
proof -
  obtain n where "n < 65536" "n \<noteq> 0" "q = nat_digits n"
    using assms by (auto simp: canonical_port_def split: option.splits if_splits)
  then show ?thesis by (auto simp: valid_port_def intro!: exI [of _ n])
qed

lemma valid_port_digits: "1 \<le> n \<Longrightarrow> n \<le> 65535 \<Longrightarrow> nat_digits n = p \<Longrightarrow> valid_port p"
  by (auto simp: valid_port_def)

lemma valid_default_port: "valid_port (default_port t)"
proof -
  have "nat_digits 14500 = ''14500''" "nat_digits 22 = ''22''" "nat_digits 80 = ''80''" "nat_digits 443 = ''443''"
    by (simp_all add: nat_digits.simps digit_char_numerals)
  note this [THEN valid_port_digits [rotated 2]]
  then show ?thesis by (simp add: default_port_def default_ports)
qed

section \<open>The shape of parsed URLs\<close>

definition url_shape :: "url \<Rightarrow> bool" where
  "url_shape u \<longleftrightarrow>
     (u_Path u = [] \<or> has_prefix ''/'' (u_Path u)) \<and>
     (u_RawPath u = [] \<or> has_prefix ''/'' (u_RawPath u)) \<and> printable (u_RawQuery u)"

lemma printable_append [simp]: "printable (xs @ ys) \<longleftrightarrow> printable xs \<and> printable ys"
  by (auto simp: printable_def)

lemma printable_simps [simp]: "printable []" "printable (c # s) \<longleftrightarrow> \<not> is_ctl c \<and> c \<noteq> CHR ''#'' \<and> printable s"
  by (auto simp: printable_def)

lemma cut_parts: "cut c s = (a, b, f) \<Longrightarrow> s = (if f then a @ c # b else a) \<and> c \<notin> set a \<and> (\<not> f \<longrightarrow> b = [])"
proof (cases "c \<in> set s")
  case True
  then obtain xs ys where "s = xs @ c # ys" "c \<notin> set xs" by (meson split_list_first)
  then show "cut c s = (a, b, f) \<Longrightarrow> ?thesis" by (simp add: cut_append)
qed (simp add: cut_append)

lemma getScheme_rest: "getScheme acc s = Inr (scheme, rest) \<Longrightarrow> printable (acc @ s) \<Longrightarrow> printable rest"
  by (induction acc s arbitrary: scheme rest rule: getScheme.induct) (auto split: if_splits)

lemma setPath_shape:
  assumes "setPath p u = Inr v" "p = [] \<or> has_prefix ''/'' p"
  shows "(u_Path v = [] \<or> has_prefix ''/'' (u_Path v)) \<and> (u_RawPath v = [] \<or> has_prefix ''/'' (u_RawPath v)) \<and>
    u_RawQuery v = u_RawQuery u \<and> u_Host v = u_Host u"
proof -
  obtain path where path: "unescape EncodePath p = Inr path"
    "v = u\<lparr>u_Path := path, u_RawPath := (if p = escape EncodePath path then [] else p)\<rparr>"
    using assms(1) by (auto simp: setPath_def bind_res_eq_Inr)
  have "path = [] \<or> has_prefix ''/'' path"
    using assms(2) path(1) by (auto simp: has_prefix_single bind_res_eq_Inr)
  with path(2) assms(2) show ?thesis by simp
qed

lemma url_parse_shape:
  assumes "url_parse raw = Inr u" "u_Host u \<noteq> [] \<or> has_prefix ''/'' raw" "CHR ''#'' \<notin> set raw"
  shows "url_shape u"
proof -
  have raw: "printable raw" "raw \<noteq> ''*''"
    using assms by (auto simp: url_parse_def printable_def no_url_def split: if_splits)
  obtain scheme rest0 where scheme: "getScheme [] raw = Inr (scheme, rest0)"
    using assms(1) raw by (auto simp: url_parse_def bind_res_eq_Inr split: if_splits)
  obtain rest query f where rest: "cut (CHR ''?'') rest0 = (rest, query, f)" by (metis prod_cases3)
  have "printable rest0" using getScheme_rest [OF scheme] raw by simp
  then have query: "printable query" using cut_parts [OF rest] by (auto split: if_splits)
  let ?u = "no_url\<lparr>u_Scheme := ToLower scheme, u_RawQuery := query\<rparr>"
  have "\<exists>path v. setPath path v = Inr u \<and> u_RawQuery v = query \<and> (path = [] \<or> has_prefix ''/'' path)"
  proof (cases "(scheme \<noteq> [] \<or> \<not> has_prefix ''///'' rest) \<and> has_prefix ''//'' rest")
    case True
    then have slash: "has_prefix ''/'' rest" by (cases rest) (auto simp: has_prefix_def)
    let ?path = "dropWhile (\<lambda>c. c \<noteq> CHR ''/'') (drop 2 rest)"
    have "?path = [] \<or> has_prefix ''/'' ?path"
      using hd_dropWhile [of "\<lambda>c. c \<noteq> CHR ''/''" "drop 2 rest"] by (cases ?path) auto
    with True assms(1) raw scheme rest slash show ?thesis
      by (fastforce simp: url_parse_def bind_res_eq_Inr Let_def split: if_splits prod.splits)
  next
    case False
    then have "u_Host u = []"
      using assms(1) raw scheme rest
      by (auto simp: url_parse_def setPath_def bind_res_eq_Inr Let_def no_url_def split: if_splits prod.splits)
    with assms(2) obtain r where r: "raw = CHR ''/'' # r" by (auto simp: has_prefix_single)
    have "\<not> is_letter (CHR ''/'')" "\<not> is_digit (CHR ''/'')" by code_simp+
    then have "rest0 = CHR ''/'' # r" using scheme r by simp
    then have slash: "has_prefix ''/'' rest"
      using cut_parts [OF rest] by (cases rest) (auto split: if_splits)
    moreover have "setPath rest ?u = Inr u"
      using False slash assms(1) raw scheme rest
      by (auto simp: url_parse_def bind_res_eq_Inr Let_def no_url_def split: if_splits prod.splits)
    ultimately show ?thesis by (intro exI [of _ rest] exI [of _ ?u]) simp
  qed
  then show ?thesis using setPath_shape query unfolding url_shape_def by metis
qed

lemma url_Parse_shape:
  assumes "url_Parse raw = Inr u" "u_Host u \<noteq> [] \<or> has_prefix ''/'' raw"
  shows "url_shape u"
proof -
  obtain front fragment f where *: "cut (CHR ''#'') raw = (front, fragment, f)" by (metis prod_cases3)
  with assms(1) obtain v where v: "url_parse front = Inr v" "u = v \<or> (\<exists>g. u = v\<lparr>u_Fragment := g\<rparr>)"
    by (auto simp: url_Parse_def bind_res_eq_Inr split: if_splits)
  moreover have "CHR ''#'' \<notin> set front" using cut_parts [OF *] by simp
  moreover have "has_prefix ''/'' raw \<Longrightarrow> has_prefix ''/'' front"
    using cut_parts [OF *] by (cases front) (auto simp: has_prefix_single split: if_splits)
  ultimately show ?thesis using url_parse_shape [OF v(1)] assms(2) by (auto simp: url_shape_def)
qed

section \<open>Parsed targets are valid\<close>

lemma valid_socket_path:
  "validateSocketPath p = None \<longleftrightarrow> has_prefix ''/'' p \<and> p \<noteq> ''/'' \<and> CHR 0x00 \<notin> set p"
  by (cases p) (auto simp: validateSocketPath_def)

lemma socket_target_valid: "socket_target raw scheme u = Inr t \<Longrightarrow> valid_socket t"
  using valid_socket_path [of "u_Path u"]
  by (auto simp: socket_target_def valid_socket_def no_target_def split: if_splits option.splits)

lemma target_port_valid: "target_port t upper u = Inr p \<Longrightarrow> valid_port p"
  by (auto simp: target_port_def Let_def valid_default_port valid_canonical_port split: if_splits option.splits)

lemma has_control_Nil [simp]: "\<not> has_control []"
  by (simp add: has_control_def)

lemma target_display_valid:
  assumes "target_display t u = Inr d"
  shows "CHR ''/'' \<notin> set d" "\<not> has_control d" "t \<noteq> transportSSH \<longrightarrow> d = []"
  using assms by (auto simp: target_display_def Let_def split: if_splits)

lemma network_target_valid:
  assumes "network_target t upper u = Inr target" "known_transport t" "t \<noteq> transportSocket"
    and "u_Host u \<noteq> [] \<Longrightarrow> url_shape u"
  shows "valid_network target" "cu_serverName target \<noteq> []" "cu_transport target = t"
    "cu_serverName target = fst (splitHostPort (u_Host u))" "u_Host u \<noteq> []"
proof -
  obtain port display where *: "target_port t upper u = Inr port" "target_display t u = Inr display"
    and target: "target = \<lparr>cu_transport = t, cu_address = JoinHostPort (fst (splitHostPort (u_Host u))) port,
      cu_serverName = fst (splitHostPort (u_Host u)), cu_port = port, cu_display = display,
      cu_path = (if web_socket t then if u_Path u = [] then ''/'' else u_Path u else []),
      cu_rawPath = (if web_socket t then u_RawPath u else []),
      cu_rawQuery = (if web_socket t then u_RawQuery u else []),
      cu_username = url_username u, cu_password = url_password u\<rparr>"
    and host: "u_Host u \<noteq> []" "fst (splitHostPort (u_Host u)) \<noteq> []"
      "\<not> (t = transportSSH \<and> has_prefix ''-'' (fst (splitHostPort (u_Host u))))"
    using assms(1) unfolding network_target_def
    by (auto simp: bind_res_eq_Inr Let_def split: if_splits)
  show "cu_transport target = t" "cu_serverName target = fst (splitHostPort (u_Host u))" "u_Host u \<noteq> []"
    "cu_serverName target \<noteq> []"
    using host by (simp_all add: target)
  have "url_shape u" using assms(4) host by simp
  moreover have "cu_transport target \<in> {transportTCP, transportSSL, transportSSH, transportWS, transportWSS}"
    using assms(2,3) by (auto simp: target known_transport_def)
  ultimately show "valid_network target"
    using target_port_valid [OF *(1)] target_display_valid [OF *(2)] host(3)
    unfolding valid_network_def by (auto simp: target url_shape_def)
qed

lemma parseConnectionURL_cases:
  assumes "parseConnectionURL raw = Inr t"
  obtains (socket) u scheme where "socket_target raw scheme u = Inr t"
  | (network) u scheme where "url_Parse raw = Inr u" "network_target scheme (ToUpper scheme) u = Inr t"
      "known_transport scheme" "scheme \<noteq> transportSocket"
proof -
  obtain u where u: "url_Parse raw = Inr u"
    using assms by (auto simp: parseConnectionURL_def split: sum.splits)
  let ?scheme = "ToLower (u_Scheme u)"
  let ?t = "if ?scheme = ''unix'' then transportSocket else ?scheme"
  have known: "known_transport ?t"
    and result: "(if ?t = transportSocket then socket_target raw ?scheme u
      else network_target ?t (ToUpper ?scheme) u) = Inr t"
    using assms u by (auto simp: parseConnectionURL_def Let_def split: if_splits)
  show thesis
  proof (cases "?t = transportSocket")
    case True
    then show ?thesis using result socket by simp
  next
    case False
    then have "?t = ?scheme" by (auto split: if_splits)
    then show ?thesis using result known False network [OF u] by simp
  qed
qed

lemma parsed_target_valid:
  assumes "parseConnectionURL raw = Inr t"
  shows "valid_socket t \<or> valid_network t \<and> cu_serverName t \<noteq> []"
  using assms
proof (cases rule: parseConnectionURL_cases)
  case (network u scheme)
  then show ?thesis using network_target_valid [OF network(2-4)] url_Parse_shape [OF network(1)] by blast
qed (auto dest: socket_target_valid)

end
