(* ===== verification/Cmd_Main.thy ===== *)
theory Cmd_Main
  imports Cmd_Targets
begin

text \<open>
  The command itself, \<open>cmd/go-xpra/main.go\<close>: how options are spelled, which display backend is
  opened (\<open>display_linux.go\<close>), and a session from the URL to the end of the client.
\<close>

section \<open>Option spelling\<close>

definition optionName :: "string \<Rightarrow> string \<times> bool" where
  "optionName arg =
     (let name = trim_prefix ''-'' (trim_prefix ''-'' arg) in
      case cut (CHR ''='') name of
        (front, _, True) \<Rightarrow> (front, True)
      | (_, _, False) \<Rightarrow> (name, False))"

datatype spelling_error = MustBeV string | MustBeDouble string string

text \<open>\<open>flags name\<close> says whether there is such a flag and, if so, whether it is a boolean one.\<close>

fun validateOptionSpelling :: "(string \<Rightarrow> bool option) \<Rightarrow> string list \<Rightarrow> spelling_error option" where
  "validateOptionSpelling flags [] = None"
| "validateOptionSpelling flags (arg # args) =
     (if arg = ''--'' \<or> arg = ''-'' \<or> \<not> has_prefix ''-'' arg then None
      else
        let (name, hasValue) = optionName arg in
        if name = ''v'' then
          (if has_prefix ''--'' arg then Some (MustBeV arg) else validateOptionSpelling flags args)
        else if \<not> has_prefix ''--'' arg then Some (MustBeDouble arg name)
        else if flags name = Some False \<and> \<not> hasValue then
          (case args of [] \<Rightarrow> None | _ # rest \<Rightarrow> validateOptionSpelling flags rest)
        else validateOptionSpelling flags args)"

text \<open>
  What Go's package \<open>flag\<close> makes of the arguments: those it reads as options and those that are
  left, if it accepts them.  \<open>accepts name value\<close> is the \<open>Set\<close> method of the flag.
\<close>

fun flag_parse ::
    "(string \<Rightarrow> bool option) \<Rightarrow> (string \<Rightarrow> string \<Rightarrow> bool) \<Rightarrow> string list \<Rightarrow> (string list \<times> string list) option"
  where
  "flag_parse flags accepts [] = Some ([], [])"
| "flag_parse flags accepts (arg # args) =
     (if length arg < 2 \<or> \<not> has_prefix ''-'' arg then Some ([], arg # args)
      else if arg = ''--'' then Some ([], args)
      else
        let name = trim_prefix ''-'' (drop 1 arg) in
        if name = [] \<or> hd name = CHR ''-'' \<or> hd name = CHR ''='' then None
        else
          let (option, value, hasValue) = cut (CHR ''='') name;
              more = map_option (\<lambda>(opts, rest). (arg # opts, rest)) in
          case flags option of
            None \<Rightarrow> None
          | Some True \<Rightarrow>
              if accepts option (if hasValue then value else ''true'')
              then more (flag_parse flags accepts args) else None
          | Some False \<Rightarrow>
              if hasValue then (if accepts option value then more (flag_parse flags accepts args) else None)
              else
                (case args of
                   [] \<Rightarrow> None
                 | next # rest \<Rightarrow>
                     if accepts option next then more (flag_parse flags accepts rest) else None))"

section \<open>The display backend\<close>

datatype 'd backend_result = Opened 'd | OpenFailed "string list"

text \<open>The errors of an open are texts; joined errors are a list of them.\<close>

definition openDisplay ::
    "string \<Rightarrow> (string \<Rightarrow> string) \<Rightarrow> string + 'd \<Rightarrow> string + 'd \<Rightarrow> 'd backend_result" where
  "openDisplay backend getenv x11_open wayland_open =
     (let single = (\<lambda>r. case r of Inl e \<Rightarrow> OpenFailed [e] | Inr d \<Rightarrow> Opened d);
          candidates = [(''DISPLAY'', x11_open), (''WAYLAND_DISPLAY'', wayland_open)] in
      if backend = ''x11'' then single x11_open
      else if backend = ''wayland'' then single wayland_open
      else if backend \<noteq> ''auto'' then
        OpenFailed [''unknown display backend '' @ backend @ '': use auto, x11 or wayland'']
      else
        let tried = map snd (filter (\<lambda>(name, _). getenv name \<noteq> []) candidates) in
        case find is_ok tried of
          Some (Inr d) \<Rightarrow> Opened d
        | _ \<Rightarrow>
            OpenFailed (if tried = [] then [''no local desktop: neither DISPLAY nor WAYLAND_DISPLAY is set'']
              else concat (map (\<lambda>r. case r of Inl e \<Rightarrow> [e] | Inr _ \<Rightarrow> []) tried)))"

section \<open>A session\<close>

datatype 'pool dial =
    DialTCP string
  | DialTLS string "'pool tls_config option"
  | DialWebSocket string "'pool tls_config option"
  | DialSSH connectionURL
  | DialUnix string

datatype 'pool action =
    OpenDisplay
  | CloseDisplay
  | WarnInsecure
  | Dial "'pool dial"
  | ShowTray string
  | NewClient string string          \<comment> \<open>username and password\<close>
  | MmapOn
  | PromptFor string string          \<comment> \<open>username and address a password is asked for with\<close>
  | RunClient
  | CloseConn

datatype session_error =
    BadURL connection_error
  | BadTLS tls_error
  | NoDisplay "string list"
  | Unsupported string
  | Connecting string string         \<comment> \<open>address and cause\<close>
  | ClientEnded string

text \<open>
  What the machine answers: the errors of dialling and of the client's run, the environment, and
  whether the display has a system tray.
\<close>

record 'pool machine =
  m_dial :: "'pool dial \<Rightarrow> string option"
  m_run :: "string option"
  m_getenv :: "string \<Rightarrow> string"
  m_tray :: bool
  m_backend :: string
  m_x11 :: "string + unit"
  m_wayland :: "string + unit"
  m_system_pool :: "'pool option option"
  m_empty_pool :: 'pool
  m_read_file :: "string \<Rightarrow> bytes option"
  m_append_pem :: "bytes \<Rightarrow> 'pool \<Rightarrow> 'pool option"

definition dial_for :: "connectionURL \<Rightarrow> 'pool tls_config option \<Rightarrow> 'pool dial option" where
  "dial_for target tlsConfig =
     (let t = cu_transport target in
      if t = transportSSL then Some (DialTLS (cu_address target) tlsConfig)
      else if t = transportWSS then Some (DialWebSocket (webSocketURL target) tlsConfig)
      else if t = transportSSH then Some (DialSSH target)
      else if t = transportTCP then Some (DialTCP (cu_address target))
      else if t = transportSocket then Some (DialUnix (cu_address target))
      else if t = transportWS then Some (DialWebSocket (webSocketURL target) None)
      else None)"

definition prompt_username :: "(string \<Rightarrow> string) \<Rightarrow> connectionURL \<Rightarrow> string" where
  "prompt_username getenv target =
     (if cu_username target \<noteq> [] then cu_username target
      else if getenv ''USER'' \<noteq> [] then getenv ''USER''
      else getenv ''USERNAME'')"

definition connect ::
    "'pool machine \<Rightarrow> connectionURL \<Rightarrow> sslOptions \<Rightarrow> 'pool tls_config option \<Rightarrow>
     session_error option \<times> 'pool action list" where
  "connect m target ssl tlsConfig =
     (let t = cu_transport target;
          warning = (if (t = transportSSL \<or> t = transportWSS) \<and> ssl_insecure ssl then [WarnInsecure] else []);
          clientPassword = (if t = transportSSH then [] else cu_password target) in
      case dial_for target tlsConfig of
        None \<Rightarrow> (Some (Connecting (cu_address target) (''unsupported transport '' @ t)), warning)
      | Some d \<Rightarrow>
          (case m_dial m d of
             Some e \<Rightarrow> (Some (Connecting (cu_address target) e), warning @ [Dial d])
           | None \<Rightarrow>
               (map_option ClientEnded (m_run m),
                warning @ [Dial d] @
                (if m_tray m then [ShowTray (connectionLabel target)] else []) @
                [NewClient (cu_username target) clientPassword] @
                (if t = transportSocket then [MmapOn] else []) @
                [PromptFor (prompt_username (m_getenv m) target) (cu_address target), RunClient, CloseConn])))"

definition tls_of :: "'pool machine \<Rightarrow> connectionURL \<Rightarrow> sslOptions \<Rightarrow> tls_error + 'pool tls_config option" where
  "tls_of m = makeTLSConfig (m_system_pool m) (m_empty_pool m) (m_read_file m) (m_append_pem m)"

definition open_display :: "'pool machine \<Rightarrow> unit backend_result" where
  "open_display m = openDisplay (m_backend m) (m_getenv m) (m_x11 m) (m_wayland m)"

definition main_run ::
    "'pool machine \<Rightarrow> string \<Rightarrow> sslOptions \<Rightarrow> session_error option \<times> 'pool action list" where
  "main_run m rawURL ssl =
     (case parseConnectionURL rawURL of
        Inl e \<Rightarrow> (Some (BadURL e), [])
      | Inr target \<Rightarrow>
          (case tls_of m target ssl of
             Inl e \<Rightarrow> (Some (BadTLS e), [])
           | Inr tlsConfig \<Rightarrow>
               (case open_display m of
                  OpenFailed es \<Rightarrow> (Some (NoDisplay es), [])
                | Opened _ \<Rightarrow>
                    (case connect m target ssl tlsConfig of
                       (e, actions) \<Rightarrow> (e, OpenDisplay # actions @ [CloseDisplay])))))"

text \<open>\<open>runConnectionDialog\<close>, given what the dialog returns: an error, a target, or nothing.\<close>

definition runConnectionDialog ::
    "'pool machine \<Rightarrow> string + connectionURL option \<Rightarrow> sslOptions \<Rightarrow>
     session_error option \<times> 'pool action list" where
  "runConnectionDialog m prompted ssl =
     (case open_display m of
        OpenFailed es \<Rightarrow> (Some (NoDisplay es), [])
      | Opened _ \<Rightarrow>
          (case prompted of
             Inl e \<Rightarrow> (Some (ClientEnded e), [OpenDisplay, CloseDisplay])
           | Inr None \<Rightarrow> (None, [OpenDisplay, CloseDisplay])
           | Inr (Some target) \<Rightarrow>
               (case tls_of m target ssl of
                  Inl e \<Rightarrow> (Some (BadTLS e), [OpenDisplay, CloseDisplay])
                | Inr tlsConfig \<Rightarrow>
                    (case connect m target ssl tlsConfig of
                       (e, actions) \<Rightarrow> (e, OpenDisplay # actions @ [CloseDisplay])))))"

section \<open>The check of the spelling sees the options the parser reads\<close>

definition well_spelled :: "string \<Rightarrow> bool" where
  "well_spelled arg \<longleftrightarrow> (fst (optionName arg) = ''v'') \<noteq> has_prefix ''--'' arg"

lemma optionName_flag:
  assumes "has_prefix ''-'' arg"
  shows "optionName arg = (case cut (CHR ''='') (trim_prefix ''-'' (drop 1 arg)) of
    (option, value, hasValue) \<Rightarrow> (option, hasValue))"
proof -
  obtain r where "arg = CHR ''-'' # r" using assms by (auto simp: has_prefix_single)
  moreover obtain a b f where cut: "cut (CHR ''='') (trim_prefix ''-'' r) = (a, b, f)" by (metis prod_cases3)
  moreover have "\<not> f \<Longrightarrow> a = trim_prefix ''-'' r" using cut_parts [OF cut] by simp
  ultimately show ?thesis by (cases f) (simp_all add: optionName_def trim_prefix_def [of "''-''" "CHR ''-'' # r"])
qed

lemma spelling_step:
  assumes "has_prefix ''-'' arg" "arg \<noteq> ''-''" "arg \<noteq> ''--''" "optionName arg = (option, hasValue)"
    and "flags ''v'' \<noteq> Some False"
  shows "validateOptionSpelling flags (arg # args) = None \<longleftrightarrow> well_spelled arg \<and>
    validateOptionSpelling flags (if flags option = Some False \<and> \<not> hasValue then drop 1 args else args) = None"
  using assms by (cases args) (auto simp: well_spelled_def)

lemma spelling_agrees:
  assumes "flags ''v'' \<noteq> Some False"
  shows "flag_parse flags accepts args = Some (opts, rest) \<Longrightarrow>
    validateOptionSpelling flags args = None \<longleftrightarrow> list_all well_spelled opts"
proof (induction args arbitrary: opts rule: length_induct)
  case (1 args)
  show ?case
  proof (cases args)
    case Nil
    then show ?thesis using 1 by simp
  next
    case (Cons arg more)
    show ?thesis
    proof (cases "length arg < 2 \<or> \<not> has_prefix ''-'' arg \<or> arg = ''--''")
      case True
      then have "arg = ''--'' \<or> arg = ''-'' \<or> \<not> has_prefix ''-'' arg"
        by (cases arg rule: remdups_adj.cases) auto
      with True 1(2) show ?thesis unfolding Cons by (auto split: if_splits)
    next
      case False
      then have dash: "has_prefix ''-'' arg" "arg \<noteq> ''-''" "arg \<noteq> ''--''" by auto
      obtain option val hasValue
        where cut: "cut (CHR ''='') (trim_prefix ''-'' (drop 1 arg)) = (option, val, hasValue)"
        by (metis prod_cases3)
      have name: "optionName arg = (option, hasValue)" unfolding optionName_flag [OF dash(1)] cut by simp
      let ?next = "if flags option = Some False \<and> \<not> hasValue then drop 1 more else more"
      obtain opts' where "opts = arg # opts'" "flag_parse flags accepts ?next = Some (opts', rest)"
        using 1(2) False cut unfolding Cons
        by (auto simp: Let_def split: if_splits option.splits bool.splits list.splits)
      moreover have "length ?next < length args" by (auto simp: Cons)
      ultimately show ?thesis
        using 1(1) spelling_step [of arg option hasValue flags more, OF dash name assms] unfolding Cons by auto
    qed
  qed
qed

end
