(* ===== verification/Cmd_Roundtrip.thy ===== *)
theory Cmd_Roundtrip
  imports Cmd_Targets
begin

text \<open>
  The URL of a WebSocket handshake read back: it names the target it was made from, without the
  credentials.
\<close>

section \<open>Characters\<close>

lemma host_plain: "shouldEscape c EncodeHost \<or> c \<notin> set ''/?#@%'' \<and> \<not> is_ctl c"
  by (simp add: shouldEscape_def char_simps)

lemma path_plain: "shouldEscape c EncodePath \<and> c \<notin> set (CHR 0x27 # ''!$&()*+,;=:@[]%'') \<or> c \<notin> set ''?#'' \<and> \<not> is_ctl c"
  by (simp add: shouldEscape_def char_simps) linarith

lemma path_safe: "\<not> shouldEscape c EncodePath \<Longrightarrow> c \<notin> set ''?#'' \<and> \<not> is_ctl c"
  using path_plain [of c] by blast

lemma alnum_printable: "is_letter c \<or> is_digit c \<or> c = CHR ''%'' \<Longrightarrow> c \<notin> set ''/?#@'' \<and> \<not> is_ctl c"
  by (simp add: char_simps) linarith

lemma digit_not: "is_digit c \<Longrightarrow> c \<notin> set '']:@['' \<and> \<not> shouldEscape c mode"
  by (simp add: shouldEscape_def) (simp add: char_simps)

lemma escape_append [simp]: "escape mode (a @ b) = escape mode a @ escape mode b"
  by (simp add: escape_def)

lemma escape_plain: "list_all (\<lambda>c. \<not> shouldEscape c mode) s \<Longrightarrow> escape mode s = s"
  by (induction s) (simp_all add: escape_def escape_char_def)

lemma escape_Cons: "\<not> shouldEscape c mode \<Longrightarrow> escape mode (c # s) = c # escape mode s"
  by (simp add: escape_def escape_char_def)

lemma escaped_host_chars: "c \<in> set (escape EncodeHost s) \<Longrightarrow> c \<notin> set ''/?#@'' \<and> \<not> is_ctl c"
  using set_escape [of c EncodeHost s] host_plain [of c] alnum_printable [of c] by auto

lemma escaped_path_chars: "c \<in> set (escape EncodePath s) \<Longrightarrow> c \<notin> set ''?#'' \<and> \<not> is_ctl c"
  using set_escape [of c EncodePath s] path_safe [of c] alnum_printable [of c] by auto

section \<open>Hosts\<close>

definition plain_host :: "string \<Rightarrow> bool" where
  "plain_host s \<longleftrightarrow> \<not> has_prefix ''['' s \<and> list_all (\<lambda>c. \<not> shouldEscape c EncodeHost \<or> c = CHR ''%'') s"

lemma cut_zone_plain:
  "list_all (\<lambda>c. \<not> shouldEscape c EncodeHost \<or> c = CHR ''%'') s \<Longrightarrow> CHR ''%'' \<notin> set a \<Longrightarrow>
   cut_zone (escape EncodeHost (a @ CHR ''%'' # s)) =
     Some (escape EncodeHost a, escape EncodeHost (CHR ''%'' # s))"
  if "list_all (\<lambda>c. \<not> shouldEscape c EncodeHost \<or> c = CHR ''%'') a"
  using that
proof (induction a)
  case Nil
  have "escape EncodeHost ''%'' = ''%25''" by code_simp
  then have "escape EncodeHost (CHR ''%'' # s) = ''%25'' @ escape EncodeHost s"
    using escape_append [of EncodeHost "''%''" s] by simp
  then show ?case by (simp add: has_prefix_def escape_def)
next
  case (Cons c a)
  then have "escape_char EncodeHost c = [c]" "c \<noteq> CHR ''%''" by (auto simp: escape_char_def)
  then show ?case using Cons by (auto simp: escape_def has_prefix_def)
qed

lemma cut_zone_None: "CHR ''%'' \<notin> set s \<Longrightarrow> cut_zone s = None"
  by (induction s) (auto simp: has_prefix_def)

lemma splitHostPort_JoinHostPort:
  assumes "\<not> has_prefix ''['' s" "list_all is_digit port"
  shows "splitHostPort (JoinHostPort s port) = (s, port)"
proof -
  have "CHR '':'' \<notin> set port" using assms(2) digit_not by (force simp: list_all_iff)
  then have "cut_last (CHR '':'') (xs @ CHR '':'' # port) = Some (xs, port)" for xs by (rule cut_last_append)
  from this [of "''['' @ s @ '']''"] this [of s] show ?thesis
    using assms by (simp add: splitHostPort_def JoinHostPort_def validOptionalPort_def has_suffix_def)
qed

lemma plain_ok:
  assumes "list_all (\<lambda>c. \<not> shouldEscape c EncodeHost \<or> c = CHR ''%'') s"
  shows "list_all (escapable EncodeHost) s" "list_all (escapable EncodeZone) s"
  using assms escapable_host escapable_zone by (auto simp: list_all_iff)

lemma parseHost_bracketed:
  assumes "list_all (\<lambda>c. \<not> shouldEscape c EncodeHost \<or> c = CHR ''%'') s" "list_all is_digit port"
  shows "parseHost (escape EncodeHost (''['' @ s @ '']:'' @ port)) = Inr (''['' @ s @ '']:'' @ port)"
proof -
  have brackets: "escape EncodeHost ''['' = ''[''" "escape EncodeHost '']:'' = '']:''"
    "list_all (\<lambda>c. \<not> shouldEscape c EncodeHost) ''['' " by code_simp+
  have port: "list_all (\<lambda>c. \<not> shouldEscape c EncodeHost) port" "CHR '']'' \<notin> set port"
    using assms(2) digit_not by (auto simp: list_all_iff)
  have last: "list_all (\<lambda>c. \<not> shouldEscape c EncodeHost) ('']:'' @ port)"
    using port(1) by simp code_simp
  let ?E = "''['' @ escape EncodeHost s"
  have split: "cut_last (CHR '']'') (?E @ CHR '']'' # CHR '':'' # port) = Some (?E, CHR '':'' # port)"
    using port(2) by (intro cut_last_append) simp
  have whole: "escape EncodeHost (''['' @ s @ '']:'' @ port) = ?E @ CHR '']'' # CHR '':'' # port"
    using brackets(1,2) escape_plain [OF port(1)] escape_append [of EncodeHost "''[''" "s @ '']:'' @ port"]
      escape_append [of EncodeHost "'']:''" port] by simp
  have all: "unescape EncodeHost (?E @ CHR '']'' # CHR '':'' # port) = Inr (''['' @ s @ '']:'' @ port)"
  proof -
    have "list_all (\<lambda>c. \<not> shouldEscape c EncodeHost \<or> c = CHR ''%'') (''['' @ s @ '']:'' @ port)"
      using brackets(3) assms(1) last by (auto simp: list_all_iff)
    then show ?thesis unfolding whole [symmetric] by (intro unescape_escape plain_ok)
  qed
  have tail: "unescape EncodeHost (CHR '']'' # CHR '':'' # port) = Inr ('']:'' @ port)"
  proof -
    have "list_all (\<lambda>c. \<not> shouldEscape c EncodeHost \<or> c = CHR ''%'') ('']:'' @ port)"
      using last by (simp add: list_all_iff)
    from unescape_escape [OF plain_ok(1) [OF this]] escape_plain [OF last] show ?thesis by simp
  qed
  have valid: "validOptionalPort (CHR '':'' # port)" using assms(2) by (simp add: validOptionalPort_def)
  show ?thesis
  proof (cases "CHR ''%'' \<in> set s")
    case True
    then obtain a b where s: "s = a @ CHR ''%'' # b" "CHR ''%'' \<notin> set a" by (meson split_list_first)
    have zone: "cut_zone ?E = Some (escape EncodeHost (''['' @ a), escape EncodeHost (CHR ''%'' # b))"
      using cut_zone_plain [of "''['' @ a" b] s assms(1) brackets(3)
      by (simp add: escape_Cons del: cut_zone.simps)
    have "unescape EncodeHost (escape EncodeHost (''['' @ a)) = Inr (''['' @ a)"
      using assms(1) s brackets(3) by (intro unescape_escape plain_ok) auto
    moreover have "unescape EncodeZone (escape EncodeHost (CHR ''%'' # b)) = Inr (CHR ''%'' # b)"
      unfolding escape_zone [symmetric] using assms(1) s by (intro unescape_escape plain_ok) auto
    ultimately show ?thesis
      unfolding whole parseHost_def using split zone valid tail s
      by (simp add: has_prefix_def del: cut_zone.simps unescape.simps)
  next
    case False
    have "cut_zone ?E = None"
    proof (rule cut_zone_None)
      have "escape EncodeHost s = s" using False assms(1) by (intro escape_plain) (auto simp: list_all_iff)
      with False show "CHR ''%'' \<notin> set ?E" by simp
    qed
    then show ?thesis unfolding whole parseHost_def using split valid all
      by (simp add: has_prefix_def del: cut_zone.simps unescape.simps)
  qed
qed

lemma parseHost_address:
  assumes "plain_host s" "list_all is_digit port"
  shows "parseHost (escape EncodeHost (JoinHostPort s port)) = Inr (JoinHostPort s port)"
proof (cases "CHR '':'' \<in> set s")
  case True
  then show ?thesis
    using parseHost_bracketed [of s port] assms by (simp add: JoinHostPort_def plain_host_def)
next
  case False
  let ?E = "escape EncodeHost s"
  have port: "list_all (\<lambda>c. \<not> shouldEscape c EncodeHost) port" "CHR '':'' \<notin> set port"
    using assms(2) digit_not by (auto simp: list_all_iff)
  have colon: "\<not> shouldEscape (CHR '':'') EncodeHost" by code_simp
  have whole: "escape EncodeHost (s @ CHR '':'' # port) = ?E @ CHR '':'' # port"
    using colon escape_plain [OF port(1)] by (simp add: escape_Cons)
  have "list_all (\<lambda>c. \<not> shouldEscape c EncodeHost \<or> c = CHR ''%'') (s @ CHR '':'' # port)"
    using assms(1) colon port(1) by (auto simp: plain_host_def list_all_iff)
  from unescape_escape [OF plain_ok(1) [OF this]]
  have all: "unescape EncodeHost (?E @ CHR '':'' # port) = Inr (s @ CHR '':'' # port)" unfolding whole .
  have "\<not> has_prefix ''['' (?E @ CHR '':'' # port)"
  proof (cases s)
    case (Cons c r)
    then have "c \<noteq> CHR ''[''" using assms(1) by (auto simp: plain_host_def)
    then show ?thesis using Cons by (auto simp: escape_def escape_char_def)
  qed (simp add: escape_def)
  moreover have "cut_last (CHR '':'') (?E @ CHR '':'' # port) = Some (?E, port)"
    using port(2) by (rule cut_last_append)
  ultimately show ?thesis
    using False assms(2) all unfolding JoinHostPort_def if_False
    by (simp add: whole parseHost_def validOptionalPort_def del: unescape.simps escape_append)
qed

section \<open>Whole URLs\<close>

lemma getScheme_letters:
  "list_all is_letter s \<Longrightarrow> acc @ s \<noteq> [] \<Longrightarrow> getScheme acc (s @ CHR '':'' # r) = Inr (acc @ s, r)"
proof (induction s arbitrary: acc)
  case Nil
  have "\<not> is_letter (CHR '':'')" "\<not> is_digit (CHR '':'')" by code_simp+
  with Nil show ?case by simp
qed simp

lemma EscapedPath_chars:
  assumes "has_prefix ''/'' (u_Path u)" "url_shape u"
  shows "has_prefix ''/'' (EscapedPath u)" "unescape EncodePath (EscapedPath u) = Inr (u_Path u)"
    "c \<in> set (EscapedPath u) \<Longrightarrow> c \<notin> set ''?#'' \<and> \<not> is_ctl c"
proof -
  obtain r where r: "u_Path u = CHR ''/'' # r" using assms(1) by (auto simp: has_prefix_single)
  then have star: "u_Path u \<noteq> ''*''" by simp
  have slash: "\<not> shouldEscape (CHR ''/'') EncodePath" by code_simp
  show "has_prefix ''/'' (EscapedPath u)"
    using assms(2) r by (auto simp: EscapedPath_def url_shape_def escape_Cons [OF slash])
  have "unescape EncodePath (escape EncodePath (u_Path u)) = Inr (u_Path u)"
    by (rule unescape_escape) (simp add: list_all_iff escapable_plain)
  then show "unescape EncodePath (EscapedPath u) = Inr (u_Path u)" using star by (auto simp: EscapedPath_def)
  show "c \<in> set (EscapedPath u) \<Longrightarrow> c \<notin> set ''?#'' \<and> \<not> is_ctl c"
  proof -
    assume "c \<in> set (EscapedPath u)"
    then consider "c \<in> set (escape EncodePath (u_Path u))"
      | "validEncoded (u_RawPath u) EncodePath" "c \<in> set (u_RawPath u)"
      using star by (auto simp: EscapedPath_def split: if_splits)
    then show ?thesis
    proof cases
      case 2
      then show ?thesis using path_plain [of c] unfolding validEncoded_def by blast
    qed (rule escaped_path_chars)
  qed
qed

lemma url_Parse_String:
  assumes scheme: "list_all is_letter (u_Scheme u)" "u_Scheme u \<noteq> []" "ToLower (u_Scheme u) = u_Scheme u"
    and plain: "u_Opaque u = []" "u_User u = None" "u_Fragment u = []"
    and host: "parseHost (escape EncodeHost (u_Host u)) = Inr (u_Host u)"
    and path: "has_prefix ''/'' (u_Path u)" "url_shape u"
  shows "\<exists>raw. url_Parse (url_String u) = Inr (u\<lparr>u_RawPath := raw\<rparr>)"
proof -
  let ?H = "escape EncodeHost (u_Host u)" and ?P = "EscapedPath u"
  let ?q = "if u_RawQuery u \<noteq> [] then ''?'' @ u_RawQuery u else []"
  let ?S = "u_Scheme u @ CHR '':'' # ''//'' @ ?H @ ?P @ ?q"
  note P = EscapedPath_chars [OF path]
  obtain r where r: "?P = CHR ''/'' # r" using P(1) by (auto simp: has_prefix_single)
  have S: "url_String u = ?S" using P(1) by (simp add: url_String_def Let_def)
  have H: "c \<in> set ?H \<Longrightarrow> c \<notin> set ''/?#@'' \<and> \<not> is_ctl c" for c by (rule escaped_host_chars)
  have letters: "c \<in> set (u_Scheme u) \<Longrightarrow> c \<notin> set ''/?#@'' \<and> \<not> is_ctl c" for c
    using scheme(1) alnum_printable [of c] unfolding list_all_iff by blast
  have printable: "printable ?S"
    using letters H P(3) path(2) by (auto simp: printable_def url_shape_def is_ctl_def code_Char)
  then have cut1: "cut (CHR ''#'') ?S = (?S, [], False)" by (intro cut_append) (auto simp: printable_def)
  have "CHR ''?'' \<notin> set (''//'' @ ?H @ ?P)" using H P(3) by auto
  then have cut2: "\<exists>f. cut (CHR ''?'') (''//'' @ ?H @ ?P @ ?q) = (''//'' @ ?H @ ?P, u_RawQuery u, f)"
    using cut_append [of "CHR ''?''" "''//'' @ ?H @ ?P"] by auto
  have slash: "takeWhile (\<lambda>c. c \<noteq> CHR ''/'') (?H @ ?P) = ?H" "dropWhile (\<lambda>c. c \<noteq> CHR ''/'') (?H @ ?P) = ?P"
    unfolding r using H by (auto intro!: while_noteq)
  have "CHR ''@'' \<notin> set ?H" using H by auto
  then have authority: "parseAuthority ?H = Inr (None, u_Host u)"
    by (simp add: parseAuthority_def cut_last_None host)
  have scheme': "getScheme [] ?S = Inr (u_Scheme u, ''//'' @ ?H @ ?P @ ?q)"
    using getScheme_letters [of "u_Scheme u" "[]"] scheme by simp
  let ?u = "no_url\<lparr>u_Scheme := u_Scheme u, u_RawQuery := u_RawQuery u, u_User := None, u_Host := u_Host u\<rparr>"
  have "url_parse ?S = setPath ?P ?u"
  proof -
    have "\<not> (\<exists>c\<in>set ?S. is_ctl c)" "?S \<noteq> ''*''" using printable scheme by (auto simp: printable_def Cons_eq_append_conv)
    then show ?thesis
      unfolding url_parse_def using scheme' cut2 scheme slash authority by (auto simp: Let_def has_prefix_def)
  qed
  moreover have "setPath ?P ?u = Inr (u\<lparr>u_RawPath := (if ?P = escape EncodePath (u_Path u) then [] else ?P)\<rparr>)"
    unfolding setPath_def P(2) using plain by (cases u) (simp add: no_url_def)
  ultimately show ?thesis unfolding S url_Parse_def using cut1 by auto
qed

lemma canonical_valid_port: "valid_port p \<Longrightarrow> canonical_port p = Some p"
  by (auto simp: valid_port_def canonical_port_def parse_unsigned_def parse_digits_nat_digits)

lemma valid_port_digit: "valid_port p \<Longrightarrow> list_all is_digit p \<and> p \<noteq> []"
proof -
  have digit: "list_all is_digit (map digit_char [0..<10])" by code_simp
  have "is_digit (digit_char d)" if "d < 10" for d
    using digit that unfolding list_all_iff set_map set_upt by (meson atLeastLessThan_iff image_eqI zero_le)
  then have "list_all is_digit (nat_digits n)" for n
    using set_nat_digits [of _ n] unfolding list_all_iff by blast
  then show "valid_port p \<Longrightarrow> list_all is_digit p \<and> p \<noteq> []"
    unfolding valid_port_def by auto
qed

text \<open>The target of a handshake URL, without the credentials.\<close>

lemma websocket_reads_back:
  assumes "valid_network t" "web_socket (cu_transport t)" "cu_serverName t \<noteq> []" "plain_host (cu_serverName t)"
  shows "\<exists>raw. parseConnectionURL (webSocketURL t) =
    Inr (t\<lparr>cu_rawPath := raw, cu_username := [], cu_password := []\<rparr>)"
proof -
  let ?t = "cu_transport t"
  let ?u = "no_url\<lparr>u_Scheme := ?t, u_Host := cu_address t, u_Path := cu_path t, u_RawPath := cu_rawPath t,
    u_RawQuery := cu_rawQuery t\<rparr>"
  have transport: "?t = ''ws'' \<or> ?t = ''wss''" using assms(2) by (auto simp: web_socket_def transports)
  then have scheme: "list_all is_letter ?t" "?t \<noteq> []" "ToLower ?t = ?t"
    by (elim disjE; simp only:; code_simp)+
  have port: "valid_port (cu_port t)" and address: "cu_address t = JoinHostPort (cu_serverName t) (cu_port t)"
    using assms(1) by (simp_all add: valid_network_def)
  note digits = valid_port_digit [OF port]
  have host: "parseHost (escape EncodeHost (cu_address t)) = Inr (cu_address t)"
    unfolding address using parseHost_address assms(4) digits by simp
  have split: "splitHostPort (cu_address t) = (cu_serverName t, cu_port t)"
    unfolding address using splitHostPort_JoinHostPort assms(4) digits by (simp add: plain_host_def)
  have "cu_address t \<noteq> []" using address by (simp add: JoinHostPort_def)
  have path: "has_prefix ''/'' (cu_path t)" and shape: "url_shape ?u"
    using assms(1,2) by (auto simp: valid_network_def url_shape_def no_url_def)
  have display: "cu_display t = []"
    using assms(1,2) by (auto simp: valid_network_def web_socket_def transports split: if_splits)
  obtain raw where raw: "url_Parse (webSocketURL t) = Inr (?u\<lparr>u_RawPath := raw\<rparr>)"
    using url_Parse_String [of ?u] scheme host path shape by (auto simp: webSocketURL_def no_url_def)
  have "network_target ?t (ToUpper ?t) (?u\<lparr>u_RawPath := raw\<rparr>) =
      Inr (t\<lparr>cu_rawPath := raw, cu_username := [], cu_password := []\<rparr>)"
    using transport split digits canonical_valid_port [OF port] display path \<open>cu_address t \<noteq> []\<close> assms(2,3) address
    by (cases t) (auto simp: network_target_def target_port_def target_display_def no_url_def url_username_def
        url_password_def transports)
  moreover have "known_transport ?t" "?t \<noteq> transportSocket" "?t \<noteq> ''unix''"
    using transport by (auto simp: known_transport_def transports)
  ultimately have "parseConnectionURL (webSocketURL t) =
      Inr (t\<lparr>cu_rawPath := raw, cu_username := [], cu_password := []\<rparr>)"
    unfolding parseConnectionURL_def raw by (simp add: scheme(3) Let_def no_url_def)
  then show ?thesis by blast
qed

end
