(* ===== verification/Cmd_Ssh.thy ===== *)
theory Cmd_Ssh
  imports Cmd_Roundtrip
begin

text \<open>
  Connections through the system's ssh client, \<open>cmd/go-xpra/ssh.go\<close>: the command line and the
  environment it is started with, the command the remote shell is to run, and the stream of its
  standard input and output.
\<close>

section \<open>The command\<close>

definition quote :: char where "quote = CHR 0x27"

definition shellQuote :: "string \<Rightarrow> string" where
  "shellQuote value =
     quote # concat (map (\<lambda>c. if c = quote then [quote, CHR 0x5C, quote, quote] else [c]) value) @ [quote]"

definition remote_script :: "string \<Rightarrow> string" where
  "remote_script display =
     ''if command -v '' @ [CHR 0x22] @ ''xpra'' @ [CHR 0x22] @ '' > /dev/null 2>&1; then ''
     @ ''xpra _proxy'' @ (if display \<noteq> [] then '' '' @ shellQuote display else [])
     @ ''; else echo '' @ [CHR 0x22] @ ''no xpra command found'' @ [CHR 0x22] @ '' 1>&2; exit 1; fi''"

definition sshRemoteCommand :: "string \<Rightarrow> string" where
  "sshRemoteCommand display = ''sh -c '' @ shellQuote (remote_script display)"

definition setEnvironment :: "string list \<Rightarrow> string \<Rightarrow> string \<Rightarrow> string list" where
  "setEnvironment environment name value =
     filter (\<lambda>entry. \<not> has_prefix (name @ ''='') entry) environment @ [name @ ''='' @ value]"

record sshInvocation =
  inv_executable :: string
  inv_args :: "string list"
  inv_env :: "string list"
  inv_usesSSHPass :: bool

datatype ssh_start_error = NoSSH string | NoSSHPass string

definition ssh_args :: "connectionURL \<Rightarrow> string list" where
  "ssh_args target =
     [''-x'', ''-T''] @
     (if cu_port target \<noteq> [] \<and> cu_port target \<noteq> defaultSSHPort then [''-p'', cu_port target] else []) @
     (if cu_username target \<noteq> [] then [''-l'', cu_username target] else []) @
     [cu_serverName target, sshRemoteCommand (cu_display target)]"

definition makeSSHInvocation ::
    "connectionURL \<Rightarrow> (string \<Rightarrow> string + string) \<Rightarrow> string list \<Rightarrow> ssh_start_error + sshInvocation" where
  "makeSSHInvocation target lookPath environ =
     (case lookPath ''ssh'' of
        Inl e \<Rightarrow> Inl (NoSSH e)
      | Inr sshPath \<Rightarrow>
          let invocation = \<lparr>inv_executable = sshPath, inv_args = ssh_args target, inv_env = environ,
                            inv_usesSSHPass = False\<rparr> in
          if cu_password target = [] then Inr invocation
          else
            (case lookPath ''sshpass'' of
               Inl e \<Rightarrow> Inl (NoSSHPass e)
             | Inr sshpassPath \<Rightarrow>
                 Inr \<lparr>inv_executable = sshpassPath, inv_args = [''-e'', sshPath] @ ssh_args target,
                      inv_env = setEnvironment environ ''SSHPASS'' (cu_password target),
                      inv_usesSSHPass = True\<rparr>))"

section \<open>How a POSIX shell reads a command\<close>

text \<open>
  The tokens of a command: words, with their quotes removed, and operator characters.  Text whose
  meaning depends on more than quoting (expansions, patterns, comments) is not read.
\<close>

datatype token = Word string | Op char

definition finish :: "string option \<Rightarrow> token list" where
  "finish w = (case w of None \<Rightarrow> [] | Some s \<Rightarrow> [Word s])"

definition extend :: "string option \<Rightarrow> string \<Rightarrow> string option" where
  "extend w s = Some ((case w of None \<Rightarrow> [] | Some v \<Rightarrow> v) @ s)"

lemma cut_shorter: "(a, b, True) = cut c s \<Longrightarrow> length b < Suc (length s)"
  using cut_parts [of c s a b True] by simp

function sh_lex :: "string option \<Rightarrow> string \<Rightarrow> token list option" where
  "sh_lex w [] = Some (finish w)"
| "sh_lex w (c # s) =
     (if c = CHR '' '' \<or> c = CHR 0x09 then map_option (\<lambda>ts. finish w @ ts) (sh_lex None s)
      else if c = CHR 0x0A \<or> c \<in> set ''|&;<>()'' then map_option (\<lambda>ts. finish w @ Op c # ts) (sh_lex None s)
      else if c = quote then
        (case cut quote s of
           (inside, rest, True) \<Rightarrow> sh_lex (extend w inside) rest
         | (_, _, False) \<Rightarrow> None)
      else if c = CHR 0x22 then
        (case cut (CHR 0x22) s of
           (inside, rest, True) \<Rightarrow>
             if \<exists>d\<in>set inside. d \<in> {CHR ''$'', CHR 0x60, CHR 0x5C} then None
             else sh_lex (extend w inside) rest
         | (_, _, False) \<Rightarrow> None)
      else if c = CHR 0x5C then
        (case s of
           [] \<Rightarrow> None
         | d # rest \<Rightarrow> if d = CHR 0x0A then sh_lex w rest else sh_lex (extend w [d]) rest)
      else if c \<in> {CHR ''$'', CHR 0x60, CHR ''*'', CHR ''?'', CHR ''['', CHR ''#'', CHR ''~''} then None
      else sh_lex (extend w [c]) s)"
  by pat_completeness auto
termination
  by (relation "measure (\<lambda>(w, s). length s)") (auto dest: cut_shorter)

lemma extend_extend [simp]: "extend (extend w a) b = extend w (a @ b)"
  by (simp add: extend_def)

text \<open>Inside quotes, up to the closing one, then the rest.\<close>

lemma sh_lex_inside:
  "sh_lex w (quote # a @ concat (map (\<lambda>c. if c = quote then [quote, CHR 0x5C, quote, quote] else [c]) v) @ quote # r) =
   sh_lex (extend w (a @ v)) r" if "quote \<notin> set a"
  using that
proof (induction v arbitrary: w a)
  case Nil
  then show ?case by (simp add: cut_append quote_def)
next
  case (Cons c v)
  show ?case
  proof (cases "c = quote")
    case True
    let ?rest = "concat (map (\<lambda>c. if c = quote then [quote, CHR 0x5C, quote, quote] else [c]) v) @ quote # r"
    have "sh_lex w (quote # a @ quote # CHR 0x5C # quote # quote # ?rest) =
        sh_lex (extend (extend w a) [quote]) (quote # ?rest)"
      using Cons.prems by (simp add: cut_append quote_def del: sh_lex.simps(2) add: sh_lex.simps(2) [of w]
          sh_lex.simps(2) [of _ "CHR 0x5C"])
    also have "\<dots> = sh_lex (extend (extend w (a @ [quote])) v) r"
      using Cons.IH [of "[]" "extend w (a @ [quote])"] by simp
    finally show ?thesis using True by simp
  next
    case False
    then show ?thesis using Cons.IH [of "a @ [c]" w] Cons.prems by simp
  qed
qed

lemma sh_lex_shellQuote: "sh_lex w (shellQuote v @ r) = sh_lex (extend w v) r"
  using sh_lex_inside [of "[]" w v r] by (simp add: shellQuote_def)

definition script_tokens :: "string \<Rightarrow> token list" where
  "script_tokens display =
     [Word ''if'', Word ''command'', Word ''-v'', Word ''xpra'', Op (CHR ''>''), Word ''/dev/null'', Word ''2'',
      Op (CHR ''>''), Op (CHR ''&''), Word ''1'', Op (CHR '';''), Word ''then'', Word ''xpra'', Word ''_proxy''] @
     (if display = [] then [] else [Word display]) @
     [Op (CHR '';''), Word ''else'', Word ''echo'', Word ''no xpra command found'', Word ''1'', Op (CHR ''>''),
      Op (CHR ''&''), Word ''2'', Op (CHR '';''), Word ''exit'', Word ''1'', Op (CHR '';''), Word ''fi'']"

lemma sh_lex_words: "sh_lex None (sshRemoteCommand display) = Some [Word ''sh'', Word ''-c'', Word (remote_script display)]"
proof -
  have "sh_lex None (''sh -c '' @ r) = map_option (\<lambda>ts. Word ''sh'' # Word ''-c'' # ts) (sh_lex None r)" for r
    by (simp add: quote_def finish_def extend_def option.map_comp comp_def)
  then show ?thesis
    using sh_lex_shellQuote [of None "remote_script display" "[]"]
    by (simp add: sshRemoteCommand_def finish_def extend_def)
qed

lemma sh_lex_script: "sh_lex None (remote_script display) = Some (script_tokens display)"
proof -
  let ?rest = "''; else echo '' @ [CHR 0x22] @ ''no xpra command found'' @ [CHR 0x22] @ '' 1>&2; exit 1; fi''"
  have rest: "sh_lex (Some w) ?rest = Some (Word w # drop (if display = [] then 14 else 15) (script_tokens display))" for w
    by (simp add: quote_def finish_def extend_def script_tokens_def cut_def)
  have front: "sh_lex None (''if command -v '' @ [CHR 0x22] @ ''xpra'' @ [CHR 0x22] @ '' > /dev/null 2>&1; then ''
      @ ''xpra _proxy'' @ r) =
    map_option (\<lambda>ts. take 13 (script_tokens display) @ ts) (sh_lex (Some ''_proxy'') r)" for r
    by (simp add: quote_def finish_def extend_def script_tokens_def cut_def option.map_comp comp_def)
  show ?thesis
  proof (cases "display = []")
    case True
    then show ?thesis using front [of ?rest] rest [of "''_proxy''"]
      by (simp add: remote_script_def script_tokens_def del: sh_lex.simps)
  next
    case False
    have "sh_lex (Some ''_proxy'') ('' '' @ shellQuote display @ ?rest) =
        map_option (\<lambda>ts. Word ''_proxy'' # ts) (sh_lex None (shellQuote display @ ?rest))"
      by (cases "sh_lex None (shellQuote display @ ?rest)") (simp_all add: finish_def)
    also have "sh_lex None (shellQuote display @ ?rest) = sh_lex (Some display) ?rest"
      unfolding sh_lex_shellQuote by (simp add: extend_def del: sh_lex.simps)
    finally show ?thesis using False front [of "'' '' @ shellQuote display @ ?rest"] rest [of display]
      by (simp add: remote_script_def script_tokens_def del: sh_lex.simps)
  qed
qed

section \<open>The stream\<close>

text \<open>What waiting for the process yields: its exit status if that is not zero, or another error.\<close>

datatype wait_error = ExitError int | OtherWait string

datatype stream_error =
    EOF
  | PipeError string
  | ProcessFailed string
  | SSHPassFailed string int
  | Exited int

definition sshpass_description :: "int \<Rightarrow> string" where
  "sshpass_description code =
     (case map_of [(1, ''invalid command line''), (2, ''conflicting arguments''), (3, ''runtime error''),
         (4, ''unrecognized SSH response''), (5, ''invalid password''), (6, ''unknown host key'')] code of
        Some d \<Rightarrow> d | None \<Rightarrow> [])"

definition sshProcessError :: "wait_error \<Rightarrow> bool \<Rightarrow> stream_error" where
  "sshProcessError err usedSSHPass =
     (case err of
        OtherWait e \<Rightarrow> ProcessFailed e
      | ExitError code \<Rightarrow>
          if usedSSHPass \<and> sshpass_description code \<noteq> [] then SSHPassFailed (sshpass_description code) code
          else Exited code)"

datatype pipe_op = CloseStdin | CloseStdout | KillProcess | WaitProcess

text \<open>
  The stream: \<open>waitOnce\<close> and \<open>closeOnce\<close> with what they have recorded, and the operations on the
  process so far.  The answers of the operating system are given: \<open>exits\<close> is the outcome of the
  process, \<open>fails\<close> the error of closing a pipe or killing the process, if any, other than that
  it was closed or done already.
\<close>

record ssh_stream =
  ss_usesSSHPass :: bool
  ss_waited :: bool
  ss_waitErr :: "wait_error option"
  ss_closed :: bool
  ss_closeErr :: "string list"
  ss_ops :: "pipe_op list"

definition new_stream :: "bool \<Rightarrow> ssh_stream" where
  "new_stream usesSSHPass = \<lparr>ss_usesSSHPass = usesSSHPass, ss_waited = False, ss_waitErr = None,
     ss_closed = False, ss_closeErr = [], ss_ops = []\<rparr>"

text \<open>Starting the process: what was opened is closed again when a later step fails.\<close>

datatype start_step = OpenStdin | OpenStdout | StartProcess

definition startSSHInvocation ::
    "(start_step \<Rightarrow> string option) \<Rightarrow> sshInvocation \<Rightarrow> (string + ssh_stream) \<times> pipe_op list" where
  "startSSHInvocation fails invocation =
     (case fails OpenStdin of
        Some e \<Rightarrow> (Inl (''opening ssh stdin: '' @ e), [])
      | None \<Rightarrow>
          (case fails OpenStdout of
             Some e \<Rightarrow> (Inl (''opening ssh stdout: '' @ e), [CloseStdin])
           | None \<Rightarrow>
               (case fails StartProcess of
                  Some e \<Rightarrow> (Inl (''starting ssh: '' @ e), [CloseStdin, CloseStdout])
                | None \<Rightarrow> (Inr (new_stream (inv_usesSSHPass invocation)), []))))"

definition ssh_wait :: "wait_error option \<Rightarrow> ssh_stream \<Rightarrow> wait_error option \<times> ssh_stream" where
  "ssh_wait exits s =
     (if ss_waited s then (ss_waitErr s, s)
      else (exits, s\<lparr>ss_waited := True, ss_waitErr := exits, ss_ops := ss_ops s @ [WaitProcess]\<rparr>))"

text \<open>\<open>Read\<close>, given what the pipe answers: bytes, and an error or the end.\<close>

definition ssh_Read ::
    "wait_error option \<Rightarrow> bytes \<times> stream_error option \<Rightarrow> ssh_stream \<Rightarrow>
     (bytes \<times> stream_error option) \<times> ssh_stream" where
  "ssh_Read exits answer s =
     (if fst answer \<noteq> [] \<or> snd answer \<noteq> Some EOF then (answer, s)
      else
        (case ssh_wait exits s of
           (Some e, s1) \<Rightarrow> (([], Some (sshProcessError e (ss_usesSSHPass s1))), s1)
         | (None, s1) \<Rightarrow> (([], Some EOF), s1)))"

text \<open>The process is killed unless it has been waited for before.\<close>

definition ssh_Close ::
    "wait_error option \<Rightarrow> (pipe_op \<Rightarrow> string option) \<Rightarrow> ssh_stream \<Rightarrow> string list \<times> ssh_stream" where
  "ssh_Close exits fails s =
     (if ss_closed s then (ss_closeErr s, s)
      else
        let failure = (\<lambda>op. case fails op of None \<Rightarrow> [] | Some e \<Rightarrow> [e]);
            kill = \<not> ss_waited s;
            s1 = s\<lparr>ss_closed := True,
                   ss_ops := ss_ops s @ [CloseStdin, CloseStdout] @ (if kill then [KillProcess] else [])\<rparr>;
            s2 = snd (ssh_wait exits s1);
            errors = (if kill then map (\<lambda>e. ''stopping ssh: '' @ e) (failure KillProcess) else [])
                     @ failure CloseStdin @ failure CloseStdout
        in (errors, s2\<lparr>ss_closeErr := errors\<rparr>))"

datatype stream_call = StreamRead "bytes \<times> stream_error option" | StreamClose

fun stream_run ::
    "wait_error option \<Rightarrow> (pipe_op \<Rightarrow> string option) \<Rightarrow> stream_call list \<Rightarrow> ssh_stream \<Rightarrow>
     (bytes \<times> stream_error option + string list) list \<times> ssh_stream" where
  "stream_run exits fails [] s = ([], s)"
| "stream_run exits fails (StreamRead answer # calls) s =
     (case ssh_Read exits answer s of
        (r, s1) \<Rightarrow> (case stream_run exits fails calls s1 of (rs, s2) \<Rightarrow> (Inl r # rs, s2)))"
| "stream_run exits fails (StreamClose # calls) s =
     (case ssh_Close exits fails s of
        (r, s1) \<Rightarrow> (case stream_run exits fails calls s1 of (rs, s2) \<Rightarrow> (Inr r # rs, s2)))"

definition stream_inv :: "wait_error option \<Rightarrow> ssh_stream \<Rightarrow> bool" where
  "stream_inv exits s \<longleftrightarrow>
     distinct (ss_ops s) \<and> (ss_waited s \<longleftrightarrow> WaitProcess \<in> set (ss_ops s)) \<and>
     (ss_waited s \<longrightarrow> ss_waitErr s = exits) \<and>
     (if ss_closed s then {CloseStdin, CloseStdout, WaitProcess} \<subseteq> set (ss_ops s)
      else set (ss_ops s) \<subseteq> {WaitProcess})"

lemma stream_inv_new: "stream_inv exits (new_stream b)"
  by (simp add: stream_inv_def new_stream_def)

lemma stream_inv_Read: "stream_inv exits s \<Longrightarrow> stream_inv exits (snd (ssh_Read exits answer s))"
  by (auto simp: ssh_Read_def ssh_wait_def stream_inv_def split: option.split)

lemma stream_inv_Close: "stream_inv exits s \<Longrightarrow> stream_inv exits (snd (ssh_Close exits fails s))"
  by (auto simp: ssh_Close_def ssh_wait_def stream_inv_def Let_def)

lemma stream_inv_run: "stream_inv exits s \<Longrightarrow> stream_inv exits (snd (stream_run exits fails calls s))"
proof (induction calls arbitrary: s)
  case (Cons call calls)
  then show ?case
    by (cases call) (simp_all add: case_prod_beta stream_inv_Read stream_inv_Close)
qed simp

end
