(* ===== verification/Cmd_Password.thy ===== *)
theory Cmd_Password
  imports Cmd_Roundtrip
begin

text \<open>
  Asking for a password on Linux, \<open>cmd/go-xpra/password_linux.go\<close>: first through pinentry, whose
  protocol is lines of commands and responses with percent-escaped data, then on the terminal
  with its echo turned off.
\<close>

section \<open>Pinentry responses\<close>

datatype pinentry_error =
    NotFound string                  \<comment> \<open>no pinentry, or it could not be started\<close>
  | EndOfInput
  | BadEscape url_error
  | Reported string                  \<comment> \<open>the text of an \<open>ERR\<close> line\<close>
  | Unexpected string
  | Greeting pinentry_error
  | Setting string pinentry_error    \<comment> \<open>the command the error answers\<close>
  | WriteFailed

definition chomp :: "string \<Rightarrow> string" where
  "chomp line = trim_suffix [CHR 0x0D] (trim_suffix [CHR 0x0A] line)"

text \<open>
  \<open>readPinentryResponse\<close> reads lines until one ends the response; it returns what the response
  carries and the lines that are left.  A list of lines that ends is the end of the input.
\<close>

fun read_response :: "string \<Rightarrow> string list \<Rightarrow> (pinentry_error + string) \<times> string list" where
  "read_response acc [] = (Inl EndOfInput, [])"
| "read_response acc (raw # lines) =
     (let line = chomp raw in
      if line = ''OK'' \<or> has_prefix ''OK '' line then (Inr acc, lines)
      else if line = ''D'' then read_response acc lines
      else if has_prefix ''D '' line then
        (case PathUnescape (trim_prefix ''D '' line) of
           Inl e \<Rightarrow> (Inl (BadEscape e), lines)
         | Inr decoded \<Rightarrow> read_response (acc @ decoded) lines)
      else if line = ''ERR'' \<or> has_prefix ''ERR '' line
      then (Inl (Reported (TrimSpace (trim_prefix ''ERR'' line))), lines)
      else if line = [] \<or> has_prefix ''#'' line \<or> has_prefix ''S '' line then read_response acc lines
      else (Inl (Unexpected line), lines))"

definition readPinentryResponse :: "string list \<Rightarrow> (pinentry_error + string) \<times> string list" where
  "readPinentryResponse lines = read_response [] lines"

definition escape_pin :: "char \<Rightarrow> string" where
  "escape_pin c =
     (if c = CHR ''%'' then ''%25'' else if c = CHR 0x0D then ''%0D'' else if c = CHR 0x0A then ''%0A'' else [c])"

definition escapePinentry :: "string \<Rightarrow> string" where
  "escapePinentry value = concat (map escape_pin value)"

section \<open>The dialogue\<close>

text \<open>
  The state: the commands written so far, the lines still to come, and how many more writes
  succeed.
\<close>

record pinentry =
  pe_written :: "string list"
  pe_lines :: "string list"
  pe_writes :: nat

definition write_command :: "string \<Rightarrow> pinentry \<Rightarrow> bool \<times> pinentry" where
  "write_command command p =
     (if pe_writes p = 0 then (False, p)
      else (True, p\<lparr>pe_written := pe_written p @ [command @ [CHR 0x0A]], pe_writes := pe_writes p - 1\<rparr>))"

definition response :: "pinentry \<Rightarrow> (pinentry_error + string) \<times> pinentry" where
  "response p = (case readPinentryResponse (pe_lines p) of (r, lines) \<Rightarrow> (r, p\<lparr>pe_lines := lines\<rparr>))"

fun send_settings :: "(string \<times> string) list \<Rightarrow> pinentry \<Rightarrow> pinentry_error option \<times> pinentry" where
  "send_settings [] p = (None, p)"
| "send_settings ((command, value) # settings) p =
     (case write_command (command @ '' '' @ escapePinentry value) p of
        (False, p1) \<Rightarrow> (Some WriteFailed, p1)
      | (True, p1) \<Rightarrow>
          (case response p1 of
             (Inl e, p2) \<Rightarrow> (Some (Setting (ToLower command) e), p2)
           | (Inr _, p2) \<Rightarrow> send_settings settings p2))"

definition pin_settings :: "string \<Rightarrow> string \<Rightarrow> string \<Rightarrow> (string \<times> string) list" where
  "pin_settings username address description0 =
     (let trimmed = TrimSpace description0;
          description = (if trimmed = [] then ''Password'' else trimmed);
          context = ''Xpra server '' @ address @
            (if username \<noteq> [] then '' requests authentication for '' @ username
             else '' requests authentication'')
      in [(''SETTITLE'', ''Xpra authentication''), (''SETDESC'', context),
          (''SETPROMPT'', description @ '':'')])"

definition pin_session ::
    "string \<Rightarrow> string \<Rightarrow> string \<Rightarrow> pinentry \<Rightarrow> (pinentry_error + string) \<times> pinentry" where
  "pin_session username address description p0 =
     (case response p0 of
        (Inl e, p1) \<Rightarrow> (Inl (Greeting e), p1)
      | (Inr _, p1) \<Rightarrow>
          let p2 = (case write_command ''OPTION ttyname=/dev/tty'' p1 of
                      (False, p) \<Rightarrow> p
                    | (True, p) \<Rightarrow> snd (response p)) in
          (case send_settings (pin_settings username address description) p2 of
             (Some e, p3) \<Rightarrow> (Inl e, p3)
           | (None, p3) \<Rightarrow>
               (case write_command ''GETPIN'' p3 of
                  (False, p4) \<Rightarrow> (Inl WriteFailed, p4)
                | (True, p4) \<Rightarrow>
                    (case response p4 of
                       (Inl e, p5) \<Rightarrow> (Inl e, p5)
                     | (Inr password, p5) \<Rightarrow> (Inr password, snd (write_command ''BYE'' p5))))))"

text \<open>\<open>promptPasswordPinentry\<close>: pinentry may not be there, or not start.\<close>

definition promptPasswordPinentry ::
    "string + pinentry \<Rightarrow> string \<Rightarrow> string \<Rightarrow> string \<Rightarrow> pinentry_error + string" where
  "promptPasswordPinentry started username address description =
     (case started of
        Inl e \<Rightarrow> Inl (NotFound e)
      | Inr p \<Rightarrow> fst (pin_session username address description p))"

section \<open>The terminal\<close>

text \<open>
  What happens on the terminal, in order; \<open>SetMode True\<close> turns echo off, \<open>SetMode False\<close>
  restores the original settings.
\<close>

datatype tty_op = SetMode bool | WriteTty string

datatype tty_error = NoTty string | NoMode string | NoEchoOff string | PromptUnwritten string | LineUnread string
  | Interrupted string

text \<open>
  What the machine does: whether the settings can be read and set, whether the prompt can be
  written, and what comes first, a line with the error of reading it or a signal.
\<close>

datatype tty_input = Line string "string option" bool    \<comment> \<open>the error, and whether it is the end of input\<close>
  | Signal string

record tty =
  tty_get :: "string option"
  tty_hide :: "string option"
  tty_prompt :: "string option"
  tty_input :: tty_input

definition readTerminalPassword :: "tty \<Rightarrow> string \<Rightarrow> (tty_error + string) \<times> tty_op list" where
  "readTerminalPassword t prompt =
     (case tty_get t of
        Some e \<Rightarrow> (Inl (NoMode e), [])
      | None \<Rightarrow>
          (case tty_hide t of
             Some e \<Rightarrow> (Inl (NoEchoOff e), [])
           | None \<Rightarrow>
               (case tty_prompt t of
                  Some e \<Rightarrow> (Inl (PromptUnwritten e), [SetMode True, SetMode False])
                | None \<Rightarrow>
                    let ops = [SetMode True, WriteTty prompt, SetMode False, WriteTty [CHR 0x0A]] in
                    (case tty_input t of
                       Line line err eof \<Rightarrow>
                         let password = chomp line in
                         (case err of
                            Some e \<Rightarrow>
                              if eof \<and> password \<noteq> [] then (Inr password, ops) else (Inl (LineUnread e), ops)
                          | None \<Rightarrow> (Inr password, ops))
                     | Signal s \<Rightarrow> (Inl (Interrupted s), ops)))))"

definition promptPasswordTerminal ::
    "string + tty \<Rightarrow> string \<Rightarrow> string \<Rightarrow> (tty_error + string) \<times> tty_op list" where
  "promptPasswordTerminal opened username address =
     (case opened of
        Inl e \<Rightarrow> (Inl (NoTty e), [])
      | Inr t \<Rightarrow>
          readTerminalPassword t (''Password'' @ (if username \<noteq> [] then '' for '' @ username else [])
            @ (if address \<noteq> [] then '' at '' @ address else []) @ '': ''))"

definition promptPassword ::
    "string + pinentry \<Rightarrow> string + tty \<Rightarrow> string \<Rightarrow> string \<Rightarrow> string \<Rightarrow>
     (pinentry_error \<times> tty_error + string) \<times> tty_op list" where
  "promptPassword started opened username address description =
     (case promptPasswordPinentry started username address description of
        Inr password \<Rightarrow> (Inr password, [])
      | Inl pinentryErr \<Rightarrow>
          (case promptPasswordTerminal opened username address of
             (Inr password, ops) \<Rightarrow> (Inr password, ops)
           | (Inl terminalErr, ops) \<Rightarrow> (Inl (pinentryErr, terminalErr), ops)))"

section \<open>Passwords and settings arrive whole\<close>

text \<open>
  A line of data as pinentry writes it: a set \<open>S\<close> of characters is escaped, at least the percent
  sign and the line ends.  Other lines may come between; comments and status lines end no response.
\<close>

definition line_ends :: "char set" where "line_ends = {CHR 0x0A, CHR 0x0D}"

definition pin_escape :: "char set \<Rightarrow> char \<Rightarrow> string" where
  "pin_escape S c =
     (if c \<in> S then [CHR ''%'', hex_digit (char_code c div 16), hex_digit (char_code c mod 16)] else [c])"

definition data_line :: "char set \<Rightarrow> string \<Rightarrow> string" where
  "data_line S str = ''D '' @ concat (map (pin_escape S) str) @ [CHR 0x0A]"

definition idle_line :: "string \<Rightarrow> bool" where
  "idle_line line \<longleftrightarrow> chomp line = [] \<or> has_prefix ''#'' (chomp line) \<or> has_prefix ''S '' (chomp line)"

lemma PathUnescape_pin_escape:
  "CHR ''%'' \<in> S \<Longrightarrow> PathUnescape (concat (map (pin_escape S) str)) = Inr str"
proof (induction str)
  case (Cons c str)
  have "char_code c div 16 < 16" "char_code c mod 16 < 16" using code_less [of c] by simp_all
  then show ?case using Cons by (auto simp: PathUnescape_def pin_escape_def forbidden_escape_def)
qed (simp add: PathUnescape_def)

lemma has_suffix_single: "has_suffix [c] s \<longleftrightarrow> (\<exists>r. s = r @ [c])"
  by (cases s rule: rev_cases) (auto simp: has_suffix_def)

lemma trim_suffix_single: "trim_suffix [c] (r @ [c]) = r"
  by (simp add: trim_suffix_def has_suffix_single)

lemma trim_suffix_other: "c \<notin> set s \<Longrightarrow> trim_suffix [c] s = s"
  by (auto simp: trim_suffix_def has_suffix_single)

lemma chomp_line: "CHR 0x0D \<notin> set s \<Longrightarrow> chomp (s @ [CHR 0x0A]) = s"
  by (simp add: chomp_def trim_suffix_single trim_suffix_other)

lemma hex_digit_alnum: "d < 16 \<Longrightarrow> is_letter (hex_digit d) \<or> is_digit (hex_digit d)"
proof -
  have "list_all (\<lambda>d. is_letter d \<or> is_digit d) (map hex_digit [0..<16])" by code_simp
  then show "d < 16 \<Longrightarrow> is_letter (hex_digit d) \<or> is_digit (hex_digit d)"
    unfolding list_all_iff set_map set_upt by (meson atLeastLessThan_iff image_eqI zero_le)
qed

lemma pin_escape_clean: "line_ends \<subseteq> S \<Longrightarrow> d \<in> set (pin_escape S c) \<Longrightarrow> d \<notin> line_ends"
proof -
  assume *: "line_ends \<subseteq> S" "d \<in> set (pin_escape S c)"
  have "char_code c div 16 < 16" "char_code c mod 16 < 16" using code_less [of c] by simp_all
  then have "is_ctl x \<Longrightarrow> x \<noteq> hex_digit (char_code c div 16) \<and> x \<noteq> hex_digit (char_code c mod 16) \<and> x \<noteq> CHR ''%''" for x
    using hex_digit_alnum alnum_printable by blast
  moreover have "x \<in> line_ends \<Longrightarrow> is_ctl x" for x by (auto simp: line_ends_def is_ctl_def code_Char)
  ultimately show "d \<notin> line_ends" using * by (auto simp: pin_escape_def split: if_splits)
qed

lemma response_data_line:
  assumes "insert (CHR ''%'') line_ends \<subseteq> S"
  shows "read_response acc (data_line S str # lines) = read_response (acc @ str) lines"
proof -
  let ?e = "concat (map (pin_escape S) str)"
  have "CHR 0x0D \<notin> set (''D '' @ ?e)" using assms pin_escape_clean [of S] by (auto simp: line_ends_def)
  then have "chomp (data_line S str) = ''D '' @ ?e"
    using chomp_line [of "''D '' @ ?e"] by (simp add: data_line_def)
  moreover have "PathUnescape ?e = Inr str" using assms by (intro PathUnescape_pin_escape) simp
  ultimately show ?thesis by (simp add: has_prefix_def trim_prefix_def)
qed

lemma response_idle_line: "idle_line line \<Longrightarrow> read_response acc (line # lines) = read_response acc lines"
proof -
  have "chomp line = [] \<or> (\<exists>r. chomp line = CHR ''#'' # r) \<or> (\<exists>r. chomp line = ''S '' @ r)" if "idle_line line"
    using that unfolding idle_line_def has_prefix_def by (metis append_Cons append_Nil append_take_drop_id)
  then show "idle_line line \<Longrightarrow> ?thesis" by (auto simp: has_prefix_def)
qed

text \<open>Lines of a response: data (\<open>Inr\<close>) and others (\<open>Inl\<close>).\<close>

definition pin_line :: "char set \<Rightarrow> string + string \<Rightarrow> string" where
  "pin_line S part = (case part of Inl line \<Rightarrow> line | Inr str \<Rightarrow> data_line S str)"

definition pin_text :: "string + string \<Rightarrow> string" where
  "pin_text part = (case part of Inl line \<Rightarrow> [] | Inr str \<Rightarrow> str)"

lemma read_response_parts:
  assumes "insert (CHR ''%'') line_ends \<subseteq> S"
  shows "list_all (\<lambda>part. case part of Inl line \<Rightarrow> idle_line line | Inr _ \<Rightarrow> True) parts \<Longrightarrow>
    read_response acc (map (pin_line S) parts @ ''OK'' # rest) = (Inr (acc @ concat (map pin_text parts)), rest)"
proof (induction parts arbitrary: acc)
  case Nil
  have "chomp ''OK'' = ''OK''" by code_simp
  then show ?case by simp
next
  case (Cons part parts)
  show ?case
  proof (cases part)
    case (Inl line)
    then show ?thesis using Cons response_idle_line by (simp add: pin_line_def pin_text_def del: read_response.simps)
  next
    case (Inr str)
    then show ?thesis
      using Cons response_data_line [OF assms] by (simp add: pin_line_def pin_text_def del: read_response.simps)
  qed
qed

text \<open>No text makes a command more than a line.\<close>

definition one_line :: "string \<Rightarrow> bool" where
  "one_line s \<longleftrightarrow> (\<exists>c. s = c @ [CHR 0x0A] \<and> set c \<inter> line_ends = {})"

lemma escapePinentry_eq: "escapePinentry = concat \<circ> map (pin_escape (insert (CHR ''%'') line_ends))"
proof -
  have "escape_pin c = pin_escape (insert (CHR ''%'') line_ends) c" for c
    by (simp add: escape_pin_def pin_escape_def line_ends_def code_Char hex_digit_def)
      (simp add: char_eq_code code_Char char_code_def)
  then have "escape_pin = pin_escape (insert (CHR ''%'') line_ends)" by (rule ext)
  then show ?thesis by (intro ext) (simp add: escapePinentry_def)
qed

lemma escapePinentry_clean: "set (escapePinentry v) \<inter> line_ends = {}"
  using pin_escape_clean [of "insert (CHR ''%'') line_ends"] by (auto simp: escapePinentry_eq)

lemma escapePinentry_back: "PathUnescape (escapePinentry v) = Inr v"
  using PathUnescape_pin_escape [of "insert (CHR ''%'') line_ends" v] by (simp add: escapePinentry_eq)

lemma write_command_lines:
  "set command \<inter> line_ends = {} \<Longrightarrow> list_all one_line (pe_written p) \<Longrightarrow>
   list_all one_line (pe_written (snd (write_command command p)))"
  by (auto simp: write_command_def one_line_def)

lemma response_written [simp]: "pe_written (snd (response p)) = pe_written p"
  by (simp add: response_def split: prod.split)

definition lines_ok :: "pinentry \<Rightarrow> bool" where
  "lines_ok p \<longleftrightarrow> list_all one_line (pe_written p)"

lemma lines_ok_write: "set command \<inter> line_ends = {} \<Longrightarrow> lines_ok p \<Longrightarrow> lines_ok (snd (write_command command p))"
  by (auto simp: write_command_def one_line_def lines_ok_def)

lemma lines_ok_response: "lines_ok p \<Longrightarrow> lines_ok (snd (response p))"
  by (simp add: lines_ok_def)

lemma lines_ok_settings:
  "lines_ok p \<Longrightarrow> list_all (\<lambda>setting. set (fst setting) \<inter> line_ends = {}) settings \<Longrightarrow>
   lines_ok (snd (send_settings settings p))"
proof (induction settings arbitrary: p)
  case (Cons setting settings)
  obtain command val where setting: "setting = (command, val)" by (cases setting)
  let ?c = "command @ '' '' @ escapePinentry val"
  have "set ?c \<inter> line_ends = {}"
    using Cons.prems(2) escapePinentry_clean [of val] by (auto simp: setting line_ends_def)
  then have written: "lines_ok (snd (write_command ?c p))" using Cons.prems(1) by (rule lines_ok_write)
  obtain ok p1 where p1: "write_command ?c p = (ok, p1)" by (cases "write_command ?c p")
  obtain r p2 where p2: "response p1 = (r, p2)" by (cases "response p1")
  have "lines_ok p1" using written p1 by simp
  moreover from this have "lines_ok p2" using lines_ok_response [of p1] p2 by simp
  ultimately show ?case
    using Cons.IH [of p2] Cons.prems(2) p1 p2 by (simp add: setting split: bool.split sum.split)
qed simp

lemma pin_settings_clean:
  "list_all (\<lambda>setting. set (fst setting) \<inter> line_ends = {}) (pin_settings username address description)"
  by (simp add: pin_settings_def Let_def line_ends_def)

lemma pin_session_lines:
  assumes "lines_ok p"
  shows "lines_ok (snd (pin_session username address description p))"
proof -
  have written: "lines_ok q2"
    if "write_command c q1 = (ok, q2)" "lines_ok q1" "set c \<inter> line_ends = {}" for c q1 q2 ok
    using lines_ok_write [OF that(3,2)] that(1) by simp
  have answered: "lines_ok q2" if "response q1 = (r, q2)" "lines_ok q1" for q1 q2 r
    using lines_ok_response [OF that(2)] that(1) by simp
  have set_up: "lines_ok q2"
    if "send_settings (pin_settings username address description) q1 = (r, q2)" "lines_ok q1" for q1 q2 r
    using lines_ok_settings [OF that(2) pin_settings_clean] that(1) by (metis snd_conv)
  have clean: "set ''OPTION ttyname=/dev/tty'' \<inter> line_ends = {}" "set ''GETPIN'' \<inter> line_ends = {}"
    "set ''BYE'' \<inter> line_ends = {}" by (simp_all add: line_ends_def)
  obtain r1 p1 where p1: "response p = (r1, p1)" by (cases "response p")
  define p2 where "p2 = (case write_command ''OPTION ttyname=/dev/tty'' p1 of
      (False, q) \<Rightarrow> q | (True, q) \<Rightarrow> snd (response q))"
  obtain ok q where q: "write_command ''OPTION ttyname=/dev/tty'' p1 = (ok, q)"
    by (cases "write_command ''OPTION ttyname=/dev/tty'' p1")
  have "lines_ok p1" by (rule answered [OF p1 assms])
  moreover from written [OF q this clean(1)] have "lines_ok p2"
    using lines_ok_response [of q] by (cases ok) (simp_all add: p2_def q)
  moreover obtain e p3 where p3: "send_settings (pin_settings username address description) p2 = (e, p3)"
    by (cases "send_settings (pin_settings username address description) p2")
  moreover from set_up [OF p3] \<open>lines_ok p2\<close> have "lines_ok p3" by simp
  moreover obtain b p4 where p4: "write_command ''GETPIN'' p3 = (b, p4)" by (cases "write_command ''GETPIN'' p3")
  moreover from written [OF p4 _ clean(2)] \<open>lines_ok p3\<close> have "lines_ok p4" by simp
  moreover obtain r p5 where p5: "response p4 = (r, p5)" by (cases "response p4")
  moreover from answered [OF p5] \<open>lines_ok p4\<close> have "lines_ok p5" by simp
  moreover from lines_ok_write [OF clean(3) this] have "lines_ok (snd (write_command ''BYE'' p5))" .
  ultimately show ?thesis
    unfolding pin_session_def p1 Let_def p2_def [symmetric] prod.case
    by (simp split: sum.split option.split bool.split)
qed

end
