(* ===== verification/Cmd_Dialog.thy ===== *)
theory Cmd_Dialog
  imports Cmd_Targets Client_State Ui_Pixels
begin

text \<open>
  The connection dialog, \<open>cmd/go-xpra/connect_dialog.go\<close>: the text inputs, the form and what
  clicks and keys do to it, the target it describes, and the loop that shows it.  A slice or k
  expression out of range is the outcome \<open>None\<close>.  The pixels of the form, drawn with the fonts of
  a package that is not part of the repository, are a parameter.
\<close>

section \<open>Constants\<close>

text \<open>The constants share their block with two others, so \<open>iota\<close> is 2 at the first of them.\<close>

definition dialogWidth :: gint where "dialogWidth = 520"
definition dialogHeight :: gint where "dialogHeight = 440"
definition focusProtocol :: int where "focusProtocol = 2"
definition focusUsername :: int where "focusUsername = 3"
definition focusPassword :: int where "focusPassword = 4"
definition focusHost :: int where "focusHost = 5"
definition focusPort :: int where "focusPort = 6"
definition focusDisplay :: int where "focusDisplay = 7"
definition focusCancel :: int where "focusCancel = 8"
definition focusConnect :: int where "focusConnect = 9"
definition focusCount :: int where "focusCount = 10"

lemmas focuses = focusProtocol_def focusUsername_def focusPassword_def focusHost_def focusPort_def
  focusDisplay_def focusCancel_def focusConnect_def focusCount_def

record dialogProtocol =
  dp_name :: string
  dp_defaultPort :: string
  dp_transport :: connectionTransport

definition dialogProtocols :: "bool \<Rightarrow> dialogProtocol list" where
  "dialogProtocols on_windows =
     [\<lparr>dp_name = ''tcp'', dp_defaultPort = defaultTCPPort, dp_transport = transportTCP\<rparr>,
      \<lparr>dp_name = ''ssl'', dp_defaultPort = defaultTCPPort, dp_transport = transportSSL\<rparr>,
      \<lparr>dp_name = ''ws'', dp_defaultPort = defaultWSPort, dp_transport = transportWS\<rparr>,
      \<lparr>dp_name = ''wss'', dp_defaultPort = defaultWSSPort, dp_transport = transportWSS\<rparr>,
      \<lparr>dp_name = ''ssh'', dp_defaultPort = defaultSSHPort, dp_transport = transportSSH\<rparr>] @
     (if on_windows then []
      else [\<lparr>dp_name = ''socket'', dp_defaultPort = [], dp_transport = transportSocket\<rparr>])"

section \<open>Text inputs\<close>

record textInput =
  ti_text :: "nat list"
  ti_cursor :: nat

definition input_set :: "string \<Rightarrow> textInput" where
  "input_set s = \<lparr>ti_text = runes (string_bytes s), ti_cursor = length (runes (string_bytes s))\<rparr>"

definition input_insert :: "nat list \<Rightarrow> textInput \<Rightarrow> textInput option" where
  "input_insert rs i =
     (if rs = [] then Some i
      else if length (ti_text i) < ti_cursor i then None
      else Some \<lparr>ti_text = take (ti_cursor i) (ti_text i) @ rs @ drop (ti_cursor i) (ti_text i),
                 ti_cursor = ti_cursor i + length rs\<rparr>)"

definition input_backspace :: "textInput \<Rightarrow> textInput option" where
  "input_backspace i =
     (if ti_cursor i = 0 then Some i
      else if length (ti_text i) < ti_cursor i then None
      else Some \<lparr>ti_text = take (ti_cursor i - 1) (ti_text i) @ drop (ti_cursor i) (ti_text i),
                 ti_cursor = ti_cursor i - 1\<rparr>)"

definition input_delete :: "textInput \<Rightarrow> textInput option" where
  "input_delete i =
     (if ti_cursor i = length (ti_text i) then Some i
      else if length (ti_text i) < ti_cursor i then None
      else Some (i\<lparr>ti_text := take (ti_cursor i) (ti_text i) @ drop (ti_cursor i + 1) (ti_text i)\<rparr>))"

definition input_string :: "textInput \<Rightarrow> string" where
  "input_string i = bytes_string (encode_runes (ti_text i))"

section \<open>The form\<close>

datatype target_error =
    SocketPathBad socket_path_error
  | NoHost
  | BadPort
  | DashHost
  | BadDisplay
  | BadPath

record connectionForm =
  cf_protocol :: nat
  cf_username :: textInput
  cf_password :: textInput
  cf_host :: textInput
  cf_port :: textInput
  cf_display :: textInput
  cf_path :: textInput
  cf_focus :: int
  cf_dropdownOpen :: bool
  cf_message :: "target_error option"
  cf_width :: gint
  cf_height :: gint

definition empty_input :: textInput where "empty_input = \<lparr>ti_text = [], ti_cursor = 0\<rparr>"

definition newConnectionForm :: connectionForm where
  "newConnectionForm = \<lparr>cf_protocol = 0, cf_username = empty_input, cf_password = empty_input,
     cf_host = empty_input, cf_port = input_set defaultTCPPort, cf_display = empty_input,
     cf_path = input_set ''/'', cf_focus = focusHost, cf_dropdownOpen = False, cf_message = None,
     cf_width = dialogWidth, cf_height = dialogHeight\<rparr>"

definition selectProtocol :: "bool \<Rightarrow> nat \<Rightarrow> connectionForm \<Rightarrow> connectionForm" where
  "selectProtocol on_windows k f =
     (if length (dialogProtocols on_windows) \<le> k then f
      else
        let f1 = (if cf_protocol f \<noteq> k
                  then f\<lparr>cf_protocol := k,
                         cf_port := input_set (dp_defaultPort (dialogProtocols on_windows ! k))\<rparr>
                  else f)
        in f1\<lparr>cf_dropdownOpen := False, cf_message := None\<rparr>)"

text \<open>The transport of the selected protocol.\<close>

definition selected :: "bool \<Rightarrow> connectionForm \<Rightarrow> connectionTransport option" where
  "selected on_windows f =
     (if cf_protocol f < length (dialogProtocols on_windows)
      then Some (dp_transport (dialogProtocols on_windows ! cf_protocol f)) else None)"

datatype field = UsernameField | PasswordField | HostField | PortField | DisplayField | PathField

definition inputFor :: "connectionTransport \<Rightarrow> int \<Rightarrow> field option" where
  "inputFor t focus =
     (if focus = focusUsername then Some UsernameField
      else if focus = focusPassword then Some PasswordField
      else if focus = focusHost then Some HostField
      else if focus = focusPort then (if t = transportSocket then None else Some PortField)
      else if focus = focusDisplay then
        (if t = transportSSH then Some DisplayField else if web_socket t then Some PathField else None)
      else None)"

fun get_field :: "field \<Rightarrow> connectionForm \<Rightarrow> textInput" where
  "get_field UsernameField f = cf_username f"
| "get_field PasswordField f = cf_password f"
| "get_field HostField f = cf_host f"
| "get_field PortField f = cf_port f"
| "get_field DisplayField f = cf_display f"
| "get_field PathField f = cf_path f"

fun set_field :: "field \<Rightarrow> textInput \<Rightarrow> connectionForm \<Rightarrow> connectionForm" where
  "set_field UsernameField i f = f\<lparr>cf_username := i\<rparr>"
| "set_field PasswordField i f = f\<lparr>cf_password := i\<rparr>"
| "set_field HostField i f = f\<lparr>cf_host := i\<rparr>"
| "set_field PortField i f = f\<lparr>cf_port := i\<rparr>"
| "set_field DisplayField i f = f\<lparr>cf_display := i\<rparr>"
| "set_field PathField i f = f\<lparr>cf_path := i\<rparr>"

definition visibleInputFocuses :: "connectionTransport \<Rightarrow> int list" where
  "visibleInputFocuses t =
     (if t = transportSocket then [focusUsername, focusPassword, focusHost]
      else [focusUsername, focusPassword, focusHost, focusPort] @
        (if t = transportSSH \<or> web_socket t then [focusDisplay] else []))"

definition focusVisible :: "connectionTransport \<Rightarrow> int \<Rightarrow> bool" where
  "focusVisible t focus \<longleftrightarrow>
     focus < focusUsername \<or> focusDisplay < focus \<or> focus \<in> set (visibleInputFocuses t)"

section \<open>The target of a form\<close>

definition websocket_endpoint :: "string \<Rightarrow> (string \<times> string \<times> string) option" where
  "websocket_endpoint text0 =
     (let text1 = TrimSpace text0;
          endpoint = (if text1 = [] then ''/'' else if \<not> has_prefix ''/'' text1 then ''/'' @ text1 else text1) in
      case url_Parse endpoint of
        Inl e \<Rightarrow> None
      | Inr u \<Rightarrow>
          if u_Host u \<noteq> [] \<or> u_Opaque u \<noteq> [] \<or> u_Fragment u \<noteq> [] then None
          else Some (if u_Path u = [] then ''/'' else u_Path u, u_RawPath u, u_RawQuery u))"

definition network_form_target ::
    "connectionTransport \<Rightarrow> connectionForm \<Rightarrow> target_error + connectionURL" where
  "network_form_target t f =
     (let host0 = TrimSpace (input_string (cf_host f)) in
      if host0 = [] then Inl NoHost
      else
        let host = (if has_prefix ''['' host0 \<and> has_suffix '']'' host0
                    then trim_suffix '']'' (trim_prefix ''['' host0) else host0) in
        case canonical_port (TrimSpace (input_string (cf_port f))) of
          None \<Rightarrow> Inl BadPort
        | Some port \<Rightarrow>
            if t = transportSSH \<and> has_prefix ''-'' host then Inl DashHost
            else
              let display = (if t = transportSSH then TrimSpace (input_string (cf_display f)) else []) in
              if t = transportSSH \<and> (CHR ''/'' \<in> set display \<or> has_control display) then Inl BadDisplay
              else
                (case (if web_socket t then websocket_endpoint (input_string (cf_path f)) else Some ([], [], [])) of
                   None \<Rightarrow> Inl BadPath
                 | Some (path, rawPath, rawQuery) \<Rightarrow>
                     Inr \<lparr>cu_transport = t, cu_address = JoinHostPort host port, cu_serverName = host,
                          cu_port = port, cu_display = display, cu_path = path, cu_rawPath = rawPath,
                          cu_rawQuery = rawQuery, cu_username = input_string (cf_username f),
                          cu_password = input_string (cf_password f)\<rparr>))"

definition form_target :: "bool \<Rightarrow> connectionForm \<Rightarrow> (target_error + connectionURL) option" where
  "form_target on_windows f =
     map_option (\<lambda>t.
       if t = transportSocket then
         (let path = TrimSpace (input_string (cf_host f)) in
          case validateSocketPath path of
            Some e \<Rightarrow> Inl (SocketPathBad e)
          | None \<Rightarrow> Inr (no_target\<lparr>cu_transport := transportSocket, cu_address := path,
                cu_username := input_string (cf_username f), cu_password := input_string (cf_password f)\<rparr>))
       else network_form_target t f) (selected on_windows f)"

section \<open>Layout\<close>

record dialogRect =
  dr_x :: gint
  dr_y :: gint
  dr_width :: gint
  dr_height :: gint

definition rect_contains :: "dialogRect \<Rightarrow> gint \<Rightarrow> gint \<Rightarrow> bool" where
  "rect_contains r x y \<longleftrightarrow>
     sint (dr_x r) \<le> sint x \<and> sint x < sint (dr_x r + dr_width r) \<and>
     sint (dr_y r) \<le> sint y \<and> sint y < sint (dr_y r + dr_height r)"

record dialogLayout =
  dl_protocol :: dialogRect
  dl_inputs :: "dialogRect list"
  dl_cancel :: dialogRect
  dl_connect :: dialogRect

definition a_rect :: "gint \<Rightarrow> gint \<Rightarrow> gint \<Rightarrow> gint \<Rightarrow> dialogRect" where
  "a_rect x y w h = \<lparr>dr_x = x, dr_y = y, dr_width = w, dr_height = h\<rparr>"

definition form_layout :: "connectionForm \<Rightarrow> dialogLayout" where
  "form_layout f =
     (let width = gmax (cf_width f) 360;
          controlX = gmin 145 (word_of_int (sint width div 3));
          controlWidth = gmax (width - controlX - 24) 170;
          buttonY = gmax (cf_height f - 56) 365 in
      \<lparr>dl_protocol = a_rect controlX 38 (gmin controlWidth 180) 34,
       dl_inputs = [a_rect controlX 88 controlWidth 34, a_rect controlX 138 controlWidth 34,
         a_rect controlX 188 controlWidth 34, a_rect controlX 238 (gmin controlWidth 180) 34,
         a_rect controlX 288 controlWidth 34],
       dl_cancel = a_rect (gmax (width - 238) 122) buttonY 100 34,
       dl_connect = a_rect (gmax (width - 124) 236) buttonY 100 34\<rparr>)"

definition option_rect :: "dialogLayout \<Rightarrow> nat \<Rightarrow> dialogRect" where
  "option_rect l k =
     (let p = dl_protocol l in
      a_rect (dr_x p) (dr_y p + dr_height p * (of_nat k + 1)) (dr_width p) (dr_height p))"

section \<open>Clicks\<close>

text \<open>The action is \<open>focusCancel\<close> or \<open>focusConnect\<close>, or -1 for none.\<close>

definition click_form :: "bool \<Rightarrow> gint \<Rightarrow> gint \<Rightarrow> connectionForm \<Rightarrow> (int \<times> connectionForm) option" where
  "click_form on_windows x y f0 =
     (let l = form_layout f0 in
      case (if cf_dropdownOpen f0
            then find (\<lambda>k. rect_contains (option_rect l k) x y) [0..<length (dialogProtocols on_windows)]
            else None) of
        Some k \<Rightarrow> Some (- 1, (selectProtocol on_windows k f0)\<lparr>cf_focus := focusProtocol\<rparr>)
      | None \<Rightarrow>
          let f = f0\<lparr>cf_dropdownOpen := False\<rparr> in
          if rect_contains (dl_protocol l) x y
          then Some (- 1, f0\<lparr>cf_focus := focusProtocol, cf_dropdownOpen := \<not> cf_dropdownOpen f\<rparr>)
          else
            map_option (\<lambda>t.
              case find (\<lambda>focus. rect_contains (dl_inputs l ! nat (focus - focusUsername)) x y)
                     (visibleInputFocuses t) of
                Some focus \<Rightarrow> (- 1, f\<lparr>cf_focus := focus\<rparr>)
              | None \<Rightarrow>
                  if rect_contains (dl_cancel l) x y then (focusCancel, f\<lparr>cf_focus := focusCancel\<rparr>)
                  else if rect_contains (dl_connect l) x y then (focusConnect, f\<lparr>cf_focus := focusConnect\<rparr>)
                  else (- 1, f)) (selected on_windows f))"

section \<open>Keys\<close>

text \<open>The loop of the Tab key; \<open>None\<close> when the fuel does not suffice.\<close>

fun tab_loop :: "nat \<Rightarrow> connectionTransport \<Rightarrow> int \<Rightarrow> int \<Rightarrow> int option" where
  "tab_loop 0 t direction focus = None"
| "tab_loop (Suc n) t direction focus =
     (let after = (focus + direction + focusCount) mod focusCount in
      if focusVisible t after then Some after else tab_loop n t direction after)"

definition insert_port_rune :: "nat \<Rightarrow> textInput option \<Rightarrow> textInput option" where
  "insert_port_rune r port =
     (case port of
        None \<Rightarrow> None
      | Some i \<Rightarrow> if r < 48 \<or> 57 < r \<or> 5 \<le> length (ti_text i) then Some i else input_insert [r] i)"

definition insertPort :: "bytes \<Rightarrow> textInput \<Rightarrow> textInput option" where
  "insertPort str i = fold insert_port_rune (runes str) (Some i)"

definition edit_input ::
    "string \<Rightarrow> bytes \<Rightarrow> string list \<Rightarrow> field \<Rightarrow> textInput \<Rightarrow> textInput option" where
  "edit_input name str modifiers field i =
     (if name = ''BackSpace'' then input_backspace i
      else if name = ''Delete'' then input_delete i
      else if name = ''Left'' then Some (i\<lparr>ti_cursor := ti_cursor i - 1\<rparr>)
      else if name = ''Right'' then Some (i\<lparr>ti_cursor := min (ti_cursor i + 1) (length (ti_text i))\<rparr>)
      else if name = ''Home'' then Some (i\<lparr>ti_cursor := 0\<rparr>)
      else if name = ''End'' then Some (i\<lparr>ti_cursor := length (ti_text i)\<rparr>)
      else if str \<noteq> [] \<and> ''control'' \<notin> set modifiers \<and> ''mod1'' \<notin> set modifiers then
        (if field = PortField then insertPort str i else input_insert (runes str) i)
      else Some i)"

definition key_form ::
    "bool \<Rightarrow> string \<Rightarrow> bytes \<Rightarrow> string list \<Rightarrow> connectionForm \<Rightarrow> (int \<times> connectionForm) option" where
  "key_form on_windows name str modifiers f =
     (if name = ''Escape'' then
        Some (if cf_dropdownOpen f then (- 1, f\<lparr>cf_dropdownOpen := False\<rparr>) else (focusCancel, f))
      else if name = ''Tab'' \<or> name = ''ISO_Left_Tab'' then
        (let direction = (if name = ''ISO_Left_Tab'' \<or> ''shift'' \<in> set modifiers then - 1 else 1) in
         case selected on_windows f of
           None \<Rightarrow> None
         | Some t \<Rightarrow>
             map_option (\<lambda>focus. (- 1, f\<lparr>cf_focus := focus, cf_dropdownOpen := False\<rparr>))
               (tab_loop (nat focusCount) t direction (cf_focus f)))
      else if name = ''Return'' \<or> name = ''KP_Enter'' then
        Some (if cf_focus f = focusCancel then (focusCancel, f)
              else if cf_focus f = focusProtocol then (- 1, f\<lparr>cf_dropdownOpen := \<not> cf_dropdownOpen f\<rparr>)
              else (focusConnect, f))
      else if cf_focus f = focusProtocol then
        (let n = length (dialogProtocols on_windows) in
         Some (- 1,
           if name = ''Up'' then selectProtocol on_windows ((cf_protocol f + n - 1) mod n) f
           else if name = ''Down'' then selectProtocol on_windows ((cf_protocol f + 1) mod n) f
           else if name = ''space'' then f\<lparr>cf_dropdownOpen := \<not> cf_dropdownOpen f\<rparr>
           else f))
      else
        (case selected on_windows f of
           None \<Rightarrow> None
         | Some t \<Rightarrow>
             (case inputFor t (cf_focus f) of
                None \<Rightarrow>
                  Some (if name = ''space'' \<and> cf_focus f = focusCancel then (focusCancel, f)
                        else if name = ''space'' \<and> cf_focus f = focusConnect then (focusConnect, f)
                        else (- 1, f))
              | Some field \<Rightarrow>
                  map_option (\<lambda>i. (- 1, (set_field field i f)\<lparr>cf_message := None\<rparr>))
                    (edit_input name str modifiers field (get_field field f)))))"

section \<open>Showing the dialog\<close>

datatype prompt_error = NoWindow | NoIcon string | IconRefused string | PaintFailed string | ResizeFailed string
  | DesktopClosed

datatype prompted = Chosen connectionURL | Cancelled | PromptError prompt_error

text \<open>\<open>paintConnectionForm\<close>: the canvas is as large as the form, and at least one pixel.\<close>

definition paint_form ::
    "'d env \<Rightarrow> (connectionForm \<Rightarrow> bytes) \<Rightarrow> window_id \<Rightarrow> connectionForm \<Rightarrow> 'd \<Rightarrow> prompt_error option \<times> 'd" where
  "paint_form env canvas w f d =
     (let width = gmax (cf_width f) 1; height = gmax (cf_height f) 1 in
      case win_Paint env w 0 0 width height (canvas f) (4 * width) ''RGBA'' d of
        (Some e, d1) \<Rightarrow> (Some (PaintFailed e), d1)
      | (None, d1) \<Rightarrow> (None, d1))"

text \<open>What an action does: it ends the dialog, or leaves the form to be painted again.\<close>

definition act :: "bool \<Rightarrow> int \<times> connectionForm \<Rightarrow> (prompted option \<times> connectionForm) option" where
  "act on_windows result =
     (case result of
        (action, f) \<Rightarrow>
          if action = focusCancel then Some (Some Cancelled, f)
          else if action = focusConnect then
            map_option (\<lambda>r. case r of
                Inr target \<Rightarrow> (Some (Chosen target), f)
              | Inl e \<Rightarrow> (None, f\<lparr>cf_message := Some e\<rparr>)) (form_target on_windows f)
          else Some (None, f))"

text \<open>
  One event: the outcome that ends the loop, if any.  \<open>None\<close> is a run-time panic.
\<close>

definition input_event ::
    "bool \<Rightarrow> 'd env \<Rightarrow> (connectionForm \<Rightarrow> bytes) \<Rightarrow> window_id \<Rightarrow> (int \<times> connectionForm) option \<Rightarrow> 'd \<Rightarrow>
     (prompted option \<times> connectionForm \<times> 'd) option" where
  "input_event on_windows env canvas w result d =
     Option.bind result (\<lambda>r. Option.bind (act on_windows r) (\<lambda>(outcome, f).
       case outcome of
         Some p \<Rightarrow> Some (Some p, f, d)
       | None \<Rightarrow> (case paint_form env canvas w f d of (e, d1) \<Rightarrow> Some (map_option PromptError e, f, d1))))"

definition prompt_event ::
    "bool \<Rightarrow> 'd env \<Rightarrow> (connectionForm \<Rightarrow> bytes) \<Rightarrow> window_id \<Rightarrow> ui_event \<Rightarrow> connectionForm \<Rightarrow> 'd \<Rightarrow>
     (prompted option \<times> connectionForm \<times> 'd) option" where
  "prompt_event on_windows env canvas w ev f d =
     (case ev of
        CloseRequest i \<Rightarrow> Some (if i = w then Some Cancelled else None, f, d)
      | Configure i x y width height \<Rightarrow>
          if i \<noteq> w then Some (None, f, d)
          else
            (case win_Resized env w x y width height d of
               (Some e, d1) \<Rightarrow> Some (Some (PromptError (ResizeFailed e)), f, d1)
             | (None, d1) \<Rightarrow>
                 let f1 = f\<lparr>cf_width := width, cf_height := height\<rparr> in
                 (case paint_form env canvas w f1 d1 of (e, d2) \<Rightarrow> Some (map_option PromptError e, f1, d2)))
      | Button i button pressed ex ey \<Rightarrow>
          if i \<noteq> w \<or> button \<noteq> 1 \<or> \<not> pressed then Some (None, f, d)
          else
            (case win_Geometry env w d of
               (x, y, _, _) \<Rightarrow> input_event on_windows env canvas w (click_form on_windows (ex - x) (ey - y) f) d)
      | Key i pressed name keyval str keycode modifiers \<Rightarrow>
          if i \<noteq> w \<or> \<not> pressed then Some (None, f, d)
          else input_event on_windows env canvas w (key_form on_windows name str modifiers f) d
      | _ \<Rightarrow> Some (None, f, d))"

fun prompt_loop ::
    "bool \<Rightarrow> 'd env \<Rightarrow> (connectionForm \<Rightarrow> bytes) \<Rightarrow> window_id \<Rightarrow> ui_event list \<Rightarrow> connectionForm \<Rightarrow> 'd \<Rightarrow>
     (prompted \<times> 'd) option" where
  "prompt_loop on_windows env canvas w [] f d = Some (PromptError DesktopClosed, d)"
| "prompt_loop on_windows env canvas w (ev # evs) f d =
     (case prompt_event on_windows env canvas w ev f d of
        None \<Rightarrow> None
      | Some (Some p, f1, d1) \<Rightarrow> Some (p, d1)
      | Some (None, f1, d1) \<Rightarrow> prompt_loop on_windows env canvas w evs f1 d1)"

text \<open>\<open>dialog_icon\<close> is what \<open>loadDialogIcon\<close> yields.\<close>

definition promptConnection ::
    "bool \<Rightarrow> 'd env \<Rightarrow> (connectionForm \<Rightarrow> bytes) \<Rightarrow> string + icon \<Rightarrow> ui_event list \<Rightarrow> 'd \<Rightarrow> (prompted \<times> 'd) option"
  where
  "promptConnection on_windows env canvas dialog_icon evs d0 =
     (let f = newConnectionForm in
      case NewWindow env 40 40 (cf_width f) (cf_height f) False d0 of
        (None, d1) \<Rightarrow> Some (PromptError NoWindow, d1)
      | (Some w, d1) \<Rightarrow>
          let closing = map_option (\<lambda>(p, d). (p, win_Destroy env w d));
              d2 = win_SetTitle env w ''Connect to Xpra'' d1 in
          case dialog_icon of
            Inl e \<Rightarrow> closing (Some (PromptError (NoIcon e), d2))
          | Inr img \<Rightarrow>
              (case win_SetIcon env w (Some img) d2 of
                 (Some e, d3) \<Rightarrow> closing (Some (PromptError (IconRefused e), d3))
               | (None, d3) \<Rightarrow>
                   (case paint_form env canvas w f d3 of
                      (Some e, d4) \<Rightarrow> closing (Some (PromptError e, d4))
                    | (None, d4) \<Rightarrow>
                        closing (prompt_loop on_windows env canvas w evs f
                          (win_Raise env w (win_Map env w d4))))))"

section \<open>The icon\<close>

text \<open>
  \<open>loadDialogIcon\<close>: the embedded PNG as \<open>image/png\<close> decodes it, in the byte order of the backends.
\<close>

definition dialogIconSize :: gint where "dialogIconSize = 64"

definition icon_pixel :: "32 word \<times> 32 word \<times> 32 word \<times> 32 word \<Rightarrow> bytes" where
  "icon_pixel c = (case c of (r, g, b, a) \<Rightarrow> map (\<lambda>v. ucast (drop_bit 8 v)) [b, g, r, a])"

definition loadDialogIcon :: "string + picture \<Rightarrow> string + icon" where
  "loadDialogIcon source =
     (case source of
        Inl e \<Rightarrow> Inl (''decoding the embedded Xpra icon: '' @ e)
      | Inr img \<Rightarrow>
          if pic_Dx img \<noteq> dialogIconSize \<or> pic_Dy img \<noteq> dialogIconSize then
            Inl (''embedded Xpra icon is '' @ decimal (sint (pic_Dx img)) @ ''x'' @ decimal (sint (pic_Dy img))
              @ '', want 64x64'')
          else
            Inr \<lparr>icon_Pixels = concat (map (\<lambda>y. concat (map (\<lambda>x.
                     icon_pixel (rgba_at img (min_X img + of_nat x) (min_Y img + of_nat y))) [0..<64])) [0..<64]),
                 icon_Width = dialogIconSize, icon_Height = dialogIconSize\<rparr>)"

end
