(* ===== verification/Cmd_Dialog_Inv.thy ===== *)
theory Cmd_Dialog_Inv
  imports Cmd_Dialog
begin

text \<open>
  The dialog never panics, its form stays well formed, the Tab key goes through the stops of the
  form in a circle, and a target it returns is valid.
\<close>

section \<open>Well-formed forms\<close>

definition input_ok :: "textInput \<Rightarrow> bool" where
  "input_ok i \<longleftrightarrow> ti_cursor i \<le> length (ti_text i)"

definition port_ok :: "textInput \<Rightarrow> bool" where
  "port_ok i \<longleftrightarrow> list_all (\<lambda>r. 48 \<le> r \<and> r \<le> 57) (ti_text i) \<and> length (ti_text i) \<le> 5"

lemma list_all_parts: "list_all P xs \<Longrightarrow> list_all P (take n xs)" "list_all P xs \<Longrightarrow> list_all P (drop n xs)"
  by (metis append_take_drop_id list_all_append)+

text \<open>Where the Tab key stops.  The first two are no part of the form.\<close>

definition tab_stops :: "connectionTransport \<Rightarrow> int list" where
  "tab_stops t = [0, 1, focusProtocol] @ visibleInputFocuses t @ [focusCancel, focusConnect]"

definition form_ok :: "bool \<Rightarrow> connectionForm \<Rightarrow> bool" where
  "form_ok on_windows f \<longleftrightarrow>
     (input_ok (cf_username f) \<and> input_ok (cf_password f) \<and> input_ok (cf_host f) \<and> input_ok (cf_port f) \<and>
      input_ok (cf_display f) \<and> input_ok (cf_path f)) \<and> port_ok (cf_port f) \<and>
     (\<exists>t. selected on_windows f = Some t \<and> cf_focus f \<in> set (tab_stops t))"

definition field_ok :: "field \<Rightarrow> textInput \<Rightarrow> bool" where
  "field_ok field i \<longleftrightarrow> input_ok i \<and> (field = PortField \<longrightarrow> port_ok i)"

lemma input_ops_ok:
  assumes "input_ok i"
  shows "\<exists>j. input_insert rs i = Some j \<and> input_ok j" "\<exists>j. input_backspace i = Some j \<and> input_ok j"
    "\<exists>j. input_delete i = Some j \<and> input_ok j"
  using assms by (auto simp: input_insert_def input_backspace_def input_delete_def input_ok_def)

lemma port_insert_ok:
  assumes "field_ok PortField i"
  shows "\<exists>j. insert_port_rune r (Some i) = Some j \<and> field_ok PortField j"
  using assms by (auto simp: insert_port_rune_def input_insert_def field_ok_def input_ok_def port_ok_def list_all_parts)

lemma insertPort_ok: "field_ok PortField i \<Longrightarrow> \<exists>j. insertPort str i = Some j \<and> field_ok PortField j"
proof -
  have "field_ok PortField i \<Longrightarrow> \<exists>j. fold insert_port_rune rs (Some i) = Some j \<and> field_ok PortField j" for rs
  proof (induction rs arbitrary: i)
    case (Cons r rs)
    from port_insert_ok [OF Cons.prems] obtain j where "insert_port_rune r (Some i) = Some j" "field_ok PortField j"
      by blast
    with Cons.IH show ?case by simp
  qed simp
  then show "field_ok PortField i \<Longrightarrow> ?thesis" by (simp add: insertPort_def)
qed

lemma port_ops_ok:
  assumes "field_ok PortField i"
  shows "input_backspace i = Some j \<Longrightarrow> port_ok j" "input_delete i = Some j \<Longrightarrow> port_ok j"
  using assms by (auto simp: field_ok_def input_ok_def port_ok_def input_backspace_def input_delete_def
      list_all_parts split: if_splits)

lemma edit_input_ok:
  assumes "field_ok field i"
  shows "\<exists>j. edit_input name str modifiers field i = Some j \<and> field_ok field j"
proof -
  have i: "input_ok i" using assms by (simp add: field_ok_def)
  have erase: "\<exists>j. input_backspace i = Some j \<and> field_ok field j"
    using input_ops_ok(2) [OF i] port_ops_ok(1) [of i] assms unfolding field_ok_def by metis
  have delete: "\<exists>j. input_delete i = Some j \<and> field_ok field j"
    using input_ops_ok(3) [OF i] port_ops_ok(2) [of i] assms unfolding field_ok_def by metis
  have insert: "\<exists>j. (if field = PortField then insertPort str i else input_insert (runes str) i) = Some j \<and>
      field_ok field j"
    using input_ops_ok(1) [OF i, of "runes str"] insertPort_ok [of i str] assms by (auto simp: field_ok_def)
  have move: "field_ok field (i\<lparr>ti_cursor := n\<rparr>)" if "n \<le> length (ti_text i)" for n
    using that assms by (simp add: field_ok_def input_ok_def port_ok_def)
  have "ti_cursor i - 1 \<le> length (ti_text i)" using i by (simp add: input_ok_def)
  then show ?thesis
    unfolding edit_input_def using erase delete insert move assms by auto
qed

section \<open>The stops of the Tab key\<close>

definition around :: "int list \<Rightarrow> int \<Rightarrow> int option" where
  "around stops focus = map_of (zip stops (rotate1 stops)) focus"

lemma tab_stops_cases:
  "tab_stops t \<in> {[0, 1, 2, 3, 4, 5, 8, 9], [0, 1, 2, 3, 4, 5, 6, 8, 9], [0, 1, 2, 3, 4, 5, 6, 7, 8, 9]}"
  by (simp add: tab_stops_def visibleInputFocuses_def focuses)

lemma focusVisible_stops: "0 \<le> focus \<Longrightarrow> focus < focusCount \<Longrightarrow> focusVisible t focus \<longleftrightarrow> focus \<in> set (tab_stops t)"
  by (auto simp: focusVisible_def tab_stops_def focuses)

text \<open>The loop of the Tab key, over the stops alone.\<close>

fun stop_loop :: "nat \<Rightarrow> int list \<Rightarrow> int \<Rightarrow> int \<Rightarrow> int option" where
  "stop_loop 0 stops direction focus = None"
| "stop_loop (Suc n) stops direction focus =
     (let after = (focus + direction + 10) mod 10 in
      if after \<in> set stops then Some after else stop_loop n stops direction after)"

lemma tab_loop_stops: "tab_loop n t direction focus = stop_loop n (tab_stops t) direction focus"
proof (induction n arbitrary: focus)
  case (Suc n)
  have "0 \<le> (focus + direction + 10) mod 10" "(focus + direction + 10) mod 10 < (10 :: int)" by simp_all
  then show ?case
    using Suc focusVisible_stops [of "(focus + direction + 10) mod 10" t] by (simp add: Let_def focusCount_def)
qed simp

definition stop_ok :: "int list \<Rightarrow> bool" where
  "stop_ok stops \<longleftrightarrow> (\<forall>focus\<in>set stops.
     stop_loop 10 stops 1 focus = around stops focus \<and> stop_loop 10 stops 1 focus \<noteq> None \<and>
     stop_loop 10 stops (- 1) focus = around (rev stops) focus \<and> stop_loop 10 stops (- 1) focus \<noteq> None)"

lemma stop_ok_tab: "stop_ok (tab_stops t)"
proof -
  have "stop_ok [0, 1, 2, 3, 4, 5, 8, 9]" "stop_ok [0, 1, 2, 3, 4, 5, 6, 8, 9]"
    "stop_ok [0, 1, 2, 3, 4, 5, 6, 7, 8, 9]" by code_simp+
  then show ?thesis using tab_stops_cases [of t] by auto
qed

lemma tab_loop_around:
  assumes "focus \<in> set (tab_stops t)"
  shows "tab_loop 10 t 1 focus = around (tab_stops t) focus" "around (tab_stops t) focus \<noteq> None"
    "tab_loop 10 t (- 1) focus = around (rev (tab_stops t)) focus" "around (rev (tab_stops t)) focus \<noteq> None"
  using stop_ok_tab [of t] assms unfolding tab_loop_stops stop_ok_def by metis+

lemma around_in: "around stops focus = Some g \<Longrightarrow> g \<in> set stops"
  by (auto simp: around_def dest!: map_of_SomeD set_zip_rightD)

lemma tab_loop_stop:
  assumes "focus \<in> set (tab_stops t)" "direction = 1 \<or> direction = - 1"
  obtains g where "tab_loop 10 t direction focus = Some g" "g \<in> set (tab_stops t)"
proof -
  note around = tab_loop_around [OF assms(1)]
  from assms(2) show thesis
  proof
    assume "direction = 1"
    with around(1,2) around_in that show thesis by (cases "around (tab_stops t) focus") auto
  next
    assume "direction = - 1"
    with around(3,4) that around_in [of "rev (tab_stops t)" focus] show thesis
      by (cases "around (rev (tab_stops t)) focus") auto
  qed
qed

section \<open>Clicks and keys\<close>

lemma selected_cong: "cf_protocol g = cf_protocol f \<Longrightarrow> selected w g = selected w f"
  by (simp add: selected_def)

lemma form_ok_updates [simp]:
  "form_ok w (f\<lparr>cf_message := m\<rparr>) = form_ok w f" "form_ok w (f\<lparr>cf_dropdownOpen := b\<rparr>) = form_ok w f"
  "form_ok w (f\<lparr>cf_width := x\<rparr>) = form_ok w f" "form_ok w (f\<lparr>cf_height := y\<rparr>) = form_ok w f"
  by (simp_all add: form_ok_def selected_def)

lemma form_ok_focus:
  assumes "form_ok w f" "\<And>t. selected w f = Some t \<Longrightarrow> g \<in> set (tab_stops t)"
  shows "form_ok w (f\<lparr>cf_focus := g\<rparr>)"
proof -
  have "selected w (f\<lparr>cf_focus := g\<rparr>) = selected w f" by (simp add: selected_def)
  then show ?thesis using assms by (auto simp: form_ok_def)
qed

lemma default_port_ok: "k < length (dialogProtocols w) \<Longrightarrow> input_ok (input_set (dp_defaultPort (dialogProtocols w ! k))) \<and>
   port_ok (input_set (dp_defaultPort (dialogProtocols w ! k)))"
proof -
  have "list_all (\<lambda>p. port_ok (input_set (dp_defaultPort p))) (dialogProtocols False)" by code_simp
  moreover have "set (dialogProtocols w) \<subseteq> set (dialogProtocols False)" by (auto simp: dialogProtocols_def)
  ultimately have "p \<in> set (dialogProtocols w) \<Longrightarrow> port_ok (input_set (dp_defaultPort p))" for p
    unfolding list_all_iff by blast
  then show "k < length (dialogProtocols w) \<Longrightarrow> ?thesis"
    by (simp add: input_ok_def input_set_def)
qed

lemma focusProtocol_stop: "focusProtocol \<in> set (tab_stops t)" "focusCancel \<in> set (tab_stops t)"
  "focusConnect \<in> set (tab_stops t)"
  by (simp_all add: tab_stops_def)

lemma selectProtocol_ok:
  assumes "form_ok w f" "cf_focus f = focusProtocol"
  shows "form_ok w (selectProtocol w k f)"
proof (cases "k < length (dialogProtocols w)")
  case True
  have "cf_focus (selectProtocol w k f) = focusProtocol" "\<exists>t. selected w (selectProtocol w k f) = Some t"
    using True assms by (auto simp: selectProtocol_def Let_def selected_def form_ok_def)
  moreover have "cf_port (selectProtocol w k f) \<in> {cf_port f, input_set (dp_defaultPort (dialogProtocols w ! k))}"
    by (simp add: selectProtocol_def Let_def)
  ultimately show ?thesis
    using focusProtocol_stop assms(1) default_port_ok [OF True]
    by (auto simp: form_ok_def) (auto simp: selectProtocol_def Let_def)
next
  case False
  then show ?thesis using assms by (simp add: selectProtocol_def)
qed

lemma form_ok_fields: "form_ok w f \<Longrightarrow> field_ok field (get_field field f)"
  by (cases field) (auto simp: form_ok_def field_ok_def)

lemma set_field_ok:
  assumes "form_ok w f" "field_ok field i"
  shows "form_ok w (set_field field i f)"
proof -
  have "selected w (set_field field i f) = selected w f" "cf_focus (set_field field i f) = cf_focus f"
    by (cases field; simp add: selected_def)+
  then show ?thesis using assms by (cases field) (auto simp: form_ok_def field_ok_def)
qed

definition steps_to :: "bool \<Rightarrow> (int \<times> connectionForm) option \<Rightarrow> bool" where
  "steps_to w result \<longleftrightarrow> (\<exists>action f. result = Some (action, f) \<and> form_ok w f)"

lemma click_form_ok:
  assumes "form_ok w f"
  shows "steps_to w (click_form w x y f)"
proof -
  let ?l = "form_layout f" and ?f = "f\<lparr>cf_dropdownOpen := False\<rparr>"
  obtain t where t: "selected w f = Some t" using assms by (auto simp: form_ok_def)
  have closed: "selected w ?f = Some t" using t selected_cong [of ?f f] by simp
  have focused: "form_ok w (?f\<lparr>cf_focus := g\<rparr>)" if "g \<in> set (tab_stops t)" for g
    using form_ok_focus [of w ?f g] assms that closed by auto
  have chosen: "form_ok w ((selectProtocol w k f)\<lparr>cf_focus := focusProtocol\<rparr>)" for k
  proof -
    have "(selectProtocol w k f)\<lparr>cf_focus := focusProtocol\<rparr> = selectProtocol w k (f\<lparr>cf_focus := focusProtocol\<rparr>)"
      by (simp add: selectProtocol_def Let_def)
    moreover have "form_ok w (f\<lparr>cf_focus := focusProtocol\<rparr>)"
      using form_ok_focus [OF assms] focusProtocol_stop by auto
    ultimately show ?thesis using selectProtocol_ok by simp
  qed
  have inputs: "find P (visibleInputFocuses t) = Some g \<Longrightarrow> g \<in> set (tab_stops t)" for P g
    by (auto simp: find_Some_iff tab_stops_def in_set_conv_nth)
  have protocol: "form_ok w (f\<lparr>cf_focus := focusProtocol, cf_dropdownOpen := b\<rparr>)" for b
    using form_ok_focus [OF assms] focusProtocol_stop by simp
  let ?P = "\<lambda>focus. rect_contains (dl_inputs ?l ! nat (focus - focusUsername)) x y"
  have rest: "form_ok w (snd (case find ?P (visibleInputFocuses t) of
      Some focus \<Rightarrow> (- 1, ?f\<lparr>cf_focus := focus\<rparr>)
    | None \<Rightarrow> if rect_contains (dl_cancel ?l) x y then (focusCancel, ?f\<lparr>cf_focus := focusCancel\<rparr>)
        else if rect_contains (dl_connect ?l) x y then (focusConnect, ?f\<lparr>cf_focus := focusConnect\<rparr>)
        else (- 1 :: int, ?f)))"
    using focused inputs focusProtocol_stop assms by (cases "find ?P (visibleInputFocuses t)") simp_all
  show ?thesis
  proof (cases "if cf_dropdownOpen f then find (\<lambda>k. rect_contains (option_rect ?l k) x y)
      [0..<length (dialogProtocols w)] else None")
    case None
    then show ?thesis
      using protocol rest closed unfolding click_form_def Let_def steps_to_def
      by (cases "rect_contains (dl_protocol ?l) x y") (simp_all add: prod_eq_iff)
  next
    case (Some k)
    then show ?thesis using chosen unfolding click_form_def Let_def steps_to_def by simp
  qed
qed

lemma key_form_ok:
  assumes "form_ok w f"
  shows "steps_to w (key_form w name str modifiers f)"
proof -
  obtain t where t: "selected w f = Some t" "cf_focus f \<in> set (tab_stops t)" using assms by (auto simp: form_ok_def)
  have stops: "\<exists>g. tab_loop (nat focusCount) t direction (cf_focus f) = Some g \<and>
      form_ok w (f\<lparr>cf_focus := g, cf_dropdownOpen := False\<rparr>)" if step: "direction = 1 \<or> direction = - 1" for direction
  proof -
    obtain g where "tab_loop 10 t direction (cf_focus f) = Some g" "g \<in> set (tab_stops t)"
      using tab_loop_stop [OF t(2) step] by blast
    then show ?thesis using form_ok_focus [OF assms] t(1) by (auto simp: focusCount_def)
  qed
  have edited: "\<exists>j. edit_input name str modifiers field (get_field field f) = Some j \<and>
      form_ok w (set_field field j f)" for field
    using edit_input_ok set_field_ok [OF assms] form_ok_fields [OF assms] by metis
  have switched: "form_ok w (selectProtocol w k f)" if "cf_focus f = focusProtocol" for k
    using selectProtocol_ok [OF assms that] .
  consider (tab) "name \<noteq> ''Escape''" "name = ''Tab'' \<or> name = ''ISO_Left_Tab''"
    | (edit) field where "name \<notin> {''Escape'', ''Tab'', ''ISO_Left_Tab'', ''Return'', ''KP_Enter''}"
        "cf_focus f \<noteq> focusProtocol" "inputFor t (cf_focus f) = Some field"
    | (named) "name \<in> {''Escape'', ''Return'', ''KP_Enter''}"
    | (switch) "name \<notin> {''Escape'', ''Tab'', ''ISO_Left_Tab'', ''Return'', ''KP_Enter''}" "cf_focus f = focusProtocol"
    | (button) "name \<notin> {''Escape'', ''Tab'', ''ISO_Left_Tab'', ''Return'', ''KP_Enter''}" "cf_focus f \<noteq> focusProtocol"
        "inputFor t (cf_focus f) = None"
    by (cases "inputFor t (cf_focus f)") auto
  then show ?thesis
  proof cases
    case tab
    let ?d = "if name = ''ISO_Left_Tab'' \<or> ''shift'' \<in> set modifiers then - 1 else 1 :: int"
    have "?d = 1 \<or> ?d = - 1" by simp
    then obtain g where "tab_loop (nat focusCount) t ?d (cf_focus f) = Some g"
      "form_ok w (f\<lparr>cf_focus := g, cf_dropdownOpen := False\<rparr>)"
      using stops [of ?d] by blast
    then show ?thesis using tab t(1) by (simp add: key_form_def steps_to_def Let_def)
  next
    case edit
    then show ?thesis using edited [of field] t(1) by (auto simp: key_form_def steps_to_def)
  next
    case named
    then show ?thesis using assms by (auto simp: key_form_def steps_to_def)
  next
    case switch
    then show ?thesis using assms switched by (simp add: key_form_def steps_to_def Let_def)
  next
    case button
    then show ?thesis using assms t(1) by (simp add: key_form_def steps_to_def)
  qed
qed

section \<open>Targets\<close>

lemma websocket_endpoint_shape:
  assumes "websocket_endpoint str = Some (path, rawPath, rawQuery)"
  shows "has_prefix ''/'' path" "rawPath = [] \<or> has_prefix ''/'' rawPath" "printable rawQuery"
proof -
  define e where "e = (let text1 = TrimSpace str in
    if text1 = [] then ''/'' else if \<not> has_prefix ''/'' text1 then ''/'' @ text1 else text1)"
  have e: "has_prefix ''/'' e" by (simp add: e_def Let_def)
  obtain u where u: "url_Parse e = Inr u"
    "path = (if u_Path u = [] then ''/'' else u_Path u)" "rawPath = u_RawPath u" "rawQuery = u_RawQuery u"
    using assms unfolding websocket_endpoint_def e_def [symmetric, unfolded Let_def] Let_def
    by (auto split: sum.splits if_splits)
  show "has_prefix ''/'' path" "rawPath = [] \<or> has_prefix ''/'' rawPath" "printable rawQuery"
    using url_Parse_shape [OF u(1)] e u(2-4) by (auto simp: url_shape_def)
qed

lemma network_form_target_valid:
  assumes "network_form_target t f = Inr target" "known_transport t" "t \<noteq> transportSocket"
  shows "valid_network target"
proof -
  obtain host port display path rawPath rawQuery where
    target: "target = \<lparr>cu_transport = t, cu_address = JoinHostPort host port, cu_serverName = host,
      cu_port = port, cu_display = display, cu_path = path, cu_rawPath = rawPath, cu_rawQuery = rawQuery,
      cu_username = input_string (cf_username f), cu_password = input_string (cf_password f)\<rparr>"
    and port: "canonical_port (TrimSpace (input_string (cf_port f))) = Some port"
    and dash: "\<not> (t = transportSSH \<and> has_prefix ''-'' host)"
    and display: "t \<noteq> transportSSH \<Longrightarrow> display = []"
      "t = transportSSH \<Longrightarrow> CHR ''/'' \<notin> set display \<and> \<not> has_control display"
    and path: "(if web_socket t then websocket_endpoint (input_string (cf_path f)) else Some ([], [], [])) =
      Some (path, rawPath, rawQuery)"
    using assms(1) unfolding network_form_target_def Let_def
    by (auto split: if_splits option.splits)
  have "cu_transport target \<in> {transportTCP, transportSSL, transportSSH, transportWS, transportWSS}"
    using assms(2,3) by (auto simp: target known_transport_def)
  then show ?thesis
    using valid_canonical_port [OF port] dash display path websocket_endpoint_shape [of "input_string (cf_path f)"]
    unfolding valid_network_def by (auto simp: target split: if_splits)
qed

lemma known_protocol: "selected w f = Some t \<Longrightarrow> known_transport t"
proof -
  have "list_all (\<lambda>p. known_transport (dp_transport p)) (dialogProtocols False)" by code_simp
  moreover have "set (dialogProtocols w) \<subseteq> set (dialogProtocols False)" by (auto simp: dialogProtocols_def)
  ultimately have "p \<in> set (dialogProtocols w) \<Longrightarrow> known_transport (dp_transport p)" for p
    unfolding list_all_iff by blast
  then show "selected w f = Some t \<Longrightarrow> known_transport t" by (auto simp: selected_def split: if_splits)
qed

lemma form_target_valid:
  assumes "form_target w f = Some (Inr target)"
  shows "valid_socket target \<or> valid_network target"
proof -
  obtain t where t: "selected w f = Some t" using assms by (auto simp: form_target_def)
  show ?thesis
  proof (cases "t = transportSocket")
    case True
    then show ?thesis
      using assms t valid_socket_path [of "TrimSpace (input_string (cf_host f))"]
      by (auto simp: form_target_def Let_def valid_socket_def no_target_def split: option.splits)
  next
    case False
    then show ?thesis
      using assms t network_form_target_valid [OF _ known_protocol [OF t] False] by (auto simp: form_target_def)
  qed
qed

section \<open>The loop\<close>

definition outcome_ok :: "prompted \<Rightarrow> bool" where
  "outcome_ok p \<longleftrightarrow> (\<forall>target. p = Chosen target \<longrightarrow> valid_socket target \<or> valid_network target)"

definition loop_step_ok :: "bool \<Rightarrow> (prompted option \<times> connectionForm \<times> 'd) option \<Rightarrow> bool" where
  "loop_step_ok w result \<longleftrightarrow>
     (\<exists>outcome f d. result = Some (outcome, f, d) \<and> form_ok w f \<and> (\<forall>p. outcome = Some p \<longrightarrow> outcome_ok p))"

lemma form_target_defined: "form_ok w f \<Longrightarrow> form_target w f \<noteq> None"
  by (auto simp: form_target_def form_ok_def)

lemma input_event_ok:
  assumes "steps_to w result"
  shows "loop_step_ok w (input_event w env canvas win result d)"
proof -
  obtain action f where result: "result = Some (action, f)" "form_ok w f" using assms by (auto simp: steps_to_def)
  obtain r where r: "form_target w f = Some r" using form_target_defined [OF result(2)] by auto
  have valid: "r = Inr target \<Longrightarrow> valid_socket target \<or> valid_network target" for target
    using form_target_valid r by simp
  have "\<exists>outcome g. act w (action, f) = Some (outcome, g) \<and> form_ok w g \<and> (\<forall>p. outcome = Some p \<longrightarrow> outcome_ok p)"
    using result(2) r valid by (cases r) (auto simp: act_def outcome_ok_def)
  then show ?thesis
    unfolding loop_step_ok_def input_event_def result(1)
    by (auto simp: outcome_ok_def split: option.split prod.split)
qed

lemma prompt_event_ok:
  assumes "form_ok w f"
  shows "loop_step_ok w (prompt_event w env canvas win ev f d)"
proof (cases ev)
  case (Configure i x y width height)
  then show ?thesis
    using assms by (auto simp: prompt_event_def loop_step_ok_def outcome_ok_def Let_def split: option.split prod.split)
next
  case (Button i button pressed ex ey)
  then show ?thesis
    using assms input_event_ok [OF click_form_ok [OF assms]]
    by (auto simp: prompt_event_def loop_step_ok_def split: prod.split)
next
  case (Key i pressed name keyval str keycode modifiers)
  then show ?thesis
    using assms input_event_ok [OF key_form_ok [OF assms]] by (auto simp: prompt_event_def loop_step_ok_def)
qed (use assms in \<open>auto simp: prompt_event_def loop_step_ok_def outcome_ok_def\<close>)

lemma prompt_loop_ok:
  "form_ok w f \<Longrightarrow> \<exists>p d'. prompt_loop w env canvas win evs f d = Some (p, d') \<and> outcome_ok p"
proof (induction evs arbitrary: f d)
  case (Cons ev evs)
  obtain outcome g d1 where *: "prompt_event w env canvas win ev f d = Some (outcome, g, d1)" "form_ok w g"
    "\<forall>p. outcome = Some p \<longrightarrow> outcome_ok p"
    using prompt_event_ok [OF Cons.prems, of env canvas win ev d] unfolding loop_step_ok_def
    by (elim exE conjE)
  then show ?case using Cons.IH [OF *(2)] by (cases outcome) auto
qed (simp add: outcome_ok_def)

lemma newConnectionForm_ok: "form_ok w newConnectionForm"
proof -
  have "selected w newConnectionForm = Some transportTCP"
    by (simp add: selected_def newConnectionForm_def dialogProtocols_def)
  moreover have "focusHost \<in> set (tab_stops transportTCP)" by code_simp
  moreover have "port_ok (input_set defaultTCPPort)" by code_simp
  ultimately show ?thesis
    by (auto simp: form_ok_def newConnectionForm_def input_ok_def empty_input_def input_set_def)
qed

lemma promptConnection_ok:
  "\<exists>p d'. promptConnection w env canvas dialog_icon evs d = Some (p, d') \<and> outcome_ok p"
proof -
  have loop: "\<exists>p. (\<exists>d'. map_option (\<lambda>(p, d). (p, win_Destroy env win d))
      (prompt_loop w env canvas win evs newConnectionForm d) = Some (p, d')) \<and> outcome_ok p" for win d
    using prompt_loop_ok [OF newConnectionForm_ok, of w env canvas win evs d] by auto
  have error: "outcome_ok (PromptError e)" for e by (simp add: outcome_ok_def)
  show ?thesis
    unfolding promptConnection_def Let_def
    by (auto simp: error simp del: map_option_eq_Some intro!: loop split: option.split prod.split sum.split)
qed

end
