(* ===== verification/Properties_Cmd.thy ===== *)
theory Properties_Cmd
  imports Cmd_Main Cmd_Ssh Cmd_Password Cmd_Dialog_Inv
begin

text \<open>
  What the command guarantees: the targets it connects to, the handshake URL, the command given
  to ssh and where a password goes, the dialogue with pinentry, and the connection dialog.
\<close>

section \<open>Targets\<close>



section \<open>The handshake URL\<close>

text \<open>C32: The URL of a WebSocket handshake names the same transport, host, port, path and query
  as the target and carries no credentials: read as a connection URL it yields the target
  without its user name and password.  (The encoding hint of the path may differ.)  This holds
  for hosts of plain characters, with a zone if they have one.\<close>

theorem websocket_url_roundtrip:
  assumes "parseConnectionURL raw = Inr t" "web_socket (cu_transport t)" "plain_host (cu_serverName t)"
  shows "\<exists>rawPath. parseConnectionURL (webSocketURL t) =
    Inr (t\<lparr>cu_rawPath := rawPath, cu_username := [], cu_password := []\<rparr>)"
proof -
  have "valid_network t" "cu_serverName t \<noteq> []"
    using parsed_target_valid [OF assms(1)] assms(2)
    by (auto simp: valid_socket_def web_socket_def transports)
  then show ?thesis using websocket_reads_back assms(2,3) by blast
qed

theorem websocket_url_roundtrip_witness:
  "\<exists>t rawPath. parseConnectionURL ''wss://al:pw@[fe80::1%25eth0]/a%20b?k=1'' = Inr t \<and>
     webSocketURL t = ''wss://[fe80::1%25eth0]:443/a%20b?k=1'' \<and>
     parseConnectionURL (webSocketURL t) = Inr (t\<lparr>cu_rawPath := rawPath, cu_username := [], cu_password := []\<rparr>)"
proof -
  let ?t = "\<lparr>cu_transport = ''wss'', cu_address = ''[fe80::1%eth0]:443'', cu_serverName = ''fe80::1%eth0'',
    cu_port = ''443'', cu_display = [], cu_path = ''/a b'', cu_rawPath = [], cu_rawQuery = ''k=1'',
    cu_username = ''al'', cu_password = ''pw''\<rparr>"
  have t: "parseConnectionURL ''wss://al:pw@[fe80::1%25eth0]/a%20b?k=1'' = Inr ?t" by code_simp
  moreover have "webSocketURL ?t = ''wss://[fe80::1%25eth0]:443/a%20b?k=1''" by code_simp
  moreover have "web_socket (cu_transport ?t)" "plain_host (cu_serverName ?t)" by code_simp+
  ultimately show ?thesis using websocket_url_roundtrip [OF t] by blast
qed

section \<open>ssh\<close>

text \<open>C30: Whatever the display is, a POSIX shell reads the command for the remote side as the three
  words \<open>sh\<close>, \<open>-c\<close> and a script, and the script as always the same tokens around one word that is
  exactly the display: no display can add a command, a redirection or an expansion.\<close>

theorem ssh_command_read_back:
  "sh_lex None (sshRemoteCommand display) = Some [Word ''sh'', Word ''-c'', Word (remote_script display)] \<and>
   sh_lex None (remote_script display) =
     Some ([Word ''if'', Word ''command'', Word ''-v'', Word ''xpra'', Op (CHR ''>''), Word ''/dev/null'',
        Word ''2'', Op (CHR ''>''), Op (CHR ''&''), Word ''1'', Op (CHR '';''), Word ''then'', Word ''xpra'',
        Word ''_proxy''] @
       (if display = [] then [] else [Word display]) @
       [Op (CHR '';''), Word ''else'', Word ''echo'', Word ''no xpra command found'', Word ''1'',
        Op (CHR ''>''), Op (CHR ''&''), Word ''2'', Op (CHR '';''), Word ''exit'', Word ''1'', Op (CHR '';''),
        Word ''fi''])"
  using sh_lex_words sh_lex_script by (simp add: script_tokens_def del: sh_lex.simps)

text \<open>C31: The password of an ssh target is in no argument of the command that is started, which
  does not depend on it: without a password ssh is started in the environment as it is, with one
  sshpass is started and finds it in \<open>SSHPASS\<close>, the only such entry of an environment that is
  otherwise unchanged.\<close>

theorem ssh_password_hidden:
  assumes "makeSSHInvocation target lookPath environ = Inr invocation" "lookPath ''ssh'' = Inr ssh"
  shows "\<exists>front. inv_args invocation = front @ ssh_args (target\<lparr>cu_password := []\<rparr>) \<and>
     (if cu_password target = [] then inv_executable invocation = ssh \<and> front = [] \<and> inv_env invocation = environ
      else lookPath ''sshpass'' = Inr (inv_executable invocation) \<and> front = [''-e'', ssh] \<and>
        filter (has_prefix ''SSHPASS='') (inv_env invocation) = [''SSHPASS='' @ cu_password target] \<and>
        filter (\<lambda>e. \<not> has_prefix ''SSHPASS='' e) (inv_env invocation) =
          filter (\<lambda>e. \<not> has_prefix ''SSHPASS='' e) environ)"
proof -
  have args: "ssh_args (target\<lparr>cu_password := []\<rparr>) = ssh_args target" by (simp add: ssh_args_def)
  have entry: "has_prefix ''SSHPASS='' (''SSHPASS='' @ s)" for s by (simp add: has_prefix_def)
  show ?thesis
    using assms entry [of "cu_password target"] unfolding makeSSHInvocation_def args
    by (auto simp: Let_def setEnvironment_def split: if_splits sum.splits)
qed

definition ssh_example :: connectionURL where
  "ssh_example = no_target\<lparr>cu_transport := ''ssh'', cu_serverName := ''host'', cu_port := ''22'',
     cu_display := ''100'', cu_password := ''secret''\<rparr>"

theorem ssh_password_hidden_witness:
  "\<exists>invocation. makeSSHInvocation ssh_example (\<lambda>name. Inr (''/bin/'' @ name)) [''HOME=/'', ''SSHPASS=old''] = Inr invocation \<and>
     inv_args invocation = [''-e'', ''/bin/ssh'', ''-x'', ''-T'', ''host'', sshRemoteCommand ''100''] \<and>
     filter (has_prefix ''SSHPASS='') (inv_env invocation) = [''SSHPASS=secret'']"
proof -
  let ?inv = "\<lparr>inv_executable = ''/bin/sshpass'',
    inv_args = [''-e'', ''/bin/ssh'', ''-x'', ''-T'', ''host'', sshRemoteCommand ''100''],
    inv_env = [''HOME=/'', ''SSHPASS=secret''], inv_usesSSHPass = True\<rparr>"
  have inv: "makeSSHInvocation ssh_example (\<lambda>name. Inr (''/bin/'' @ name)) [''HOME=/'', ''SSHPASS=old''] = Inr ?inv"
    by (simp add: makeSSHInvocation_def ssh_example_def no_target_def ssh_args_def defaultSSHPort_def
        setEnvironment_def has_prefix_def Let_def)
  have "cu_password ssh_example = ''secret''" by (simp add: ssh_example_def)
  then have "filter (has_prefix ''SSHPASS='') (inv_env ?inv) = [''SSHPASS=secret'']"
    using ssh_password_hidden [OF inv, of "''/bin/ssh''"] by auto
  with inv show ?thesis by (intro exI [of _ ?inv]) simp
qed

section \<open>Pinentry\<close>

text \<open>C35: A password comes back from pinentry as it was typed, whatever characters pinentry escapes
  beyond the percent sign and the line ends, however it divides the text into lines, and with
  whatever comments and status lines between.  And every command written to pinentry is a
  single line, so no server can slip a command into the dialogue with its description.\<close>

theorem pinentry_dialogue:
  assumes "insert (CHR ''%'') line_ends \<subseteq> S"
    and "list_all (\<lambda>part. case part of Inl line \<Rightarrow> idle_line line | Inr _ \<Rightarrow> True) parts"
  shows "readPinentryResponse (map (pin_line S) parts @ ''OK'' # rest) = (Inr (concat (map pin_text parts)), rest) \<and>
    (pe_written p = [] \<longrightarrow> list_all one_line (pe_written (snd (pin_session username address description p))))"
  using read_response_parts [OF assms, of "[]" rest] pin_session_lines [of p username address description]
  by (simp_all add: readPinentryResponse_def lines_ok_def)

theorem pinentry_dialogue_witness:
  "readPinentryResponse [''# hello'', ''D 50%25+'' @ [CHR 0x0A], ''D x'' @ [CHR 0x0A], ''OK''] = (Inr ''50%+x'', [])"
proof -
  have "data_line (insert (CHR ''%'') line_ends) ''50%+'' = ''D 50%25+'' @ [CHR 0x0A]"
    "data_line (insert (CHR ''%'') line_ends) ''x'' = ''D x'' @ [CHR 0x0A]" "idle_line ''# hello''"
    unfolding line_ends_def by code_simp+
  then show ?thesis
    using pinentry_dialogue [of "insert (CHR ''%'') line_ends" "[Inl ''# hello'', Inr ''50%+'', Inr ''x'']" "[]"]
    by (simp add: pin_line_def pin_text_def)
qed

section \<open>The dialog\<close>

text \<open>C36: In a well-formed form the Tab key always finds a stop, and goes through the protocol, the
  visible inputs, the two buttons and two stops that are no part of the form in a circle;
  Shift-Tab and ISO_Left_Tab go the other way round.  (The two stops show no focus, and Return
  on them connects: the constants of the stops begin with 2 where the count begins with 0.)\<close>

theorem dialog_tab_order:
  assumes "form_ok on_windows f" "selected on_windows f = Some t"
  shows "(\<exists>g. key_form on_windows ''Tab'' str [] f = Some (- 1, f\<lparr>cf_focus := g, cf_dropdownOpen := False\<rparr>) \<and>
      around ([0, 1, focusProtocol] @ visibleInputFocuses t @ [focusCancel, focusConnect]) (cf_focus f) = Some g) \<and>
    (\<exists>g. key_form on_windows ''Tab'' str [''shift''] f =
        Some (- 1, f\<lparr>cf_focus := g, cf_dropdownOpen := False\<rparr>) \<and>
      around (rev ([0, 1, focusProtocol] @ visibleInputFocuses t @ [focusCancel, focusConnect])) (cf_focus f) = Some g)"
proof -
  have "cf_focus f \<in> set (tab_stops t)" using assms by (auto simp: form_ok_def)
  note around = tab_loop_around [OF this, unfolded tab_stops_def]
  show ?thesis
    using around assms(2) by (auto simp: key_form_def focusCount_def)
qed

theorem dialog_tab_order_witness:
  "\<exists>g. key_form False ''Tab'' [] [] (newConnectionForm\<lparr>cf_focus := focusConnect\<rparr>) =
     Some (- 1, newConnectionForm\<lparr>cf_focus := g, cf_dropdownOpen := False\<rparr>) \<and> g = 0"
proof -
  let ?f = "newConnectionForm\<lparr>cf_focus := focusConnect\<rparr>"
  have ok: "form_ok False ?f" using form_ok_focus [OF newConnectionForm_ok] focusProtocol_stop by auto
  have t: "selected False ?f = Some ''tcp''" by code_simp
  have "around ([0, 1, focusProtocol] @ visibleInputFocuses ''tcp'' @ [focusCancel, focusConnect]) focusConnect = Some 0"
    by code_simp
  then show ?thesis using dialog_tab_order [OF ok t, of "[]"] by auto
qed

section \<open>Options\<close>

text \<open>C40: The check of how options are spelled judges exactly the arguments that Go's flag parser
  reads as options: for arguments the parser accepts, the check passes just when each of them
  has two dashes, but \<open>-v\<close> one.\<close>

theorem option_spelling:
  assumes "kinds ''v'' = Some True" "flag_parse kinds accepts args = Some (opts, rest)"
  shows "validateOptionSpelling kinds args = None \<longleftrightarrow>
    (\<forall>arg\<in>set opts. (fst (optionName arg) = ''v'') \<noteq> has_prefix ''--'' arg)"
  using spelling_agrees [OF _ assms(2)] assms(1) by (simp add: list_all_iff well_spelled_def [abs_def])

definition example_flags :: "string \<Rightarrow> bool option" where
  "example_flags = map_of [(''v'', True), (''version'', True), (''backend'', False)]"

theorem option_spelling_witness:
  "validateOptionSpelling example_flags [''-v'', ''--backend'', ''-x11'', ''tcp://h/'', ''-bad''] = None \<longleftrightarrow>
   (\<forall>arg\<in>{''-v'', ''--backend''}. (fst (optionName arg) = ''v'') \<noteq> has_prefix ''--'' arg)"
proof -
  have "example_flags ''v'' = Some True"
    "flag_parse example_flags (\<lambda>_ _. True) [''-v'', ''--backend'', ''-x11'', ''tcp://h/'', ''-bad''] =
      Some ([''-v'', ''--backend''], [''tcp://h/'', ''-bad''])" by code_simp+
  from option_spelling [OF this] show ?thesis by simp
qed

end
