(* ===== verification/Spec2Isabelle.thy ===== *)
theory Spec2Isabelle
  imports Properties_Protocol Properties_Ui Properties_Session Properties_X11 Properties_Wayland Properties_Cmd
begin

text \<open>
  A model of go-xpra, a client of the Xpra server in Go: it connects to a server, shows the
  windows the server forwards on the local desktop, and sends back what the user does with them.

  \<^bold>\<open>The program and how its parts interact.\<close>  The command (\<open>cmd/go-xpra\<close>) reads options and a
  connection URL, or asks for a target in a dialog of its own, and opens a display and a connection.
  The connection (\<open>protocol\<close>) has a goroutine that reads packets and one that writes them; packets
  are values in the encoding of \<open>rencodeplus\<close> behind a header of eight bytes, with large elements
  in chunks of their own.  The client (\<open>client\<close>) is one loop over the packets received, the events
  of the desktop and its timers.  It uses a display only through the interfaces of \<open>ui\<close>; the
  displays are \<open>x11\<close>, \<open>wayland\<close>, \<open>win32\<close> and \<open>darwin\<close>, which deliver their events through the queue
  of \<open>ui/event_queue.go\<close>.

  \<^bold>\<open>Theories and sources.\<close>
  \<^item> \<open>Xpra_Prelude\<close>: bytes, machine integers (Go's \<open>int\<close> is a signed word of 64 bits, whose sums and
    products wrap), results as sums, decimal numbers.  \<open>Go_Utf8\<close> and \<open>Go_Url\<close>: what the sources use of
    Go's \<open>unicode/utf8\<close>, \<open>strings\<close>, \<open>net\<close> and \<open>net/url\<close>, as of Go 1.25.0.
  \<^item> \<open>Rencode_Value\<close>, \<open>Rencode_Encode\<close>, \<open>Rencode_Decode\<close>: the package \<open>rencodeplus\<close>.  \<open>Rencode_Spec\<close> is the
    wire form without buffers and errors, \<open>Rencode_Roundtrip\<close> and \<open>Rencode_Safety\<close> what is proved of the
    two.  The fuel of the loops of the decoder is one more than the length of the input, and every
    turn reads a byte.
  \<^item> \<open>Proto_Header\<close>, \<open>Proto_Packet\<close>, \<open>Proto_Chunks\<close>, \<open>Proto_Reader\<close>, \<open>Proto_Conn\<close>, \<open>Proto_Stream\<close>: the package
    \<open>protocol\<close>.  The sending side is a transition system (\<open>conn_step\<close>) whose steps are the locked sections
    of \<open>Send\<close>, \<open>Flush\<close>, \<open>Close\<close>, \<open>fail\<close> and \<open>writeLoop\<close>, in any interleaving; the LZ4 block decoder is
    an argument.
  \<^item> \<open>Ui_Types\<close>, \<open>Ui_Event_Queue\<close>, \<open>Ui_Keys\<close>, \<open>Ui_Pixels\<close>: the packages \<open>ui\<close> and \<open>keysym\<close>, and the relay
    goroutine of the backends.
  \<^item> \<open>Client_State\<close> to \<open>Client_Run\<close>: the package \<open>client\<close>.  The record \<open>client\<close> has the fields of \<open>Client\<close>;
    the record \<open>env\<close> has the operations of a display, the decoders of images, the random numbers and the
    environment; \<open>world\<close> is the state those operations thread through.  \<open>run_turn\<close> is one turn of \<open>Run\<close>,
    \<open>client_step\<close> adds what happens between turns (the desktop moves, the connection reads and writes, the
    server writes shared memory), and \<open>client_reachable\<close> is what a session can reach.
  \<^item> \<open>X11_Server\<close>, \<open>X11_Window\<close>, \<open>X11_Paint\<close>, \<open>X11_Clipboard\<close>, \<open>X11_Display\<close>, \<open>X11_Client\<close>: the package \<open>x11\<close>.
    The X server is the log of the requests made so far with what it answers (\<open>xserver\<close>), a function of
    that log; identifiers come from a supply.
  \<^item> \<open>Wayland_Server\<close>, \<open>Wayland_Window\<close>, \<open>Wayland_Input\<close>, \<open>Wayland_Display\<close>, \<open>Wayland_Wire\<close>, \<open>Wayland_Keymap\<close>,
    \<open>Wayland_Client\<close>: the package \<open>wayland\<close>, over a compositor that is a log and a supply in the same way.
    \<open>dispatch\<close> is the handler of one message.  \<open>Wayland_Protocol\<close> is a monitor of the rules of the Wayland
    protocol and a judgement about it; \<open>Wayland_Window_Safe\<close>, \<open>Wayland_Safe\<close>, \<open>Wayland_Seat_Safe\<close> and
    \<open>Wayland_Session_Safe\<close> show it for windows, the display, the seat and whole sessions.
  \<^item> \<open>Cmd_Url\<close>, \<open>Cmd_Targets\<close>, \<open>Cmd_Main\<close>, \<open>Cmd_Ssh\<close>, \<open>Cmd_Password\<close>, \<open>Cmd_Dialog\<close>, \<open>Cmd_Roundtrip\<close>,
    \<open>Cmd_Dialog_Inv\<close>: the package \<open>cmd/go-xpra\<close>, as built for Linux.

  \<^bold>\<open>Interfaces.\<close>  \<open>event_channel\<close> (\<open>Ui_Event_Queue\<close>) is what a producer and a consumer of events rely on.
  \<open>client_invariant\<close> (\<open>Client_Invariants\<close>) carries a predicate kept by every handler to every reachable state;
  it is interpreted for the packets sent, the clipboard, the challenges and the focus.  \<open>display_contract\<close>
  (\<open>Client_Registry\<close>) is what the window tables need of a display: a new window has a fresh identifier and
  lives until it is destroyed; it is a \<open>sublocale\<close> of \<open>client_invariant\<close>, and is interpreted for X11
  (\<open>X11_Client\<close>) and for Wayland (\<open>Wayland_Contract\<close>), there together with the rules of the protocol.

  \<^bold>\<open>What is shown.\<close>
  \<^item> \<open>Properties_Protocol\<close>: encoding and decoding are inverse to each other and agree with the reference;
    whatever the peer sends, decoding ends and what is delivered is bounded; packets are delivered and
    received whole, in order and without loss; \<open>Flush\<close> and the first error of a connection mean what they say.
  \<^item> \<open>Properties_Ui\<close>: the queue loses no event that matters and the relay is woken up; pixels are
    converted exactly, except for a row stride that overflows.
  \<^item> \<open>Properties_Client\<close>, \<open>Properties_Session\<close>: the window tables refine one map and agree with the display; the
    packets sent are well formed and are answers to something; drawing is acknowledged; a challenge is
    answered once; the clipboard and the focus agree with what was said about them; shared memory is read within
    bounds.
  \<^item> \<open>Properties_X11\<close>: damage reaches the X server completely in requests it accepts, and so does clipboard text
    in pieces.
  \<^item> \<open>Properties_Wayland\<close>: every session keeps the rules of the Wayland protocol, whichever writes fail; keymaps
    and hand-made requests are read back.
  \<^item> \<open>Properties_Cmd\<close>: targets are valid, URLs are read back, the command for ssh is one word of a fixed script
    and hides the password, pinentry and the dialog behave.

  \<^bold>\<open>Bounds and fuel.\<close>  Besides the decoder, \<open>row_pieces\<close> (\<open>X11_Paint\<close>) has the height of the image as fuel, which
  each piece decreases by at least one row, and \<open>tab_loop\<close> (\<open>Cmd_Dialog\<close>) the number of stops, after which the
  loop of the code is back where it began.  Loops over connections, events and messages are sequences of
  steps without bound.

  \<^bold>\<open>What is not modelled, and why.\<close>  Opening sockets, TLS and WebSocket connections is input and output of
  the standard library and third-party packages.  \<open>win32\<close> and \<open>darwin\<close> are calls into the system
  through raw addresses and selectors.  Of \<open>cmd/go-xpra\<close> the files of other platforms, the handler of
  signals and the pixels of the dialog, drawn with third-party fonts, are left out.  The image decoders, LZ4,
  the hash functions, xgb, the bindings of Wayland and the operating system are parameters; the mock server is
  for tests.  Texts that are only logged are kept only where a handler's logging is itself modelled.
\<close>

end
